(* ===== verification/Prelude.thy ===== *)
theory Prelude
  imports Main "HOL-Library.Word" "HOL-Library.Multiset"
begin

text \<open>
  Shared vocabulary of the development: machine types of the 32-bit target, the ways a path
  of the test framework can end, and the combinators by which a C statement sequence is
  written as a state transformer that may fail. An action maps a state to the error that
  ended the path or to the next state. \<open>preserves\<close> is the partial-correctness
  judgement by which invariants are lifted from the primitive operations to every check
  routine; its rules are collected in \<open>pres\<close>. The collections \<open>act_simps\<close> and
  \<open>tf_defs\<close> hold the equations that run an action symbolically.
\<close>

unbundle bit_operations_syntax

named_theorems act_simps \<open>equations that execute actions\<close>
named_theorems pres \<open>preservation rules for actions\<close>

section \<open>Machine types\<close>

type_synonym u8 = "8 word"
type_synonym u32 = "32 word"
type_synonym ulong = "32 word"

section \<open>How a path ends\<close>

text \<open>
  \<open>Killed kill_all status msg\<close> is a call of \<open>s2e_kill_state\<close>, which every failed
  assertion makes; the other constructors are the crashes the C code runs into by itself.
\<close>

datatype tf_error =
    Killed int int string
  | Stack_Overflow
  | Deadlock
  | Null_Deref
  | Out_Of_Bounds
  | Panic string

section \<open>Actions\<close>

type_synonym 's act = "'s \<Rightarrow> tf_error + 's"
type_synonym 's check = "'s \<Rightarrow> tf_error + (int \<times> 's)"

definition skip :: "'s act" where
  "skip = Inr"

definition fail :: "tf_error \<Rightarrow> 's act" where
  "fail e = (\<lambda>s. Inl e)"

definition update :: "('s \<Rightarrow> 's) \<Rightarrow> 's act" where
  "update f = (\<lambda>s. Inr (f s))"

definition cond :: "('s \<Rightarrow> bool) \<Rightarrow> 's act \<Rightarrow> 's act \<Rightarrow> 's act" where
  "cond P a b = (\<lambda>s. if P s then a s else b s)"

definition onlyif :: "('s \<Rightarrow> bool) \<Rightarrow> 's act \<Rightarrow> 's act" where
  "onlyif P a = cond P a skip"

fun block :: "'s act list \<Rightarrow> 's act" where
  "block [] s = Inr s"
| "block (a # as) s = (case a s of Inl e \<Rightarrow> Inl e | Inr s' \<Rightarrow> block as s')"

definition returning :: "int \<Rightarrow> 's act \<Rightarrow> 's check" where
  "returning r a = (\<lambda>s. case a s of Inl e \<Rightarrow> Inl e | Inr s' \<Rightarrow> Inr (r, s'))"

text \<open>Calls that hand back a value: \<open>reading\<close> for queries, \<open>with_result\<close> for the others.\<close>

type_synonym ('v, 's) prog = "'s \<Rightarrow> tf_error + ('v \<times> 's)"

definition reading :: "('s \<Rightarrow> tf_error + 'v) \<Rightarrow> ('v \<Rightarrow> 's act) \<Rightarrow> 's act" where
  "reading p k = (\<lambda>s. case p s of Inl e \<Rightarrow> Inl e | Inr v \<Rightarrow> k v s)"

definition with_result :: "('v, 's) prog \<Rightarrow> ('v \<Rightarrow> 's act) \<Rightarrow> 's act" where
  "with_result p k = (\<lambda>s. case p s of Inl e \<Rightarrow> Inl e | Inr r \<Rightarrow> k (fst r) (snd r))"

definition with_state :: "('s \<Rightarrow> 's act) \<Rightarrow> 's act" where
  "with_state k = (\<lambda>s. k s s)"

definition ignore_result :: "('v, 's) prog \<Rightarrow> 's act" where
  "ignore_result p = (\<lambda>s. map_sum id snd (p s))"

lemma skip_apply [simp, act_simps]: "skip s = Inr s"
  by (simp add: skip_def)

lemma fail_apply [simp, act_simps]: "fail e s = Inl e"
  by (simp add: fail_def)

lemma update_apply [simp, act_simps]: "update f s = Inr (f s)"
  by (simp add: update_def)

lemma cond_apply [simp, act_simps]: "cond P a b s = (if P s then a s else b s)"
  by (simp add: cond_def)

lemma onlyif_apply [simp, act_simps]: "onlyif P a s = (if P s then a s else Inr s)"
  by (simp add: onlyif_def)

lemma bind_block_Nil [simp]: "(case r of Inl e \<Rightarrow> Inl e | Inr s \<Rightarrow> block [] s) = r"
  by (cases r) simp_all

lemma bind_block_single [simp]:
  "(case r of Inl e \<Rightarrow> Inl e | Inr s \<Rightarrow> block [a] s) = (case r of Inl e \<Rightarrow> Inl e | Inr s \<Rightarrow> a s)"
  by (cases r) simp_all

lemma bind_Inr [simp]: "(case r of Inl e \<Rightarrow> Inl e | Inr s \<Rightarrow> Inr s) = r"
  by (cases r) simp_all

lemma block_append:
  "block (as @ bs) s = (case block as s of Inl e \<Rightarrow> Inl e | Inr s' \<Rightarrow> block bs s')"
  by (induction as arbitrary: s) (auto split: sum.splits)

lemma block_Cons_Inr:
  "block (a # as) s = Inr t \<longleftrightarrow> (\<exists>u. a s = Inr u \<and> block as u = Inr t)"
  by (auto split: sum.splits)

lemma block_Cons_ok: "a s = Inr u \<Longrightarrow> block (a # as) s = block as u"
  by simp

lemma returning_Inr [simp]:
  "returning r a s = Inr (q, t) \<longleftrightarrow> q = r \<and> a s = Inr t"
  by (auto simp: returning_def split: sum.splits)

lemma returning_ok [act_simps]: "a s = Inr t \<Longrightarrow> returning r a s = Inr (r, t)"
  by simp

lemma returning_Inl [simp]: "returning r a s = Inl e \<longleftrightarrow> a s = Inl e"
  by (auto simp: returning_def split: sum.splits)

section \<open>Preservation\<close>

definition preserves :: "('s \<Rightarrow> bool) \<Rightarrow> 's act \<Rightarrow> bool" where
  "preserves P a \<longleftrightarrow> (\<forall>s t. P s \<longrightarrow> a s = Inr t \<longrightarrow> P t)"

lemma preservesI: "(\<And>s t. P s \<Longrightarrow> a s = Inr t \<Longrightarrow> P t) \<Longrightarrow> preserves P a"
  by (simp add: preserves_def)

lemma preservesD: "preserves P a \<Longrightarrow> P s \<Longrightarrow> a s = Inr t \<Longrightarrow> P t"
  by (simp add: preserves_def)

lemma preserves_skip [pres]: "preserves P skip"
  by (simp add: preserves_def)

lemma preserves_fail [pres]: "preserves P (fail e)"
  by (simp add: preserves_def)

lemma preserves_update: "(\<And>s. P s \<Longrightarrow> P (f s)) \<Longrightarrow> preserves P (update f)"
proof (rule preservesI)
  fix s t
  assume step: "\<And>s. P s \<Longrightarrow> P (f s)" and "P s" and "update f s = Inr t"
  then have "t = f s" by simp
  with step \<open>P s\<close> show "P t" by blast
qed

lemma preserves_cond [pres]:
  "preserves P a \<Longrightarrow> preserves P b \<Longrightarrow> preserves P (cond c a b)"
  by (rule preservesI) (auto split: if_splits elim: preservesD)

lemma preserves_if [pres]:
  "preserves P a \<Longrightarrow> preserves P b \<Longrightarrow> preserves P (if c then a else b)"
  by simp

lemma preserves_onlyif [pres]: "preserves P a \<Longrightarrow> preserves P (onlyif c a)"
  unfolding onlyif_def by (intro preserves_cond preserves_skip)

lemma preserves_block_Nil [pres]: "preserves P (block [])"
  by (simp add: preserves_def)

lemma preserves_block_Cons [pres]:
  "preserves P a \<Longrightarrow> preserves P (block as) \<Longrightarrow> preserves P (block (a # as))"
  by (rule preservesI) (metis block_Cons_Inr preservesD)

lemma preserves_reading [pres]:
  assumes "\<And>v. preserves P (k v)"
  shows "preserves P (reading p k)"
proof (rule preservesI)
  fix s t
  assume P: "P s" and r: "reading p k s = Inr t"
  from r obtain v where "k v s = Inr t" by (auto simp: reading_def split: sum.splits)
  then show "P t" by (rule preservesD [OF assms P])
qed

lemma preserves_with_result:
  assumes "\<And>s v t. P s \<Longrightarrow> p s = Inr (v, t) \<Longrightarrow> P t" and "\<And>v. preserves P (k v)"
  shows "preserves P (with_result p k)"
proof (rule preservesI)
  fix s t
  assume P: "P s" and r: "with_result p k s = Inr t"
  from r obtain v u where p: "p s = Inr (v, u)" and k: "k v u = Inr t"
    by (auto simp: with_result_def split: sum.splits)
  show "P t" using preservesD [OF assms(2) assms(1) [OF P p] k] .
qed

lemma with_state_apply [simp, act_simps]: "with_state k s = k s s"
  by (simp add: with_state_def)

lemma preserves_with_state [pres]: "(\<And>s. preserves P (k s)) \<Longrightarrow> preserves P (with_state k)"
  unfolding preserves_def by simp

lemma preserves_block_set: "(\<And>a. a \<in> set as \<Longrightarrow> preserves P a) \<Longrightarrow> preserves P (block as)"
proof (induction as)
  case Nil
  show ?case by (rule preserves_block_Nil)
next
  case (Cons a as)
  show ?case by (intro preserves_block_Cons Cons.IH Cons.prems) auto
qed

section \<open>Pre- and postconditions\<close>

text \<open>Partial correctness with a postcondition of its own, for actions that move the state on.\<close>

definition leads :: "('s \<Rightarrow> bool) \<Rightarrow> 's act \<Rightarrow> ('s \<Rightarrow> bool) \<Rightarrow> bool" where
  "leads P a Q \<longleftrightarrow> (\<forall>s t. P s \<longrightarrow> a s = Inr t \<longrightarrow> Q t)"

lemma leadsI: "(\<And>s t. P s \<Longrightarrow> a s = Inr t \<Longrightarrow> Q t) \<Longrightarrow> leads P a Q"
  by (simp add: leads_def)

lemma leadsD: "leads P a Q \<Longrightarrow> P s \<Longrightarrow> a s = Inr t \<Longrightarrow> Q t"
  by (simp add: leads_def)

lemma leads_preserves: "preserves P a \<Longrightarrow> leads P a P"
  by (simp add: preserves_def leads_def)

lemma leads_Nil: "leads P (block []) P"
  by (simp add: leads_def)

lemma leads_Cons: "leads P a R \<Longrightarrow> leads R (block as) Q \<Longrightarrow> leads P (block (a # as)) Q"
  by (rule leadsI) (metis block_Cons_Inr leadsD)

lemma leads_cond:
  "leads (\<lambda>s. P s \<and> c s) a Q \<Longrightarrow> leads (\<lambda>s. P s \<and> \<not> c s) b Q \<Longrightarrow> leads P (cond c a b) Q"
  by (simp add: leads_def)

lemma leads_onlyif:
  "leads (\<lambda>s. P s \<and> c s) a Q \<Longrightarrow> (\<And>s. P s \<Longrightarrow> \<not> c s \<Longrightarrow> Q s) \<Longrightarrow> leads P (onlyif c a) Q"
  by (simp add: leads_def)

lemma leads_with_state: "(\<And>s. leads P (k s) Q) \<Longrightarrow> leads P (with_state k) Q"
  by (simp add: leads_def)

section \<open>Lists used as C arrays\<close>

text \<open>Writing an array slot: out of range is an error of the path.\<close>

definition store_at :: "int \<Rightarrow> 'a \<Rightarrow> 'a list \<Rightarrow> 'a list option" where
  "store_at i x xs = (if 0 \<le> i \<and> nat i < length xs then Some (xs[nat i := x]) else None)"

definition load_at :: "int \<Rightarrow> 'a list \<Rightarrow> 'a option" where
  "load_at i xs = (if 0 \<le> i \<and> nat i < length xs then Some (xs ! nat i) else None)"

lemma store_at_Some_length: "store_at i x xs = Some ys \<Longrightarrow> length ys = length xs"
  by (auto simp: store_at_def split: if_splits)

lemma load_store_same: "store_at i x xs = Some ys \<Longrightarrow> load_at i ys = Some x"
  by (auto simp: store_at_def load_at_def split: if_splits)

lemma load_store_other:
  "store_at i x xs = Some ys \<Longrightarrow> j \<noteq> i \<Longrightarrow> load_at j ys = load_at j xs"
  by (auto simp: store_at_def load_at_def nat_eq_iff split: if_splits)

text \<open>
  \<open>for (i = 0; i < n; i++) if (P (a[i])) break;\<close> leaves in \<open>i\<close> the first index that
  satisfies \<open>P\<close>, or \<open>n\<close>.
\<close>

fun first_index :: "('a \<Rightarrow> bool) \<Rightarrow> 'a list \<Rightarrow> nat" where
  "first_index P [] = 0"
| "first_index P (x # xs) = (if P x then 0 else Suc (first_index P xs))"

lemma first_index_le: "first_index P xs \<le> length xs"
  by (induction xs) auto

lemma first_index_hit: "first_index P xs < length xs \<Longrightarrow> P (xs ! first_index P xs)"
  by (induction xs) auto

lemma first_index_before: "j < first_index P xs \<Longrightarrow> \<not> P (xs ! j)"
  by (induction xs arbitrary: j) (auto simp: less_Suc_eq_0_disj split: if_splits)

lemma first_index_none: "first_index P xs = length xs \<longleftrightarrow> (\<forall>x \<in> set xs. \<not> P x)"
  by (induction xs) auto

lemma filter_update:
  "i < length xs \<Longrightarrow> \<not> P (xs ! i) \<Longrightarrow> P y \<Longrightarrow>
   length (filter P (xs[i := y])) = Suc (length (filter P xs))"
  by (induction xs arbitrary: i) (auto split: nat.splits)

lemma filter_update_drop:
  "i < length xs \<Longrightarrow> P (xs ! i) \<Longrightarrow> \<not> P y \<Longrightarrow>
   Suc (length (filter P (xs[i := y]))) = length (filter P xs)"
  by (induction xs arbitrary: i) (auto split: nat.splits)

lemma filter_update_same:
  "i < length xs \<Longrightarrow> P (xs ! i) = P y \<Longrightarrow> length (filter P (xs[i := y])) = length (filter P xs)"
  by (induction xs arbitrary: i) (auto split: nat.splits)

lemma option_eqI:
  assumes "\<And>v. a = Some v \<longleftrightarrow> b = Some v"
  shows "a = b"
proof (cases a)
  case None
  with assms have "b \<noteq> Some v" for v by blast
  with None show ?thesis by (cases b) auto
next
  case (Some v)
  with assms show ?thesis by metis
qed

text \<open>Multisets of chained tables: pushing one element on one chain adds just that element.\<close>

lemma mset_concat_push:
  "i < length xss \<Longrightarrow> mset (concat (xss[i := x # xss ! i])) = add_mset x (mset (concat xss))"
proof (induction xss arbitrary: i)
  case Nil
  then show ?case by simp
next
  case (Cons xs xss)
  then show ?case by (cases i) auto
qed

lemma mset_concat_update:
  "i < length xss \<Longrightarrow>
   mset (concat (xss[i := ys])) + mset (xss ! i) = mset (concat xss) + mset ys"
proof (induction xss arbitrary: i)
  case Nil
  then show ?case by simp
next
  case (Cons xs xss)
  then show ?case by (cases i) (auto simp: ac_simps)
qed

lemma concat_update_set_subset:
  "set (concat (xss[i := ys])) \<subseteq> set (concat xss) \<union> set ys"
  using set_update_subset_insert by fastforce

lemma distinct_mset_map:
  "mset xs = mset ys \<Longrightarrow> distinct (map f xs) \<longleftrightarrow> distinct (map f ys)"
  by (rule mset_eq_imp_distinct_iff) (metis mset_map)

end
