(* ===== verification/Hashtable.thy ===== *)
theory Hashtable
  imports Prelude
begin

text \<open>
  The chained hash table of \<open>hashtable/hashtable.c\<close>, \<open>hashtable_private.h\<close> and
  \<open>hashtable_utility.c\<close>. The table is the list of its chains, a chain the list of its
  entries from the head on; keys and values are kept by content, a \<open>NULL\<close> value
  pointer is \<open>None\<close>. Each call of \<open>kmalloc\<close> is a boolean argument that
  says whether it returns memory, so the out-of-memory branches are branches of the model.
  \<open>freed\<close> is the sequence of \<open>kfree\<close> calls of \<open>hashtable_destroy\<close>.

  \<open>ht_inv\<close> is the representation invariant, \<open>ht_map\<close> the finite map the
  table stands for. The locale \<open>dictionary\<close> is the interface its clients (object tracker and
  function tracker) rely on; the table is its instance \<open>ht\<close>.
\<close>

section \<open>Data\<close>

record ('k, 'v) entry =
  ent_k :: 'k
  ent_v :: 'v
  ent_h :: u32

record ('k, 'v) hashtable =
  tablelength :: u32
  table :: "('k, 'v) entry list list"
  entrycount :: u32
  loadlimit :: u32
  primeindex :: nat
  hashfn :: "'k \<Rightarrow> u32"
  eqfn :: "'k \<Rightarrow> 'k \<Rightarrow> bool"

definition primes :: "u32 list" where
  "primes = [3079, 6151, 12289, 24593, 49157, 98317, 196613, 393241, 786433, 1572869,
     3145739, 6291469, 12582917, 25165843, 50331653, 100663319, 201326611, 402653189,
     805306457, 1610612741]"

definition prime_table_length :: nat where
  "prime_table_length = length primes"

text \<open>
  The macro \<open>max_load_factor\<close> is the text \<open>1 / 2\<close>, so \<open>size * max_load_factor\<close>
  is \<open>(size * 1) / 2\<close> in unsigned arithmetic.
\<close>

definition load_limit :: "u32 \<Rightarrow> u32" where
  "load_limit sz = (sz * 1) div 2"

text \<open>\<open>sizeof(struct entry *) * size\<close> in 32-bit arithmetic.\<close>

definition table_bytes :: "u32 \<Rightarrow> u32" where
  "table_bytes sz = 4 * sz"

section \<open>Operations\<close>

definition indexFor :: "u32 \<Rightarrow> u32 \<Rightarrow> u32" where
  "indexFor tlen hv = hv mod tlen"

definition hash :: "('k, 'v) hashtable \<Rightarrow> 'k \<Rightarrow> u32" where
  "hash h k =
     (let i = hashfn h k;
          i = i + NOT (push_bit 9 i);
          i = i XOR (drop_bit 14 i OR push_bit 18 i);
          i = i + push_bit 4 i;
          i = i XOR (drop_bit 10 i OR push_bit 22 i)
      in i)"

text \<open>The loop that picks the first prime above \<open>minsize\<close>; \<open>(pindex, size)\<close>.\<close>

fun first_prime :: "u32 \<Rightarrow> nat \<Rightarrow> u32 list \<Rightarrow> nat \<times> u32" where
  "first_prime minsize pindex [] = (pindex, hd primes)"
| "first_prime minsize pindex (p # ps) =
     (if p > minsize then (pindex, p) else first_prime minsize (Suc pindex) ps)"

definition create_hashtable ::
  "bool \<Rightarrow> bool \<Rightarrow> u32 \<Rightarrow> ('k \<Rightarrow> u32) \<Rightarrow> ('k \<Rightarrow> 'k \<Rightarrow> bool) \<Rightarrow> ('k, 'v) hashtable option" where
  "create_hashtable ok_h ok_table minsize hashf eqf =
     (if minsize > push_bit 30 1 then None
      else let (pindex, sz) = first_prime minsize 0 primes in
        if \<not> ok_h then None
        else if \<not> ok_table then None
        else Some \<lparr>tablelength = sz, table = replicate (unat sz) [], entrycount = 0,
               loadlimit = load_limit sz, primeindex = pindex, hashfn = hashf, eqfn = eqf\<rparr>)"

text \<open>Moving one chain, head first, to the new table, then all chains in index order.\<close>

fun rehash_chain ::
  "u32 \<Rightarrow> ('k, 'v) entry list \<Rightarrow> ('k, 'v) entry list list \<Rightarrow> ('k, 'v) entry list list" where
  "rehash_chain newsize [] newtable = newtable"
| "rehash_chain newsize (e # es) newtable =
     (let index = unat (indexFor newsize (ent_h e))
      in rehash_chain newsize es (newtable[index := e # newtable ! index]))"

fun rehash ::
  "u32 \<Rightarrow> ('k, 'v) entry list list \<Rightarrow> ('k, 'v) entry list list \<Rightarrow> ('k, 'v) entry list list" where
  "rehash newsize [] newtable = newtable"
| "rehash newsize (c # cs) newtable = rehash newsize cs (rehash_chain newsize c newtable)"

definition hashtable_expand :: "bool \<Rightarrow> ('k, 'v) hashtable \<Rightarrow> int \<times> ('k, 'v) hashtable" where
  "hashtable_expand ok_table h =
     (if primeindex h = prime_table_length - 1 then (0, h)
      else
        let h1 = h\<lparr>primeindex := Suc (primeindex h)\<rparr>;
            newsize = primes ! primeindex h1 in
        if \<not> ok_table then (0, h1)
        else (-1, h1\<lparr>table := rehash newsize (table h1) (replicate (unat newsize) []),
                     tablelength := newsize, loadlimit := load_limit newsize\<rparr>))"

definition hashtable_count :: "('k, 'v) hashtable \<Rightarrow> u32" where
  "hashtable_count h = entrycount h"

definition hashtable_insert ::
  "bool \<Rightarrow> bool \<Rightarrow> ('k, 'v) hashtable \<Rightarrow> 'k \<Rightarrow> 'v \<Rightarrow> int \<times> ('k, 'v) hashtable" where
  "hashtable_insert ok_table ok_entry h k v =
     (let h1 = h\<lparr>entrycount := entrycount h + 1\<rparr>;
          h2 = (if entrycount h1 > loadlimit h1 then snd (hashtable_expand ok_table h1) else h1) in
      if \<not> ok_entry then (0, h2\<lparr>entrycount := entrycount h2 - 1\<rparr>)
      else
        let hv = hash h2 k;
            index = unat (indexFor (tablelength h2) hv);
            e = \<lparr>ent_k = k, ent_v = v, ent_h = hv\<rparr> in
        (-1, h2\<lparr>table := (table h2)[index := e # table h2 ! index]\<rparr>))"

text \<open>The guard the chain walks share: hash value first, then \<open>eqfn\<close>.\<close>

definition entry_matches ::
  "('k, 'v) hashtable \<Rightarrow> u32 \<Rightarrow> 'k \<Rightarrow> ('k, 'v) entry \<Rightarrow> bool" where
  "entry_matches h hashvalue k e \<longleftrightarrow> hashvalue = ent_h e \<and> eqfn h k (ent_k e)"

fun chain_search :: "(('k, 'v) entry \<Rightarrow> bool) \<Rightarrow> ('k, 'v) entry list \<Rightarrow> 'v option" where
  "chain_search p [] = None"
| "chain_search p (e # es) = (if p e then Some (ent_v e) else chain_search p es)"

fun chain_remove ::
  "(('k, 'v) entry \<Rightarrow> bool) \<Rightarrow> ('k, 'v) entry list \<Rightarrow> ('v \<times> ('k, 'v) entry list) option" where
  "chain_remove p [] = None"
| "chain_remove p (e # es) =
     (if p e then Some (ent_v e, es)
      else case chain_remove p es of None \<Rightarrow> None | Some (v, es') \<Rightarrow> Some (v, e # es'))"

fun chain_write ::
  "(('k, 'v) entry \<Rightarrow> bool) \<Rightarrow> 'v \<Rightarrow> ('k, 'v) entry list \<Rightarrow> ('k, 'v) entry list option" where
  "chain_write p v [] = None"
| "chain_write p v (e # es) =
     (if p e then Some (e\<lparr>ent_v := v\<rparr> # es) else map_option ((#) e) (chain_write p v es))"

definition key_index :: "('k, 'v) hashtable \<Rightarrow> 'k \<Rightarrow> nat" where
  "key_index h k = unat (indexFor (tablelength h) (hash h k))"

definition hashtable_search :: "('k, 'v) hashtable \<Rightarrow> 'k \<Rightarrow> 'v option" where
  "hashtable_search h k =
     chain_search (entry_matches h (hash h k) k) (table h ! key_index h k)"

definition hashtable_remove :: "('k, 'v) hashtable \<Rightarrow> 'k \<Rightarrow> 'v option \<times> ('k, 'v) hashtable" where
  "hashtable_remove h k =
     (case chain_remove (entry_matches h (hash h k) k) (table h ! key_index h k) of
        None \<Rightarrow> (None, h)
      | Some (v, es) \<Rightarrow>
          (Some v, h\<lparr>table := (table h)[key_index h k := es], entrycount := entrycount h - 1\<rparr>))"

definition hashtable_change :: "('k, 'v) hashtable \<Rightarrow> 'k \<Rightarrow> 'v \<Rightarrow> int \<times> ('k, 'v) hashtable" where
  "hashtable_change h k v =
     (case chain_write (entry_matches h (hash h k) k) v (table h ! key_index h k) of
        None \<Rightarrow> (0, h)
      | Some es \<Rightarrow> (-1, h\<lparr>table := (table h)[key_index h k := es]\<rparr>))"

text \<open>
  A client writes through the value pointer that \<open>hashtable_search\<close> returned: the value
  stored in the table changes in place.
\<close>

definition hashtable_poke :: "('k, 'v) hashtable \<Rightarrow> 'k \<Rightarrow> 'v \<Rightarrow> ('k, 'v) hashtable" where
  "hashtable_poke h k v = snd (hashtable_change h k v)"

datatype ('k, 'v) freed = Free_Key 'k | Free_Value 'v | Free_Entry 'k | Free_Table | Free_Hashtable

fun destroy_chain :: "bool \<Rightarrow> ('k, 'v) entry list \<Rightarrow> ('k, 'v) freed list" where
  "destroy_chain free_values [] = []"
| "destroy_chain free_values (f # es) =
     (if free_values then [Free_Key (ent_k f), Free_Value (ent_v f), Free_Entry (ent_k f)]
      else [Free_Key (ent_k f), Free_Entry (ent_k f)]) @ destroy_chain free_values es"

definition hashtable_destroy :: "('k, 'v) hashtable \<Rightarrow> bool \<Rightarrow> ('k, 'v) freed list" where
  "hashtable_destroy h free_values =
     concat (map (destroy_chain free_values) (take (unat (tablelength h)) (table h)))
     @ [Free_Table, Free_Hashtable]"

text \<open>
  \<open>hashtable_enumerate\<close> calls back for each entry. A callback may write the value it is
  given and may end the path.
\<close>

fun enum_chain ::
  "('k \<Rightarrow> 'v \<Rightarrow> tf_error + 'v) \<Rightarrow> ('k, 'v) entry list \<Rightarrow> tf_error + ('k, 'v) entry list" where
  "enum_chain kv [] = Inr []"
| "enum_chain kv (f # es) =
     (case kv (ent_k f) (ent_v f) of
        Inl err \<Rightarrow> Inl err
      | Inr v \<Rightarrow> (case enum_chain kv es of
            Inl err \<Rightarrow> Inl err
          | Inr es' \<Rightarrow> Inr (f\<lparr>ent_v := v\<rparr> # es')))"

fun enum_table ::
  "('k \<Rightarrow> 'v \<Rightarrow> tf_error + 'v) \<Rightarrow> ('k, 'v) entry list list \<Rightarrow> tf_error + ('k, 'v) entry list list" where
  "enum_table kv [] = Inr []"
| "enum_table kv (c # cs) =
     (case enum_chain kv c of
        Inl err \<Rightarrow> Inl err
      | Inr c' \<Rightarrow> (case enum_table kv cs of
            Inl err \<Rightarrow> Inl err
          | Inr cs' \<Rightarrow> Inr (c' # cs')))"

definition hashtable_enumerate ::
  "('k, 'v) hashtable \<Rightarrow> ('k \<Rightarrow> 'v \<Rightarrow> tf_error + 'v) option \<Rightarrow> tf_error + ('k, 'v) hashtable" where
  "hashtable_enumerate h enum_kv =
     (case enum_kv of
        None \<Rightarrow> Inr h
      | Some kv \<Rightarrow> (case enum_table kv (table h) of
            Inl err \<Rightarrow> Inl err
          | Inr t \<Rightarrow> Inr (h\<lparr>table := t\<rparr>)))"


section \<open>Representation invariant and abstraction\<close>

definition all_entries :: "('k, 'v) hashtable \<Rightarrow> ('k, 'v) entry list" where
  "all_entries h = concat (table h)"

definition placed :: "('k, 'v) hashtable \<Rightarrow> bool" where
  "placed h \<longleftrightarrow> length (table h) = unat (tablelength h) \<and> 0 < tablelength h \<and>
     (\<forall>i < length (table h). \<forall>e \<in> set (table h ! i).
        ent_h e = hash h (ent_k e) \<and> key_index h (ent_k e) = i)"

definition ht_inv :: "('k, 'v) hashtable \<Rightarrow> bool" where
  "ht_inv h \<longleftrightarrow> placed h \<and> eqfn h = (\<lambda>a b. a = b) \<and>
     distinct (map ent_k (all_entries h)) \<and> primeindex h < prime_table_length \<and>
     unat (entrycount h) = length (all_entries h)"

definition ht_map :: "('k, 'v) hashtable \<Rightarrow> 'k \<rightharpoonup> 'v" where
  "ht_map h = map_of (map (\<lambda>e. (ent_k e, ent_v e)) (all_entries h))"

lemma hash_cong [simp]:
  "hash (h\<lparr>table := t\<rparr>) = hash h" "hash (h\<lparr>entrycount := n\<rparr>) = hash h"
  "hash (h\<lparr>tablelength := m\<rparr>) = hash h" "hash (h\<lparr>loadlimit := m\<rparr>) = hash h"
  "hash (h\<lparr>primeindex := p\<rparr>) = hash h"
  by (simp_all add: hash_def fun_eq_iff)

lemma key_index_cong [simp]:
  "key_index (h\<lparr>table := t\<rparr>) = key_index h" "key_index (h\<lparr>entrycount := n\<rparr>) = key_index h"
  "key_index (h\<lparr>loadlimit := m\<rparr>) = key_index h" "key_index (h\<lparr>primeindex := p\<rparr>) = key_index h"
  by (simp_all add: key_index_def fun_eq_iff)

lemma all_entries_cong [simp]:
  "all_entries (h\<lparr>entrycount := n\<rparr>) = all_entries h"
  "all_entries (h\<lparr>tablelength := m\<rparr>) = all_entries h"
  "all_entries (h\<lparr>loadlimit := m\<rparr>) = all_entries h"
  "all_entries (h\<lparr>primeindex := p\<rparr>) = all_entries h"
  by (simp_all add: all_entries_def)

lemma entry_matches_cong [simp]:
  "entry_matches (h\<lparr>table := t\<rparr>) = entry_matches h"
  "entry_matches (h\<lparr>entrycount := n\<rparr>) = entry_matches h"
  by (simp_all add: entry_matches_def fun_eq_iff)

lemma indexFor_less: "0 < tlen \<Longrightarrow> unat (indexFor tlen hv) < unat tlen"
  by (simp add: indexFor_def unat_mod word_greater_zero_iff unat_gt_0)

lemma key_index_less:
  assumes "placed h" shows "key_index h k < length (table h)"
proof -
  have "0 < tablelength h" and len: "length (table h) = unat (tablelength h)"
    using assms by (auto simp: placed_def)
  then show ?thesis by (simp add: key_index_def indexFor_less)
qed

lemma ht_map_Some_iff:
  assumes "distinct (map ent_k (all_entries h))"
  shows "ht_map h k = Some v \<longleftrightarrow> (\<exists>e \<in> set (all_entries h). ent_k e = k \<and> ent_v e = v)"
proof -
  have "distinct (map fst (map (\<lambda>e. (ent_k e, ent_v e)) (all_entries h)))"
    using assms by (simp add: comp_def)
  then show ?thesis by (force simp: ht_map_def)
qed

lemma ht_map_None_iff: "ht_map h k = None \<longleftrightarrow> k \<notin> ent_k ` set (all_entries h)"
  by (force simp: ht_map_def map_of_eq_None_iff image_iff)

lemma dom_ht_map: "dom (ht_map h) = ent_k ` set (all_entries h)"
  by (auto simp: ht_map_def dom_map_of_conv_image_fst image_image)

lemma ht_map_cong_mset:
  assumes "mset (all_entries g) = mset (all_entries h)" and "distinct (map ent_k (all_entries h))"
  shows "ht_map g = ht_map h"
proof (rule ext)
  fix k
  have d: "distinct (map ent_k (all_entries g))"
    using distinct_mset_map [OF assms(1), of ent_k] assms(2) by simp
  have same: "set (all_entries g) = set (all_entries h)"
    using assms(1) by (rule mset_eq_setD)
  show "ht_map g k = ht_map h k"
    by (rule option_eqI) (simp add: ht_map_Some_iff [OF d] ht_map_Some_iff [OF assms(2)] same)
qed

section \<open>Chain walks\<close>

lemma chain_search_None: "chain_search p es = None \<longleftrightarrow> (\<forall>e \<in> set es. \<not> p e)"
  by (induction es) auto

lemma chain_search_Some:
  "chain_search p es = Some v \<Longrightarrow> \<exists>e \<in> set es. p e \<and> ent_v e = v"
  by (induction es) (auto split: if_splits)

lemma chain_remove_None: "chain_remove p es = None \<longleftrightarrow> (\<forall>e \<in> set es. \<not> p e)"
  by (induction es) (auto split: option.splits)

lemma chain_remove_Some:
  "chain_remove p es = Some (v, es') \<Longrightarrow>
   \<exists>e. p e \<and> ent_v e = v \<and> mset es = add_mset e (mset es')"
  by (induction es arbitrary: es') (auto split: if_splits option.splits)

lemma chain_remove_search: "map_option fst (chain_remove p es) = chain_search p es"
  by (induction es) (auto split: option.splits)

lemma chain_write_None: "chain_write p v es = None \<longleftrightarrow> (\<forall>e \<in> set es. \<not> p e)"
  by (induction es) auto

lemma chain_write_Some:
  "chain_write p v es = Some es' \<Longrightarrow>
   \<exists>xs e ys. es = xs @ e # ys \<and> p e \<and> es' = xs @ e\<lparr>ent_v := v\<rparr> # ys"
proof (induction es arbitrary: es')
  case Nil
  then show ?case by simp
next
  case (Cons e es)
  show ?case
  proof (cases "p e")
    case True
    with Cons.prems show ?thesis by (intro exI [of _ "[]"]) auto
  next
    case False
    with Cons.prems obtain fs where "chain_write p v es = Some fs" "es' = e # fs" by auto
    with Cons.IH obtain xs f ys where "es = xs @ f # ys" "p f" "fs = xs @ f\<lparr>ent_v := v\<rparr> # ys"
      by blast
    with \<open>es' = e # fs\<close> show ?thesis by (intro exI [of _ "e # xs"]) auto
  qed
qed


section \<open>Lookup\<close>

lemma in_concat_nth: "e \<in> set (concat xss) \<longleftrightarrow> (\<exists>i < length xss. e \<in> set (xss ! i))"
proof
  assume "e \<in> set (concat xss)"
  then obtain xs where "xs \<in> set xss" "e \<in> set xs" by auto
  then show "\<exists>i < length xss. e \<in> set (xss ! i)" by (metis in_set_conv_nth)
next
  assume "\<exists>i < length xss. e \<in> set (xss ! i)"
  then obtain i where "i < length xss" "e \<in> set (xss ! i)" by blast
  then show "e \<in> set (concat xss)" using nth_mem by fastforce
qed

lemma all_entries_iff: "e \<in> set (all_entries h) \<longleftrightarrow> (\<exists>i < length (table h). e \<in> set (table h ! i))"
  by (simp only: all_entries_def in_concat_nth)

lemma placed_entry:
  assumes "placed h" and "e \<in> set (all_entries h)"
  shows "e \<in> set (table h ! key_index h (ent_k e))" and "ent_h e = hash h (ent_k e)"
  using assms by (auto simp: placed_def all_entries_iff)

lemma placed_chain_subset:
  assumes "placed h" and "e \<in> set (table h ! key_index h k)"
  shows "e \<in> set (all_entries h)"
  using assms key_index_less [OF assms(1)] by (auto simp: all_entries_iff)

lemma matches_iff:
  assumes "placed h" and "eqfn h = (\<lambda>a b. a = b)" and "e \<in> set (table h ! key_index h k)"
  shows "entry_matches h (hash h k) k e \<longleftrightarrow> ent_k e = k"
  using placed_entry(2) [OF assms(1) placed_chain_subset [OF assms(1,3)]] assms(2)
  by (auto simp: entry_matches_def)

lemma hashtable_search_eq:
  assumes "placed h" and "eqfn h = (\<lambda>a b. a = b)" and "distinct (map ent_k (all_entries h))"
  shows "hashtable_search h k = ht_map h k"
proof (cases "hashtable_search h k")
  case None
  then have "\<forall>e \<in> set (table h ! key_index h k). ent_k e \<noteq> k"
    by (simp add: hashtable_search_def chain_search_None matches_iff [OF assms(1,2)])
  then have "k \<notin> ent_k ` set (all_entries h)"
    using placed_entry(1) [OF assms(1)] by auto
  with None show ?thesis by (simp add: ht_map_None_iff [THEN iffD2])
next
  case (Some v)
  then obtain e where e: "e \<in> set (table h ! key_index h k)" "entry_matches h (hash h k) k e" "ent_v e = v"
    by (auto simp: hashtable_search_def dest: chain_search_Some)
  then have "ent_k e = k" by (simp add: matches_iff [OF assms(1,2)])
  moreover have "e \<in> set (all_entries h)" by (rule placed_chain_subset [OF assms(1) e(1)])
  ultimately have "ht_map h k = Some v"
    using e(3) by (auto simp: ht_map_Some_iff [OF assms(3)])
  with Some show ?thesis by simp
qed

lemma ht_inv_search: "ht_inv h \<Longrightarrow> hashtable_search h k = ht_map h k"
  by (simp add: ht_inv_def hashtable_search_eq)

lemma ht_inv_count:
  assumes "ht_inv h"
  shows "unat (hashtable_count h) = card (dom (ht_map h))"
  using assms by (simp add: ht_inv_def hashtable_count_def dom_ht_map)
    (metis distinct_card length_map set_map)

section \<open>Expansion\<close>

definition slotted :: "(('k, 'v) entry \<Rightarrow> bool) \<Rightarrow> u32 \<Rightarrow> ('k, 'v) entry list list \<Rightarrow> bool" where
  "slotted P tlen t \<longleftrightarrow> length t = unat tlen \<and>
     (\<forall>i < length t. \<forall>e \<in> set (t ! i). P e \<and> unat (indexFor tlen (ent_h e)) = i)"

lemma slotted_push:
  assumes "slotted P tlen t" and "P e" and "0 < tlen"
  shows "slotted P tlen (t[unat (indexFor tlen (ent_h e)) := e # t ! unat (indexFor tlen (ent_h e))])"
  using assms indexFor_less [OF assms(3), of "ent_h e"]
  by (auto simp: slotted_def nth_list_update)

lemma rehash_chain_spec:
  assumes "0 < newsize" and "slotted P newsize nt" and "\<forall>e \<in> set es. P e"
  shows "slotted P newsize (rehash_chain newsize es nt) \<and>
     mset (concat (rehash_chain newsize es nt)) = mset es + mset (concat nt)"
  using assms(2,3)
proof (induction es arbitrary: nt)
  case Nil
  then show ?case by simp
next
  case (Cons e es)
  let ?i = "unat (indexFor newsize (ent_h e))"
  have "?i < length nt"
    using Cons.prems(1) indexFor_less [OF assms(1)] by (simp add: slotted_def)
  moreover have "slotted P newsize (nt[?i := e # nt ! ?i])"
    using Cons.prems assms(1) by (simp add: slotted_push)
  ultimately show ?case
    using Cons.IH [of "nt[?i := e # nt ! ?i]"] Cons.prems(2) by (simp add: Let_def mset_concat_push)
qed

lemma rehash_spec:
  assumes "0 < newsize" and "slotted P newsize nt" and "\<forall>e \<in> set (concat cs). P e"
  shows "slotted P newsize (rehash newsize cs nt) \<and>
     mset (concat (rehash newsize cs nt)) = mset (concat cs) + mset (concat nt)"
  using assms(2,3)
proof (induction cs arbitrary: nt)
  case Nil
  then show ?case by simp
next
  case (Cons c cs)
  have "slotted P newsize (rehash_chain newsize c nt)"
    and "mset (concat (rehash_chain newsize c nt)) = mset c + mset (concat nt)"
    using rehash_chain_spec [OF assms(1) Cons.prems(1), of c] Cons.prems(2) by auto
  with Cons.IH [of "rehash_chain newsize c nt"] Cons.prems(2) show ?case by (simp add: ac_simps)
qed

lemma slotted_empty: "slotted P tlen (replicate (unat tlen) [])"
  by (simp add: slotted_def)

lemma placed_iff_slotted:
  "placed h \<longleftrightarrow> 0 < tablelength h \<and>
     slotted (\<lambda>e. ent_h e = hash h (ent_k e)) (tablelength h) (table h)"
  by (auto simp: placed_def slotted_def key_index_def) metis+

lemma primes_pos: "i < prime_table_length \<Longrightarrow> 0 < primes ! i"
proof -
  have "\<forall>p \<in> set primes. 0 < p" by (simp add: primes_def)
  then show "i < prime_table_length \<Longrightarrow> 0 < primes ! i"
    by (simp add: prime_table_length_def)
qed

text \<open>
  Expansion leaves the entries, the count and the comparison functions alone, whatever the
  allocator answers.
\<close>

lemma hashtable_expand_spec:
  assumes "placed h" and "primeindex h < prime_table_length"
    and g_def: "g = snd (hashtable_expand ok h)"
  shows "placed g" and "mset (all_entries g) = mset (all_entries h)"
    and "eqfn g = eqfn h" and "hash g = hash h" and "entrycount g = entrycount h"
    and "primeindex g < prime_table_length"
proof -
  let ?h1 = "h\<lparr>primeindex := Suc (primeindex h)\<rparr>"
  let ?n = "primes ! Suc (primeindex h)"
  let ?P = "\<lambda>e. ent_h e = hash h (ent_k e)"
  show "eqfn g = eqfn h" "hash g = hash h" "entrycount g = entrycount h"
    by (simp_all add: g_def hashtable_expand_def Let_def)
  show "primeindex g < prime_table_length"
    using assms(2) by (auto simp: g_def hashtable_expand_def Let_def)
  show "placed g" and "mset (all_entries g) = mset (all_entries h)"
  proof -
    consider (full) "primeindex h = prime_table_length - 1"
      | (oom) "primeindex h \<noteq> prime_table_length - 1" "\<not> ok"
      | (grow) "primeindex h \<noteq> prime_table_length - 1" ok by blast
    then have "placed g \<and> mset (all_entries g) = mset (all_entries h)"
    proof cases
      case full
      with assms(1) show ?thesis by (simp add: g_def hashtable_expand_def)
    next
      case oom
      with assms(1) show ?thesis
        by (simp add: g_def hashtable_expand_def Let_def placed_def)
    next
      case grow
      then have pos: "0 < ?n" using assms(2) by (intro primes_pos) simp
      have ents: "\<forall>e \<in> set (concat (table h)). ?P e"
        using placed_entry(2) [OF assms(1)] by (simp add: all_entries_def)
      have "slotted ?P ?n (rehash ?n (table h) (replicate (unat ?n) []))"
        and "mset (concat (rehash ?n (table h) (replicate (unat ?n) []))) = mset (concat (table h))"
        using rehash_spec [OF pos slotted_empty ents] by auto
      with grow pos show ?thesis
        by (simp add: g_def hashtable_expand_def Let_def placed_iff_slotted all_entries_def)
    qed
    then show "placed g" and "mset (all_entries g) = mset (all_entries h)" by auto
  qed
qed


section \<open>Insertion, removal, change\<close>

lemma hashtable_insert_oom:
  assumes "ht_inv h"
  shows "fst (hashtable_insert ok False h k v) = 0"
    and "ht_inv (snd (hashtable_insert ok False h k v))"
    and "ht_map (snd (hashtable_insert ok False h k v)) = ht_map h"
proof -
  let ?h1 = "h\<lparr>entrycount := entrycount h + 1\<rparr>"
  define g where "g = (if entrycount ?h1 > loadlimit ?h1 then snd (hashtable_expand ok ?h1) else ?h1)"
  have p1: "placed ?h1" "primeindex ?h1 < prime_table_length"
    using assms by (simp_all add: ht_inv_def placed_def)
  have g: "placed g" "mset (all_entries g) = mset (all_entries h)" "eqfn g = eqfn h"
    "entrycount g = entrycount h + 1" "primeindex g < prime_table_length"
    using hashtable_expand_spec [OF p1 refl, of ok] p1 by (auto simp: g_def)
  have eq: "hashtable_insert ok False h k v = (0, g\<lparr>entrycount := entrycount g - 1\<rparr>)"
    by (simp add: hashtable_insert_def Let_def g_def)
  show "fst (hashtable_insert ok False h k v) = 0" by (simp add: eq)
  have d: "distinct (map ent_k (all_entries h))" using assms by (simp add: ht_inv_def)
  have d': "distinct (map ent_k (all_entries g))" using d g(2) distinct_mset_map by blast
  show "ht_inv (snd (hashtable_insert ok False h k v))"
    using assms g d' mset_eq_length [OF g(2)] by (simp add: eq ht_inv_def placed_def)
  show "ht_map (snd (hashtable_insert ok False h k v)) = ht_map h"
    by (rule ht_map_cong_mset) (simp_all add: eq g(2) d)
qed

lemma hashtable_insert_spec:
  assumes inv: "ht_inv h" and new: "ht_map h k = None"
    and room: "unat (entrycount h) + 1 < 2 ^ 32"
  shows "fst (hashtable_insert ok True h k v) = -1"
    and "ht_inv (snd (hashtable_insert ok True h k v))"
    and "ht_map (snd (hashtable_insert ok True h k v)) = (ht_map h)(k \<mapsto> v)"
proof -
  let ?h1 = "h\<lparr>entrycount := entrycount h + 1\<rparr>"
  define g where "g = (if entrycount ?h1 > loadlimit ?h1 then snd (hashtable_expand ok ?h1) else ?h1)"
  have p1: "placed ?h1" "primeindex ?h1 < prime_table_length"
    using inv by (simp_all add: ht_inv_def placed_def)
  have g: "placed g" "mset (all_entries g) = mset (all_entries h)" "eqfn g = eqfn h"
    "hash g = hash h" "entrycount g = entrycount h + 1" "primeindex g < prime_table_length"
    using hashtable_expand_spec [OF p1 refl, of ok] p1 by (auto simp: g_def)
  let ?e = "\<lparr>ent_k = k, ent_v = v, ent_h = hash g k\<rparr>"
  let ?i = "key_index g k"
  let ?g = "g\<lparr>table := (table g)[?i := ?e # table g ! ?i]\<rparr>"
  have eq: "hashtable_insert ok True h k v = (-1, ?g)"
    by (simp add: hashtable_insert_def Let_def g_def key_index_def)
  have i: "?i < length (table g)" by (rule key_index_less [OF g(1)])
  have ms: "mset (all_entries ?g) = add_mset ?e (mset (all_entries h))"
    using mset_concat_push [OF i, of ?e] g(2) by (simp add: all_entries_def)
  have d: "distinct (map ent_k (all_entries h))" using inv by (simp add: ht_inv_def)
  have notin: "k \<notin> ent_k ` set (all_entries h)" using new by (simp add: ht_map_None_iff)
  have d': "distinct (map ent_k (all_entries ?g))"
  proof -
    have "mset (all_entries ?g) = mset (?e # all_entries h)" using ms by simp
    then show ?thesis using distinct_mset_map [of "all_entries ?g" "?e # all_entries h" ent_k] d notin
      by simp
  qed
  have pl: "placed ?g"
    using slotted_push [of "\<lambda>e. ent_h e = hash g (ent_k e)" "tablelength g" "table g" ?e] g(1)
    by (simp add: placed_iff_slotted key_index_def)
  have "length (all_entries ?g) = Suc (length (all_entries h))"
    using arg_cong [OF ms, of size] by simp
  moreover have "unat (entrycount h + 1) = Suc (length (all_entries h))"
    using inv room by (simp add: ht_inv_def unat_word_ariths)
  ultimately have inv': "ht_inv ?g"
    using inv g d' pl by (simp add: ht_inv_def)
  show "fst (hashtable_insert ok True h k v) = -1"
    and "ht_inv (snd (hashtable_insert ok True h k v))" by (simp_all add: eq inv')
  have st: "set (all_entries ?g) = insert ?e (set (all_entries h))"
    using arg_cong [OF ms, of set_mset] by simp
  have "ht_map ?g = (ht_map h)(k \<mapsto> v)"
  proof (rule ext)
    fix x
    show "ht_map ?g x = ((ht_map h)(k \<mapsto> v)) x"
    proof (rule option_eqI)
      fix w
      show "(ht_map ?g x = Some w) = (((ht_map h)(k \<mapsto> v)) x = Some w)"
        using notin by (auto simp: ht_map_Some_iff [OF d'] ht_map_Some_iff [OF d] st)
    qed
  qed
  then show "ht_map (snd (hashtable_insert ok True h k v)) = (ht_map h)(k \<mapsto> v)" by (simp add: eq)
qed

lemma slotted_shrink:
  assumes "slotted P tlen t" and "set es \<subseteq> set (t ! i)"
  shows "slotted P tlen (t[i := es])"
proof (cases "i < length t")
  case True
  with assms show ?thesis by (auto simp: slotted_def nth_list_update)
next
  case False
  with assms show ?thesis by (simp add: list_update_beyond)
qed

lemma hashtable_remove_spec:
  assumes inv: "ht_inv h"
  shows "fst (hashtable_remove h k) = ht_map h k"
    and "ht_inv (snd (hashtable_remove h k))"
    and "ht_map (snd (hashtable_remove h k)) = (ht_map h)(k := None)"
proof -
  have pl: "placed h" and eqf: "eqfn h = (\<lambda>a b. a = b)" and d: "distinct (map ent_k (all_entries h))"
    using inv by (simp_all add: ht_inv_def)
  let ?i = "key_index h k" and ?p = "entry_matches h (hash h k) k"
  let ?c = "table h ! ?i"
  show fst_eq: "fst (hashtable_remove h k) = ht_map h k"
    using chain_remove_search [of ?p ?c] hashtable_search_eq [OF pl eqf d, of k]
    by (auto simp: hashtable_remove_def hashtable_search_def split: option.splits)
  have "ht_inv (snd (hashtable_remove h k)) \<and>
      ht_map (snd (hashtable_remove h k)) = (ht_map h)(k := None)"
  proof (cases "chain_remove ?p ?c")
    case None
    then have "ht_map h k = None" using fst_eq by (simp add: hashtable_remove_def)
    with None inv show ?thesis by (simp_all add: hashtable_remove_def fun_upd_idem)
  next
    case (Some r)
    then obtain w es where r: "chain_remove ?p ?c = Some (w, es)" by (cases r) auto
    then obtain e where e: "?p e" "ent_v e = w" "mset ?c = add_mset e (mset es)"
      using chain_remove_Some by metis
    have i: "?i < length (table h)" by (rule key_index_less [OF pl])
    have ein: "e \<in> set ?c" and sub: "set es \<subseteq> set ?c"
      using arg_cong [OF e(3), of set_mset] by auto
    have ek: "ent_k e = k" using e(1) matches_iff [OF pl eqf ein] by simp
    let ?g = "h\<lparr>table := (table h)[?i := es], entrycount := entrycount h - 1\<rparr>"
    have eq: "hashtable_remove h k = (Some w, ?g)" by (simp add: hashtable_remove_def r)
    have ms: "mset (all_entries h) = add_mset e (mset (all_entries ?g))"
      using mset_concat_update [OF i, of es] e(3) by (simp add: all_entries_def)
    have ms': "mset (all_entries h) = mset (e # all_entries ?g)" using ms by simp
    have d2: "distinct (map ent_k (e # all_entries ?g))"
      using d distinct_mset_map [OF ms', of ent_k] by simp
    then have d': "distinct (map ent_k (all_entries ?g))" by simp
    have "placed ?g"
      using slotted_shrink [OF _ sub] pl by (simp add: placed_iff_slotted)
    moreover have len: "length (all_entries h) = Suc (length (all_entries ?g))"
      using arg_cong [OF ms, of size] by simp
    moreover have "unat (entrycount h - 1) = length (all_entries ?g)"
    proof -
      have "entrycount h \<noteq> 0" using inv len by (auto simp: ht_inv_def)
      then show ?thesis using inv len by (simp add: ht_inv_def unat_minus_one)
    qed
    ultimately have inv': "ht_inv ?g" using inv d' by (simp add: ht_inv_def)
    have st: "set (all_entries h) = insert e (set (all_entries ?g))"
      using mset_eq_setD [OF ms'] by simp
    have notin: "\<forall>f \<in> set (all_entries ?g). ent_k f \<noteq> k"
      using d2 ek by (auto simp: image_iff)
    have "ht_map ?g x = ((ht_map h)(k := None)) x" for x
    proof (rule option_eqI)
      fix w
      show "(ht_map ?g x = Some w) = (((ht_map h)(k := None)) x = Some w)"
        using notin ek by (auto simp: ht_map_Some_iff [OF d'] ht_map_Some_iff [OF d] st)
    qed
    then show ?thesis using inv' by (simp add: eq fun_eq_iff)
  qed
  then show "ht_inv (snd (hashtable_remove h k))"
    and "ht_map (snd (hashtable_remove h k)) = (ht_map h)(k := None)" by auto
qed

lemma slotted_update:
  "slotted P tlen t \<Longrightarrow> i < length t \<Longrightarrow>
   \<forall>e \<in> set es. P e \<and> unat (indexFor tlen (ent_h e)) = i \<Longrightarrow> slotted P tlen (t[i := es])"
  by (auto simp: slotted_def nth_list_update)

lemma ball_replace:
  "\<forall>f \<in> set (xs @ e # ys). Q f \<Longrightarrow> Q e' \<Longrightarrow> \<forall>f \<in> set (xs @ e' # ys). Q f"
  by simp

lemma hashtable_change_spec:
  assumes inv: "ht_inv h"
  shows "fst (hashtable_change h k v) = (if ht_map h k = None then 0 else -1)"
    and "ht_inv (snd (hashtable_change h k v))"
    and "ht_map (snd (hashtable_change h k v)) =
      (if ht_map h k = None then ht_map h else (ht_map h)(k \<mapsto> v))"
proof -
  have pl: "placed h" and eqf: "eqfn h = (\<lambda>a b. a = b)" and d: "distinct (map ent_k (all_entries h))"
    using inv by (simp_all add: ht_inv_def)
  let ?i = "key_index h k" and ?p = "entry_matches h (hash h k) k"
  let ?c = "table h ! ?i"
  have none: "chain_write ?p v ?c = None \<longleftrightarrow> ht_map h k = None"
    using hashtable_search_eq [OF pl eqf d, of k]
    by (simp add: chain_write_None chain_search_None [symmetric] hashtable_search_def)
  show "fst (hashtable_change h k v) = (if ht_map h k = None then 0 else -1)"
    using none by (auto simp: hashtable_change_def split: option.splits)
  have "ht_inv (snd (hashtable_change h k v)) \<and> ht_map (snd (hashtable_change h k v)) =
      (if ht_map h k = None then ht_map h else (ht_map h)(k \<mapsto> v))"
  proof (cases "chain_write ?p v ?c")
    case None
    with none inv show ?thesis by (simp_all add: hashtable_change_def)
  next
    case (Some es)
    from chain_write_Some [OF Some] obtain xs e ys
      where c: "?c = xs @ e # ys" "?p e" "es = xs @ e\<lparr>ent_v := v\<rparr> # ys" by blast
    let ?e = "e\<lparr>ent_v := v\<rparr>"
    let ?g = "h\<lparr>table := (table h)[?i := es]\<rparr>"
    have i: "?i < length (table h)" by (rule key_index_less [OF pl])
    have ek: "ent_k e = k" using c matches_iff [OF pl eqf, of e k] by simp
    have eq: "snd (hashtable_change h k v) = ?g" by (simp add: hashtable_change_def Some)
    have upd: "mset (all_entries ?g) + mset ?c = mset (all_entries h) + mset es"
      using mset_concat_update [OF i, of es] by (simp add: all_entries_def)
    have "image_mset ent_k (mset ?c) = image_mset ent_k (mset es)" by (simp add: c(1,3))
    with arg_cong [OF upd, of "image_mset ent_k"]
    have key: "mset (map ent_k (all_entries ?g)) = mset (map ent_k (all_entries h))" by simp
    then have d': "distinct (map ent_k (all_entries ?g))"
      using d mset_eq_imp_distinct_iff by blast
    have len: "length (all_entries ?g) = length (all_entries h)"
      using mset_eq_length [OF key] by simp
    let ?Q = "\<lambda>f. ent_h f = hash h (ent_k f) \<and> unat (indexFor (tablelength h) (ent_h f)) = ?i"
    have chain: "\<forall>f \<in> set ?c. ?Q f"
      using pl i unfolding placed_iff_slotted slotted_def by blast
    have "?Q e" using chain c(1) by (metis in_set_conv_decomp)
    moreover have "ent_h ?e = ent_h e" and "ent_k ?e = ent_k e" by simp_all
    ultimately have "?Q ?e" by argo
    with chain have chain': "\<forall>f \<in> set es. ?Q f" unfolding c(1,3) by (rule ball_replace)
    have "slotted (\<lambda>e. ent_h e = hash h (ent_k e)) (tablelength h) ((table h)[?i := es])"
      using pl i chain' unfolding placed_iff_slotted by (intro slotted_update) blast+
    then have "placed ?g" using pl by (simp add: placed_iff_slotted)
    then have inv': "ht_inv ?g" using inv d' len by (simp add: ht_inv_def)
    have some: "ht_map h k \<noteq> None" using none Some by simp
    have ms: "add_mset e (mset (all_entries ?g)) = add_mset ?e (mset (all_entries h))"
      using upd by (simp add: c(1,3))
    have ms2: "mset (e # all_entries ?g) = mset (?e # all_entries h)" using ms by simp
    have "ht_map ?g x = ((ht_map h)(k \<mapsto> v)) x" for x
    proof (cases "x = k")
      case True
      have "?e \<in> set (all_entries ?g)"
        unfolding all_entries_def concat.simps(2) set_concat using set_update_memI [OF i, of es] c(3)
        by (intro UN_I [of es]) simp_all
      then show ?thesis using True ek by (auto simp: ht_map_Some_iff [OF d'] intro!: bexI [of _ ?e])
    next
      case False
      have "f \<in> set (all_entries ?g) \<longleftrightarrow> f \<in> set (all_entries h)" if "ent_k f = x" for f
      proof -
        have "f \<noteq> e" and "f \<noteq> ?e" using that False ek by auto
        moreover have "insert e (set (all_entries ?g)) = insert ?e (set (all_entries h))"
          using mset_eq_setD [OF ms2] by simp
        ultimately show ?thesis by blast
      qed
      then have "ht_map ?g x = Some w \<longleftrightarrow> ht_map h x = Some w" for w
        by (auto simp: ht_map_Some_iff [OF d'] ht_map_Some_iff [OF d])
      then show ?thesis using False by (auto intro: option_eqI)
    qed
    then show ?thesis using some inv' by (simp add: eq fun_eq_iff)
  qed
  then show "ht_inv (snd (hashtable_change h k v))"
    and "ht_map (snd (hashtable_change h k v)) =
      (if ht_map h k = None then ht_map h else (ht_map h)(k \<mapsto> v))" by auto
qed

section \<open>Creation, enumeration, destruction\<close>

lemma first_prime_range:
  "first_prime m i ps = (j, sz) \<Longrightarrow> \<exists>p \<in> set ps. p > m \<Longrightarrow>
   i \<le> j \<and> j < i + length ps \<and> sz = ps ! (j - i) \<and> sz > m"
proof (induction ps arbitrary: i)
  case Nil
  then show ?case by simp
next
  case (Cons p ps)
  show ?case
  proof (cases "p > m")
    case True
    with Cons.prems show ?thesis by simp
  next
    case False
    with Cons.prems have "first_prime m (Suc i) ps = (j, sz)" and "\<exists>p \<in> set ps. p > m" by simp_all
    from Cons.IH [OF this]
    have "Suc i \<le> j \<and> j < Suc i + length ps \<and> sz = ps ! (j - Suc i) \<and> sz > m" .
    then show ?thesis by (auto simp: Suc_le_eq nth_Cons split: nat.splits) (metis Suc_diff_Suc nth_Cons_Suc)
  qed
qed

lemma exists_prime: "m \<le> push_bit 30 1 \<Longrightarrow> \<exists>p \<in> set primes. p > (m :: u32)"
  by (rule bexI [of _ "1610612741"]) (auto simp: primes_def push_bit_eq_mult word_le_nat_alt word_less_nat_alt)

lemma create_hashtable_spec:
  assumes "create_hashtable ok_h ok_table minsize hashf (=) = Some h"
  shows "ht_inv h" and "ht_map h = Map.empty" and "entrycount h = 0"
    and "minsize < tablelength h" and "tablelength h = primes ! primeindex h" and "hashfn h = hashf"
proof -
  obtain j sz where f: "first_prime minsize 0 primes = (j, sz)" by fastforce
  from assms have small: "\<not> minsize > push_bit 30 1" by (auto simp: create_hashtable_def split: if_splits)
  then have r: "j < length primes" "sz = primes ! j" "sz > minsize"
    using first_prime_range [OF f exists_prime] unfolding not_less by auto
  from assms small f have h: "h = \<lparr>tablelength = sz, table = replicate (unat sz) [], entrycount = 0,
      loadlimit = load_limit sz, primeindex = j, hashfn = hashf, eqfn = (=)\<rparr>"
    by (auto simp: create_hashtable_def split: if_splits)
  have empty: "all_entries h = []" by (simp add: all_entries_def h)
  have "placed h" using r(3) by (auto simp: placed_def h) (metis word_gt_0 word_not_simps(1))
  then show "ht_inv h" using r(1) by (simp add: ht_inv_def empty) (simp add: h prime_table_length_def)
  show "ht_map h = Map.empty" by (simp add: ht_map_def empty)
  show "entrycount h = 0" "minsize < tablelength h" "tablelength h = primes ! primeindex h" "hashfn h = hashf"
    using r by (simp_all add: h)
qed

text \<open>A callback that only rewrites values maps every entry of the table and keeps its shape.\<close>

lemma enum_chain_total: "enum_chain (\<lambda>k v. Inr (f k v)) es = Inr (map (\<lambda>e. e\<lparr>ent_v := f (ent_k e) (ent_v e)\<rparr>) es)"
  by (induction es) auto

lemma enum_table_total:
  "enum_table (\<lambda>k v. Inr (f k v)) t = Inr (map (map (\<lambda>e. e\<lparr>ent_v := f (ent_k e) (ent_v e)\<rparr>)) t)"
  by (induction t) (auto simp: enum_chain_total)

lemma enum_chain_error: "enum_chain kv es = Inl err \<Longrightarrow> \<exists>e \<in> set es. kv (ent_k e) (ent_v e) = Inl err"
  by (induction es) (auto split: sum.splits)

lemma enum_table_error:
  "enum_table kv t = Inl err \<Longrightarrow> \<exists>e \<in> set (concat t). kv (ent_k e) (ent_v e) = Inl err"
  by (induction t) (auto split: sum.splits dest: enum_chain_error)

lemma enum_chain_complete:
  "enum_chain kv es = Inr es' \<Longrightarrow> e \<in> set es \<Longrightarrow> \<exists>v. kv (ent_k e) (ent_v e) = Inr v"
  by (induction es arbitrary: es') (auto split: sum.splits)

lemma enum_table_complete:
  "enum_table kv t = Inr t' \<Longrightarrow> e \<in> set (concat t) \<Longrightarrow> \<exists>v. kv (ent_k e) (ent_v e) = Inr v"
  by (induction t arbitrary: t') (auto split: sum.splits dest: enum_chain_complete)

lemma enum_chain_check:
  "(\<And>k v w. kv k v = Inr w \<Longrightarrow> w = v) \<Longrightarrow> enum_chain kv es = Inr es' \<Longrightarrow> es' = es"
  by (induction es arbitrary: es') (auto split: sum.splits)

lemma enum_table_check:
  assumes "\<And>k v w. kv k v = Inr w \<Longrightarrow> w = v"
  shows "enum_table kv t = Inr t' \<Longrightarrow> t' = t"
proof (induction t arbitrary: t')
  case Nil
  then show ?case by simp
next
  case (Cons c cs)
  then obtain c' cs' where "enum_chain kv c = Inr c'" "enum_table kv cs = Inr cs'" "t' = c' # cs'"
    by (auto split: sum.splits)
  then show ?case using Cons.IH enum_chain_check [OF assms] by simp
qed

text \<open>A checking callback that lets the enumeration end has accepted every value of the table.\<close>

lemma hashtable_enumerate_check:
  assumes "\<And>k v w. kv k v = Inr w \<Longrightarrow> w = v" and "hashtable_enumerate h (Some kv) = Inr g"
  shows "g = h" and "ht_map h k = Some v \<Longrightarrow> kv k v = Inr v"
proof -
  from assms(2) obtain t where t: "enum_table kv (table h) = Inr t" "g = h\<lparr>table := t\<rparr>"
    by (auto simp: hashtable_enumerate_def split: sum.splits)
  have "t = table h" by (rule enum_table_check [OF assms(1) t(1)])
  with t(2) show "g = h" by simp
  assume "ht_map h k = Some v"
  then have "(k, v) \<in> set (map (\<lambda>e. (ent_k e, ent_v e)) (all_entries h))"
    unfolding ht_map_def by (rule map_of_SomeD)
  then obtain e where "e \<in> set (concat (table h))" "ent_k e = k" "ent_v e = v"
    by (auto simp: all_entries_def)
  with enum_table_complete [OF t(1)] assms(1) show "kv k v = Inr v" by blast
qed

lemma hashtable_enumerate_passes:
  assumes inv: "ht_inv h" and "\<And>k v. ht_map h k = Some v \<Longrightarrow> kv k v = Inr v"
    and "\<And>k v w. kv k v = Inr w \<Longrightarrow> w = v"
  shows "hashtable_enumerate h (Some kv) = Inr h"
proof (cases "enum_table kv (table h)")
  case (Inl err)
  then obtain e where "e \<in> set (all_entries h)" "kv (ent_k e) (ent_v e) = Inl err"
    unfolding all_entries_def by (blast dest: enum_table_error)
  moreover from this inv have "ht_map h (ent_k e) = Some (ent_v e)"
    by (auto simp: ht_inv_def ht_map_Some_iff)
  ultimately show ?thesis using assms(2) by force
next
  case (Inr t)
  with enum_table_check [OF assms(3) Inr] show ?thesis by (simp add: hashtable_enumerate_def)
qed

lemma hashtable_enumerate_total:
  assumes inv: "ht_inv h"
    and run: "hashtable_enumerate h (Some (\<lambda>k v. Inr (f k v))) = Inr g"
  shows "ht_inv g" and "ht_map g k = map_option (f k) (ht_map h k)"
proof -
  let ?u = "\<lambda>e. e\<lparr>ent_v := f (ent_k e) (ent_v e)\<rparr>"
  have g: "g = h\<lparr>table := map (map ?u) (table h)\<rparr>"
    using run by (simp add: hashtable_enumerate_def enum_table_total)
  have ents: "all_entries g = map ?u (all_entries h)" by (simp add: all_entries_def g map_concat)
  have keys: "map ent_k (all_entries g) = map ent_k (all_entries h)" by (simp add: ents comp_def)
  have "placed g" using inv by (auto simp: placed_def ht_inv_def g)
  moreover have "distinct (map ent_k (all_entries g))" using inv by (simp add: keys ht_inv_def)
  moreover have "length (all_entries g) = length (all_entries h)" by (simp add: ents)
  ultimately show "ht_inv g" using inv by (simp add: ht_inv_def g)
  have "map_of (map (\<lambda>e. (ent_k e, f (ent_k e) (ent_v e))) es) k =
      map_option (f k) (map_of (map (\<lambda>e. (ent_k e, ent_v e)) es) k)" for es :: "('a, 'b) entry list"
    by (induction es) auto
  then show "ht_map g k = map_option (f k) (ht_map h k)" by (simp add: ht_map_def ents comp_def)
qed

text \<open>Destroying frees every key and every entry once, and the values when asked to.\<close>

lemma mset_destroy_chain:
  "mset (destroy_chain fv es) =
     image_mset (\<lambda>e. Free_Key (ent_k e)) (mset es) + image_mset (\<lambda>e. Free_Entry (ent_k e)) (mset es)
     + (if fv then image_mset (\<lambda>e. Free_Value (ent_v e)) (mset es) else {#})"
  by (induction es) (auto simp: ac_simps)

lemma mset_destroy_chains:
  "mset (concat (map (destroy_chain fv) t)) =
     image_mset (\<lambda>e. Free_Key (ent_k e)) (mset (concat t))
     + image_mset (\<lambda>e. Free_Entry (ent_k e)) (mset (concat t))
     + (if fv then image_mset (\<lambda>e. Free_Value (ent_v e)) (mset (concat t)) else {#})"
  by (induction t) (auto simp: mset_destroy_chain ac_simps)

section \<open>The dictionary interface\<close>

text \<open>
  What the clients of the table rely on. \<open>dict_step\<close> is one call of the interface,
  \<open>map_step\<close> its specification on a finite map; \<open>fresh_keys\<close> says that a run only
  inserts keys that are absent, which both trackers ensure by searching first.
\<close>

datatype ('k, 'v) dict_op =
    Op_Insert bool bool 'k 'v
  | Op_Search 'k
  | Op_Remove 'k
  | Op_Change 'k 'v
  | Op_Count

datatype 'v dict_result = Status int | Value "'v option" | Number u32

fun dict_step ::
  "('h \<Rightarrow> 'k \<Rightarrow> 'v option) \<Rightarrow> (bool \<Rightarrow> bool \<Rightarrow> 'h \<Rightarrow> 'k \<Rightarrow> 'v \<Rightarrow> int \<times> 'h) \<Rightarrow>
   ('h \<Rightarrow> 'k \<Rightarrow> 'v option \<times> 'h) \<Rightarrow> ('h \<Rightarrow> 'k \<Rightarrow> 'v \<Rightarrow> int \<times> 'h) \<Rightarrow> ('h \<Rightarrow> u32) \<Rightarrow>
   'h \<Rightarrow> ('k, 'v) dict_op \<Rightarrow> 'v dict_result \<times> 'h" where
  "dict_step look put del chg size_of h (Op_Insert ok_t ok_e k v) =
     map_prod Status id (put ok_t ok_e h k v)"
| "dict_step look put del chg size_of h (Op_Search k) = (Value (look h k), h)"
| "dict_step look put del chg size_of h (Op_Remove k) = map_prod Value id (del h k)"
| "dict_step look put del chg size_of h (Op_Change k v) = map_prod Status id (chg h k v)"
| "dict_step look put del chg size_of h Op_Count = (Number (size_of h), h)"

fun map_step :: "('k \<rightharpoonup> 'v) \<Rightarrow> ('k, 'v) dict_op \<Rightarrow> 'v dict_result \<times> ('k \<rightharpoonup> 'v)" where
  "map_step m (Op_Insert ok_t ok_e k v) = (if ok_e then (Status (-1), m(k \<mapsto> v)) else (Status 0, m))"
| "map_step m (Op_Search k) = (Value (m k), m)"
| "map_step m (Op_Remove k) = (Value (m k), m(k := None))"
| "map_step m (Op_Change k v) =
     (if m k = None then (Status 0, m) else (Status (-1), m(k \<mapsto> v)))"
| "map_step m Op_Count = (Number (of_nat (card (dom m))), m)"

fun fresh_op :: "('k \<rightharpoonup> 'v) \<Rightarrow> ('k, 'v) dict_op \<Rightarrow> bool" where
  "fresh_op m (Op_Insert ok_t ok_e k v) = (m k = None)"
| "fresh_op m _ = True"

fun run_ops :: "('h \<Rightarrow> 'o \<Rightarrow> 'r \<times> 'h) \<Rightarrow> 'h \<Rightarrow> 'o list \<Rightarrow> 'r list \<times> 'h" where
  "run_ops step h [] = ([], h)"
| "run_ops step h (p # ps) = (let (r, h') = step h p; (rs, h'') = run_ops step h' ps in (r # rs, h''))"

fun fresh_keys :: "('k \<rightharpoonup> 'v) \<Rightarrow> ('k, 'v) dict_op list \<Rightarrow> bool" where
  "fresh_keys m [] = True"
| "fresh_keys m (p # ps) = (fresh_op m p \<and> fresh_keys (snd (map_step m p)) ps)"

locale dictionary =
  fixes inv :: "'h \<Rightarrow> bool"
    and view :: "'h \<Rightarrow> 'k \<Rightarrow> 'v option"
    and look :: "'h \<Rightarrow> 'k \<Rightarrow> 'v option"
    and put :: "bool \<Rightarrow> bool \<Rightarrow> 'h \<Rightarrow> 'k \<Rightarrow> 'v \<Rightarrow> int \<times> 'h"
    and del :: "'h \<Rightarrow> 'k \<Rightarrow> 'v option \<times> 'h"
    and chg :: "'h \<Rightarrow> 'k \<Rightarrow> 'v \<Rightarrow> int \<times> 'h"
    and size_of :: "'h \<Rightarrow> u32"
  assumes look_view: "inv h \<Longrightarrow> look h k = view h k"
    and put_ok: "inv h \<Longrightarrow> view h k = None \<Longrightarrow> unat (size_of h) + 1 < 2 ^ 32 \<Longrightarrow>
      fst (put t True h k v) = -1 \<and> inv (snd (put t True h k v)) \<and>
      view (snd (put t True h k v)) = (view h)(k \<mapsto> v)"
    and put_fails: "inv h \<Longrightarrow>
      fst (put t False h k v) = 0 \<and> inv (snd (put t False h k v)) \<and>
      view (snd (put t False h k v)) = view h"
    and del_view: "inv h \<Longrightarrow>
      fst (del h k) = view h k \<and> inv (snd (del h k)) \<and>
      view (snd (del h k)) = (view h)(k := None)"
    and chg_view: "inv h \<Longrightarrow>
      fst (chg h k v) = (if view h k = None then 0 else -1) \<and> inv (snd (chg h k v)) \<and>
      view (snd (chg h k v)) = (if view h k = None then view h else (view h)(k \<mapsto> v))"
    and size_view: "inv h \<Longrightarrow> unat (size_of h) = card (dom (view h))"
    and view_finite: "inv h \<Longrightarrow> finite (dom (view h))"
begin

lemma step_refines:
  assumes "inv h" and "fresh_op (view h) p" and "unat (size_of h) + 1 < 2 ^ 32"
  shows "fst (dict_step look put del chg size_of h p) = fst (map_step (view h) p)"
    and "inv (snd (dict_step look put del chg size_of h p))"
    and "view (snd (dict_step look put del chg size_of h p)) = snd (map_step (view h) p)"
    and "unat (size_of (snd (dict_step look put del chg size_of h p))) \<le> unat (size_of h) + 1"
proof -
  let ?r = "dict_step look put del chg size_of h p"
  show f: "fst ?r = fst (map_step (view h) p)"
  proof (cases p)
    case (Op_Insert t e k v)
    then show ?thesis
      using assms put_ok [of h k t v] put_fails [OF assms(1), of t k v] by (cases e) auto
  next
    case Op_Count
    have "size_of h = of_nat (card (dom (view h)))"
      using size_view [OF assms(1)] by (metis of_nat_unat ucast_id)
    with Op_Count show ?thesis by simp
  qed (use assms del_view [OF assms(1)] chg_view [OF assms(1)] look_view [OF assms(1)] in auto)
  show i: "inv (snd ?r)"
  proof (cases p)
    case (Op_Insert t e k v)
    then show ?thesis
      using assms put_ok [of h k t v] put_fails [OF assms(1), of t k v] by (cases e) auto
  qed (use assms del_view [OF assms(1)] chg_view [OF assms(1)] in auto)
  show v: "view (snd ?r) = snd (map_step (view h) p)"
  proof (cases p)
    case (Op_Insert t e k v)
    then show ?thesis
      using assms put_ok [of h k t v] put_fails [OF assms(1), of t k v] by (cases e) auto
  qed (use assms del_view [OF assms(1)] chg_view [OF assms(1)] look_view [OF assms(1)] in auto)
  have fin: "finite (dom (view h))" by (rule view_finite [OF assms(1)])
  have "card (dom (snd (map_step (view h) p))) \<le> card (dom (view h)) + 1"
    by (cases p) (auto simp: card_insert_if fin le_SucI intro: card_Diff1_le le_SucI)
  then show "unat (size_of (snd ?r)) \<le> unat (size_of h) + 1"
    using size_view [OF i] size_view [OF assms(1)] v by simp
qed

lemma run_refines:
  assumes "inv h" and "fresh_keys (view h) ps" and "unat (size_of h) + length ps < 2 ^ 32"
  shows "fst (run_ops (dict_step look put del chg size_of) h ps) = fst (run_ops map_step (view h) ps)"
    and "view (snd (run_ops (dict_step look put del chg size_of) h ps)) =
      snd (run_ops map_step (view h) ps)"
    and "inv (snd (run_ops (dict_step look put del chg size_of) h ps))"
proof -
  let ?step = "dict_step look put del chg size_of"
  have "fst (run_ops ?step h ps) = fst (run_ops map_step (view h) ps) \<and>
    view (snd (run_ops ?step h ps)) = snd (run_ops map_step (view h) ps) \<and>
    inv (snd (run_ops ?step h ps))"
    using assms
  proof (induction ps arbitrary: h)
    case Nil
    then show ?case by simp
  next
    case (Cons p ps)
    have room: "unat (size_of h) + 1 < 2 ^ 32" and fr: "fresh_op (view h) p" using Cons.prems by auto
    note st = step_refines [OF Cons.prems(1) fr room]
    have "unat (size_of (snd (?step h p))) + length ps < 2 ^ 32" using st(4) Cons.prems(3) by simp
    moreover have "fresh_keys (view (snd (?step h p))) ps" using Cons.prems(2) st(3) by simp
    ultimately show ?case using Cons.IH [OF st(2)] st by (auto simp: Let_def split_beta)
  qed
  then show "fst (run_ops ?step h ps) = fst (run_ops map_step (view h) ps)"
    and "view (snd (run_ops ?step h ps)) = snd (run_ops map_step (view h) ps)"
    and "inv (snd (run_ops ?step h ps))" by auto
qed

text \<open>A client whose keys stand for distinct non-zero addresses never fills the count up.\<close>

lemma room:
  fixes f :: "'k \<Rightarrow> u32"
  assumes i: "inv h" and inj: "inj f" and nz: "\<forall>j \<in> dom (view h). f j \<noteq> 0"
    and new: "view h k = None" and k: "f k \<noteq> 0"
  shows "unat (size_of h) + 1 < 2 ^ 32"
proof -
  have sub: "f ` dom (view h) \<subseteq> UNIV - {0, f k}"
    using nz new inj by (auto dest: injD)
  have "card (dom (view h)) = card (f ` dom (view h))"
    by (rule card_image [symmetric]) (rule inj_on_subset [OF inj subset_UNIV])
  also have "\<dots> \<le> card (UNIV - {0, f k} :: u32 set)" by (rule card_mono [OF _ sub]) simp
  also have "\<dots> = 2 ^ 32 - 2" using k by (simp add: card_Diff_subset card_word)
  finally show ?thesis using size_view [OF i] by simp
qed

end

interpretation ht: dictionary ht_inv ht_map hashtable_search hashtable_insert hashtable_remove
  hashtable_change hashtable_count
proof unfold_locales
  fix h :: "('a, 'b) hashtable" and k v t
  assume inv: "ht_inv h"
  show "hashtable_search h k = ht_map h k" by (rule ht_inv_search [OF inv])
  show "fst (hashtable_insert t False h k v) = 0 \<and> ht_inv (snd (hashtable_insert t False h k v)) \<and>
      ht_map (snd (hashtable_insert t False h k v)) = ht_map h"
    by (simp add: hashtable_insert_oom [OF inv])
  show "fst (hashtable_remove h k) = ht_map h k \<and> ht_inv (snd (hashtable_remove h k)) \<and>
      ht_map (snd (hashtable_remove h k)) = (ht_map h)(k := None)"
    by (simp add: hashtable_remove_spec [OF inv])
  show "fst (hashtable_change h k v) = (if ht_map h k = None then 0 else -1) \<and>
      ht_inv (snd (hashtable_change h k v)) \<and>
      ht_map (snd (hashtable_change h k v)) = (if ht_map h k = None then ht_map h else (ht_map h)(k \<mapsto> v))"
    by (simp add: hashtable_change_spec [OF inv])
  show "unat (hashtable_count h) = card (dom (ht_map h))" by (rule ht_inv_count [OF inv])
  show "finite (dom (ht_map h))" by (simp add: dom_ht_map)
  assume new: "ht_map h k = None" and room: "unat (hashtable_count h) + 1 < 2 ^ 32"
  note room' = room [unfolded hashtable_count_def]
  show "fst (hashtable_insert t True h k v) = -1 \<and> ht_inv (snd (hashtable_insert t True h k v)) \<and>
      ht_map (snd (hashtable_insert t True h k v)) = (ht_map h)(k \<mapsto> v)"
    by (simp add: hashtable_insert_spec [OF inv new room'])
qed

definition hashtable_step ::
  "('k, 'v) hashtable \<Rightarrow> ('k, 'v) dict_op \<Rightarrow> 'v dict_result \<times> ('k, 'v) hashtable" where
  "hashtable_step = dict_step hashtable_search hashtable_insert hashtable_remove hashtable_change hashtable_count"

end
