(* ===== verification/Framework_State.thy ===== *)
theory Framework_State
  imports Hashtable
begin

text \<open>
  The state of the test framework: the types of \<open>test_state.h\<close>, the global variables of
  \<open>globals.h\<close>, \<open>global_lock.c\<close>, \<open>test_state.c\<close> and
  \<open>enter_exit.c:bad_path\<close>, the assertion macros and the global lock.

  The state is one record, built in layers. \<open>kernel_env\<close> is what the program takes from
  outside the repository: the driver name of the build (it selects the
  \<open>DISABLE_<name>_MJRCHECKS\<close> blocks), the outcome of the n-th \<open>kmalloc\<close> call, the
  kernel's \<open>IS_ERR_VALUE\<close> and constants. Every operation is polymorphic in the record
  scheme, so that the components of the later theories extend the state with their own fields.
\<close>

section \<open>Enumerations\<close>

datatype call_state = NOT_CALLED | IN_PROGRESS | CALLED_OK | CALLED_FAILED

datatype device_state = DEVICE_STATE_UNDEFINED | DEVICE_STATE_DISABLED | DEVICE_STATE_ENABLED

datatype blocking = BLOCKING_UNDEFINED | BLOCKING_YES | BLOCKING_NO

datatype user = USER_UNDEFINED | USER_YES | USER_NO

datatype driver_class = DRIVER_UNKNOWN_CLASS | DRIVER_NET | DRIVER_SND

text \<open>Bus types and origins are bit flags that the code combines with \<open>|\<close> and tests with \<open>&\<close>.\<close>

definition DRIVER_UNKNOWN_BUS :: u32 where "DRIVER_UNKNOWN_BUS = 0"
definition DRIVER_PCI :: u32 where "DRIVER_PCI = 1"
definition DRIVER_USB :: u32 where "DRIVER_USB = 2"
definition DRIVER_MISC :: u32 where "DRIVER_MISC = 4"
definition DRIVER_PROTO_OPS :: u32 where "DRIVER_PROTO_OPS = 8"
definition DRIVER_I2C :: u32 where "DRIVER_I2C = 16"
definition DRIVER_PLATFORM :: u32 where "DRIVER_PLATFORM = 32"
definition DRIVER_SPI :: u32 where "DRIVER_SPI = 64"

definition ORIGIN_UNDEFINED :: u32 where "ORIGIN_UNDEFINED = 0"
definition ORIGIN_KMALLOC :: u32 where "ORIGIN_KMALLOC = 1"
definition ORIGIN_VMALLOC :: u32 where "ORIGIN_VMALLOC = 2"
definition ORIGIN_GET_FREE_PAGES :: u32 where "ORIGIN_GET_FREE_PAGES = 4"
definition ORIGIN_DMA_ALLOC_COHERENT :: u32 where "ORIGIN_DMA_ALLOC_COHERENT = 8"
definition ORIGIN_PCI_ALLOC_CONSISTENT :: u32 where "ORIGIN_PCI_ALLOC_CONSISTENT = 16"
definition ORIGIN_PCI_MAP_SINGLE :: u32 where "ORIGIN_PCI_MAP_SINGLE = 32"
definition ORIGIN_PCI_MAP_PAGE :: u32 where "ORIGIN_PCI_MAP_PAGE = 64"
definition ORIGIN_SKB_DMA_MAP :: u32 where "ORIGIN_SKB_DMA_MAP = 128"
definition ORIGIN_ALLOC_ETHERDEV_MQS :: u32 where "ORIGIN_ALLOC_ETHERDEV_MQS = 256"
definition ORIGIN_ALLOC_URB :: u32 where "ORIGIN_ALLOC_URB = 512"
definition ORIGIN_DEVICE_REGISTER :: u32 where "ORIGIN_DEVICE_REGISTER = 1024"
definition ORIGIN_GET_DEVICE :: u32 where "ORIGIN_GET_DEVICE = 2048"
definition ORIGIN_SPIN_LOCK :: u32 where "ORIGIN_SPIN_LOCK = 4096"
definition ORIGIN_MUTEX :: u32 where "ORIGIN_MUTEX = 8192"
definition ORIGIN_RWSEM :: u32 where "ORIGIN_RWSEM = 16384"
definition ORIGIN_RWLOCK :: u32 where "ORIGIN_RWLOCK = 32768"
definition ORIGIN_IOREMAP :: u32 where "ORIGIN_IOREMAP = 65536"
definition ORIGIN_DEV_ALLOC_SKB :: u32 where "ORIGIN_DEV_ALLOC_SKB = 65536 * 2"
definition ORIGIN_CLASS_CREATE :: u32 where "ORIGIN_CLASS_CREATE = 65536 * 4"
definition ORIGIN_DEVICEFILE_CREATE :: u32 where "ORIGIN_DEVICEFILE_CREATE = 65536 * 8"

lemmas bus_flag_defs = DRIVER_UNKNOWN_BUS_def DRIVER_PCI_def DRIVER_USB_def DRIVER_MISC_def
  DRIVER_PROTO_OPS_def DRIVER_I2C_def DRIVER_PLATFORM_def DRIVER_SPI_def

lemmas origin_defs = ORIGIN_UNDEFINED_def ORIGIN_KMALLOC_def ORIGIN_VMALLOC_def
  ORIGIN_GET_FREE_PAGES_def ORIGIN_DMA_ALLOC_COHERENT_def ORIGIN_PCI_ALLOC_CONSISTENT_def
  ORIGIN_PCI_MAP_SINGLE_def ORIGIN_PCI_MAP_PAGE_def ORIGIN_SKB_DMA_MAP_def
  ORIGIN_ALLOC_ETHERDEV_MQS_def ORIGIN_ALLOC_URB_def ORIGIN_DEVICE_REGISTER_def
  ORIGIN_GET_DEVICE_def ORIGIN_SPIN_LOCK_def ORIGIN_MUTEX_def ORIGIN_RWSEM_def ORIGIN_RWLOCK_def
  ORIGIN_IOREMAP_def ORIGIN_DEV_ALLOC_SKB_def ORIGIN_CLASS_CREATE_def ORIGIN_DEVICEFILE_CREATE_def

datatype lock_type =
    LOCK_UNDEFINED | SPIN_LOCK | SPIN_LOCK_BH | SPIN_LOCK_IRQSAVE | SPIN_LOCK_IRQ
  | MUTEX | RWSEM | RWLOCK | GENERIC_LOCK

fun lock_index :: "lock_type \<Rightarrow> nat" where
  "lock_index LOCK_UNDEFINED = 0"
| "lock_index SPIN_LOCK = 1"
| "lock_index SPIN_LOCK_BH = 2"
| "lock_index SPIN_LOCK_IRQSAVE = 3"
| "lock_index SPIN_LOCK_IRQ = 4"
| "lock_index MUTEX = 5"
| "lock_index RWSEM = 6"
| "lock_index RWLOCK = 7"
| "lock_index GENERIC_LOCK = 8"

definition NUM_LOCK_TYPES :: nat where "NUM_LOCK_TYPES = 9"

definition MAX_NESTING :: nat where "MAX_NESTING = 16"

section \<open>Records\<close>

record hkey =
  object :: ulong

record hvalue =
  origin_str :: string
  origin :: u32
  obj_size :: ulong
  new_object :: int
  lock_state :: "int list"

text \<open>
  The seven driver state structs have one shape: the flag that the struct's own name gives
  (\<open>pci\<close>, \<open>usb\<close>, ...), then the call states. PCI has \<open>enabled\<close> as well.
\<close>

record driver_state =
  bus_flag :: int
  registered :: call_state
  unregistered :: call_state
  probed :: call_state

record pci_driver_state_struct = driver_state +
  enabled :: device_state

record ndo_driver_state_struct =
  net :: int
  opened :: call_state
  trans_start_check :: int
  register_netdev :: call_state
  unregister_netdev :: call_state
  ndo_capable :: call_state
  u2_napi_schedule :: call_state
  netif_rx :: call_state
  queue_state :: int

record sound_driver_state_struct =
  sound :: int

text \<open>The instructions the framework sends to the S2E hypervisor, in the order it sends them.\<close>

datatype s2e_event =
    S2E_concretize_kill int
  | S2E_enable_all_apic_interrupts
  | S2E_disable_all_apic_interrupts
  | S2E_io_map ulong ulong
  | S2E_io_unmap ulong
  | S2E_port_map ulong ulong
  | S2E_port_unmap ulong
  | S2E_make_symbolic ulong ulong string
  | S2E_make_symbolic_local string string
  | S2E_make_dma_symbolic ulong ulong string
  | S2E_free_dma_symbolic ulong ulong string
  | S2E_prioritize int
  | S2E_deprioritize int
  | S2E_kill_all_others int
  | S2E_favor_successful int int
  | S2E_success_path int string int
  | S2E_enter_function int string int
  | S2E_exit_function int string int
  | S2E_driver_call_stack int int
  | S2E_enable_trackperf int
  | S2E_disable_trackperf int
  | S2E_enable_tracing int
  | S2E_disable_tracing int
  | S2E_primary_fn int string
  | S2E_trackperf_fn int string int

section \<open>The state\<close>

record kernel_env =
  driver_name :: string
  kmalloc_ok :: "nat \<Rightarrow> bool"
  IS_ERR_VALUE :: "ulong \<Rightarrow> bool"
  GFP_ATOMIC :: u32
  GFP_KERNEL :: u32
  HZ :: ulong
  SIOCGMIIREG :: int
  SIOCSMIIREG :: int
  SIOCDEVPRIVATE :: int
  SIOCSIFADDR :: int
  CAP_NET_ADMIN :: int
  EPERM :: int
  ENXIO :: int
  ENODEV :: int
  EINVAL :: int
  NETDEV_TX_OK :: int
  QUEUE_STATE_XOFF :: ulong

record tf_globals = kernel_env +
  kmalloc_calls :: nat
  s2e_log :: "s2e_event list"
  g_sym_retval :: int
  g_sym_starting_fn :: string
  g_sym_kill_carrier_off :: int
  g_sym_slow_timers :: int
  g_sym_force_receive :: int
  g_sym_pci :: int
  bad_path :: int
  global_lock :: bool
  global_lock_acquired :: int

record test_state = tf_globals +
  blocking_context :: "blocking list"
  blocking_context_current :: int
  user_context :: "user list"
  user_context_current :: int
  device_irq_disabled :: int
  objs :: "(hkey, hvalue) hashtable option"
  objs_dirty :: int
  pci_driver_state :: pci_driver_state_struct
  usb_driver_state :: driver_state
  misc_driver_state :: driver_state
  proto_ops_state :: driver_state
  i2c_driver_state :: driver_state
  platform_driver_state :: driver_state
  spi_driver_state :: driver_state
  ndo_driver_state :: ndo_driver_state_struct
  sound_driver_state :: sound_driver_state_struct
  ioctl_capable_param :: int
  ioctl_capable_retval :: call_state

text \<open>\<open>#ifdef DISABLE_<name>_MJRCHECKS\<close>: the makefile defines the macro of the driver built.\<close>

definition DISABLED :: "string list \<Rightarrow> 'a kernel_env_scheme \<Rightarrow> bool" where
  "DISABLED names s \<longleftrightarrow> driver_name s \<in> set names"

section \<open>References to fields\<close>

text \<open>A C pointer to a field, \<open>&usb_driver_state.registered\<close>, is its reader and its writer.\<close>

type_synonym ('s, 'v) ref = "('s \<Rightarrow> 'v) \<times> ('v \<Rightarrow> 's \<Rightarrow> 's)"

definition dot :: "('s, 'r) ref \<Rightarrow> ('r, 'v) ref \<Rightarrow> ('s, 'v) ref" where
  "dot r f = (\<lambda>s. fst f (fst r s), \<lambda>v s. snd r (snd f v (fst r s)) s)"

definition registered_f :: "('a driver_state_scheme, call_state) ref" where
  "registered_f = (registered, \<lambda>v r. r\<lparr>registered := v\<rparr>)"
definition unregistered_f :: "('a driver_state_scheme, call_state) ref" where
  "unregistered_f = (unregistered, \<lambda>v r. r\<lparr>unregistered := v\<rparr>)"
definition probed_f :: "('a driver_state_scheme, call_state) ref" where
  "probed_f = (probed, \<lambda>v r. r\<lparr>probed := v\<rparr>)"
definition bus_flag_f :: "('a driver_state_scheme, int) ref" where
  "bus_flag_f = (bus_flag, \<lambda>v r. r\<lparr>bus_flag := v\<rparr>)"
definition enabled_f :: "('a pci_driver_state_struct_scheme, device_state) ref" where
  "enabled_f = (enabled, \<lambda>v r. r\<lparr>enabled := v\<rparr>)"

definition pci_r :: "('a test_state_scheme, pci_driver_state_struct) ref" where
  "pci_r = (pci_driver_state, \<lambda>v s. s\<lparr>pci_driver_state := v\<rparr>)"
definition usb_r :: "('a test_state_scheme, driver_state) ref" where
  "usb_r = (usb_driver_state, \<lambda>v s. s\<lparr>usb_driver_state := v\<rparr>)"
definition misc_r :: "('a test_state_scheme, driver_state) ref" where
  "misc_r = (misc_driver_state, \<lambda>v s. s\<lparr>misc_driver_state := v\<rparr>)"
definition proto_r :: "('a test_state_scheme, driver_state) ref" where
  "proto_r = (proto_ops_state, \<lambda>v s. s\<lparr>proto_ops_state := v\<rparr>)"
definition i2c_r :: "('a test_state_scheme, driver_state) ref" where
  "i2c_r = (i2c_driver_state, \<lambda>v s. s\<lparr>i2c_driver_state := v\<rparr>)"
definition platform_r :: "('a test_state_scheme, driver_state) ref" where
  "platform_r = (platform_driver_state, \<lambda>v s. s\<lparr>platform_driver_state := v\<rparr>)"
definition spi_r :: "('a test_state_scheme, driver_state) ref" where
  "spi_r = (spi_driver_state, \<lambda>v s. s\<lparr>spi_driver_state := v\<rparr>)"
definition ndo_r :: "('a test_state_scheme, ndo_driver_state_struct) ref" where
  "ndo_r = (ndo_driver_state, \<lambda>v s. s\<lparr>ndo_driver_state := v\<rparr>)"

definition opened_f :: "(ndo_driver_state_struct, call_state) ref" where
  "opened_f = (opened, \<lambda>v r. r\<lparr>opened := v\<rparr>)"
definition register_netdev_f :: "(ndo_driver_state_struct, call_state) ref" where
  "register_netdev_f = (register_netdev, \<lambda>v r. r\<lparr>register_netdev := v\<rparr>)"
definition unregister_netdev_f :: "(ndo_driver_state_struct, call_state) ref" where
  "unregister_netdev_f = (unregister_netdev, \<lambda>v r. r\<lparr>unregister_netdev := v\<rparr>)"
definition u2_napi_schedule_f :: "(ndo_driver_state_struct, call_state) ref" where
  "u2_napi_schedule_f = (u2_napi_schedule, \<lambda>v r. r\<lparr>u2_napi_schedule := v\<rparr>)"
definition ndo_capable_f :: "(ndo_driver_state_struct, call_state) ref" where
  "ndo_capable_f = (ndo_capable, \<lambda>v r. r\<lparr>ndo_capable := v\<rparr>)"
definition netif_rx_f :: "(ndo_driver_state_struct, call_state) ref" where
  "netif_rx_f = (netif_rx, \<lambda>v r. r\<lparr>netif_rx := v\<rparr>)"
definition ioctl_capable_retval_r :: "('a test_state_scheme, call_state) ref" where
  "ioctl_capable_retval_r = (ioctl_capable_retval, \<lambda>v s. s\<lparr>ioctl_capable_retval := v\<rparr>)"

lemmas ref_defs [simp] = dot_def registered_f_def unregistered_f_def probed_f_def bus_flag_f_def
  enabled_f_def pci_r_def usb_r_def misc_r_def proto_r_def i2c_r_def platform_r_def spi_r_def ndo_r_def
  opened_f_def register_netdev_f_def unregister_netdev_f_def u2_napi_schedule_f_def ndo_capable_f_def netif_rx_f_def
  ioctl_capable_retval_r_def

section \<open>Assertions\<close>

text \<open>
  A failed \<open>assert\<close> or \<open>tfassert\<close> first prints the object tables
  (\<open>objs_enum_print\<close> walks \<open>global_state.objs\<close>, which must not be \<open>NULL\<close>), then the
  driver stack (\<open>driver_dump_stack\<close> asserts in turn that the global lock is taken: without it
  the two call each other until the kernel stack is exhausted, which
  \<open>dump_stack_unlocked\<close> of Entry_Exit shows), then ends the path with
  \<open>s2e_kill_state (0, 1, msg)\<close>. \<open>tfassert_no_detail\<close> does not print the tables. Under FreeBSD the
  call of \<open>driver_dump_stack\<close> is commented out, which only matters without the lock: the modelled routines
  of FreeBSD assert inside \<open>check_routine\<close>, where both end the path.

  The macros put the text together with \<open>sprintf\<close> in \<open>temp1[128]\<close> and \<open>temp2[256]\<close>: the texts are fixed
  formats of the framework with a few numbers and the name of the checked function, taken to fit, as are the
  names in the dump of a path that ends anyway. Where the texts hold names that nothing bounds and the path
  need not end, the lengths are modelled (\<open>driver_dump_stack\<close>, \<open>handle_max_coverage\<close>, \<open>dump_params\<close>,
  \<open>simple_lookup_MJRcheck\<close>).
\<close>

definition tf_fail_no_detail :: "string \<Rightarrow> ('a test_state_scheme) act" where
  "tf_fail_no_detail msg = (\<lambda>s.
     if global_lock_acquired s = 1 then Inl (Killed 0 1 msg) else Inl Stack_Overflow)"

definition tf_fail :: "string \<Rightarrow> ('a test_state_scheme) act" where
  "tf_fail msg = (\<lambda>s. if objs s = None then Inl Null_Deref else tf_fail_no_detail msg s)"

definition tfassert :: "('a test_state_scheme \<Rightarrow> bool) \<Rightarrow> string \<Rightarrow> ('a test_state_scheme) act" where
  "tfassert P msg = (\<lambda>s. if P s then Inr s else tf_fail msg s)"

definition tfassert_no_detail ::
  "('a test_state_scheme \<Rightarrow> bool) \<Rightarrow> string \<Rightarrow> ('a test_state_scheme) act" where
  "tfassert_no_detail P msg = (\<lambda>s. if P s then Inr s else tf_fail_no_detail msg s)"

lemma tfassert_Inr [simp]: "tfassert P msg s = Inr t \<longleftrightarrow> P s \<and> t = s"
  by (auto simp: tfassert_def tf_fail_def tf_fail_no_detail_def)

lemma tfassert_ok [act_simps]: "P s \<Longrightarrow> tfassert P msg s = Inr s"
  by simp

lemma tfassert_no_detail_Inr [simp]: "tfassert_no_detail P msg s = Inr t \<longleftrightarrow> P s \<and> t = s"
  by (auto simp: tfassert_no_detail_def tf_fail_no_detail_def)

lemma tf_fail_Inr [simp]: "tf_fail msg s \<noteq> Inr t" "Inr t \<noteq> tf_fail msg s"
  by (simp_all add: tf_fail_def tf_fail_no_detail_def)

lemma preserves_tf_fail [pres]: "preserves P (tf_fail msg)"
  by (rule preservesI) simp

lemma bind_tf_fail [simp]: "(case tf_fail msg s of Inl e \<Rightarrow> Inl e | Inr t \<Rightarrow> f t) = tf_fail msg s"
  by (simp add: tf_fail_def tf_fail_no_detail_def)

lemma bind_tfassert [simp, act_simps]:
  "(case tfassert P msg s of Inl e \<Rightarrow> Inl e | Inr t \<Rightarrow> f t) = (if P s then f s else tf_fail msg s)"
  by (simp add: tfassert_def)

lemma bind_tfassert_no_detail [simp, act_simps]:
  "(case tfassert_no_detail P msg s of Inl e \<Rightarrow> Inl e | Inr t \<Rightarrow> f t) =
   (if P s then f s else tf_fail_no_detail msg s)"
  by (simp add: tfassert_no_detail_def tf_fail_no_detail_def)

lemma tfassert_killed:
  "\<not> P s \<Longrightarrow> objs s \<noteq> None \<Longrightarrow> global_lock_acquired s = 1 \<Longrightarrow>
   tfassert P msg s = Inl (Killed 0 1 msg)"
  by (simp add: tfassert_def tf_fail_def tf_fail_no_detail_def)

lemma preserves_tfassert [pres]: "preserves P (tfassert Q msg)"
  by (rule preservesI) simp

lemma preserves_tfassert_no_detail [pres]: "preserves P (tfassert_no_detail Q msg)"
  by (rule preservesI) simp

definition s2e :: "s2e_event \<Rightarrow> ('a tf_globals_scheme) act" where
  "s2e e = update (\<lambda>s. s\<lparr>s2e_log := s2e_log s @ [e]\<rparr>)"

definition deref :: "'v option \<Rightarrow> ('v \<Rightarrow> 's act) \<Rightarrow> 's act" where
  "deref p a = (case p of None \<Rightarrow> fail Null_Deref | Some v \<Rightarrow> a v)"

lemma preserves_deref [pres]: "(\<And>v. preserves P (a v)) \<Longrightarrow> preserves P (deref p a)"
  by (simp add: deref_def preserves_fail split: option.split)

lemma s2e_apply [simp, act_simps]: "s2e e s = Inr (s\<lparr>s2e_log := s2e_log s @ [e]\<rparr>)"
  by (simp add: s2e_def)

section \<open>The global lock\<close>

definition initialize_global_lock :: "('a tf_globals_scheme) check" where
  "initialize_global_lock = returning 0 (update (\<lambda>s. s\<lparr>global_lock := False\<rparr>))"

text \<open>Taking the spin lock a second time spins for ever.\<close>

definition acquire_global_lock :: "('a test_state_scheme) act" where
  "acquire_global_lock = block
    [\<lambda>s. if global_lock s then Inl Deadlock else Inr (s\<lparr>global_lock := True\<rparr>),
     tfassert (\<lambda>s. global_lock_acquired s = 0) ''Global lock not released.'',
     update (\<lambda>s. s\<lparr>global_lock_acquired := 1\<rparr>)]"

definition release_global_lock :: "('a test_state_scheme) act" where
  "release_global_lock = block
    [tfassert (\<lambda>s. global_lock_acquired s = 1) ''Global lock released but not acquired.'',
     update (\<lambda>s. s\<lparr>global_lock_acquired := 0\<rparr>),
     update (\<lambda>s. s\<lparr>global_lock := False\<rparr>)]"

definition assert_global_lock :: "('a test_state_scheme) act" where
  "assert_global_lock =
     tfassert (\<lambda>s. global_lock_acquired s = 1) ''Global lock assumed to be acquired but is not.''"

text \<open>\<open>check_routine_start(); body; check_routine_end(); return r;\<close>\<close>

definition check_routine :: "int \<Rightarrow> ('a test_state_scheme) act \<Rightarrow> ('a test_state_scheme) check" where
  "check_routine r body = returning r (block [acquire_global_lock, body, release_global_lock])"

text \<open>
  A routine that hands a value back through a pointer as well: \<open>out\<close> is the value written, as a
  function of the state the routine started in.
\<close>

definition with_out ::
  "('a test_state_scheme \<Rightarrow> 'v) \<Rightarrow> ('a test_state_scheme) check \<Rightarrow> (int \<times> 'v, 'a test_state_scheme) prog" where
  "with_out out c = (\<lambda>s. case c s of
       Inl e \<Rightarrow> Inl e
     | Inr (r, t) \<Rightarrow> Inr ((r, out s), t))"

lemma with_out_Inr [simp]: "with_out out c s = Inr ((r, v), t) \<longleftrightarrow> c s = Inr (r, t) \<and> v = out s"
  by (auto simp: with_out_def split: sum.splits)

lemma with_out_Inl [simp]: "with_out out c s = Inl e \<longleftrightarrow> c s = Inl e"
  by (auto simp: with_out_def split: sum.splits)

definition unlocked :: "'a tf_globals_scheme \<Rightarrow> bool" where
  "unlocked s \<longleftrightarrow> \<not> global_lock s \<and> global_lock_acquired s = 0"

definition locked :: "'a tf_globals_scheme \<Rightarrow> bool" where
  "locked s \<longleftrightarrow> global_lock s \<and> global_lock_acquired s = 1"

lemma acquire_unlocked [act_simps]:
  "unlocked s \<Longrightarrow> acquire_global_lock s = Inr (s\<lparr>global_lock := True, global_lock_acquired := 1\<rparr>)"
  by (simp add: acquire_global_lock_def unlocked_def tfassert_def)

lemma acquire_Inr:
  "acquire_global_lock s = Inr t \<longleftrightarrow>
   unlocked s \<and> t = s\<lparr>global_lock := True, global_lock_acquired := 1\<rparr>"
  by (auto simp: acquire_global_lock_def unlocked_def tfassert_def tf_fail_def tf_fail_no_detail_def)

lemma acquire_held: "global_lock s \<Longrightarrow> acquire_global_lock s = Inl Deadlock"
  by (simp add: acquire_global_lock_def)

lemma release_locked [act_simps]:
  "global_lock_acquired s = 1 \<Longrightarrow>
   release_global_lock s = Inr (s\<lparr>global_lock := False, global_lock_acquired := 0\<rparr>)"
  by (simp add: release_global_lock_def tfassert_def)

lemma release_Inr:
  "release_global_lock s = Inr t \<longleftrightarrow>
   global_lock_acquired s = 1 \<and> t = s\<lparr>global_lock := False, global_lock_acquired := 0\<rparr>"
  by (auto simp: release_global_lock_def tfassert_def tf_fail_def tf_fail_no_detail_def)

text \<open>
  The contract of a check routine. A body that keeps an invariant of the locked state gives a
  routine that keeps it between calls.
\<close>

lemma check_routine_Inr:
  "check_routine r body s = Inr (q, t) \<longleftrightarrow>
   q = r \<and> unlocked s \<and>
   (\<exists>u. body (s\<lparr>global_lock := True, global_lock_acquired := 1\<rparr>) = Inr u \<and>
     global_lock_acquired u = 1 \<and> t = u\<lparr>global_lock := False, global_lock_acquired := 0\<rparr>)"
  by (auto simp: check_routine_def block_Cons_Inr acquire_Inr release_Inr simp del: block.simps(2))

lemma check_routine_run:
  "unlocked s \<Longrightarrow>
   check_routine r body s =
     (case body (s\<lparr>global_lock := True, global_lock_acquired := 1\<rparr>) of
        Inl e \<Rightarrow> Inl e
      | Inr u \<Rightarrow> (case release_global_lock u of Inl e \<Rightarrow> Inl e | Inr t \<Rightarrow> Inr (r, t)))"
  by (simp add: check_routine_def returning_def acquire_unlocked split: sum.splits)

end
