(* ===== verification/Kernel_Context.thy ===== *)
theory Kernel_Context
  imports Framework_State
begin

text \<open>
  The kernel context of \<open>test_state.c\<close>: the stacks that say whether the running code may block
  and whether the user can reach it, the override for device interrupts, and the call and device
  state machines.

  Both stacks are C arrays of \<open>MAX_NESTING\<close> entries with the index of the top. The live part,
  top first, is \<open>blocking_stack\<close> and \<open>user_stack\<close>. The locale
  \<open>context_stack\<close> is the contract both have; a run of pushes and pops refines the run on
  the abstract list.
\<close>

section \<open>Call state and device state\<close>

definition set_device_state ::
  "('a test_state_scheme, device_state) ref \<Rightarrow> device_state \<Rightarrow> ('a test_state_scheme) act" where
  "set_device_state r new_state = block
    [\<lambda>s. case fst r s of
        DEVICE_STATE_UNDEFINED \<Rightarrow> Inr s
      | DEVICE_STATE_DISABLED \<Rightarrow>
          tfassert (\<lambda>_. new_state = DEVICE_STATE_ENABLED) ''Device enabled/disabled incorrectly'' s
      | DEVICE_STATE_ENABLED \<Rightarrow>
          tfassert (\<lambda>_. new_state = DEVICE_STATE_DISABLED) ''Device enabled/disabled incorrectly'' s,
     update (snd r new_state)]"

definition set_call_state ::
  "('a test_state_scheme, call_state) ref \<Rightarrow> call_state \<Rightarrow> ('a test_state_scheme) act" where
  "set_call_state r new_state = block
    [if new_state = IN_PROGRESS
     then tfassert (\<lambda>s. fst r s = NOT_CALLED \<or> fst r s = CALLED_OK \<or> fst r s = CALLED_FAILED) ''failed1''
     else skip,
     if new_state = CALLED_OK \<or> new_state = CALLED_FAILED
     then tfassert (\<lambda>s. fst r s = IN_PROGRESS) ''failed2''
     else skip,
     update (snd r new_state)]"

text \<open>The protocol as a relation: what may follow what.\<close>

inductive call_step :: "call_state \<Rightarrow> call_state \<Rightarrow> bool" where
  call_begin: "c \<noteq> IN_PROGRESS \<Longrightarrow> call_step c IN_PROGRESS"
| call_ok: "call_step IN_PROGRESS CALLED_OK"
| call_failed: "call_step IN_PROGRESS CALLED_FAILED"
| call_reset: "call_step c NOT_CALLED"

inductive_simps call_step_simps:
  "call_step c IN_PROGRESS" "call_step c CALLED_OK" "call_step c CALLED_FAILED" "call_step c NOT_CALLED"

lemma set_call_state_Inr:
  "set_call_state r c s = Inr t \<longleftrightarrow> call_step (fst r s) c \<and> t = snd r c s"
  by (cases c; cases "fst r s") (auto simp: set_call_state_def call_step_simps)

lemma set_call_state_ok [act_simps]: "call_step (fst r s) c \<Longrightarrow> set_call_state r c s = Inr (snd r c s)"
  by (simp add: set_call_state_Inr)

inductive device_step :: "device_state \<Rightarrow> device_state \<Rightarrow> bool" where
  device_first: "device_step DEVICE_STATE_UNDEFINED d"
| device_enable: "device_step DEVICE_STATE_DISABLED DEVICE_STATE_ENABLED"
| device_disable: "device_step DEVICE_STATE_ENABLED DEVICE_STATE_DISABLED"

inductive_simps device_step_simps:
  "device_step DEVICE_STATE_UNDEFINED d" "device_step DEVICE_STATE_DISABLED d"
  "device_step DEVICE_STATE_ENABLED d"

lemma set_device_state_Inr:
  "set_device_state r d s = Inr t \<longleftrightarrow> device_step (fst r s) d \<and> t = snd r d s"
  by (cases "fst r s") (auto simp: set_device_state_def device_step_simps)

lemma preserves_set_call_state:
  assumes "\<And>s v. P s \<Longrightarrow> P (snd r v s)"
  shows "preserves P (set_call_state r c)"
  using assms by (auto intro!: preservesI simp: set_call_state_Inr)

lemma preserves_set_device_state:
  assumes "\<And>s v. P s \<Longrightarrow> P (snd r v s)"
  shows "preserves P (set_device_state r d)"
  using assms by (auto intro!: preservesI simp: set_device_state_Inr)

section \<open>The stacks\<close>

definition set_blocking_state :: "blocking \<Rightarrow> ('a test_state_scheme) act" where
  "set_blocking_state bc = update (\<lambda>s. s\<lparr>blocking_context_current := 0,
     blocking_context := (blocking_context s)[0 := bc]\<rparr>)"

text \<open>
  The increment and the write come before the bound check: the write at index 16 is outside the
  array, so the check that follows it is never reached with 16.
\<close>

definition push_blocking_state :: "blocking \<Rightarrow> ('a test_state_scheme) act" where
  "push_blocking_state bc = block
    [tfassert (\<lambda>s. blocking_context_current s \<ge> 0) ''set_blocking_state not called properly'',
     update (\<lambda>s. s\<lparr>blocking_context_current := blocking_context_current s + 1\<rparr>),
     \<lambda>s. case store_at (blocking_context_current s) bc (blocking_context s) of
         None \<Rightarrow> Inl Out_Of_Bounds
       | Some ctx \<Rightarrow> Inr (s\<lparr>blocking_context := ctx\<rparr>),
     tfassert (\<lambda>s. blocking_context_current s < int MAX_NESTING) ''Too many push operations'']"

definition pop_blocking_state :: "('a test_state_scheme) act" where
  "pop_blocking_state = block
    [tfassert (\<lambda>s. blocking_context_current s > 0) ''set_blocking_state not called properly'',
     update (\<lambda>s. s\<lparr>blocking_context_current := blocking_context_current s - 1\<rparr>),
     tfassert (\<lambda>s. blocking_context_current s \<ge> 0) ''Too many pop operations'']"

definition kernel_blocking_state :: "'a test_state_scheme \<Rightarrow> blocking" where
  "kernel_blocking_state s = blocking_context s ! nat (blocking_context_current s)"

definition set_user_state :: "user \<Rightarrow> ('a test_state_scheme) act" where
  "set_user_state uc = update (\<lambda>s. s\<lparr>user_context_current := 0,
     user_context := (user_context s)[0 := uc]\<rparr>)"

definition push_user_state :: "user \<Rightarrow> ('a test_state_scheme) act" where
  "push_user_state uc = block
    [tfassert (\<lambda>s. user_context_current s \<ge> 0) ''set_user_state not called properly'',
     update (\<lambda>s. s\<lparr>user_context_current := user_context_current s + 1\<rparr>),
     \<lambda>s. case store_at (user_context_current s) uc (user_context s) of
         None \<Rightarrow> Inl Out_Of_Bounds
       | Some ctx \<Rightarrow> Inr (s\<lparr>user_context := ctx\<rparr>),
     tfassert (\<lambda>s. user_context_current s < int MAX_NESTING) ''Too many push operations'']"

definition pop_user_state :: "('a test_state_scheme) act" where
  "pop_user_state = block
    [tfassert (\<lambda>s. user_context_current s > 0) ''set_user_state not called properly'',
     update (\<lambda>s. s\<lparr>user_context_current := user_context_current s - 1\<rparr>),
     tfassert (\<lambda>s. user_context_current s \<ge> 0) ''Too many pop operations'']"

definition kernel_user_state :: "'a test_state_scheme \<Rightarrow> user" where
  "kernel_user_state s = user_context s ! nat (user_context_current s)"

definition push_kernel_state :: "blocking \<Rightarrow> user \<Rightarrow> ('a test_state_scheme) act" where
  "push_kernel_state bc uc = block [push_blocking_state bc, push_user_state uc]"

definition pop_kernel_state :: "('a test_state_scheme) act" where
  "pop_kernel_state = block [pop_blocking_state, pop_user_state]"

definition set_device_interrupts :: "int \<Rightarrow> 'a test_state_scheme \<Rightarrow> int \<times> 'a test_state_scheme" where
  "set_device_interrupts disabled s = (device_irq_disabled s, s\<lparr>device_irq_disabled := disabled\<rparr>)"

definition can_call_interrupt_handlers :: "'a test_state_scheme \<Rightarrow> int" where
  "can_call_interrupt_handlers s =
     (if device_irq_disabled s = 1 then 0
      else case blocking_context s ! nat (blocking_context_current s) of
          BLOCKING_YES \<Rightarrow> 1
        | BLOCKING_UNDEFINED \<Rightarrow> 1
        | _ \<Rightarrow> 0)"

section \<open>The abstract stack\<close>

text \<open>The live part of an array whose top is at index \<open>cur\<close>, top first.\<close>

definition live :: "int \<Rightarrow> 'c list \<Rightarrow> 'c list" where
  "live cur xs = rev (take (Suc (nat cur)) xs)"

definition stack_ok :: "int \<Rightarrow> 'c list \<Rightarrow> bool" where
  "stack_ok cur xs \<longleftrightarrow> 0 \<le> cur \<and> cur < int MAX_NESTING \<and> length xs = MAX_NESTING"

definition blocking_stack :: "'a test_state_scheme \<Rightarrow> blocking list" where
  "blocking_stack s = live (blocking_context_current s) (blocking_context s)"

definition user_stack :: "'a test_state_scheme \<Rightarrow> user list" where
  "user_stack s = live (user_context_current s) (user_context s)"

definition blocking_ok :: "'a test_state_scheme \<Rightarrow> bool" where
  "blocking_ok s \<longleftrightarrow> stack_ok (blocking_context_current s) (blocking_context s)"

definition user_ok :: "'a test_state_scheme \<Rightarrow> bool" where
  "user_ok s \<longleftrightarrow> stack_ok (user_context_current s) (user_context s)"

lemma length_live: "stack_ok cur xs \<Longrightarrow> length (live cur xs) = Suc (nat cur)"
  by (auto simp: live_def stack_ok_def)

lemma hd_live: "stack_ok cur xs \<Longrightarrow> hd (live cur xs) = xs ! nat cur"
  by (auto simp: live_def stack_ok_def take_Suc_conv_app_nth)

lemma live_push:
  "stack_ok cur xs \<Longrightarrow> cur + 1 < int MAX_NESTING \<Longrightarrow>
   live (cur + 1) (xs[nat (cur + 1) := c]) = c # live cur xs"
  by (auto simp: live_def stack_ok_def nat_add_distrib take_Suc_conv_app_nth take_update_cancel)

lemma live_pop: "stack_ok cur xs \<Longrightarrow> 0 < cur \<Longrightarrow> live (cur - 1) xs = tl (live cur xs)"
  by (cases "nat cur") (auto simp: live_def stack_ok_def nat_diff_distrib take_Suc_conv_app_nth)

datatype 'c ctx_op = Push 'c | Pop

fun ctx_act :: "('c \<Rightarrow> 's act) \<Rightarrow> 's act \<Rightarrow> 'c ctx_op \<Rightarrow> 's act" where
  "ctx_act push pop (Push c) = push c"
| "ctx_act push pop Pop = pop"

text \<open>The specification: at most \<open>MAX_NESTING\<close> entries, and the bottom one is never popped.\<close>

fun stack_run :: "'c list \<Rightarrow> 'c ctx_op list \<Rightarrow> 'c list option" where
  "stack_run st [] = Some st"
| "stack_run st (Push c # ps) = (if length st < MAX_NESTING then stack_run (c # st) ps else None)"
| "stack_run st (Pop # ps) = (if 2 \<le> length st then stack_run (tl st) ps else None)"

locale context_stack =
  fixes ok :: "'s \<Rightarrow> bool"
    and view :: "'s \<Rightarrow> 'c list"
    and rest :: "'s \<Rightarrow> 'r"
    and push :: "'c \<Rightarrow> 's act"
    and pop :: "'s act"
  assumes view_bounds: "ok s \<Longrightarrow> 1 \<le> length (view s) \<and> length (view s) \<le> MAX_NESTING"
    and push_room: "ok s \<Longrightarrow> length (view s) < MAX_NESTING \<Longrightarrow>
      \<exists>t. push c s = Inr t \<and> ok t \<and> view t = c # view s \<and> rest t = rest s"
    and push_full: "ok s \<Longrightarrow> length (view s) = MAX_NESTING \<Longrightarrow> push c s = Inl Out_Of_Bounds"
    and pop_some: "ok s \<Longrightarrow> 2 \<le> length (view s) \<Longrightarrow>
      \<exists>t. pop s = Inr t \<and> ok t \<and> view t = tl (view s) \<and> rest t = rest s"
    and pop_last: "ok s \<Longrightarrow> length (view s) = 1 \<Longrightarrow> \<exists>e. pop s = Inl e"
begin

lemma push_Inr: "ok s \<Longrightarrow> push c s = Inr t \<Longrightarrow> ok t \<and> view t = c # view s \<and> rest t = rest s"
  using push_room [of s c] push_full [of s c] view_bounds [of s] by force

lemma pop_Inr: "ok s \<Longrightarrow> pop s = Inr t \<Longrightarrow> ok t \<and> view t = tl (view s) \<and> rest t = rest s"
  using pop_some [of s] pop_last [of s] view_bounds [of s]
  by (cases "2 \<le> length (view s)") force+

lemma preserves_push: "preserves ok (push c)"
  by (rule preservesI) (simp add: push_Inr)

lemma preserves_pop: "preserves ok pop"
  by (rule preservesI) (simp add: pop_Inr)

lemma push_pop: "ok s \<Longrightarrow> push c s = Inr t \<Longrightarrow> \<exists>u. pop t = Inr u \<and> ok u \<and> view u = view s \<and> rest u = rest s"
  using push_Inr [of s c t] pop_some [of t] view_bounds [of s] by force

lemma run_succeeds:
  "ok s \<Longrightarrow> stack_run (view s) ps = Some st \<Longrightarrow>
   \<exists>t. block (map (ctx_act push pop) ps) s = Inr t \<and> ok t \<and> view t = st \<and> rest t = rest s"
proof (induction ps arbitrary: s)
  case Nil
  then show ?case by simp
next
  case (Cons p ps)
  show ?case
  proof (cases p)
    case (Push c)
    with Cons.prems have "length (view s) < MAX_NESTING" by (simp split: if_splits)
    with push_room [OF Cons.prems(1)] obtain t
      where t: "push c s = Inr t" "ok t" "view t = c # view s" "rest t = rest s" by blast
    with Cons.prems Push Cons.IH [of t] show ?thesis by (simp split: if_splits)
  next
    case Pop
    with Cons.prems have "2 \<le> length (view s)" by (simp split: if_splits)
    with pop_some [OF Cons.prems(1)] obtain t
      where t: "pop s = Inr t" "ok t" "view t = tl (view s)" "rest t = rest s" by blast
    with Cons.prems Pop Cons.IH [of t] show ?thesis by (simp split: if_splits)
  qed
qed

lemma run_fails:
  "ok s \<Longrightarrow> stack_run (view s) ps = None \<Longrightarrow> \<exists>e. block (map (ctx_act push pop) ps) s = Inl e"
proof (induction ps arbitrary: s)
  case Nil
  then show ?case by simp
next
  case (Cons p ps)
  show ?case
  proof (cases p)
    case (Push c)
    show ?thesis
    proof (cases "push c s")
      case (Inr t)
      with push_Inr [OF Cons.prems(1)] push_full [OF Cons.prems(1)] view_bounds [OF Cons.prems(1)]
      have "ok t" "view t = c # view s" "length (view s) < MAX_NESTING" by force+
      with Cons.prems Push Inr Cons.IH [of t] show ?thesis by simp
    qed (simp add: Push)
  next
    case Pop
    show ?thesis
    proof (cases "pop s")
      case (Inr t)
      with pop_Inr [OF Cons.prems(1)] pop_last [OF Cons.prems(1)] view_bounds [OF Cons.prems(1)]
      have "ok t" "view t = tl (view s)" "2 \<le> length (view s)"
        by (auto simp: le_Suc_eq numeral_2_eq_2) (metis One_nat_def Inr le_antisym not_less_eq_eq sum.distinct(1))
      with Cons.prems Pop Inr Cons.IH [of t] show ?thesis by simp
    qed (simp add: Pop)
  qed
qed

end

lemma push_blocking_state_run:
  "stack_ok (blocking_context_current s) (blocking_context s) \<Longrightarrow>
   push_blocking_state bc s =
     (if blocking_context_current s + 1 < int MAX_NESTING
      then Inr (s\<lparr>blocking_context_current := blocking_context_current s + 1,
        blocking_context := (blocking_context s)[nat (blocking_context_current s + 1) := bc]\<rparr>)
      else Inl Out_Of_Bounds)"
  by (auto simp: push_blocking_state_def stack_ok_def store_at_def tfassert_def MAX_NESTING_def)

lemma pop_blocking_state_run:
  "pop_blocking_state s =
     (if 0 < blocking_context_current s
      then Inr (s\<lparr>blocking_context_current := blocking_context_current s - 1\<rparr>)
      else tf_fail ''set_blocking_state not called properly'' s)"
  by (auto simp: pop_blocking_state_def)

lemma push_user_state_run:
  "stack_ok (user_context_current s) (user_context s) \<Longrightarrow>
   push_user_state uc s =
     (if user_context_current s + 1 < int MAX_NESTING
      then Inr (s\<lparr>user_context_current := user_context_current s + 1,
        user_context := (user_context s)[nat (user_context_current s + 1) := uc]\<rparr>)
      else Inl Out_Of_Bounds)"
  by (auto simp: push_user_state_def stack_ok_def store_at_def tfassert_def MAX_NESTING_def)

lemma pop_user_state_run:
  "pop_user_state s =
     (if 0 < user_context_current s
      then Inr (s\<lparr>user_context_current := user_context_current s - 1\<rparr>)
      else tf_fail ''set_user_state not called properly'' s)"
  by (auto simp: pop_user_state_def)

definition but_blocking :: "'a test_state_scheme \<Rightarrow> 'a test_state_scheme" where
  "but_blocking s = s\<lparr>blocking_context_current := 0, blocking_context := []\<rparr>"

definition but_user :: "'a test_state_scheme \<Rightarrow> 'a test_state_scheme" where
  "but_user s = s\<lparr>user_context_current := 0, user_context := []\<rparr>"

interpretation blocking: context_stack blocking_ok blocking_stack but_blocking
  push_blocking_state pop_blocking_state
proof unfold_locales
  fix s :: "'a test_state_scheme" and c
  assume "blocking_ok s"
  then have ok: "stack_ok (blocking_context_current s) (blocking_context s)" by (simp add: blocking_ok_def)
  note len = length_live [OF ok]
  show "1 \<le> length (blocking_stack s) \<and> length (blocking_stack s) \<le> MAX_NESTING"
    using ok by (auto simp: blocking_stack_def len stack_ok_def)
  show "length (blocking_stack s) < MAX_NESTING \<Longrightarrow>
    \<exists>t. push_blocking_state c s = Inr t \<and> blocking_ok t \<and> blocking_stack t = c # blocking_stack s \<and>
      but_blocking t = but_blocking s"
    using ok live_push [OF ok, of c]
    by (auto simp: push_blocking_state_run [OF ok] blocking_stack_def blocking_ok_def len stack_ok_def
        but_blocking_def)
  show "length (blocking_stack s) = MAX_NESTING \<Longrightarrow> push_blocking_state c s = Inl Out_Of_Bounds"
    using ok by (auto simp: push_blocking_state_run [OF ok] blocking_stack_def len stack_ok_def)
  show "2 \<le> length (blocking_stack s) \<Longrightarrow>
    \<exists>t. pop_blocking_state s = Inr t \<and> blocking_ok t \<and> blocking_stack t = tl (blocking_stack s) \<and>
      but_blocking t = but_blocking s"
    using ok live_pop [OF ok]
    by (auto simp: pop_blocking_state_run blocking_stack_def blocking_ok_def len stack_ok_def but_blocking_def)
  show "length (blocking_stack s) = 1 \<Longrightarrow> \<exists>e. pop_blocking_state s = Inl e"
    using ok by (cases "pop_blocking_state s")
      (auto simp: pop_blocking_state_run blocking_stack_def len stack_ok_def)
qed

interpretation user: context_stack user_ok user_stack but_user push_user_state pop_user_state
proof unfold_locales
  fix s :: "'a test_state_scheme" and c
  assume "user_ok s"
  then have ok: "stack_ok (user_context_current s) (user_context s)" by (simp add: user_ok_def)
  note len = length_live [OF ok]
  show "1 \<le> length (user_stack s) \<and> length (user_stack s) \<le> MAX_NESTING"
    using ok by (auto simp: user_stack_def len stack_ok_def)
  show "length (user_stack s) < MAX_NESTING \<Longrightarrow>
    \<exists>t. push_user_state c s = Inr t \<and> user_ok t \<and> user_stack t = c # user_stack s \<and> but_user t = but_user s"
    using ok live_push [OF ok, of c]
    by (auto simp: push_user_state_run [OF ok] user_stack_def user_ok_def len stack_ok_def but_user_def)
  show "length (user_stack s) = MAX_NESTING \<Longrightarrow> push_user_state c s = Inl Out_Of_Bounds"
    using ok by (auto simp: push_user_state_run [OF ok] user_stack_def len stack_ok_def)
  show "2 \<le> length (user_stack s) \<Longrightarrow>
    \<exists>t. pop_user_state s = Inr t \<and> user_ok t \<and> user_stack t = tl (user_stack s) \<and> but_user t = but_user s"
    using ok live_pop [OF ok]
    by (auto simp: pop_user_state_run user_stack_def user_ok_def len stack_ok_def but_user_def)
  show "length (user_stack s) = 1 \<Longrightarrow> \<exists>e. pop_user_state s = Inl e"
    using ok by (cases "pop_user_state s") (auto simp: pop_user_state_run user_stack_def len stack_ok_def)
qed

end
