(* ===== verification/Driver_Bus.thy ===== *)
theory Driver_Bus
  imports Kernel_Context
begin

text \<open>
  Which bus drivers and which device class the driver under test has registered
  (\<open>test_state.c:get_driver_bus\<close> to \<open>set_driver_class\<close>). \<open>bus_set\<close> is the set of bus
  types the seven flags stand for: reading the mask gives its bits, setting and removing a type
  insert it and delete it.
\<close>

section \<open>Operations\<close>

definition get_driver_bus :: "'a test_state_scheme \<Rightarrow> tf_error + u32" where
  "get_driver_bus s =
     (let total = bus_flag (pci_driver_state s) + bus_flag (usb_driver_state s)
        + bus_flag (misc_driver_state s) + bus_flag (proto_ops_state s)
        + bus_flag (i2c_driver_state s) + bus_flag (platform_driver_state s)
        + bus_flag (spi_driver_state s)
      in case tfassert (\<lambda>_. total \<ge> 0) ''Total is a bug'' s of
          Inl e \<Rightarrow> Inl e
        | Inr _ \<Rightarrow>
            Inr (let total = 0;
              total = (if bus_flag (pci_driver_state s) \<noteq> 0 then total OR DRIVER_PCI else total);
              total = (if bus_flag (usb_driver_state s) \<noteq> 0 then total OR DRIVER_USB else total);
              total = (if bus_flag (misc_driver_state s) \<noteq> 0 then total OR DRIVER_MISC else total);
              total = (if bus_flag (proto_ops_state s) \<noteq> 0 then total OR DRIVER_PROTO_OPS else total);
              total = (if bus_flag (i2c_driver_state s) \<noteq> 0 then total OR DRIVER_I2C else total);
              total = (if bus_flag (platform_driver_state s) \<noteq> 0 then total OR DRIVER_PLATFORM else total);
              total = (if bus_flag (spi_driver_state s) \<noteq> 0 then total OR DRIVER_SPI else total)
              in total))"

definition init_driver_bus :: "('a test_state_scheme) act" where
  "init_driver_bus = block
    [update (snd (dot pci_r bus_flag_f) 0),
     update (snd (dot usb_r bus_flag_f) 0),
     update (snd (dot misc_r bus_flag_f) 0),
     update (snd (dot proto_r bus_flag_f) 0),
     update (snd (dot i2c_r bus_flag_f) 0),
     update (snd (dot platform_r bus_flag_f) 0),
     update (snd (dot spi_r bus_flag_f) 0)]"

definition set_driver_bus :: "u32 \<Rightarrow> ('a test_state_scheme) act" where
  "set_driver_bus type =
     (if type = DRIVER_UNKNOWN_BUS then tf_fail ''Dont set DRIVER_UNKNOWN_BUS''
      else if type = DRIVER_PCI then block
        [tfassert (\<lambda>s. bus_flag (pci_driver_state s) = 0) ''DRIVER_PCI already defined'',
         update (snd (dot pci_r bus_flag_f) 1)]
      else if type = DRIVER_USB then block
        [tfassert (\<lambda>s. bus_flag (usb_driver_state s) = 0) ''DRIVER_USB already defined'',
         update (snd (dot usb_r bus_flag_f) 1)]
      else if type = DRIVER_MISC then block
        [tfassert (\<lambda>s. bus_flag (misc_driver_state s) = 0) ''DRIVER_MISC already defined'',
         update (snd (dot misc_r bus_flag_f) 1)]
      else if type = DRIVER_PROTO_OPS then block
        [tfassert (\<lambda>s. bus_flag (proto_ops_state s) = 0) ''DRIVER_PROTO_OPS already defined'',
         update (snd (dot proto_r bus_flag_f) 1)]
      else if type = DRIVER_I2C then block
        [tfassert (\<lambda>s. bus_flag (i2c_driver_state s) = 0) ''DRIVER_I2C already defined'',
         update (snd (dot i2c_r bus_flag_f) 1)]
      else if type = DRIVER_PLATFORM then block
        [tfassert (\<lambda>s. bus_flag (platform_driver_state s) = 0) ''DRIVER_PLATFORM already defined'',
         update (snd (dot platform_r bus_flag_f) 1)]
      else if type = DRIVER_SPI then block
        [tfassert (\<lambda>s. bus_flag (spi_driver_state s) = 0) ''DRIVER_SPI already defined'',
         update (snd (dot spi_r bus_flag_f) 1)]
      else tf_fail ''Unknown driver bus being set?'')"

definition remove_driver_bus :: "u32 \<Rightarrow> ('a test_state_scheme) act" where
  "remove_driver_bus type =
     (if type = DRIVER_UNKNOWN_BUS then tf_fail ''Dont remove unknown bus''
      else if type = DRIVER_PCI then block
        [tfassert (\<lambda>s. bus_flag (pci_driver_state s) = 1) ''DRIVER_PCI not defined'',
         update (snd (dot pci_r bus_flag_f) 0)]
      else if type = DRIVER_USB then block
        [tfassert (\<lambda>s. bus_flag (usb_driver_state s) = 1) ''DRIVER_USB not defined'',
         update (snd (dot usb_r bus_flag_f) 0)]
      else if type = DRIVER_MISC then block
        [tfassert (\<lambda>s. bus_flag (misc_driver_state s) = 1) ''DRIVER_MISC not defined'',
         update (snd (dot misc_r bus_flag_f) 0)]
      else if type = DRIVER_PROTO_OPS then block
        [tfassert (\<lambda>s. bus_flag (proto_ops_state s) = 1) ''DRIVER_PROTO_OPS not defined'',
         update (snd (dot proto_r bus_flag_f) 0)]
      else if type = DRIVER_I2C then block
        [tfassert (\<lambda>s. bus_flag (i2c_driver_state s) = 1) ''DRIVER_I2C not defined'',
         update (snd (dot i2c_r bus_flag_f) 0)]
      else if type = DRIVER_PLATFORM then block
        [tfassert (\<lambda>s. bus_flag (platform_driver_state s) = 1) ''DRIVER_PLATFORM not defined'',
         update (snd (dot platform_r bus_flag_f) 0)]
      else if type = DRIVER_SPI then block
        [tfassert (\<lambda>s. bus_flag (spi_driver_state s) = 1) ''DRIVER_SPI not defined'',
         update (snd (dot spi_r bus_flag_f) 0)]
      else tf_fail ''Unknown driver bus being removed?'')"

definition get_driver_class :: "'a test_state_scheme \<Rightarrow> tf_error + driver_class" where
  "get_driver_class s =
     (let total = net (ndo_driver_state s) + sound (sound_driver_state s)
      in case tfassert (\<lambda>_. total = 0 \<or> total = 1) ''Multiple driver classes are defined'' s of
          Inl e \<Rightarrow> Inl e
        | Inr _ \<Rightarrow>
            Inr (if net (ndo_driver_state s) \<noteq> 0 then DRIVER_NET
                 else if sound (sound_driver_state s) \<noteq> 0 then DRIVER_SND
                 else DRIVER_UNKNOWN_CLASS))"

definition set_driver_class :: "driver_class \<Rightarrow> ('a test_state_scheme) act" where
  "set_driver_class type = reading get_driver_class (\<lambda>existing_class. block
    [tfassert (\<lambda>_. existing_class = DRIVER_UNKNOWN_CLASS) ''Known class'',
     update (\<lambda>s. s\<lparr>ndo_driver_state := (ndo_driver_state s)\<lparr>net := 0\<rparr>\<rparr>),
     update (\<lambda>s. s\<lparr>sound_driver_state := (sound_driver_state s)\<lparr>sound := 0\<rparr>\<rparr>),
     (case type of
        DRIVER_UNKNOWN_CLASS \<Rightarrow> skip
      | DRIVER_NET \<Rightarrow> update (\<lambda>s. s\<lparr>ndo_driver_state := (ndo_driver_state s)\<lparr>net := 1\<rparr>\<rparr>)
      | DRIVER_SND \<Rightarrow> update (\<lambda>s. s\<lparr>sound_driver_state := (sound_driver_state s)\<lparr>sound := 1\<rparr>\<rparr>))])"

section \<open>The set of buses\<close>

definition all_buses :: "u32 list" where
  "all_buses = [DRIVER_PCI, DRIVER_USB, DRIVER_MISC, DRIVER_PROTO_OPS, DRIVER_I2C, DRIVER_PLATFORM,
     DRIVER_SPI]"

definition flag_of :: "'a test_state_scheme \<Rightarrow> u32 \<Rightarrow> int" where
  "flag_of s t =
     (if t = DRIVER_PCI then bus_flag (pci_driver_state s)
      else if t = DRIVER_USB then bus_flag (usb_driver_state s)
      else if t = DRIVER_MISC then bus_flag (misc_driver_state s)
      else if t = DRIVER_PROTO_OPS then bus_flag (proto_ops_state s)
      else if t = DRIVER_I2C then bus_flag (i2c_driver_state s)
      else if t = DRIVER_PLATFORM then bus_flag (platform_driver_state s)
      else if t = DRIVER_SPI then bus_flag (spi_driver_state s) else 0)"

definition flags_ok :: "'a test_state_scheme \<Rightarrow> bool" where
  "flags_ok s \<longleftrightarrow> list_all (\<lambda>t. flag_of s t = 0 \<or> flag_of s t = 1) all_buses"

definition bus_set :: "'a test_state_scheme \<Rightarrow> u32 set" where
  "bus_set s = {t. flag_of s t = 1}"

definition class_ok :: "'a test_state_scheme \<Rightarrow> bool" where
  "class_ok s \<longleftrightarrow> (net (ndo_driver_state s) = 0 \<or> net (ndo_driver_state s) = 1) \<and>
     (sound (sound_driver_state s) = 0 \<or> sound (sound_driver_state s) = 1) \<and>
     net (ndo_driver_state s) + sound (sound_driver_state s) \<le> 1"

lemma flag_of_simps:
  "flag_of s DRIVER_PCI = bus_flag (pci_driver_state s)"
  "flag_of s DRIVER_USB = bus_flag (usb_driver_state s)"
  "flag_of s DRIVER_MISC = bus_flag (misc_driver_state s)"
  "flag_of s DRIVER_PROTO_OPS = bus_flag (proto_ops_state s)"
  "flag_of s DRIVER_I2C = bus_flag (i2c_driver_state s)"
  "flag_of s DRIVER_PLATFORM = bus_flag (platform_driver_state s)"
  "flag_of s DRIVER_SPI = bus_flag (spi_driver_state s)"
  by (simp_all add: flag_of_def bus_flag_defs)

lemma flag_of_outside: "t \<notin> set all_buses \<Longrightarrow> flag_of s t = 0"
  by (simp add: flag_of_def all_buses_def)

lemma flags_ok_iff:
  "flags_ok s \<longleftrightarrow> (\<forall>t. flag_of s t = 0 \<or> flag_of s t = 1)"
  using flag_of_outside [of _ s] by (force simp: flags_ok_def list_all_iff)

lemma bus_set_subset: "bus_set s \<subseteq> set all_buses"
  using flag_of_outside [of _ s] by (force simp: bus_set_def)

text \<open>Setting and removing a type moves the flag of that type only.\<close>

lemma flag_of_write:
  "flag_of (s\<lparr>pci_driver_state := (pci_driver_state s)\<lparr>bus_flag := v\<rparr>\<rparr>) = (flag_of s)(DRIVER_PCI := v)"
  "flag_of (s\<lparr>usb_driver_state := (usb_driver_state s)\<lparr>bus_flag := v\<rparr>\<rparr>) = (flag_of s)(DRIVER_USB := v)"
  "flag_of (s\<lparr>misc_driver_state := (misc_driver_state s)\<lparr>bus_flag := v\<rparr>\<rparr>) = (flag_of s)(DRIVER_MISC := v)"
  "flag_of (s\<lparr>proto_ops_state := (proto_ops_state s)\<lparr>bus_flag := v\<rparr>\<rparr>) = (flag_of s)(DRIVER_PROTO_OPS := v)"
  "flag_of (s\<lparr>i2c_driver_state := (i2c_driver_state s)\<lparr>bus_flag := v\<rparr>\<rparr>) = (flag_of s)(DRIVER_I2C := v)"
  "flag_of (s\<lparr>platform_driver_state := (platform_driver_state s)\<lparr>bus_flag := v\<rparr>\<rparr>) = (flag_of s)(DRIVER_PLATFORM := v)"
  "flag_of (s\<lparr>spi_driver_state := (spi_driver_state s)\<lparr>bus_flag := v\<rparr>\<rparr>) = (flag_of s)(DRIVER_SPI := v)"
  by (simp_all add: fun_eq_iff flag_of_def bus_flag_defs)

lemma set_driver_bus_eqs:
  "set_driver_bus DRIVER_PCI s = (if flag_of s DRIVER_PCI = 0
     then Inr (s\<lparr>pci_driver_state := (pci_driver_state s)\<lparr>bus_flag := 1\<rparr>\<rparr>)
     else tf_fail ''DRIVER_PCI already defined'' s)"
  "set_driver_bus DRIVER_USB s = (if flag_of s DRIVER_USB = 0
     then Inr (s\<lparr>usb_driver_state := (usb_driver_state s)\<lparr>bus_flag := 1\<rparr>\<rparr>)
     else tf_fail ''DRIVER_USB already defined'' s)"
  "set_driver_bus DRIVER_MISC s = (if flag_of s DRIVER_MISC = 0
     then Inr (s\<lparr>misc_driver_state := (misc_driver_state s)\<lparr>bus_flag := 1\<rparr>\<rparr>)
     else tf_fail ''DRIVER_MISC already defined'' s)"
  "set_driver_bus DRIVER_PROTO_OPS s = (if flag_of s DRIVER_PROTO_OPS = 0
     then Inr (s\<lparr>proto_ops_state := (proto_ops_state s)\<lparr>bus_flag := 1\<rparr>\<rparr>)
     else tf_fail ''DRIVER_PROTO_OPS already defined'' s)"
  "set_driver_bus DRIVER_I2C s = (if flag_of s DRIVER_I2C = 0
     then Inr (s\<lparr>i2c_driver_state := (i2c_driver_state s)\<lparr>bus_flag := 1\<rparr>\<rparr>)
     else tf_fail ''DRIVER_I2C already defined'' s)"
  "set_driver_bus DRIVER_PLATFORM s = (if flag_of s DRIVER_PLATFORM = 0
     then Inr (s\<lparr>platform_driver_state := (platform_driver_state s)\<lparr>bus_flag := 1\<rparr>\<rparr>)
     else tf_fail ''DRIVER_PLATFORM already defined'' s)"
  "set_driver_bus DRIVER_SPI s = (if flag_of s DRIVER_SPI = 0
     then Inr (s\<lparr>spi_driver_state := (spi_driver_state s)\<lparr>bus_flag := 1\<rparr>\<rparr>)
     else tf_fail ''DRIVER_SPI already defined'' s)"
  by (simp_all add: set_driver_bus_def bus_flag_defs flag_of_def)

lemma remove_driver_bus_eqs:
  "remove_driver_bus DRIVER_PCI s = (if flag_of s DRIVER_PCI = 1
     then Inr (s\<lparr>pci_driver_state := (pci_driver_state s)\<lparr>bus_flag := 0\<rparr>\<rparr>)
     else tf_fail ''DRIVER_PCI not defined'' s)"
  "remove_driver_bus DRIVER_USB s = (if flag_of s DRIVER_USB = 1
     then Inr (s\<lparr>usb_driver_state := (usb_driver_state s)\<lparr>bus_flag := 0\<rparr>\<rparr>)
     else tf_fail ''DRIVER_USB not defined'' s)"
  "remove_driver_bus DRIVER_MISC s = (if flag_of s DRIVER_MISC = 1
     then Inr (s\<lparr>misc_driver_state := (misc_driver_state s)\<lparr>bus_flag := 0\<rparr>\<rparr>)
     else tf_fail ''DRIVER_MISC not defined'' s)"
  "remove_driver_bus DRIVER_PROTO_OPS s = (if flag_of s DRIVER_PROTO_OPS = 1
     then Inr (s\<lparr>proto_ops_state := (proto_ops_state s)\<lparr>bus_flag := 0\<rparr>\<rparr>)
     else tf_fail ''DRIVER_PROTO_OPS not defined'' s)"
  "remove_driver_bus DRIVER_I2C s = (if flag_of s DRIVER_I2C = 1
     then Inr (s\<lparr>i2c_driver_state := (i2c_driver_state s)\<lparr>bus_flag := 0\<rparr>\<rparr>)
     else tf_fail ''DRIVER_I2C not defined'' s)"
  "remove_driver_bus DRIVER_PLATFORM s = (if flag_of s DRIVER_PLATFORM = 1
     then Inr (s\<lparr>platform_driver_state := (platform_driver_state s)\<lparr>bus_flag := 0\<rparr>\<rparr>)
     else tf_fail ''DRIVER_PLATFORM not defined'' s)"
  "remove_driver_bus DRIVER_SPI s = (if flag_of s DRIVER_SPI = 1
     then Inr (s\<lparr>spi_driver_state := (spi_driver_state s)\<lparr>bus_flag := 0\<rparr>\<rparr>)
     else tf_fail ''DRIVER_SPI not defined'' s)"
  by (simp_all add: remove_driver_bus_def bus_flag_defs flag_of_def)

lemma set_driver_bus_Inr:
  assumes "t \<in> set all_buses"
  shows "set_driver_bus t s = Inr u \<Longrightarrow> flag_of s t = 0 \<and> flag_of u = (flag_of s)(t := 1)"
    and "flag_of s t = 0 \<Longrightarrow> \<exists>u. set_driver_bus t s = Inr u"
  using assms unfolding all_buses_def
  by (auto simp: set_driver_bus_eqs flag_of_write split: if_splits)

lemma remove_driver_bus_Inr:
  assumes "t \<in> set all_buses"
  shows "remove_driver_bus t s = Inr u \<Longrightarrow> flag_of s t = 1 \<and> flag_of u = (flag_of s)(t := 0)"
    and "flag_of s t = 1 \<Longrightarrow> \<exists>u. remove_driver_bus t s = Inr u"
  using assms unfolding all_buses_def
  by (auto simp: remove_driver_bus_eqs flag_of_write split: if_splits)

lemma set_driver_bus_outside: "t \<notin> set all_buses \<Longrightarrow> \<exists>e. set_driver_bus t s = Inl e"
  by (cases "set_driver_bus t s") (auto simp: set_driver_bus_def all_buses_def split: if_splits)

lemma set_driver_bus_flags:
  assumes "set_driver_bus t s = Inr u"
  shows "t \<in> set all_buses" and "flag_of s t = 0" and "flag_of u = (flag_of s)(t := 1)"
  using assms set_driver_bus_outside [of t s] set_driver_bus_Inr(1) [of t s u] by force+

lemma remove_driver_bus_outside: "t \<notin> set all_buses \<Longrightarrow> \<exists>e. remove_driver_bus t s = Inl e"
  by (cases "remove_driver_bus t s") (auto simp: remove_driver_bus_def all_buses_def split: if_splits)

lemma remove_driver_bus_flags:
  assumes "remove_driver_bus t s = Inr u"
  shows "t \<in> set all_buses" and "flag_of s t = 1" and "flag_of u = (flag_of s)(t := 0)"
  using assms remove_driver_bus_outside [of t s] remove_driver_bus_Inr(1) [of t s u] by force+

lemma get_driver_bus_Inr:
  assumes "flags_ok s"
  shows "\<exists>m. get_driver_bus s = Inr m \<and> (\<forall>t \<in> set all_buses. m AND t \<noteq> 0 \<longleftrightarrow> t \<in> bus_set s)"
proof -
  have f: "bus_flag (pci_driver_state s) = 0 \<or> bus_flag (pci_driver_state s) = 1"
    "bus_flag (usb_driver_state s) = 0 \<or> bus_flag (usb_driver_state s) = 1"
    "bus_flag (misc_driver_state s) = 0 \<or> bus_flag (misc_driver_state s) = 1"
    "bus_flag (proto_ops_state s) = 0 \<or> bus_flag (proto_ops_state s) = 1"
    "bus_flag (i2c_driver_state s) = 0 \<or> bus_flag (i2c_driver_state s) = 1"
    "bus_flag (platform_driver_state s) = 0 \<or> bus_flag (platform_driver_state s) = 1"
    "bus_flag (spi_driver_state s) = 0 \<or> bus_flag (spi_driver_state s) = 1"
    using assms by (simp_all add: flags_ok_def all_buses_def flag_of_simps)
  show ?thesis
    using f
    by (elim disjE) (simp_all add: get_driver_bus_def tfassert_def all_buses_def bus_set_def flag_of_simps
        bus_flag_defs flag_of_def)
qed

end
