(* ===== verification/Object_Tracker.thy ===== *)
theory Object_Tracker
  imports Driver_Bus
begin

text \<open>
  The object tracker of \<open>test_state.c\<close>: the table from the address of a kernel object to how
  it was allocated, and the checks of allocations and frees built on it
  (\<open>objs_*\<close>, \<open>assert_allocated*\<close>, \<open>generic_allocator\<close>, \<open>generic_free\<close>,
  set-up and tear-down of the driver state).

  \<open>tracked\<close> is the finite map the table stands for, \<open>tracker_ok\<close> the invariant. The locale
  \<open>resource_tracker\<close> states the contract of an allocation tracker over the abstract
  specification \<open>alloc_step\<close>; the framework's two operations are its instance.
\<close>

section \<open>The table of objects\<close>

definition origin_names :: "(u32 \<times> string) list" where
  "origin_names =
    [(ORIGIN_KMALLOC, ''ORIGIN_KMALLOC ''),
     (ORIGIN_VMALLOC, ''ORIGIN_VMALLOC ''),
     (ORIGIN_GET_FREE_PAGES, ''ORIGIN_GET_FREE_PAGES ''),
     (ORIGIN_DMA_ALLOC_COHERENT, ''ORIGIN_DMA_ALLOC_COHERENT ''),
     (ORIGIN_PCI_ALLOC_CONSISTENT, ''ORIGIN_PCI_ALLOC_CONSISTENT ''),
     (ORIGIN_PCI_MAP_SINGLE, ''ORIGIN_PCI_MAP_SINGLE ''),
     (ORIGIN_PCI_MAP_PAGE, ''ORIGIN_PCI_MAP_PAGE ''),
     (ORIGIN_ALLOC_ETHERDEV_MQS, ''ORIGIN_ALLOC_ETHERDEV_MQS ''),
     (ORIGIN_ALLOC_URB, ''ORIGIN_ALLOC_URB ''),
     (ORIGIN_DEVICE_REGISTER, ''ORIGIN_DEVICE_REGISTER ''),
     (ORIGIN_SPIN_LOCK, ''ORIGIN_SPIN_LOCK ''),
     (ORIGIN_MUTEX, ''ORIGIN_MUTEX ''),
     (ORIGIN_RWSEM, ''ORIGIN_RWSEM ''),
     (ORIGIN_RWLOCK, ''ORIGIN_RWLOCK ''),
     (ORIGIN_IOREMAP, ''ORIGIN_IOREMAP ''),
     (ORIGIN_DEV_ALLOC_SKB, ''ORIGIN_DEV_ALLOC_SKB '')]"

text \<open>The sequence of \<open>if (origin & FLAG) strcat (buffer, name)\<close>.\<close>

definition ORIGIN_TO_STR :: "u32 \<Rightarrow> string" where
  "ORIGIN_TO_STR org =
     fold (\<lambda>(flag, name) buffer. if org AND flag \<noteq> 0 then buffer @ name else buffer) origin_names []"

definition hash_from_key_fn :: "hkey \<Rightarrow> u32" where
  "hash_from_key_fn key = object key"

definition hash_keys_equal_fn :: "hkey \<Rightarrow> hkey \<Rightarrow> bool" where
  "hash_keys_equal_fn key1 key2 = (object key1 = object key2)"

lemma hash_keys_equal_fn_eq: "hash_keys_equal_fn = (=)"
  by (auto simp: hash_keys_equal_fn_def fun_eq_iff)

definition objs_key :: "ulong \<Rightarrow> hkey" where
  "objs_key obj = \<lparr>object = obj\<rparr>"

definition mjr_kmalloc :: "(bool, 'a tf_globals_scheme) prog" where
  "mjr_kmalloc = (\<lambda>s. Inr (kmalloc_ok s (kmalloc_calls s), s\<lparr>kmalloc_calls := Suc (kmalloc_calls s)\<rparr>))"

text \<open>Neither result of \<open>kmalloc\<close> is tested before the memory is written.\<close>

definition objs_key_ptr :: "ulong \<Rightarrow> (hkey, 'a tf_globals_scheme) prog" where
  "objs_key_ptr obj = (\<lambda>s. case mjr_kmalloc s of
       Inl e \<Rightarrow> Inl e
     | Inr (ok, t) \<Rightarrow> if ok then Inr (objs_key obj, t) else Inl Null_Deref)"

text \<open>
  \<open>strncpy(value->origin_str, origin_str, strlen(origin_str) - 1)\<close> drops the last character
  and overruns the 64 byte field when the text is longer than 65 characters (or empty: the
  length wraps).
\<close>

definition objs_value :: "string \<Rightarrow> u32 \<Rightarrow> ulong \<Rightarrow> int \<Rightarrow> (hvalue, 'a tf_globals_scheme) prog" where
  "objs_value str org sz new = (\<lambda>s. case mjr_kmalloc s of
       Inl e \<Rightarrow> Inl e
     | Inr (ok, t) \<Rightarrow>
         if \<not> ok then Inl Null_Deref
         else if str = [] \<or> length str - 1 > 64 then Inl Out_Of_Bounds
         else Inr (\<lparr>origin_str = take (length str - 1) str, origin = org, obj_size = sz,
                    new_object = new, lock_state = replicate NUM_LOCK_TYPES 0\<rparr>, t))"

definition objs_search :: "hkey \<Rightarrow> 'a test_state_scheme \<Rightarrow> tf_error + hvalue option" where
  "objs_search key s = (case objs s of
       None \<Rightarrow> Inl Null_Deref
     | Some h \<Rightarrow> Inr (hashtable_search h key))"

definition objs_remove :: "hkey \<Rightarrow> (hvalue option, 'a test_state_scheme) prog" where
  "objs_remove key = (\<lambda>s. case objs s of
       None \<Rightarrow> Inl Null_Deref
     | Some h \<Rightarrow> (let (v, h') = hashtable_remove h key in Inr (v, s\<lparr>objs := Some h'\<rparr>)))"

text \<open>
  \<open>hashtable_insert (global_state.objs, key, value)\<close>: the table grows first, with one
  \<open>kmalloc\<close> when the load limit is passed and a larger prime is left, then the entry is allocated.
\<close>

definition will_expand :: "('k, 'v) hashtable \<Rightarrow> bool" where
  "will_expand h \<longleftrightarrow> entrycount h + 1 > loadlimit h \<and> primeindex h \<noteq> prime_table_length - 1"

definition objs_hashtable_insert :: "hkey \<Rightarrow> hvalue \<Rightarrow> (int, 'a test_state_scheme) prog" where
  "objs_hashtable_insert key value = (\<lambda>s. case objs s of
       None \<Rightarrow> Inl Null_Deref
     | Some h \<Rightarrow>
         (let n = kmalloc_calls s;
              m = (if will_expand h then Suc n else n);
              (r, h') = hashtable_insert (kmalloc_ok s n) (kmalloc_ok s m) h key value
          in Inr (r, s\<lparr>kmalloc_calls := Suc m, objs := Some h'\<rparr>)))"

definition objs_insert :: "hkey \<Rightarrow> hvalue \<Rightarrow> ('a test_state_scheme) act" where
  "objs_insert key value = reading (objs_search key) (\<lambda>result. block
    [if result \<noteq> None then tf_fail ''Object already present in table'' else skip,
     if obj_size value = 0 \<or> obj_size value > 10000000
     then (if obj_size value \<noteq> -1
           then cond (DISABLED [''ANDROID_A1026'']) skip
             (deref result (\<lambda>_. tf_fail ''Object size is insane''))
           else skip)
     else skip,
     with_result (objs_hashtable_insert key value) (\<lambda>result2. block
      [tfassert (\<lambda>_. result2 \<noteq> 0) ''Failed insert'',
       update (\<lambda>s. s\<lparr>objs_dirty := 1\<rparr>)])])"

text \<open>Writing through the value pointer a search returned.\<close>

definition objs_poke :: "hkey \<Rightarrow> hvalue \<Rightarrow> ('a test_state_scheme) act" where
  "objs_poke key value = (\<lambda>s. case objs s of
       None \<Rightarrow> Inl Null_Deref
     | Some h \<Rightarrow> Inr (s\<lparr>objs := Some (hashtable_poke h key value)\<rparr>))"

text \<open>An enumeration callback that asserts: the state it reads does not change on the way.\<close>

definition assert_value :: "'a test_state_scheme \<Rightarrow> bool \<Rightarrow> string \<Rightarrow> 'v \<Rightarrow> tf_error + 'v" where
  "assert_value s b msg v = map_sum id (\<lambda>_. v) (tfassert (\<lambda>_. b) msg s)"

definition objs_enumerate ::
  "('a test_state_scheme \<Rightarrow> hkey \<Rightarrow> hvalue \<Rightarrow> tf_error + hvalue) \<Rightarrow> ('a test_state_scheme) act" where
  "objs_enumerate kv = (\<lambda>s. case objs s of
       None \<Rightarrow> Inl Null_Deref
     | Some h \<Rightarrow> (case hashtable_enumerate h (Some (kv s)) of
           Inl e \<Rightarrow> Inl e
         | Inr h' \<Rightarrow> Inr (s\<lparr>objs := Some h'\<rparr>)))"

definition hash_reset_objs_state :: "hkey \<Rightarrow> hvalue \<Rightarrow> tf_error + hvalue" where
  "hash_reset_objs_state key value = Inr (value\<lparr>new_object := 0\<rparr>)"

definition reset_new_objects :: "('a test_state_scheme) act" where
  "reset_new_objects = onlyif (\<lambda>s. objs_dirty s \<noteq> 0) (block
    [objs_enumerate (\<lambda>_. hash_reset_objs_state),
     update (\<lambda>s. s\<lparr>objs_dirty := 0\<rparr>)])"

section \<open>Set-up and tear-down\<close>

definition zero_driver_state :: driver_state where
  "zero_driver_state = \<lparr>bus_flag = 0, registered = NOT_CALLED, unregistered = NOT_CALLED,
     probed = NOT_CALLED\<rparr>"

definition zero_pci_driver_state :: pci_driver_state_struct where
  "zero_pci_driver_state = \<lparr>bus_flag = 0, registered = NOT_CALLED, unregistered = NOT_CALLED,
     probed = NOT_CALLED, enabled = DEVICE_STATE_UNDEFINED\<rparr>"

definition zero_ndo_driver_state :: ndo_driver_state_struct where
  "zero_ndo_driver_state = \<lparr>net = 0, opened = NOT_CALLED, trans_start_check = 0,
     register_netdev = NOT_CALLED, unregister_netdev = NOT_CALLED, ndo_capable = NOT_CALLED,
     u2_napi_schedule = NOT_CALLED, netif_rx = NOT_CALLED, queue_state = 0\<rparr>"

text \<open>The two \<open>kmalloc\<close> calls of \<open>create_hashtable\<close>; the second is made when the first succeeds.\<close>

definition objs_create :: "('a test_state_scheme) act" where
  "objs_create = (\<lambda>s.
     (let n = kmalloc_calls s;
          m = (if kmalloc_ok s n then Suc (Suc n) else Suc n)
      in Inr (s\<lparr>kmalloc_calls := m,
           objs := create_hashtable (kmalloc_ok s n) (kmalloc_ok s (Suc n)) 16
             hash_from_key_fn hash_keys_equal_fn\<rparr>)))"

definition initialize_driver_state :: "('a test_state_scheme) check" where
  "initialize_driver_state = returning 0 (block
    [update (\<lambda>s. s\<lparr>blocking_context := replicate MAX_NESTING BLOCKING_UNDEFINED,
       blocking_context_current := 0, user_context := replicate MAX_NESTING USER_UNDEFINED,
       user_context_current := 0, device_irq_disabled := 0, objs := None, objs_dirty := 0\<rparr>),
     objs_create,
     update (\<lambda>s. s\<lparr>objs_dirty := 0\<rparr>),
     set_driver_class DRIVER_UNKNOWN_CLASS,
     init_driver_bus,
     update (\<lambda>s. s\<lparr>pci_driver_state := zero_pci_driver_state, usb_driver_state := zero_driver_state,
       misc_driver_state := zero_driver_state, proto_ops_state := zero_driver_state,
       i2c_driver_state := zero_driver_state, platform_driver_state := zero_driver_state,
       spi_driver_state := zero_driver_state, ndo_driver_state := zero_ndo_driver_state,
       sound_driver_state := \<lparr>sound = 0\<rparr>\<rparr>),
     set_blocking_state BLOCKING_UNDEFINED,
     set_user_state USER_UNDEFINED])"

text \<open>The frees of \<open>hashtable_destroy(objs, 1)\<close> are the value handed back.\<close>

definition free_driver_state :: "((hkey, hvalue) freed list, 'a test_state_scheme) prog" where
  "free_driver_state = (\<lambda>s. case objs s of
       None \<Rightarrow> Inl Null_Deref
     | Some h \<Rightarrow> Inr (hashtable_destroy h True, s\<lparr>objs := None\<rparr>))"

section \<open>Allocation and free\<close>

definition assert_allocated_weak :: "ulong \<Rightarrow> ulong \<Rightarrow> ('a test_state_scheme) act" where
  "assert_allocated_weak obj minsize = reading (objs_search (objs_key obj)) (\<lambda>on_heap.
     case on_heap of
       None \<Rightarrow> skip
     | Some v \<Rightarrow> if obj_size v < minsize then tf_fail ''buffer not big enough'' else skip)"

definition assert_allocated :: "u32 \<Rightarrow> ulong \<Rightarrow> ('a test_state_scheme) act" where
  "assert_allocated org obj = reading (objs_search (objs_key obj)) (\<lambda>on_heap.
     case on_heap of
       None \<Rightarrow> tf_fail ''buffer not allocated on the heap''
     | Some v \<Rightarrow>
         if origin v AND org = 0 then tf_fail ''buffer not allocated via this origin'' else skip)"

definition generic_allocator ::
  "string \<Rightarrow> int \<Rightarrow> ulong \<Rightarrow> ulong \<Rightarrow> u32 \<Rightarrow> ('a test_state_scheme) act" where
  "generic_allocator fn prepost obj object_size org =
     (if prepost = 0 then
        tf_fail ''Only call generic_allocator along the post condition branch''
      else if prepost = 1 then
        cond (\<lambda>s. IS_ERR_VALUE s obj \<or> obj = 0) skip
          (with_result (objs_value fn org object_size 1) (\<lambda>value.
           with_result (objs_key_ptr obj) (\<lambda>key.
           reading (objs_search key) (\<lambda>existing_value. block
            [if existing_value \<noteq> None then tf_fail ''Allocator already records this object''
             else skip,
             objs_insert key value,
             assert_allocated org obj]))))
      else tf_fail ''0'')"

definition generic_free :: "int \<Rightarrow> ulong \<Rightarrow> u32 \<Rightarrow> ('a test_state_scheme) act" where
  "generic_free prepost obj org =
     (if prepost = 0 then
        with_result (objs_remove (objs_key obj)) (\<lambda>value.
          case value of
            Some v \<Rightarrow> if origin v AND org = 0 then tf_fail ''Object origin'' else skip
          | None \<Rightarrow> tf_fail ''Freeing something that we never allocated'')
      else if prepost = 1 then
        tf_fail ''Only call generic_free along the precondition branch''
      else tf_fail ''0'')"

section \<open>Invariant and abstraction\<close>

text \<open>The lock states of an object held with at most one type of lock.\<close>

definition lock_vector :: "lock_type option \<Rightarrow> int list" where
  "lock_vector h = (case h of
       None \<Rightarrow> replicate NUM_LOCK_TYPES 0
     | Some t \<Rightarrow> (replicate NUM_LOCK_TYPES 0)[lock_index t := 1])"

definition value_ok :: "hvalue \<Rightarrow> bool" where
  "value_ok v \<longleftrightarrow> (\<exists>h. lock_state v = lock_vector h)"

definition table_ok :: "(hkey, hvalue) hashtable \<Rightarrow> bool" where
  "table_ok h \<longleftrightarrow> ht_inv h \<and> (\<forall>k \<in> dom (ht_map h). object k \<noteq> 0) \<and>
     (\<forall>v \<in> ran (ht_map h). value_ok v)"

definition tracker_ok :: "'a test_state_scheme \<Rightarrow> bool" where
  "tracker_ok s \<longleftrightarrow> (\<exists>h. objs s = Some h \<and> table_ok h)"

definition tracked :: "'a test_state_scheme \<Rightarrow> hkey \<rightharpoonup> hvalue" where
  "tracked s = (case objs s of None \<Rightarrow> Map.empty | Some h \<Rightarrow> ht_map h)"

lemma tracker_okE:
  assumes "tracker_ok s"
  obtains h where "objs s = Some h" and "table_ok h" and "ht_inv h" and "tracked s = ht_map h"
  using assms by (auto simp: tracker_ok_def table_ok_def tracked_def)

lemma tracked_value_ok: "tracker_ok s \<Longrightarrow> tracked s k = Some v \<Longrightarrow> value_ok v"
  by (auto simp: tracker_ok_def table_ok_def tracked_def) (metis ranI)

lemma objs_search_tracked: "tracker_ok s \<Longrightarrow> objs_search k s = Inr (tracked s k)"
  by (auto simp: objs_search_def ht.look_view elim!: tracker_okE)

text \<open>Addresses are 32-bit and never 0, so the count of entries cannot wrap.\<close>

lemma table_room:
  assumes "table_ok h" and "ht_map h k = None" and "object k \<noteq> 0"
  shows "unat (hashtable_count h) + 1 < 2 ^ 32"
proof (rule ht.room)
  show "inj (object :: hkey \<Rightarrow> ulong)" by (rule injI) (metis hkey.surjective old.unit.exhaust)
qed (use assms in \<open>simp_all add: table_ok_def\<close>)

lemma value_ok_fresh: "value_ok \<lparr>origin_str = str, origin = org, obj_size = sz, new_object = new,
    lock_state = replicate NUM_LOCK_TYPES 0\<rparr>"
  by (auto simp: value_ok_def lock_vector_def intro!: exI [of _ None])

lemma objs_hashtable_insert_spec:
  assumes ok: "tracker_ok s" and new: "tracked s k = None" and nz: "object k \<noteq> 0" and v: "value_ok v"
    and run: "objs_hashtable_insert k v s = Inr (r, t)"
  shows "tracker_ok t" and "tracked t = (if r = 0 then tracked s else (tracked s)(k \<mapsto> v))"
    and "t = s\<lparr>kmalloc_calls := kmalloc_calls t, objs := objs t\<rparr>"
proof -
  from ok obtain h where h: "objs s = Some h" "table_ok h" "ht_inv h" "tracked s = ht_map h"
    by (rule tracker_okE)
  let ?m = "if will_expand h then Suc (kmalloc_calls s) else kmalloc_calls s"
  let ?i = "hashtable_insert (kmalloc_ok s (kmalloc_calls s)) (kmalloc_ok s ?m) h k v"
  have t: "t = s\<lparr>kmalloc_calls := Suc ?m, objs := Some (snd ?i)\<rparr>" and r: "r = fst ?i"
    using run by (auto simp: objs_hashtable_insert_def h(1) Let_def split: prod.splits)
  have new': "ht_map h k = None" using new h(4) by simp
  note room = table_room [OF h(2) new' nz]
  have *: "table_ok (snd ?i) \<and> ht_map (snd ?i) = (if r = 0 then ht_map h else (ht_map h)(k \<mapsto> v))"
  proof (cases "kmalloc_ok s ?m")
    case True
    with ht.put_ok [OF h(3) new' room, of "kmalloc_ok s (kmalloc_calls s)" v] r
    show ?thesis using h(2) nz v by (auto simp: table_ok_def ran_def split: if_splits)
  next
    case False
    with ht.put_fails [OF h(3), of "kmalloc_ok s (kmalloc_calls s)" k v] r
    show ?thesis using h(2) by (auto simp: table_ok_def)
  qed
  then show "tracker_ok t" and "tracked t = (if r = 0 then tracked s else (tracked s)(k \<mapsto> v))"
    by (simp_all add: t tracker_ok_def tracked_def h(1))
  show "t = s\<lparr>kmalloc_calls := kmalloc_calls t, objs := objs t\<rparr>" by (simp add: t)
qed

lemma objs_hashtable_insert_ok:
  assumes ok: "tracker_ok s" and new: "tracked s k = None" and nz: "object k \<noteq> 0"
    and mem: "\<forall>n. kmalloc_ok s n"
  shows "\<exists>t. objs_hashtable_insert k v s = Inr (-1, t)"
proof -
  from ok obtain h where h: "objs s = Some h" "table_ok h" "ht_inv h" "tracked s = ht_map h"
    by (rule tracker_okE)
  have new': "ht_map h k = None" using new h(4) by simp
  from ht.put_ok [OF h(3) new' table_room [OF h(2) new' nz], of True v] mem
  show ?thesis by (auto simp: objs_hashtable_insert_def h(1) Let_def split: prod.splits)
qed

lemma objs_remove_spec:
  assumes ok: "tracker_ok s"
  shows "\<exists>t. objs_remove k s = Inr (tracked s k, t) \<and> tracker_ok t \<and>
    tracked t = (tracked s)(k := None) \<and> t = s\<lparr>objs := objs t\<rparr>"
proof -
  from ok obtain h where h: "objs s = Some h" "table_ok h" "ht_inv h" "tracked s = ht_map h"
    by (rule tracker_okE)
  note r = ht.del_view [OF h(3), of k]
  have "table_ok (snd (hashtable_remove h k))"
    using r h(2) by (auto simp: table_ok_def ran_def split: if_splits)
  then show ?thesis using r
    by (auto simp: objs_remove_def h(1,4) tracker_ok_def tracked_def split: prod.split)
qed

lemma objs_poke_spec:
  assumes ok: "tracker_ok s" and "tracked s k \<noteq> None" and v: "value_ok v"
  shows "\<exists>t. objs_poke k v s = Inr t \<and> tracker_ok t \<and> tracked t = (tracked s)(k \<mapsto> v) \<and>
    t = s\<lparr>objs := objs t\<rparr>"
proof -
  from ok obtain h where h: "objs s = Some h" "table_ok h" "ht_inv h" "tracked s = ht_map h"
    by (rule tracker_okE)
  have c: "ht_inv (hashtable_poke h k v)" "ht_map (hashtable_poke h k v) = (ht_map h)(k \<mapsto> v)"
    using ht.chg_view [OF h(3), of k v] assms(2) by (auto simp: hashtable_poke_def h(4))
  have "table_ok (hashtable_poke h k v)"
    using c h(2,4) assms(2) v by (auto simp: table_ok_def ran_def split: if_splits)
  then show ?thesis using c(2) by (simp add: objs_poke_def h(1,4) tracker_ok_def tracked_def)
qed


text \<open>The end of an outermost driver call ages every tracked object and changes nothing else.\<close>

definition aged :: "hvalue \<Rightarrow> hvalue" where
  "aged v = v\<lparr>new_object := 0\<rparr>"

lemma objs_enumerate_total:
  assumes ok: "tracker_ok s" and keep: "\<And>k v. value_ok v \<Longrightarrow> value_ok (f k v)"
  shows "\<exists>t. objs_enumerate (\<lambda>_ k v. Inr (f k v)) s = Inr t \<and> tracker_ok t \<and>
    tracked t = (\<lambda>k. map_option (f k) (tracked s k)) \<and> t = s\<lparr>objs := objs t\<rparr>"
proof -
  from ok obtain h where h: "objs s = Some h" "table_ok h" "ht_inv h" "tracked s = ht_map h"
    by (rule tracker_okE)
  obtain g where g: "hashtable_enumerate h (Some (\<lambda>k v. Inr (f k v))) = Inr g"
    by (simp add: hashtable_enumerate_def enum_table_total)
  note g' = hashtable_enumerate_total [OF h(3) g]
  have m: "ht_map g = (\<lambda>k. map_option (f k) (ht_map h k))" by (rule ext) (rule g'(2))
  have "table_ok g"
    using g'(1) h(2) keep by (auto simp: table_ok_def m ran_def dom_def)
  then show ?thesis using g by (simp add: objs_enumerate_def h(1,4) tracker_ok_def tracked_def m)
qed

lemma reset_new_objects_run:
  assumes ok: "tracker_ok s"
  shows "\<exists>t. reset_new_objects s = Inr t \<and> tracker_ok t \<and>
    tracked t = (if objs_dirty s = 0 then tracked s else (\<lambda>k. map_option aged (tracked s k))) \<and>
    objs_dirty t = 0 \<and> t = s\<lparr>objs := objs t, objs_dirty := 0\<rparr>"
proof (cases "objs_dirty s = 0")
  case True
  then show ?thesis using ok by (simp add: reset_new_objects_def)
next
  case False
  have keep: "\<And>v. value_ok v \<Longrightarrow> value_ok (aged v)" by (simp add: value_ok_def aged_def)
  have "(\<lambda>_ :: 'a test_state_scheme. hash_reset_objs_state) = (\<lambda>_ k v. Inr (aged v))"
    by (simp add: fun_eq_iff hash_reset_objs_state_def aged_def)
  then have fn: "objs_enumerate (\<lambda>_. hash_reset_objs_state) s = objs_enumerate (\<lambda>_ k v. Inr (aged v)) s"
    by simp
  obtain t
    where t: "objs_enumerate (\<lambda>_ k v. Inr (aged v)) s = Inr t" "tracker_ok t"
      "tracked t = (\<lambda>k. map_option aged (tracked s k))" "t = s\<lparr>objs := objs t\<rparr>"
    using objs_enumerate_total [OF ok, of "\<lambda>_. aged", OF keep] by blast
  from t(4) obtain x where x: "t = s\<lparr>objs := x\<rparr>" by blast
  have run: "reset_new_objects s = Inr (s\<lparr>objs := x, objs_dirty := 0\<rparr>)"
    using False t(1) by (simp add: reset_new_objects_def fn x)
  have "tracker_ok (s\<lparr>objs := x, objs_dirty := 0\<rparr>)" using t(2) by (simp add: x tracker_ok_def)
  moreover have "tracked (s\<lparr>objs := x, objs_dirty := 0\<rparr>) = (\<lambda>k. map_option aged (tracked s k))"
    using t(3) by (simp add: x tracked_def)
  ultimately show ?thesis using False run by (intro exI [of _ "s\<lparr>objs := x, objs_dirty := 0\<rparr>"]) simp
qed

section \<open>Allocation and free against their specification\<close>

text \<open>
  What the tracker promises, over the map from addresses to tracked values: an allocation is
  ignored for an error pointer or \<open>NULL\<close>, refused when the address is already live or the
  size is insane, and recorded otherwise; a free must hit a live address of one of the origins
  given, and deletes it.
\<close>

datatype mem_op = Alloc string ulong ulong u32 | Free ulong u32

definition insane_size :: "ulong \<Rightarrow> bool" where
  "insane_size sz \<longleftrightarrow> (sz = 0 \<or> sz > 10000000) \<and> sz \<noteq> -1"

definition fn_name_ok :: "string \<Rightarrow> bool" where
  "fn_name_ok fn \<longleftrightarrow> fn \<noteq> [] \<and> length fn \<le> 65"

definition new_value :: "string \<Rightarrow> u32 \<Rightarrow> ulong \<Rightarrow> int \<Rightarrow> hvalue" where
  "new_value fn org sz new = \<lparr>origin_str = take (length fn - 1) fn, origin = org, obj_size = sz,
     new_object = new, lock_state = replicate NUM_LOCK_TYPES 0\<rparr>"

fun alloc_step :: "(ulong \<Rightarrow> bool) \<Rightarrow> (hkey \<rightharpoonup> hvalue) \<Rightarrow> mem_op \<Rightarrow> (hkey \<rightharpoonup> hvalue) option" where
  "alloc_step is_err m (Alloc fn obj sz org) =
     (if is_err obj \<or> obj = 0 then Some m
      else if m (objs_key obj) \<noteq> None \<or> insane_size sz \<or> \<not> fn_name_ok fn \<or> org = 0 then None
      else Some (m(objs_key obj \<mapsto> new_value fn org sz 1)))"
| "alloc_step is_err m (Free obj org) =
     (case m (objs_key obj) of
        None \<Rightarrow> None
      | Some v \<Rightarrow> if origin v AND org = 0 then None else Some (m(objs_key obj := None)))"

fun alloc_run :: "(ulong \<Rightarrow> bool) \<Rightarrow> (hkey \<rightharpoonup> hvalue) \<Rightarrow> mem_op list \<Rightarrow> (hkey \<rightharpoonup> hvalue) option" where
  "alloc_run is_err m [] = Some m"
| "alloc_run is_err m (p # ps) =
     (case alloc_step is_err m p of None \<Rightarrow> None | Some m' \<Rightarrow> alloc_run is_err m' ps)"

fun mem_act ::
  "(string \<Rightarrow> ulong \<Rightarrow> ulong \<Rightarrow> u32 \<Rightarrow> 's act) \<Rightarrow> (ulong \<Rightarrow> u32 \<Rightarrow> 's act) \<Rightarrow> mem_op \<Rightarrow> 's act" where
  "mem_act alloc free (Alloc fn obj sz org) = alloc fn obj sz org"
| "mem_act alloc free (Free obj org) = free obj org"

locale resource_tracker =
  fixes ok :: "'s \<Rightarrow> bool"
    and view :: "'s \<Rightarrow> hkey \<rightharpoonup> hvalue"
    and is_err :: "'s \<Rightarrow> ulong \<Rightarrow> bool"
    and alloc :: "string \<Rightarrow> ulong \<Rightarrow> ulong \<Rightarrow> u32 \<Rightarrow> 's act"
    and free :: "ulong \<Rightarrow> u32 \<Rightarrow> 's act"
  assumes alloc_some: "ok s \<Longrightarrow> alloc_step (is_err s) (view s) (Alloc fn obj sz org) = Some m \<Longrightarrow>
      \<exists>t. alloc fn obj sz org s = Inr t \<and> ok t \<and> view t = m \<and> is_err t = is_err s"
    and alloc_none: "ok s \<Longrightarrow> alloc_step (is_err s) (view s) (Alloc fn obj sz org) = None \<Longrightarrow>
      \<exists>e. alloc fn obj sz org s = Inl e"
    and free_some: "ok s \<Longrightarrow> alloc_step (is_err s) (view s) (Free obj org) = Some m \<Longrightarrow>
      \<exists>t. free obj org s = Inr t \<and> ok t \<and> view t = m \<and> is_err t = is_err s"
    and free_none: "ok s \<Longrightarrow> alloc_step (is_err s) (view s) (Free obj org) = None \<Longrightarrow>
      \<exists>e. free obj org s = Inl e"
begin

lemma step_some:
  "ok s \<Longrightarrow> alloc_step (is_err s) (view s) p = Some m \<Longrightarrow>
   \<exists>t. mem_act alloc free p s = Inr t \<and> ok t \<and> view t = m \<and> is_err t = is_err s"
  using alloc_some free_some by (cases p) (simp_all del: alloc_step.simps)

lemma step_none:
  "ok s \<Longrightarrow> alloc_step (is_err s) (view s) p = None \<Longrightarrow> \<exists>e. mem_act alloc free p s = Inl e"
  using alloc_none free_none by (cases p) (simp_all del: alloc_step.simps)

lemma run_some:
  "ok s \<Longrightarrow> alloc_run (is_err s) (view s) ps = Some m \<Longrightarrow>
   \<exists>t. block (map (mem_act alloc free) ps) s = Inr t \<and> ok t \<and> view t = m"
proof (induction ps arbitrary: s)
  case Nil
  then show ?case by simp
next
  case (Cons p ps)
  then obtain m' where m': "alloc_step (is_err s) (view s) p = Some m'" "alloc_run (is_err s) m' ps = Some m"
    by (auto split: option.splits)
  from step_some [OF Cons.prems(1) m'(1)] obtain t
    where t: "mem_act alloc free p s = Inr t" "ok t" "view t = m'" "is_err t = is_err s" by blast
  with Cons.IH [of t] m'(2) show ?case by simp
qed

lemma run_none:
  "ok s \<Longrightarrow> alloc_run (is_err s) (view s) ps = None \<Longrightarrow>
   \<exists>e. block (map (mem_act alloc free) ps) s = Inl e"
proof (induction ps arbitrary: s)
  case Nil
  then show ?case by simp
next
  case (Cons p ps)
  show ?case
  proof (cases "alloc_step (is_err s) (view s) p")
    case None
    with step_none [OF Cons.prems(1) None] show ?thesis by auto
  next
    case (Some m')
    with step_some [OF Cons.prems(1)] obtain t
      where t: "mem_act alloc free p s = Inr t" "ok t" "view t = m'" "is_err t = is_err s" by blast
    with Cons Some show ?thesis by simp
  qed
qed

lemma alloc_free_restores:
  assumes "ok s" and "view s (objs_key obj) = None" and "alloc fn obj sz org s = Inr t"
    and "\<not> is_err s obj" and "obj \<noteq> 0" and "org AND org' \<noteq> 0"
  shows "\<exists>u. free obj org' t = Inr u \<and> ok u \<and> view u = view s"
proof -
  have "alloc_step (is_err s) (view s) (Alloc fn obj sz org) \<noteq> None"
    using alloc_none [OF assms(1), of fn obj sz org] assms(3) by (auto simp del: alloc_step.simps)
  then obtain m where m: "alloc_step (is_err s) (view s) (Alloc fn obj sz org) = Some m" by blast
  then have mv: "m = (view s)(objs_key obj \<mapsto> new_value fn org sz 1)"
    using assms(4,5) by (auto split: if_splits)
  from alloc_some [OF assms(1) m] assms(3) have t: "ok t" "view t = m" by auto
  have "alloc_step (is_err t) (view t) (Free obj org') = Some (m(objs_key obj := None))"
    using assms(6) by (simp add: t(2) mv new_value_def)
  from free_some [OF t(1) this] assms(2) mv show ?thesis
    by (metis fun_upd_idem_iff fun_upd_upd)
qed

end

definition mem_ok :: "'a test_state_scheme \<Rightarrow> bool" where
  "mem_ok s \<longleftrightarrow> tracker_ok s \<and> (\<forall>n. kmalloc_ok s n) \<and> driver_name s \<noteq> ''ANDROID_A1026''"

lemma objs_value_run:
  "objs_value fn org sz new s =
     (if \<not> kmalloc_ok s (kmalloc_calls s) then Inl Null_Deref
      else if \<not> fn_name_ok fn then Inl Out_Of_Bounds
      else Inr (new_value fn org sz new, s\<lparr>kmalloc_calls := Suc (kmalloc_calls s)\<rparr>))"
  by (auto simp: objs_value_def mjr_kmalloc_def fn_name_ok_def new_value_def)

lemma objs_key_ptr_run:
  "objs_key_ptr obj s =
     (if kmalloc_ok s (kmalloc_calls s)
      then Inr (objs_key obj, s\<lparr>kmalloc_calls := Suc (kmalloc_calls s)\<rparr>) else Inl Null_Deref)"
  by (simp add: objs_key_ptr_def mjr_kmalloc_def)

lemma value_ok_new: "value_ok (new_value fn org sz new)"
  unfolding new_value_def by (rule value_ok_fresh)

lemma object_objs_key [simp]: "object (objs_key obj) = obj"
  by (simp add: objs_key_def)

lemma tracked_kmalloc [simp]:
  "tracked (s\<lparr>kmalloc_calls := n\<rparr>) = tracked s" "tracker_ok (s\<lparr>kmalloc_calls := n\<rparr>) = tracker_ok s"
  by (simp_all add: tracked_def tracker_ok_def)

lemma tracked_dirty [simp]:
  "tracked (s\<lparr>objs_dirty := n\<rparr>) = tracked s" "tracker_ok (s\<lparr>objs_dirty := n\<rparr>) = tracker_ok s"
  by (simp_all add: tracked_def tracker_ok_def)

lemma objs_insert_Inr:
  assumes ok: "tracker_ok s" and nz: "object k \<noteq> 0" and v: "value_ok v"
    and run: "objs_insert k v s = Inr t"
  shows "tracked s k = None" and "tracker_ok t" and "tracked t = (tracked s)(k \<mapsto> v)"
    and "insane_size (obj_size v) \<Longrightarrow> driver_name s = ''ANDROID_A1026''"
    and "t = s\<lparr>kmalloc_calls := kmalloc_calls t, objs := objs t, objs_dirty := 1\<rparr>"
proof -
  note sr = objs_search_tracked [OF ok, of k]
  show new: "tracked s k = None"
    using run by (cases "tracked s k = None") (simp_all add: objs_insert_def reading_def sr)
  show "insane_size (obj_size v) \<Longrightarrow> driver_name s = ''ANDROID_A1026''"
    using run by (auto simp: objs_insert_def reading_def sr new insane_size_def deref_def DISABLED_def
        split: if_splits)
  from run obtain r u where u: "objs_hashtable_insert k v s = Inr (r, u)" and t: "r \<noteq> 0" "t = u\<lparr>objs_dirty := 1\<rparr>"
    by (auto simp: objs_insert_def reading_def sr new deref_def with_result_def split: if_splits sum.splits)
  note h = objs_hashtable_insert_spec [OF ok new nz v u]
  show "tracker_ok t" and "tracked t = (tracked s)(k \<mapsto> v)" using h t by simp_all
  have "t = (s\<lparr>kmalloc_calls := kmalloc_calls u, objs := objs u\<rparr>)\<lparr>objs_dirty := 1\<rparr>"
    unfolding t(2) using h(3) by (rule arg_cong)
  moreover have "kmalloc_calls u = kmalloc_calls t" "objs u = objs t" by (simp_all add: t(2))
  ultimately show "t = s\<lparr>kmalloc_calls := kmalloc_calls t, objs := objs t, objs_dirty := 1\<rparr>" by simp
qed

lemma objs_insert_ok:
  assumes "mem_ok s" and "tracked s k = None" and "object k \<noteq> 0" and "\<not> insane_size (obj_size v)"
  shows "\<exists>t. objs_insert k v s = Inr t"
proof -
  have ok: "tracker_ok s" and mem: "\<forall>n. kmalloc_ok s n" using assms(1) by (simp_all add: mem_ok_def)
  from objs_hashtable_insert_ok [OF ok assms(2,3) mem, of v] obtain t
    where "objs_hashtable_insert k v s = Inr (-1, t)" ..
  then show ?thesis using assms(4)
    by (auto simp: objs_insert_def reading_def objs_search_tracked [OF ok] assms(2) insane_size_def
        with_result_def)
qed

lemma assert_allocated_run:
  "tracker_ok s \<Longrightarrow> assert_allocated org obj s =
     (case tracked s (objs_key obj) of
        None \<Rightarrow> tf_fail ''buffer not allocated on the heap'' s
      | Some v \<Rightarrow> if origin v AND org = 0 then tf_fail ''buffer not allocated via this origin'' s else Inr s)"
  by (simp add: assert_allocated_def reading_def objs_search_tracked split: option.split)

lemma generic_allocator_Inr:
  assumes ok: "tracker_ok s" and run: "generic_allocator fn 1 obj sz org s = Inr t"
  shows "tracker_ok t"
    and "if IS_ERR_VALUE s obj \<or> obj = 0 then t = s
      else tracked s (objs_key obj) = None \<and> fn_name_ok fn \<and> org \<noteq> 0 \<and>
        (insane_size sz \<longrightarrow> driver_name s = ''ANDROID_A1026'') \<and>
        tracked t = (tracked s)(objs_key obj \<mapsto> new_value fn org sz 1) \<and>
        t = s\<lparr>kmalloc_calls := kmalloc_calls t, objs := objs t, objs_dirty := 1\<rparr>"
proof -
  have "tracker_ok t \<and> (if IS_ERR_VALUE s obj \<or> obj = 0 then t = s
      else tracked s (objs_key obj) = None \<and> fn_name_ok fn \<and> org \<noteq> 0 \<and>
        (insane_size sz \<longrightarrow> driver_name s = ''ANDROID_A1026'') \<and>
        tracked t = (tracked s)(objs_key obj \<mapsto> new_value fn org sz 1) \<and>
        t = s\<lparr>kmalloc_calls := kmalloc_calls t, objs := objs t, objs_dirty := 1\<rparr>)"
  proof (cases "IS_ERR_VALUE s obj \<or> obj = 0")
    case True
    with run ok show ?thesis by (auto simp: generic_allocator_def)
  next
    case False
    let ?s2 = "s\<lparr>kmalloc_calls := Suc (Suc (kmalloc_calls s))\<rparr>"
    let ?v = "new_value fn org sz 1" and ?k = "objs_key obj"
    have ok2: "tracker_ok ?s2" using ok by simp
    have fn: "fn_name_ok fn" and body: "block [objs_insert ?k ?v, assert_allocated org obj] ?s2 = Inr t"
      using run False
      by (auto simp: generic_allocator_def with_result_def objs_value_run objs_key_ptr_run reading_def
          objs_search_tracked [OF ok2] split: if_splits)
    from body obtain u where u: "objs_insert ?k ?v ?s2 = Inr u" and a: "assert_allocated org obj u = Inr t"
      by (auto split: sum.splits)
    have nz: "object ?k \<noteq> 0" using False by simp
    note ins = objs_insert_Inr [OF ok2 nz value_ok_new u]
    have t: "t = u" and org: "org \<noteq> 0"
      using a by (auto simp: assert_allocated_run [OF ins(2)] ins(3) new_value_def split: if_splits)
    have "t = s\<lparr>kmalloc_calls := kmalloc_calls t, objs := objs t, objs_dirty := 1\<rparr>"
      using ins(5) t by simp
    then show ?thesis using ins(1-4) t fn org False by (simp add: new_value_def)
  qed
  then show "tracker_ok t"
    and "if IS_ERR_VALUE s obj \<or> obj = 0 then t = s
      else tracked s (objs_key obj) = None \<and> fn_name_ok fn \<and> org \<noteq> 0 \<and>
        (insane_size sz \<longrightarrow> driver_name s = ''ANDROID_A1026'') \<and>
        tracked t = (tracked s)(objs_key obj \<mapsto> new_value fn org sz 1) \<and>
        t = s\<lparr>kmalloc_calls := kmalloc_calls t, objs := objs t, objs_dirty := 1\<rparr>" by blast+
qed

lemma generic_allocator_ok:
  assumes "mem_ok s" and "\<not> (IS_ERR_VALUE s obj \<or> obj = 0)" and "tracked s (objs_key obj) = None"
    and "\<not> insane_size sz" and "fn_name_ok fn" and "org \<noteq> 0"
  shows "\<exists>t. generic_allocator fn 1 obj sz org s = Inr t"
proof -
  let ?s2 = "s\<lparr>kmalloc_calls := Suc (Suc (kmalloc_calls s))\<rparr>"
  let ?v = "new_value fn org sz 1" and ?k = "objs_key obj"
  have m2: "mem_ok ?s2" and ok2: "tracker_ok ?s2" and mem: "\<forall>n. kmalloc_ok s n"
    using assms(1) by (simp_all add: mem_ok_def)
  have sz: "\<not> insane_size (obj_size ?v)" using assms(4) by (simp add: new_value_def)
  have "\<exists>u. objs_insert ?k ?v ?s2 = Inr u"
    by (rule objs_insert_ok [OF m2 _ _ sz]) (use assms in simp_all)
  then obtain u where u: "objs_insert ?k ?v ?s2 = Inr u" ..
  have nz: "object ?k \<noteq> 0" using assms(2) by simp
  note ins = objs_insert_Inr [OF ok2 nz value_ok_new u]
  have "assert_allocated org obj u = Inr u"
    using assms(6) by (simp add: assert_allocated_run [OF ins(2)] ins(3) new_value_def)
  then show ?thesis using assms(2,3,5) mem u
    by (simp add: generic_allocator_def with_result_def objs_value_run objs_key_ptr_run reading_def
        objs_search_tracked [OF ok2])
qed

lemma generic_free_run:
  assumes ok: "tracker_ok s"
  shows "\<exists>t. tracker_ok t \<and> tracked t = (tracked s)(objs_key obj := None) \<and> t = s\<lparr>objs := objs t\<rparr> \<and>
    generic_free 0 obj org s =
      (case tracked s (objs_key obj) of
         None \<Rightarrow> tf_fail ''Freeing something that we never allocated'' t
       | Some v \<Rightarrow> if origin v AND org = 0 then tf_fail ''Object origin'' t else Inr t)"
  using objs_remove_spec [OF ok, of "objs_key obj"]
  by (auto simp: generic_free_def with_result_def split: option.split)

lemma generic_free_Inr:
  assumes ok: "tracker_ok s" and run: "generic_free 0 obj org s = Inr t"
  shows "tracker_ok t" and "tracked t = (tracked s)(objs_key obj := None)" and "t = s\<lparr>objs := objs t\<rparr>"
    and "\<exists>v. tracked s (objs_key obj) = Some v \<and> origin v AND org \<noteq> 0"
proof -
  obtain u where u: "tracker_ok u" "tracked u = (tracked s)(objs_key obj := None)" "u = s\<lparr>objs := objs u\<rparr>"
    "generic_free 0 obj org s =
      (case tracked s (objs_key obj) of
         None \<Rightarrow> tf_fail ''Freeing something that we never allocated'' u
       | Some v \<Rightarrow> if origin v AND org = 0 then tf_fail ''Object origin'' u else Inr u)"
    using generic_free_run [OF ok, of obj org] by blast
  obtain v where v: "tracked s (objs_key obj) = Some v" "origin v AND org \<noteq> 0" "t = u"
    using u(4) run by (cases "tracked s (objs_key obj)") (simp_all split: if_splits)
  show "\<exists>v. tracked s (objs_key obj) = Some v \<and> origin v AND org \<noteq> 0" using v by blast
  show "tracker_ok t" "tracked t = (tracked s)(objs_key obj := None)" "t = s\<lparr>objs := objs t\<rparr>"
    using u(1-3) unfolding v(3) by simp_all
qed

interpretation objs: resource_tracker mem_ok tracked IS_ERR_VALUE "\<lambda>fn. generic_allocator fn 1" "generic_free 0"
proof unfold_locales
  fix s :: "'a test_state_scheme" and fn obj sz org m
  assume m: "mem_ok s"
  then have ok: "tracker_ok s" by (simp add: mem_ok_def)
  show "alloc_step (IS_ERR_VALUE s) (tracked s) (Alloc fn obj sz org) = Some m \<Longrightarrow>
    \<exists>t. generic_allocator fn 1 obj sz org s = Inr t \<and> mem_ok t \<and> tracked t = m \<and>
      IS_ERR_VALUE t = IS_ERR_VALUE s"
  proof -
    assume st: "alloc_step (IS_ERR_VALUE s) (tracked s) (Alloc fn obj sz org) = Some m"
    have "\<exists>t. generic_allocator fn 1 obj sz org s = Inr t"
    proof (cases "IS_ERR_VALUE s obj \<or> obj = 0")
      case True
      then show ?thesis by (auto simp: generic_allocator_def)
    next
      case False
      with st generic_allocator_ok [OF m False] show ?thesis by (simp split: if_splits)
    qed
    then obtain t where t: "generic_allocator fn 1 obj sz org s = Inr t" ..
    note g = generic_allocator_Inr [OF ok t]
    have "mem_ok t \<and> tracked t = m \<and> IS_ERR_VALUE t = IS_ERR_VALUE s"
    proof (cases "IS_ERR_VALUE s obj \<or> obj = 0")
      case True
      with g st m show ?thesis by auto
    next
      case False
      then have tt: "t = s\<lparr>kmalloc_calls := kmalloc_calls t, objs := objs t, objs_dirty := 1\<rparr>"
        using g(2) by simp
      have same: "kmalloc_ok t = kmalloc_ok s" "driver_name t = driver_name s" "IS_ERR_VALUE t = IS_ERR_VALUE s"
        by (subst tt, simp)+
      show ?thesis using False g st m same by (auto simp: mem_ok_def split: if_splits)
    qed
    with t show ?thesis by blast
  qed
  show "\<exists>e. generic_allocator fn 1 obj sz org s = Inl e"
    if none: "alloc_step (IS_ERR_VALUE s) (tracked s) (Alloc fn obj sz org) = None"
  proof (cases "generic_allocator fn 1 obj sz org s")
    case (Inr t)
    with generic_allocator_Inr(2) [OF ok Inr] none m show ?thesis
      by (auto simp: mem_ok_def split: if_splits)
  qed blast
  obtain u where u: "tracker_ok u" "tracked u = (tracked s)(objs_key obj := None)" "u = s\<lparr>objs := objs u\<rparr>"
    "generic_free 0 obj org s =
      (case tracked s (objs_key obj) of
         None \<Rightarrow> tf_fail ''Freeing something that we never allocated'' u
       | Some v \<Rightarrow> if origin v AND org = 0 then tf_fail ''Object origin'' u else Inr u)"
    using generic_free_run [OF ok, of obj org] by blast
  have same: "kmalloc_ok u = kmalloc_ok s" "driver_name u = driver_name s" "IS_ERR_VALUE u = IS_ERR_VALUE s"
    by (subst u(3), simp)+
  show "\<exists>t. generic_free 0 obj org s = Inr t \<and> mem_ok t \<and> tracked t = m \<and> IS_ERR_VALUE t = IS_ERR_VALUE s"
    if "alloc_step (IS_ERR_VALUE s) (tracked s) (Free obj org) = Some m"
    using that u m same by (auto simp: mem_ok_def split: option.splits if_splits)
  show "\<exists>e. generic_free 0 obj org s = Inl e"
    if "alloc_step (IS_ERR_VALUE s) (tracked s) (Free obj org) = None"
    using that u(4) by (auto simp: tf_fail_def tf_fail_no_detail_def split: option.splits if_splits)
qed

end
