(* ===== verification/Lock_Protocol.thy ===== *)
theory Lock_Protocol
  imports Object_Tracker
begin

text \<open>
  The locking protocol of \<open>test_state.c\<close>: every lock the driver uses is an object of the
  tracker whose \<open>lock_state\<close> array says with which kind of lock call it is held. A lock call is
  checked after it returns, an unlock call before it starts; spin locks and read-write locks push
  a non-blocking context while they are held, mutexes a blocking one.

  \<open>generic_lock_state\<close> calls itself when the lock is unknown. Its fuel counts these calls: two
  are enough before a kernel function, none is enough after one
  (\<open>generic_lock_state_fuel_enough\<close>, \<open>generic_lock_state_diverges\<close>).
\<close>

section \<open>Operations\<close>

definition generic_lock_allocator :: "string \<Rightarrow> int \<Rightarrow> ulong \<Rightarrow> u32 \<Rightarrow> ('a test_state_scheme) act" where
  "generic_lock_allocator fn prepost lock org =
     (if prepost = 0 then block
       [tfassert (\<lambda>_. lock \<noteq> 0) ''lock != NULL'',
        with_result (objs_key_ptr lock) (\<lambda>key.
        reading (objs_search key) (\<lambda>existing_value.
        with_result
          (case existing_value of
             Some existing \<Rightarrow> (\<lambda>s. case objs_remove key s of
                 Inl e \<Rightarrow> Inl e
               | Inr (_, t) \<Rightarrow> Inr (existing, t))
           | None \<Rightarrow> objs_value fn org (-1) 0) (\<lambda>value. block
          [objs_insert key value,
           reading (objs_search (objs_key lock)) (\<lambda>existing_value.
             tfassert (\<lambda>_. existing_value \<noteq> None) ''existing_value != NULL'')])))]
      else if prepost = 1 then skip
      else tf_fail ''0'')"

definition hash_check_lock :: "'a test_state_scheme \<Rightarrow> hkey \<Rightarrow> hvalue \<Rightarrow> tf_error + hvalue" where
  "hash_check_lock s key value =
     assert_value s (list_all (\<lambda>x. x = 0) (lock_state value)) ''Lock currently held'' value"

definition verify_all_locks_released :: "('a test_state_scheme) act" where
  "verify_all_locks_released = objs_enumerate hash_check_lock"

definition verify_lock_state :: "hvalue \<Rightarrow> ('a test_state_scheme) act" where
  "verify_lock_state value =
     (let found_locked = length (filter (\<lambda>x. x = 1) (lock_state value))
      in block
        [block (map (\<lambda>x. tfassert (\<lambda>_. x = 0 \<or> x = 1) ''Found lock_state'') (lock_state value)),
         tfassert (\<lambda>_. found_locked = 0 \<or> found_locked = 1) ''Too many locks''])"

definition lock_kernel_state :: "u32 \<Rightarrow> lock_type \<Rightarrow> int \<Rightarrow> ('a test_state_scheme) act" where
  "lock_kernel_state org lock_type add_this =
     (if lock_type = LOCK_UNDEFINED then tf_fail ''0''
      else if lock_type = SPIN_LOCK \<or> lock_type = SPIN_LOCK_BH \<or> lock_type = SPIN_LOCK_IRQSAVE \<or>
              lock_type = SPIN_LOCK_IRQ \<or> lock_type = RWLOCK then block
        [tfassert (\<lambda>_. org AND ORIGIN_SPIN_LOCK \<noteq> 0 \<or> org AND ORIGIN_RWLOCK \<noteq> 0)
           ''Expected ORIGIN_SPIN_LOCK || ORIGIN_RWLOCK'',
         if add_this > 0 then push_blocking_state BLOCKING_NO else pop_blocking_state]
      else if lock_type = MUTEX \<or> lock_type = RWSEM then block
        [tfassert (\<lambda>_. org AND ORIGIN_MUTEX \<noteq> 0 \<or> org AND ORIGIN_RWSEM \<noteq> 0)
           ''Expected ORIGIN_MUTEX || ORIGIN_RWSEM'',
         if add_this > 0 then block
           [tfassert (\<lambda>s. kernel_blocking_state s = BLOCKING_YES \<or>
                          kernel_blocking_state s = BLOCKING_UNDEFINED)
              ''Acquiring blocking lock on non-blocking path'',
            push_blocking_state BLOCKING_YES]
         else pop_blocking_state]
      else if lock_type = GENERIC_LOCK then skip
      else tf_fail ''0'')"

text \<open>\<open>value->lock_state[lock_type] += d\<close>\<close>

definition bump :: "lock_type \<Rightarrow> int \<Rightarrow> hvalue \<Rightarrow> hvalue" where
  "bump lt d v = v\<lparr>lock_state := (lock_state v)[lock_index lt := lock_state v ! lock_index lt + d]\<rparr>"

definition lock_acquired :: "hkey \<Rightarrow> hvalue \<Rightarrow> u32 \<Rightarrow> lock_type \<Rightarrow> ('a test_state_scheme) act" where
  "lock_acquired key value org lock_type =
     (let value' = bump lock_type 1 value in block
      [objs_poke key value',
       tfassert (\<lambda>_. lock_state value' ! lock_index lock_type = 1) ''Invalid lock state! 1 != %d'',
       verify_lock_state value',
       lock_kernel_state org lock_type 1])"

definition lock_released :: "hkey \<Rightarrow> hvalue \<Rightarrow> u32 \<Rightarrow> lock_type \<Rightarrow> ('a test_state_scheme) act" where
  "lock_released key value org lock_type =
     (let unlock_generic = (lock_state value ! lock_index GENERIC_LOCK = 1);
          value1 = (if unlock_generic then bump lock_type 1 (bump GENERIC_LOCK (-1) value) else value);
          value' = bump lock_type (-1) value1 in block
      [tfassert (\<lambda>_. lock_type \<noteq> GENERIC_LOCK) ''Not supporting generic unlock'',
       objs_poke key value',
       tfassert (\<lambda>_. lock_state value' ! lock_index lock_type = 0) ''Invalid lock state! 0 != %d'',
       verify_lock_state value',
       if unlock_generic then lock_kernel_state org GENERIC_LOCK (-1)
       else lock_kernel_state org lock_type (-1)])"

fun generic_lock_state_fuel ::
  "nat \<Rightarrow> string \<Rightarrow> int \<Rightarrow> ulong \<Rightarrow> u32 \<Rightarrow> lock_type \<Rightarrow> int \<Rightarrow> ('a test_state_scheme) act" where
  "generic_lock_state_fuel 0 fn prepost lock org lock_type add_this = fail Stack_Overflow"
| "generic_lock_state_fuel (Suc n) fn prepost lock org lock_type add_this = block
    [tfassert (\<lambda>_. add_this = -1 \<or> add_this = 1) ''Either lock or free'',
     reading (objs_search (objs_key lock)) (\<lambda>v. case v of
       None \<Rightarrow> block
        [generic_lock_allocator fn prepost lock org,
         generic_lock_state_fuel n fn prepost lock org lock_type add_this]
     | Some value \<Rightarrow> block
        [tfassert (\<lambda>_. lock > 0x1000) ''Incorrect lock provided'',
         if prepost = 0 then
           (if add_this = -1 then lock_released (objs_key lock) value org lock_type else skip)
         else if prepost = 1 then
           (if add_this = -1 then skip else lock_acquired (objs_key lock) value org lock_type)
         else tf_fail ''0''])]"

definition generic_lock_state ::
  "string \<Rightarrow> int \<Rightarrow> ulong \<Rightarrow> u32 \<Rightarrow> lock_type \<Rightarrow> int \<Rightarrow> ('a test_state_scheme) act" where
  "generic_lock_state = generic_lock_state_fuel 2"

section \<open>Lock vectors\<close>

lemma length_lock_vector [simp]: "length (lock_vector h) = NUM_LOCK_TYPES"
  by (simp add: lock_vector_def split: option.split)

lemma lock_index_less [simp]: "lock_index t < NUM_LOCK_TYPES"
  by (cases t) (simp_all add: NUM_LOCK_TYPES_def)

lemma lock_index_inj: "lock_index a = lock_index b \<longleftrightarrow> a = b"
  by (cases a; cases b) simp_all

lemma lock_vector_nth: "lock_vector h ! lock_index t = (if h = Some t then 1 else 0)"
  by (auto simp: lock_vector_def nth_list_update lock_index_inj split: option.split)

lemma lock_vector_set: "set (lock_vector h) \<subseteq> {0, 1}"
proof (cases h)
  case None
  then show ?thesis by (auto simp: lock_vector_def)
next
  case (Some t)
  have "set ((replicate NUM_LOCK_TYPES 0)[lock_index t := 1]) \<subseteq> insert (1 :: int) (set (replicate NUM_LOCK_TYPES 0))"
    by (rule set_update_subset_insert)
  with Some show ?thesis by (auto simp: lock_vector_def)
qed

lemma lock_vector_inj: "lock_vector g = lock_vector h \<Longrightarrow> g = h"
proof -
  assume eq: "lock_vector g = lock_vector h"
  have "g = Some t \<longleftrightarrow> h = Some t" for t
    using arg_cong [OF eq, of "\<lambda>v. v ! lock_index t"] by (simp add: lock_vector_nth split: if_splits)
  then show "g = h" by (rule option_eqI)
qed

lemma lock_vector_take: "(lock_vector None)[lock_index t := 1] = lock_vector (Some t)"
  by (simp add: lock_vector_def)

lemma lock_vector_drop: "(lock_vector (Some t))[lock_index t := 0] = lock_vector None"
  by (simp add: lock_vector_def) (metis lock_index_less length_replicate list_update_id nth_replicate)

lemma filter_lock_vector: "length (filter (\<lambda>x. x = 1) (lock_vector h)) = (if h = None then 0 else 1)"
  by (cases h; (cases "the h")?) (simp_all add: lock_vector_def NUM_LOCK_TYPES_def numeral_eq_Suc)

text \<open>Two states set: the vectors \<open>verify_lock_state\<close> refuses.\<close>

lemma filter_two_locks:
  "a \<noteq> b \<Longrightarrow> length (filter (\<lambda>x. x = 1) ((lock_vector (Some a))[lock_index b := 1])) = 2"
  by (cases a; cases b) (simp_all add: lock_vector_def NUM_LOCK_TYPES_def numeral_eq_Suc)

section \<open>The lock calls\<close>

lemma block_tfasserts:
  "block (map (\<lambda>x. tfassert (\<lambda>_. Q x) m) xs) s = Inr t \<longleftrightarrow> t = s \<and> (\<forall>x \<in> set xs. Q x)"
  by (induction xs) auto

lemma verify_lock_state_Inr:
  "verify_lock_state v s = Inr t \<longleftrightarrow> t = s \<and> set (lock_state v) \<subseteq> {0, 1} \<and>
     length (filter (\<lambda>x. x = 1) (lock_state v)) \<le> 1"
  by (auto simp: verify_lock_state_def Let_def block_Cons_Inr block_tfasserts le_Suc_eq simp del: block.simps(2))

lemma bump_take: "lock_state v = lock_vector h \<Longrightarrow>
  lock_state (bump lt 1 v) = (lock_vector h)[lock_index lt := (if h = Some lt then 2 else 1)]"
  by (simp add: bump_def lock_vector_nth)

lemma bump_drop: "lock_state v = lock_vector h \<Longrightarrow>
  lock_state (bump lt (-1) v) = (lock_vector h)[lock_index lt := (if h = Some lt then 0 else -1)]"
  by (simp add: bump_def lock_vector_nth)

lemma bump_value: "bump lt d v = v\<lparr>lock_state := lock_state (bump lt d v)\<rparr>"
  by (simp add: bump_def)

lemma lock_acquired_Inr:
  assumes v: "lock_state v = lock_vector h" and run: "lock_acquired key v org lt s = Inr t"
  shows "h = None"
    and "\<exists>u. objs_poke key (v\<lparr>lock_state := lock_vector (Some lt)\<rparr>) s = Inr u \<and> lock_kernel_state org lt 1 u = Inr t"
proof -
  let ?v = "bump lt 1 v"
  from run obtain u where u: "objs_poke key ?v s = Inr u" "lock_state ?v ! lock_index lt = 1"
    "length (filter (\<lambda>x. x = 1) (lock_state ?v)) \<le> 1" "lock_kernel_state org lt 1 u = Inr t"
    by (auto simp: lock_acquired_def Let_def block_Cons_Inr verify_lock_state_Inr simp del: block.simps(2)
        split: sum.splits)
  have "h \<noteq> Some lt" using u(2) by (auto simp: bump_take [OF v])
  then have vec: "lock_state ?v = (lock_vector h)[lock_index lt := 1]" by (simp add: bump_take [OF v])
  show h: "h = None"
  proof (rule ccontr)
    assume "h \<noteq> None"
    with \<open>h \<noteq> Some lt\<close> obtain a where "h = Some a" "a \<noteq> lt" by auto
    with u(3) filter_two_locks [of a lt] show False by (simp add: vec)
  qed
  have "?v = v\<lparr>lock_state := lock_vector (Some lt)\<rparr>"
    by (subst bump_value) (simp add: vec h lock_vector_take)
  with u(1,4) show "\<exists>u. objs_poke key (v\<lparr>lock_state := lock_vector (Some lt)\<rparr>) s = Inr u \<and>
      lock_kernel_state org lt 1 u = Inr t" by auto
qed

lemma bump_unlock_generic:
  assumes "lock_state v = lock_vector (Some GENERIC_LOCK)" and "lt \<noteq> GENERIC_LOCK"
  shows "lock_state (bump lt (-1) (bump lt 1 (bump GENERIC_LOCK (-1) v))) = lock_vector None"
proof -
  have 1: "lock_state (bump GENERIC_LOCK (-1) v) = lock_vector None"
    using bump_drop [OF assms(1), of GENERIC_LOCK] lock_vector_drop [of GENERIC_LOCK] by simp
  have 2: "lock_state (bump lt 1 (bump GENERIC_LOCK (-1) v)) = lock_vector (Some lt)"
    using bump_take [OF 1, of lt] by (simp add: lock_vector_take)
  show ?thesis using bump_drop [OF 2, of lt] by (simp add: lock_vector_drop)
qed

lemma lock_released_Inr:
  assumes v: "lock_state v = lock_vector h" and run: "lock_released key v org lt s = Inr t"
  shows "lt \<noteq> GENERIC_LOCK" and "h = Some lt \<or> h = Some GENERIC_LOCK"
    and "\<exists>u. objs_poke key (v\<lparr>lock_state := lock_vector None\<rparr>) s = Inr u \<and>
      lock_kernel_state org (if h = Some GENERIC_LOCK then GENERIC_LOCK else lt) (-1) u = Inr t"
proof -
  have g: "(lock_state v ! lock_index GENERIC_LOCK = 1) = (h = Some GENERIC_LOCK)"
    by (simp only: v lock_vector_nth) simp
  let ?v1 = "if h = Some GENERIC_LOCK then bump lt 1 (bump GENERIC_LOCK (-1) v) else v"
  let ?v = "bump lt (-1) ?v1"
  from run obtain u where lt: "lt \<noteq> GENERIC_LOCK" and u: "objs_poke key ?v s = Inr u"
    "lock_state ?v ! lock_index lt = 0"
    "lock_kernel_state org (if h = Some GENERIC_LOCK then GENERIC_LOCK else lt) (-1) u = Inr t"
    by (cases "h = Some GENERIC_LOCK")
      (auto simp: lock_released_def Let_def g block_Cons_Inr verify_lock_state_Inr simp del: block.simps(2) lock_index.simps
        split: sum.splits)
  show "lt \<noteq> GENERIC_LOCK" by (rule lt)
  show h: "h = Some lt \<or> h = Some GENERIC_LOCK"
    using u(2) by (cases "h = Some GENERIC_LOCK") (auto simp: bump_drop [OF v] split: if_splits)
  have "lock_state ?v = lock_vector None"
    using h lt bump_unlock_generic [of v lt] v
    by (cases "h = Some GENERIC_LOCK") (auto simp: bump_drop lock_vector_drop)
  moreover have "?v = v\<lparr>lock_state := lock_state ?v\<rparr>" by (simp add: bump_def)
  ultimately have "?v = v\<lparr>lock_state := lock_vector None\<rparr>" by simp
  with u(1,3) show "\<exists>u. objs_poke key (v\<lparr>lock_state := lock_vector None\<rparr>) s = Inr u \<and>
      lock_kernel_state org (if h = Some GENERIC_LOCK then GENERIC_LOCK else lt) (-1) u = Inr t" by auto
qed

text \<open>What holding a lock of a type does to the kernel context.\<close>

fun lock_context :: "lock_type \<Rightarrow> blocking option" where
  "lock_context MUTEX = Some BLOCKING_YES"
| "lock_context RWSEM = Some BLOCKING_YES"
| "lock_context GENERIC_LOCK = None"
| "lock_context _ = Some BLOCKING_NO"

lemma lock_kernel_state_take:
  "lock_kernel_state org lt 1 s = Inr t \<Longrightarrow>
   (case lock_context lt of None \<Rightarrow> t = s | Some bc \<Rightarrow> push_blocking_state bc s = Inr t)"
  by (cases lt) (auto simp: lock_kernel_state_def split: if_splits sum.splits)

lemma lock_kernel_state_drop:
  "lock_kernel_state org lt (-1) s = Inr t \<Longrightarrow>
   (case lock_context lt of None \<Rightarrow> t = s | Some bc \<Rightarrow> pop_blocking_state s = Inr t)"
  by (cases lt) (auto simp: lock_kernel_state_def split: if_splits sum.splits)

lemma but_blocking_objs:
  assumes "but_blocking t = but_blocking s"
  shows "objs t = objs s" and "tracked t = tracked s" and "tracker_ok t = tracker_ok s"
proof -
  have "objs (but_blocking t) = objs (but_blocking s)" by (simp add: assms)
  then show "objs t = objs s" by (simp add: but_blocking_def)
  then show "tracked t = tracked s" and "tracker_ok t = tracker_ok s"
    by (simp_all add: tracked_def tracker_ok_def)
qed

lemma objs_frame [simp]:
  "blocking_ok (s\<lparr>objs := h\<rparr>) = blocking_ok s" "blocking_stack (s\<lparr>objs := h\<rparr>) = blocking_stack s"
  by (simp_all add: blocking_ok_def blocking_stack_def)

section \<open>Registering a lock\<close>

definition but_objs :: "'a test_state_scheme \<Rightarrow> 'a test_state_scheme" where
  "but_objs s = s\<lparr>kmalloc_calls := 0, objs := None, objs_dirty := 0\<rparr>"

lemma but_objs_update [simp]:
  "but_objs (s\<lparr>kmalloc_calls := n\<rparr>) = but_objs s" "but_objs (s\<lparr>objs := h\<rparr>) = but_objs s"
  "but_objs (s\<lparr>objs_dirty := d\<rparr>) = but_objs s"
  by (simp_all add: but_objs_def)

definition lock_allocator_tail :: "ulong \<Rightarrow> hvalue \<Rightarrow> ('a test_state_scheme) act" where
  "lock_allocator_tail lock value = block
    [objs_insert (objs_key lock) value,
     reading (objs_search (objs_key lock)) (\<lambda>existing_value.
       tfassert (\<lambda>_. existing_value \<noteq> None) ''existing_value != NULL'')]"

lemma lock_allocator_tail_Inr:
  assumes ok: "tracker_ok u" and v: "value_ok v" and nz: "lock \<noteq> 0"
    and run: "lock_allocator_tail lock v u = Inr t"
  shows "tracker_ok t \<and> tracked t = (tracked u)(objs_key lock \<mapsto> v) \<and> but_objs t = but_objs u"
proof -
  from run obtain w where w: "objs_insert (objs_key lock) v u = Inr w"
    and t: "reading (objs_search (objs_key lock)) (\<lambda>existing_value.
       tfassert (\<lambda>_. existing_value \<noteq> None) ''existing_value != NULL'') w = Inr t"
    by (auto simp: lock_allocator_tail_def split: sum.splits)
  have nzk: "object (objs_key lock) \<noteq> 0" using nz by simp
  note ins = objs_insert_Inr [OF ok nzk v w]
  have tw: "t = w" using t by (auto simp: reading_def objs_search_tracked [OF ins(2)] ins(3))
  have "but_objs w = but_objs u" by (subst ins(5)) simp
  then show ?thesis using ins(2,3) tw by simp
qed

lemma generic_lock_allocator_new:
  assumes ok: "tracker_ok s" and new: "tracked s (objs_key lock) = None"
    and run: "generic_lock_allocator fn 0 lock org s = Inr t"
  shows "lock \<noteq> 0" and "lock_allocator_tail lock (new_value fn org (-1) 0)
      (s\<lparr>kmalloc_calls := Suc (Suc (kmalloc_calls s))\<rparr>) = Inr t"
proof -
  have ok1: "tracker_ok (s\<lparr>kmalloc_calls := Suc (kmalloc_calls s)\<rparr>)" using ok by simp
  show "lock \<noteq> 0" using run by (auto simp: generic_lock_allocator_def split: if_splits)
  with run new show "lock_allocator_tail lock (new_value fn org (-1) 0)
      (s\<lparr>kmalloc_calls := Suc (Suc (kmalloc_calls s))\<rparr>) = Inr t"
    by (simp add: generic_lock_allocator_def lock_allocator_tail_def with_result_def objs_key_ptr_run reading_def objs_search_tracked [OF ok1] objs_value_run
        split: if_splits)
qed

lemma generic_lock_allocator_known:
  assumes ok: "tracker_ok s" and known: "tracked s (objs_key lock) = Some v"
    and run: "generic_lock_allocator fn 0 lock org s = Inr t"
  shows "lock \<noteq> 0" and "\<exists>u. tracker_ok u \<and> tracked u = (tracked s)(objs_key lock := None) \<and>
    but_objs u = but_objs s \<and> lock_allocator_tail lock v u = Inr t"
proof -
  let ?s1 = "s\<lparr>kmalloc_calls := Suc (kmalloc_calls s)\<rparr>"
  have ok1: "tracker_ok ?s1" using ok by simp
  show "lock \<noteq> 0" using run by (auto simp: generic_lock_allocator_def split: if_splits)
  from objs_remove_spec [OF ok1, of "objs_key lock"] obtain u
    where u: "objs_remove (objs_key lock) ?s1 = Inr (Some v, u)" "tracker_ok u"
      "tracked u = (tracked s)(objs_key lock := None)" "u = ?s1\<lparr>objs := objs u\<rparr>"
    using known by auto
  have "but_objs u = but_objs s" by (subst u(4)) simp
  moreover have "lock_allocator_tail lock v u = Inr t"
    using run known \<open>lock \<noteq> 0\<close> u(1)
    by (simp add: generic_lock_allocator_def lock_allocator_tail_def with_result_def objs_key_ptr_run reading_def objs_search_tracked [OF ok1] split: if_splits)
  ultimately show "\<exists>u. tracker_ok u \<and> tracked u = (tracked s)(objs_key lock := None) \<and>
    but_objs u = but_objs s \<and> lock_allocator_tail lock v u = Inr t" using u(2,3) by blast
qed

lemma generic_lock_allocator_Inr:
  assumes ok: "tracker_ok s" and run: "generic_lock_allocator fn 0 lock org s = Inr t"
  shows "tracker_ok t" and "lock \<noteq> 0" and "but_objs t = but_objs s"
    and "tracked t = (case tracked s (objs_key lock) of
          Some v \<Rightarrow> tracked s
        | None \<Rightarrow> (tracked s)(objs_key lock \<mapsto> new_value fn org (-1) 0))"
proof -
  have "tracker_ok t \<and> lock \<noteq> 0 \<and> but_objs t = but_objs s \<and> tracked t =
      (case tracked s (objs_key lock) of Some v \<Rightarrow> tracked s
        | None \<Rightarrow> (tracked s)(objs_key lock \<mapsto> new_value fn org (-1) 0))"
  proof (cases "tracked s (objs_key lock)")
    case None
    note n = generic_lock_allocator_new [OF ok None run]
    have "tracker_ok (s\<lparr>kmalloc_calls := Suc (Suc (kmalloc_calls s))\<rparr>)" using ok by simp
    from lock_allocator_tail_Inr [OF this value_ok_new n] None n(1) show ?thesis by simp
  next
    case (Some v)
    from generic_lock_allocator_known [OF ok Some run] obtain u
      where nz: "lock \<noteq> 0" and u: "tracker_ok u" "tracked u = (tracked s)(objs_key lock := None)"
        "but_objs u = but_objs s" "lock_allocator_tail lock v u = Inr t" by blast
    from lock_allocator_tail_Inr [OF u(1) tracked_value_ok [OF ok Some] nz u(4)] u(2,3) nz Some
    show ?thesis by auto
  qed
  then show "tracker_ok t" and "lock \<noteq> 0" and "but_objs t = but_objs s"
    and "tracked t = (case tracked s (objs_key lock) of Some v \<Rightarrow> tracked s
        | None \<Rightarrow> (tracked s)(objs_key lock \<mapsto> new_value fn org (-1) 0))" by blast+
qed

section \<open>Fuel\<close>

lemma generic_lock_state_known:
  assumes "tracker_ok s" and "tracked s (objs_key lock) \<noteq> None"
  shows "generic_lock_state_fuel (Suc n) fn prepost lock org lt add_this s =
    generic_lock_state_fuel (Suc m) fn prepost lock org lt add_this s"
  using assms by (auto simp: reading_def objs_search_tracked)

lemma generic_lock_state_unknown:
  assumes "tracker_ok s" and "tracked s (objs_key lock) = None"
  shows "generic_lock_state_fuel (Suc n) fn prepost lock org lt add_this s =
    (if add_this = -1 \<or> add_this = 1
     then case generic_lock_allocator fn prepost lock org s of
         Inl e \<Rightarrow> Inl e
       | Inr t \<Rightarrow> generic_lock_state_fuel n fn prepost lock org lt add_this t
     else tf_fail ''Either lock or free'' s)"
  using assms by (simp add: reading_def objs_search_tracked split: sum.split)

lemma generic_lock_state_fuel_enough:
  assumes ok: "tracker_ok s" and n: "2 \<le> n"
  shows "generic_lock_state_fuel n fn 0 lock org lt add_this s = generic_lock_state fn 0 lock org lt add_this s"
proof -
  obtain m where m: "n = Suc (Suc m)" using n le_Suc_ex [of 2 n] by auto
  have "generic_lock_state_fuel (Suc (Suc m)) fn 0 lock org lt add_this s =
      generic_lock_state_fuel (Suc (Suc 0)) fn 0 lock org lt add_this s"
  proof (cases "tracked s (objs_key lock)")
    case (Some v)
    then show ?thesis using generic_lock_state_known [OF ok, of lock "Suc m" _ _ _ _ _ "Suc 0"] by blast
  next
    case None
    have "generic_lock_state_fuel (Suc m) fn 0 lock org lt add_this t =
        generic_lock_state_fuel (Suc 0) fn 0 lock org lt add_this t"
      if t: "generic_lock_allocator fn 0 lock org s = Inr t" for t
    proof (rule generic_lock_state_known)
      show "tracker_ok t" by (rule generic_lock_allocator_Inr(1) [OF ok t])
      show "tracked t (objs_key lock) \<noteq> None"
        using generic_lock_allocator_Inr(4) [OF ok t] None by simp
    qed
    then show ?thesis
      unfolding generic_lock_state_unknown [OF ok None]
      by (cases "generic_lock_allocator fn 0 lock org s") (simp_all del: generic_lock_state_fuel.simps)
  qed
  then show ?thesis by (simp only: m generic_lock_state_def numeral_2_eq_2)
qed

lemma generic_lock_state_diverges:
  assumes ok: "tracker_ok s" and new: "tracked s (objs_key lock) = None" and "add_this = -1 \<or> add_this = 1"
  shows "generic_lock_state_fuel n fn 1 lock org lt add_this s = Inl Stack_Overflow"
proof (induction n)
  case 0
  show ?case by simp
next
  case (Suc n)
  then show ?case using assms
    by (simp add: generic_lock_state_unknown generic_lock_allocator_def del: generic_lock_state_fuel.simps(2))
qed

section \<open>Taking and releasing a known lock\<close>

lemma generic_lock_take:
  assumes ok: "tracker_ok s" and v: "tracked s (objs_key lock) = Some v" "lock_state v = lock_vector h"
    and run: "generic_lock_state fn 1 lock org lt 1 s = Inr t"
  shows "lock > 0x1000" and "h = None"
    and "\<exists>u. objs_poke (objs_key lock) (v\<lparr>lock_state := lock_vector (Some lt)\<rparr>) s = Inr u \<and>
      lock_kernel_state org lt 1 u = Inr t"
proof -
  have *: "lock > 0x1000 \<and> lock_acquired (objs_key lock) v org lt s = Inr t"
    using run by (simp add: generic_lock_state_def numeral_2_eq_2 reading_def objs_search_tracked [OF ok] v(1)
        split: if_splits)
  then show "lock > 0x1000" by simp
  show "h = None" and "\<exists>u. objs_poke (objs_key lock) (v\<lparr>lock_state := lock_vector (Some lt)\<rparr>) s = Inr u \<and>
      lock_kernel_state org lt 1 u = Inr t"
    using lock_acquired_Inr [OF v(2)] * by blast+
qed

lemma generic_lock_drop:
  assumes ok: "tracker_ok s" and v: "tracked s (objs_key lock) = Some v" "lock_state v = lock_vector h"
    and run: "generic_lock_state fn 0 lock org lt (-1) s = Inr t"
  shows "lock > 0x1000" and "lt \<noteq> GENERIC_LOCK" and "h = Some lt \<or> h = Some GENERIC_LOCK"
    and "\<exists>u. objs_poke (objs_key lock) (v\<lparr>lock_state := lock_vector None\<rparr>) s = Inr u \<and>
      lock_kernel_state org (if h = Some GENERIC_LOCK then GENERIC_LOCK else lt) (-1) u = Inr t"
proof -
  have *: "lock > 0x1000 \<and> lock_released (objs_key lock) v org lt s = Inr t"
    using run by (simp add: generic_lock_state_def numeral_2_eq_2 reading_def objs_search_tracked [OF ok] v(1)
        split: if_splits)
  then show "lock > 0x1000" by simp
  show "lt \<noteq> GENERIC_LOCK" and "h = Some lt \<or> h = Some GENERIC_LOCK"
    and "\<exists>u. objs_poke (objs_key lock) (v\<lparr>lock_state := lock_vector None\<rparr>) s = Inr u \<and>
      lock_kernel_state org (if h = Some GENERIC_LOCK then GENERIC_LOCK else lt) (-1) u = Inr t"
    using lock_released_Inr [OF v(2)] * by blast+
qed

text \<open>A lock call moves the object to held and pushes the context of its type.\<close>

lemma generic_lock_take_effect:
  assumes ok: "tracker_ok s" "blocking_ok s" and v: "tracked s (objs_key lock) = Some v"
    and run: "generic_lock_state fn 1 lock org lt 1 s = Inr t"
  shows "tracker_ok t" and "blocking_ok t"
    and "lock_state v = lock_vector None"
    and "tracked t = (tracked s)(objs_key lock \<mapsto> v\<lparr>lock_state := lock_vector (Some lt)\<rparr>)"
    and "blocking_stack t = (case lock_context lt of None \<Rightarrow> blocking_stack s | Some bc \<Rightarrow> bc # blocking_stack s)"
proof -
  obtain h where h: "lock_state v = lock_vector h"
    using tracked_value_ok [OF ok(1) v] by (auto simp: value_ok_def)
  note take = generic_lock_take [OF ok(1) v h run]
  let ?v = "v\<lparr>lock_state := lock_vector (Some lt)\<rparr>"
  have vok: "value_ok ?v" by (auto simp: value_ok_def)
  have some: "tracked s (objs_key lock) \<noteq> None" using v by simp
  from objs_poke_spec [OF ok(1) some vok] take(3) obtain u
    where u: "tracker_ok u" "tracked u = (tracked s)(objs_key lock \<mapsto> ?v)" "u = s\<lparr>objs := objs u\<rparr>"
      and k: "lock_kernel_state org lt 1 u = Inr t" by force
  have b: "blocking_ok u" "blocking_stack u = blocking_stack s"
    by (subst u(3), simp add: ok(2))+
  have "tracker_ok t \<and> blocking_ok t \<and> tracked t = tracked u \<and>
    blocking_stack t = (case lock_context lt of None \<Rightarrow> blocking_stack s | Some bc \<Rightarrow> bc # blocking_stack s)"
  proof (cases "lock_context lt")
    case None
    with lock_kernel_state_take [OF k] u b show ?thesis by simp
  next
    case (Some bc)
    with lock_kernel_state_take [OF k] have "push_blocking_state bc u = Inr t" by simp
    note p = blocking.push_Inr [OF b(1) this]
    from p have "but_blocking t = but_blocking u" by blast
    note f = but_blocking_objs [OF this]
    from p Some f u b show ?thesis by simp
  qed
  then show "tracker_ok t" and "blocking_ok t"
    and "tracked t = (tracked s)(objs_key lock \<mapsto> ?v)"
    and "blocking_stack t = (case lock_context lt of None \<Rightarrow> blocking_stack s | Some bc \<Rightarrow> bc # blocking_stack s)"
    using u(2) by simp_all
  show "lock_state v = lock_vector None" using h take(2) by simp
qed

lemma generic_lock_drop_effect:
  assumes ok: "tracker_ok s" "blocking_ok s" and v: "tracked s (objs_key lock) = Some v"
    and run: "generic_lock_state fn 0 lock org lt (-1) s = Inr t"
  shows "tracker_ok t" and "blocking_ok t"
    and "\<exists>h. (h = lt \<or> h = GENERIC_LOCK) \<and> lt \<noteq> GENERIC_LOCK \<and> lock_state v = lock_vector (Some h) \<and>
      blocking_stack t = (if lock_context h = None then blocking_stack s else tl (blocking_stack s))"
    and "tracked t = (tracked s)(objs_key lock \<mapsto> v\<lparr>lock_state := lock_vector None\<rparr>)"
proof -
  obtain h where h: "lock_state v = lock_vector h"
    using tracked_value_ok [OF ok(1) v] by (auto simp: value_ok_def)
  note drop = generic_lock_drop [OF ok(1) v h run]
  let ?v = "v\<lparr>lock_state := lock_vector None\<rparr>"
  let ?l = "if h = Some GENERIC_LOCK then GENERIC_LOCK else lt"
  have vok: "value_ok ?v" by (auto simp: value_ok_def)
  have some: "tracked s (objs_key lock) \<noteq> None" using v by simp
  from objs_poke_spec [OF ok(1) some vok] drop(4) obtain u
    where u: "tracker_ok u" "tracked u = (tracked s)(objs_key lock \<mapsto> ?v)" "u = s\<lparr>objs := objs u\<rparr>"
      and k: "lock_kernel_state org ?l (-1) u = Inr t" by force
  have b: "blocking_ok u" "blocking_stack u = blocking_stack s"
    by (subst u(3), simp add: ok(2))+
  have "tracker_ok t \<and> blocking_ok t \<and> tracked t = tracked u \<and>
    blocking_stack t = (if lock_context ?l = None then blocking_stack s else tl (blocking_stack s))"
  proof (cases "lock_context ?l")
    case None
    with lock_kernel_state_drop [OF k] u b show ?thesis by simp
  next
    case (Some bc)
    with lock_kernel_state_drop [OF k] have "pop_blocking_state u = Inr t" by simp
    note p = blocking.pop_Inr [OF b(1) this]
    from p have "but_blocking t = but_blocking u" by blast
    note f = but_blocking_objs [OF this]
    from p Some f u b show ?thesis by simp
  qed
  then show "tracker_ok t" and "blocking_ok t"
    and "tracked t = (tracked s)(objs_key lock \<mapsto> ?v)"
    and "\<exists>h. (h = lt \<or> h = GENERIC_LOCK) \<and> lt \<noteq> GENERIC_LOCK \<and> lock_state v = lock_vector (Some h) \<and>
      blocking_stack t = (if lock_context h = None then blocking_stack s else tl (blocking_stack s))"
    using u(2) drop(2,3) h by (auto split: if_splits)
qed

end
