(* ===== verification/Capability.thy ===== *)
theory Capability
  imports Driver_Bus
begin

text \<open>
  The remaining checks of \<open>test_state.c\<close>: whether an ioctl handler asked for the capability
  its command needs, and whether allocation flags fit the kernel context.
\<close>

definition MAX_IOCTL_CHECKS :: nat where "MAX_IOCTL_CHECKS = 4"

definition ioctl_req_cmd :: "'a kernel_env_scheme \<Rightarrow> int list" where
  "ioctl_req_cmd s = [SIOCGMIIREG s, SIOCSMIIREG s, SIOCDEVPRIVATE s + 2, SIOCSIFADDR s]"

definition ioctl_req_capable_param :: "'a kernel_env_scheme \<Rightarrow> int list" where
  "ioctl_req_capable_param s = [CAP_NET_ADMIN s, CAP_NET_ADMIN s, CAP_NET_ADMIN s, CAP_NET_ADMIN s]"

fun first_match :: "int \<Rightarrow> (int \<times> int) list \<Rightarrow> int" where
  "first_match cmd [] = -1"
| "first_match cmd ((c, p) # cs) = (if cmd = c then p else first_match cmd cs)"

definition capable_given_cmd :: "int \<Rightarrow> 'a kernel_env_scheme \<Rightarrow> int" where
  "capable_given_cmd cmd s =
     first_match cmd (take MAX_IOCTL_CHECKS (zip (ioctl_req_cmd s) (ioctl_req_capable_param s)))"

definition ioctl_called_capable :: "int \<Rightarrow> int \<Rightarrow> int \<Rightarrow> ('a test_state_scheme) act" where
  "ioctl_called_capable prepost retval cmd =
     cond (DISABLED [''8139TOO'', ''TG3'', ''ECONET'']) skip
      (if prepost = 0 then skip
       else if prepost = 1 then block
        [onlyif (\<lambda>s. capable_given_cmd cmd s \<noteq> -1) (block
          [tfassert (\<lambda>s. ioctl_capable_retval s = CALLED_OK \<or> ioctl_capable_retval s = CALLED_FAILED)
             ''Capable not called'',
           tfassert (\<lambda>s. ioctl_capable_param s = capable_given_cmd cmd s)
             ''Capable called with incorrect param'']),
         onlyif (\<lambda>s. ioctl_capable_retval s = CALLED_FAILED)
           (tfassert (\<lambda>s. retval = - EPERM s) ''retval == -EPERM'')]
       else tf_fail ''0'')"

definition call_capable :: "int \<Rightarrow> bool \<Rightarrow> int \<Rightarrow> ('a test_state_scheme) act" where
  "call_capable prepost retval capability =
     (if prepost = 0 then block
       [update (\<lambda>s. s\<lparr>ioctl_capable_param := 0\<rparr>),
        set_call_state ioctl_capable_retval_r NOT_CALLED]
      else if prepost = 1 then block
       [update (\<lambda>s. s\<lparr>ioctl_capable_param := capability\<rparr>),
        if retval then set_call_state ioctl_capable_retval_r CALLED_OK
        else set_call_state ioctl_capable_retval_r CALLED_FAILED]
      else tf_fail ''0'')"

definition mem_flags_test :: "u32 \<Rightarrow> u32 \<Rightarrow> u32 \<Rightarrow> ('a test_state_scheme) act" where
  "mem_flags_test blocking_no blocking_yes mem_flags =
     (if mem_flags = blocking_yes then
        cond (DISABLED [''HOSTAP'']) skip
          (tfassert (\<lambda>s. kernel_blocking_state s = BLOCKING_YES \<or>
                         kernel_blocking_state s = BLOCKING_UNDEFINED)
            ''Memory flags inconsistent: %d vs GFP_KERNEL'')
      else if mem_flags = blocking_no then
        cond (DISABLED [''USB_AUDIO'', ''HOSTAP'']) skip
          (tfassert (\<lambda>s. kernel_blocking_state s = BLOCKING_NO \<or>
                         kernel_blocking_state s = BLOCKING_UNDEFINED)
            ''Memory flags inconsistent: %d vs GFP_ATOMIC'')
      else skip)"

lemma call_capable_post_Inr:
  "call_capable 1 retval capability s = Inr t \<Longrightarrow> ioctl_capable_retval s = IN_PROGRESS"
  by (auto simp: call_capable_def set_call_state_Inr call_step_simps split: if_splits sum.splits)

lemma mem_flags_test_Inr:
  "mem_flags_test no yes flags s = Inr t \<Longrightarrow> t = s"
  by (auto simp: mem_flags_test_def split: if_splits)

end
