(* ===== verification/Invariant.thy ===== *)
theory Invariant
  imports Lock_Protocol Capability
begin

text \<open>
  The invariant of the framework's state and the judgement by which it is lifted to every check
  routine. \<open>core_inv\<close> collects the invariants of the components, \<open>in_check\<close> adds that the
  global lock is held, \<open>tf_inv\<close> that it is free.

  \<open>safe P a\<close>: started where \<open>P\<close> holds, the action keeps \<open>P\<close> or ends the path in a way
  an assertion or a bad pointer of the driver can end it, but neither in a deadlock on the global
  lock nor in the endless recursion of a failing assertion without it.
\<close>

definition core_inv :: "'a test_state_scheme \<Rightarrow> bool" where
  "core_inv s \<longleftrightarrow> blocking_ok s \<and> user_ok s \<and> tracker_ok s \<and> flags_ok s \<and> class_ok s \<and>
     ioctl_capable_retval s = NOT_CALLED"

definition in_check :: "'a test_state_scheme \<Rightarrow> bool" where
  "in_check s \<longleftrightarrow> core_inv s \<and> locked s"

definition tf_inv :: "'a test_state_scheme \<Rightarrow> bool" where
  "tf_inv s \<longleftrightarrow> core_inv s \<and> unlocked s"

fun ends_well :: "tf_error \<Rightarrow> bool" where
  "ends_well Deadlock = False"
| "ends_well Stack_Overflow = False"
| "ends_well _ = True"

definition safe :: "('s \<Rightarrow> bool) \<Rightarrow> 's act \<Rightarrow> bool" where
  "safe P a \<longleftrightarrow> (\<forall>s. P s \<longrightarrow> (case a s of Inl e \<Rightarrow> ends_well e | Inr t \<Rightarrow> P t))"

named_theorems safe_rules \<open>rules of the judgement \<open>safe\<close>\<close>

lemma safeI: "(\<And>s. P s \<Longrightarrow> case a s of Inl e \<Rightarrow> ends_well e | Inr t \<Rightarrow> P t) \<Longrightarrow> safe P a"
  by (simp add: safe_def)

lemma safeD: "safe P a \<Longrightarrow> P s \<Longrightarrow> case a s of Inl e \<Rightarrow> ends_well e | Inr t \<Rightarrow> P t"
  by (simp add: safe_def)

lemma safe_Inr: "safe P a \<Longrightarrow> P s \<Longrightarrow> a s = Inr t \<Longrightarrow> P t"
  by (drule (1) safeD) simp

lemma safe_Inl: "safe P a \<Longrightarrow> P s \<Longrightarrow> a s = Inl e \<Longrightarrow> ends_well e"
  by (drule (1) safeD) simp

lemma safe_preserves: "safe P a \<Longrightarrow> preserves P a"
  by (rule preservesI) (rule safe_Inr)

lemma safe_skip [safe_rules]: "safe P skip"
  by (rule safeI) simp

lemma safe_fail_null [safe_rules]: "safe P (fail Null_Deref)"
  by (rule safeI) simp

lemma safe_fail_bounds [safe_rules]: "safe P (fail Out_Of_Bounds)"
  by (rule safeI) simp

lemma safe_update: "(\<And>s. P s \<Longrightarrow> P (f s)) \<Longrightarrow> safe P (update f)"
  by (rule safeI) simp

lemma safe_cond [safe_rules]: "safe P a \<Longrightarrow> safe P b \<Longrightarrow> safe P (cond c a b)"
  by (rule safeI) (simp add: safeD)

lemma safe_if [safe_rules]: "safe P a \<Longrightarrow> safe P b \<Longrightarrow> safe P (if c then a else b)"
  by simp

lemma safe_onlyif [safe_rules]: "safe P a \<Longrightarrow> safe P (onlyif c a)"
  unfolding onlyif_def by (intro safe_cond safe_skip)

lemma safe_block_Nil [safe_rules]: "safe P (block [])"
  by (rule safeI) simp

lemma safe_block_Cons [safe_rules]:
  assumes a: "safe P a" and b: "safe P (block as)"
  shows "safe P (block (a # as))"
proof (rule safeI)
  fix s assume s: "P s"
  show "case block (a # as) s of Inl e \<Rightarrow> ends_well e | Inr t \<Rightarrow> P t"
    using safeD [OF a s] by (cases "a s") (simp_all add: safeD [OF b])
qed

lemma safe_deref [safe_rules]: "(\<And>v. safe P (a v)) \<Longrightarrow> safe P (deref p a)"
  by (simp add: deref_def safe_fail_null split: option.split)

lemma safe_option [safe_rules]:
  "safe P a \<Longrightarrow> (\<And>v. safe P (b v)) \<Longrightarrow> safe P (case p of None \<Rightarrow> a | Some v \<Rightarrow> b v)"
  by (simp split: option.split)

lemma safe_with_state [safe_rules]: "(\<And>s. safe P (k s)) \<Longrightarrow> safe P (with_state k)"
  by (rule safeI) (simp add: safeD)

lemma safe_reading:
  assumes "\<And>s e. P s \<Longrightarrow> p s = Inl e \<Longrightarrow> ends_well e" and "\<And>v. safe P (k v)"
  shows "safe P (reading p k)"
proof (rule safeI)
  fix s assume s: "P s"
  show "case reading p k s of Inl e \<Rightarrow> ends_well e | Inr t \<Rightarrow> P t"
    using assms(1) [OF s] safeD [OF assms(2) s] by (cases "p s") (simp_all add: reading_def)
qed

section \<open>Assertions\<close>

lemma in_check_fail: "in_check s \<Longrightarrow> tf_fail msg s = Inl (Killed 0 1 msg)"
  by (auto simp: in_check_def core_inv_def locked_def tf_fail_def tf_fail_no_detail_def tracker_ok_def)

lemma safe_tf_fail: "(\<And>s. P s \<Longrightarrow> in_check s) \<Longrightarrow> safe P (tf_fail msg)"
  by (rule safeI) (simp add: in_check_fail)

lemma safe_tfassert: "(\<And>s. P s \<Longrightarrow> in_check s) \<Longrightarrow> safe P (tfassert Q msg)"
  by (rule safeI) (simp add: tfassert_def in_check_fail)

lemma safe_tf_fail_check [safe_rules]: "safe in_check (tf_fail msg)"
  by (rule safe_tf_fail)

lemma safe_tfassert_check [safe_rules]: "safe in_check (tfassert Q msg)"
  by (rule safe_tfassert)

lemma safe_tfassert_no_detail_check [safe_rules]: "safe in_check (tfassert_no_detail Q msg)"
  by (rule safeI)
    (auto simp: tfassert_no_detail_def tf_fail_no_detail_def in_check_def locked_def)

section \<open>Updates the invariant does not see\<close>

lemma in_check_frames [simp]:
  "in_check (s\<lparr>s2e_log := l\<rparr>) = in_check s"
  "in_check (s\<lparr>objs_dirty := n\<rparr>) = in_check s"
  "in_check (s\<lparr>kmalloc_calls := m\<rparr>) = in_check s"
  "in_check (s\<lparr>bad_path := n\<rparr>) = in_check s"
  "in_check (s\<lparr>g_sym_retval := n\<rparr>) = in_check s"
  "in_check (s\<lparr>g_sym_kill_carrier_off := n\<rparr>) = in_check s"
  "in_check (s\<lparr>ioctl_capable_param := n\<rparr>) = in_check s"
  "in_check (s\<lparr>device_irq_disabled := n\<rparr>) = in_check s"
  by (simp_all add: in_check_def core_inv_def blocking_ok_def user_ok_def tracker_ok_def flags_ok_def
      flag_of_def [abs_def] class_ok_def locked_def cong: if_cong)

lemma safe_s2e [safe_rules]: "safe in_check (s2e e)"
  by (rule safeI) simp

text \<open>Writes to call state fields.\<close>

definition call_ref :: "('a test_state_scheme, 'v) ref \<Rightarrow> bool" where
  "call_ref r \<longleftrightarrow> (\<forall>s v. in_check s \<longrightarrow> in_check (snd r v s))"

lemma in_check_bus_states [simp]:
  "bus_flag d = bus_flag (pci_driver_state s) \<Longrightarrow> in_check (s\<lparr>pci_driver_state := d\<rparr>) = in_check s"
  "bus_flag b = bus_flag (usb_driver_state s) \<Longrightarrow> in_check (s\<lparr>usb_driver_state := b\<rparr>) = in_check s"
  "bus_flag b = bus_flag (misc_driver_state s) \<Longrightarrow> in_check (s\<lparr>misc_driver_state := b\<rparr>) = in_check s"
  "bus_flag b = bus_flag (proto_ops_state s) \<Longrightarrow> in_check (s\<lparr>proto_ops_state := b\<rparr>) = in_check s"
  "bus_flag b = bus_flag (i2c_driver_state s) \<Longrightarrow> in_check (s\<lparr>i2c_driver_state := b\<rparr>) = in_check s"
  "bus_flag b = bus_flag (platform_driver_state s) \<Longrightarrow> in_check (s\<lparr>platform_driver_state := b\<rparr>) = in_check s"
  "bus_flag b = bus_flag (spi_driver_state s) \<Longrightarrow> in_check (s\<lparr>spi_driver_state := b\<rparr>) = in_check s"
  "net n = net (ndo_driver_state s) \<Longrightarrow> in_check (s\<lparr>ndo_driver_state := n\<rparr>) = in_check s"
  by (simp_all add: in_check_def core_inv_def blocking_ok_def user_ok_def tracker_ok_def flags_ok_def
      flag_of_simps all_buses_def class_ok_def locked_def)

lemma call_refs [safe_rules]:
  "call_ref (dot pci_r registered_f)" "call_ref (dot pci_r unregistered_f)" "call_ref (dot pci_r probed_f)"
  "call_ref (dot pci_r enabled_f)"
  "call_ref (dot usb_r registered_f)" "call_ref (dot usb_r unregistered_f)" "call_ref (dot usb_r probed_f)"
  "call_ref (dot misc_r registered_f)" "call_ref (dot misc_r unregistered_f)" "call_ref (dot misc_r probed_f)"
  "call_ref (dot proto_r registered_f)" "call_ref (dot proto_r unregistered_f)" "call_ref (dot proto_r probed_f)"
  "call_ref (dot i2c_r registered_f)" "call_ref (dot i2c_r unregistered_f)" "call_ref (dot i2c_r probed_f)"
  "call_ref (dot platform_r registered_f)" "call_ref (dot platform_r unregistered_f)"
  "call_ref (dot platform_r probed_f)"
  "call_ref (dot spi_r registered_f)" "call_ref (dot spi_r unregistered_f)" "call_ref (dot spi_r probed_f)"
  "call_ref (dot ndo_r opened_f)" "call_ref (dot ndo_r register_netdev_f)"
  "call_ref (dot ndo_r unregister_netdev_f)" "call_ref (dot ndo_r u2_napi_schedule_f)"
  "call_ref (dot ndo_r netif_rx_f)" "call_ref (dot ndo_r ndo_capable_f)"
  by (simp_all add: call_ref_def)

lemma safe_set_call_state [safe_rules]:
  assumes "call_ref r" shows "safe in_check (set_call_state r c)"
proof -
  have "safe in_check (update (snd r c))"
    using assms by (intro safe_update) (simp add: call_ref_def)
  then show ?thesis unfolding set_call_state_def by (intro safe_rules)
qed

lemma safe_set_device_state [safe_rules]:
  assumes "call_ref r" shows "safe in_check (set_device_state r d)"
proof -
  have "safe in_check (update (snd r d))"
    using assms by (intro safe_update) (simp add: call_ref_def)
  moreover have "safe in_check (\<lambda>s. case fst r s of
        DEVICE_STATE_UNDEFINED \<Rightarrow> Inr s
      | DEVICE_STATE_DISABLED \<Rightarrow>
          tfassert (\<lambda>_. d = DEVICE_STATE_ENABLED) ''Device enabled/disabled incorrectly'' s
      | DEVICE_STATE_ENABLED \<Rightarrow>
          tfassert (\<lambda>_. d = DEVICE_STATE_DISABLED) ''Device enabled/disabled incorrectly'' s)"
    by (rule safeI) (auto simp: tfassert_def in_check_fail split: device_state.split)
  ultimately show ?thesis unfolding set_device_state_def by (intro safe_rules)
qed

section \<open>The primitive operations\<close>

definition rest_inv :: "'a test_state_scheme \<Rightarrow> bool" where
  "rest_inv s \<longleftrightarrow> flags_ok s \<and> class_ok s \<and> ioctl_capable_retval s = NOT_CALLED \<and> locked s"

lemma in_check_iff: "in_check s \<longleftrightarrow> blocking_ok s \<and> user_ok s \<and> tracker_ok s \<and> rest_inv s"
  by (auto simp: in_check_def core_inv_def rest_inv_def)

lemma rest_inv_frames [simp]:
  "rest_inv (but_blocking s) = rest_inv s" "rest_inv (but_user s) = rest_inv s" "rest_inv (but_objs s) = rest_inv s"
  "user_ok (but_blocking s) = user_ok s" "user_ok (but_objs s) = user_ok s"
  "blocking_ok (but_user s) = blocking_ok s" "blocking_ok (but_objs s) = blocking_ok s"
  "tracker_ok (but_blocking s) = tracker_ok s" "tracker_ok (but_user s) = tracker_ok s"
  by (simp_all add: rest_inv_def but_blocking_def but_user_def but_objs_def user_ok_def blocking_ok_def
      tracker_ok_def flags_ok_def all_buses_def flag_of_simps class_ok_def locked_def)

lemma in_check_but_blocking:
  "but_blocking t = but_blocking s \<Longrightarrow> in_check s \<Longrightarrow> blocking_ok t \<Longrightarrow> in_check t"
  unfolding in_check_iff by (metis rest_inv_frames(1,4,8))

lemma in_check_but_user: "but_user t = but_user s \<Longrightarrow> in_check s \<Longrightarrow> user_ok t \<Longrightarrow> in_check t"
  unfolding in_check_iff by (metis rest_inv_frames(2,6,9))

lemma in_check_but_objs: "but_objs t = but_objs s \<Longrightarrow> in_check s \<Longrightarrow> tracker_ok t \<Longrightarrow> in_check t"
  unfolding in_check_iff by (metis rest_inv_frames(3,5,7))

lemma in_checkD:
  assumes "in_check s"
  shows "blocking_ok s" and "user_ok s" and "tracker_ok s" and "flags_ok s" and "class_ok s"
    and "ioctl_capable_retval s = NOT_CALLED" and "locked s"
  using assms by (simp_all add: in_check_def core_inv_def)

lemma safe_push_blocking [safe_rules]: "safe in_check (push_blocking_state bc)"
proof (rule safeI)
  fix s assume s: "in_check s"
  show "case push_blocking_state bc s of Inl e \<Rightarrow> ends_well e | Inr t \<Rightarrow> in_check t"
  proof (cases "push_blocking_state bc s")
    case (Inl e)
    with push_blocking_state_run [of s bc] in_checkD(1) [OF s] show ?thesis
      by (auto simp: blocking_ok_def split: if_splits)
  next
    case (Inr t)
    with blocking.push_Inr [OF in_checkD(1) [OF s] Inr] in_check_but_blocking [OF _ s] show ?thesis by simp
  qed
qed

lemma safe_push_user [safe_rules]: "safe in_check (push_user_state uc)"
proof (rule safeI)
  fix s assume s: "in_check s"
  show "case push_user_state uc s of Inl e \<Rightarrow> ends_well e | Inr t \<Rightarrow> in_check t"
  proof (cases "push_user_state uc s")
    case (Inl e)
    with push_user_state_run [of s uc] in_checkD(2) [OF s] show ?thesis
      by (auto simp: user_ok_def split: if_splits)
  next
    case (Inr t)
    with user.push_Inr [OF in_checkD(2) [OF s] Inr] in_check_but_user [OF _ s] show ?thesis by simp
  qed
qed

lemma safe_pop_blocking [safe_rules]: "safe in_check pop_blocking_state"
proof (rule safeI)
  fix s assume s: "in_check s"
  show "case pop_blocking_state s of Inl e \<Rightarrow> ends_well e | Inr t \<Rightarrow> in_check t"
  proof (cases "pop_blocking_state s")
    case (Inl e)
    with pop_blocking_state_run [of s] in_check_fail [OF s] show ?thesis by (auto split: if_splits)
  next
    case (Inr t)
    with blocking.pop_Inr [OF in_checkD(1) [OF s] Inr] in_check_but_blocking [OF _ s] show ?thesis by simp
  qed
qed

lemma safe_pop_user [safe_rules]: "safe in_check pop_user_state"
proof (rule safeI)
  fix s assume s: "in_check s"
  show "case pop_user_state s of Inl e \<Rightarrow> ends_well e | Inr t \<Rightarrow> in_check t"
  proof (cases "pop_user_state s")
    case (Inl e)
    with pop_user_state_run [of s] in_check_fail [OF s] show ?thesis by (auto split: if_splits)
  next
    case (Inr t)
    with user.pop_Inr [OF in_checkD(2) [OF s] Inr] in_check_but_user [OF _ s] show ?thesis by simp
  qed
qed

lemma safe_push_kernel_state [safe_rules]: "safe in_check (push_kernel_state bc uc)"
  unfolding push_kernel_state_def by (intro safe_rules)

lemma safe_pop_kernel_state [safe_rules]: "safe in_check pop_kernel_state"
  unfolding pop_kernel_state_def by (intro safe_rules)

text \<open>Buses and classes.\<close>

lemma flag_step: "flags_ok s \<Longrightarrow> flag_of u = (flag_of s)(t := b) \<Longrightarrow> b = 0 \<or> b = 1 \<Longrightarrow> flags_ok u"
  by (auto simp: flags_ok_iff)

lemma bus_write_in_check:
  assumes "in_check s"
  shows "b = 0 \<or> b = 1 \<Longrightarrow> in_check (s\<lparr>pci_driver_state := (pci_driver_state s)\<lparr>bus_flag := b\<rparr>\<rparr>)"
    and "b = 0 \<or> b = 1 \<Longrightarrow> in_check (s\<lparr>usb_driver_state := (usb_driver_state s)\<lparr>bus_flag := b\<rparr>\<rparr>)"
    and "b = 0 \<or> b = 1 \<Longrightarrow> in_check (s\<lparr>misc_driver_state := (misc_driver_state s)\<lparr>bus_flag := b\<rparr>\<rparr>)"
    and "b = 0 \<or> b = 1 \<Longrightarrow> in_check (s\<lparr>proto_ops_state := (proto_ops_state s)\<lparr>bus_flag := b\<rparr>\<rparr>)"
    and "b = 0 \<or> b = 1 \<Longrightarrow> in_check (s\<lparr>i2c_driver_state := (i2c_driver_state s)\<lparr>bus_flag := b\<rparr>\<rparr>)"
    and "b = 0 \<or> b = 1 \<Longrightarrow> in_check (s\<lparr>platform_driver_state := (platform_driver_state s)\<lparr>bus_flag := b\<rparr>\<rparr>)"
    and "b = 0 \<or> b = 1 \<Longrightarrow> in_check (s\<lparr>spi_driver_state := (spi_driver_state s)\<lparr>bus_flag := b\<rparr>\<rparr>)"
  using assms
  by (simp_all add: in_check_def core_inv_def blocking_ok_def user_ok_def tracker_ok_def
      flags_ok_def all_buses_def flag_of_simps class_ok_def locked_def)

lemma safe_bus_write [safe_rules]:
  assumes "b = 0 \<or> b = 1"
  shows "safe in_check (update (snd (dot pci_r bus_flag_f) b))"
    and "safe in_check (update (snd (dot usb_r bus_flag_f) b))"
    and "safe in_check (update (snd (dot misc_r bus_flag_f) b))"
    and "safe in_check (update (snd (dot proto_r bus_flag_f) b))"
    and "safe in_check (update (snd (dot i2c_r bus_flag_f) b))"
    and "safe in_check (update (snd (dot platform_r bus_flag_f) b))"
    and "safe in_check (update (snd (dot spi_r bus_flag_f) b))"
  using assms by (auto intro!: safe_update bus_write_in_check)

lemma safe_set_driver_bus [safe_rules]: "safe in_check (set_driver_bus t)"
  unfolding set_driver_bus_def by (intro safe_rules) simp_all

lemma safe_remove_driver_bus [safe_rules]: "safe in_check (remove_driver_bus t)"
  unfolding remove_driver_bus_def by (intro safe_rules) simp_all

lemma get_driver_class_total: "in_check s \<Longrightarrow> \<exists>c. get_driver_class s = Inr c"
  by (auto simp: in_check_def core_inv_def class_ok_def get_driver_class_def Let_def tfassert_def)

lemma safe_reading_bus [safe_rules]:
  assumes "\<And>m. safe in_check (k m)"
  shows "safe in_check (reading get_driver_bus k)"
proof (rule safe_reading [OF _ assms])
  fix s :: "'a test_state_scheme" and e
  assume "in_check s" and "get_driver_bus s = Inl e"
  with get_driver_bus_Inr [OF in_checkD(4)] show "ends_well e" by fastforce
qed

lemma safe_reading_class [safe_rules]:
  assumes "\<And>m. safe in_check (k m)"
  shows "safe in_check (reading get_driver_class k)"
proof (rule safe_reading [OF _ assms])
  fix s :: "'a test_state_scheme" and e
  assume "in_check s" and "get_driver_class s = Inl e"
  with get_driver_class_total show "ends_well e" by fastforce
qed

lemma safe_set_driver_class [safe_rules]: "safe in_check (set_driver_class c)"
proof (rule safeI)
  fix s :: "'a test_state_scheme" assume s: "in_check s"
  then have c: "class_ok s" by (rule in_checkD)
  from get_driver_class_total [OF s] obtain d where d: "get_driver_class s = Inr d" ..
  show "case set_driver_class c s of Inl e \<Rightarrow> ends_well e | Inr t \<Rightarrow> in_check t"
    using s c d in_check_fail [OF s]
    by (cases c) (auto simp: set_driver_class_def reading_def tfassert_def in_check_def core_inv_def
        blocking_ok_def user_ok_def tracker_ok_def flags_ok_def all_buses_def flag_of_simps class_ok_def
        locked_def split: if_splits)
qed

section \<open>The object tracker\<close>

lemma safe_objs_search:
  "in_check s \<Longrightarrow> objs_search k s = Inl e \<Longrightarrow> ends_well e"
  using objs_search_tracked [OF in_checkD(3)] by fastforce

lemma safe_reading_search [safe_rules]:
  "(\<And>v. safe in_check (f v)) \<Longrightarrow> safe in_check (reading (objs_search k) f)"
  by (rule safe_reading [OF safe_objs_search])

lemma objs_hashtable_insert_total:
  assumes "in_check s" shows "\<exists>r t. objs_hashtable_insert k v s = Inr (r, t)"
  using in_checkD(3) [OF assms]
  by (auto simp: objs_hashtable_insert_def Let_def tracker_ok_def split: prod.split)

lemma safe_objs_insert:
  assumes nz: "object k \<noteq> 0" and v: "value_ok v"
  shows "safe in_check (objs_insert k v)"
proof (rule safeI)
  fix s :: "'a test_state_scheme" assume s: "in_check s"
  note ok = in_checkD(3) [OF s]
  show "case objs_insert k v s of Inl e \<Rightarrow> ends_well e | Inr t \<Rightarrow> in_check t"
  proof (cases "objs_insert k v s")
    case (Inr t)
    note i = objs_insert_Inr [OF ok nz v Inr]
    have "but_objs t = but_objs s" by (subst i(5)) simp
    from in_check_but_objs [OF this s i(2)] show ?thesis using Inr by simp
  next
    case (Inl e)
    show ?thesis
    proof (cases "tracked s k")
      case (Some w)
      then show ?thesis using in_check_fail [OF s] Inl
        by (auto simp: objs_insert_def reading_def objs_search_tracked [OF ok])
    next
      case None
      from objs_hashtable_insert_total [OF s] obtain r u where u: "objs_hashtable_insert k v s = Inr (r, u)"
        by blast
      note h = objs_hashtable_insert_spec [OF ok None nz v u]
      have "but_objs u = but_objs s" by (subst h(3)) simp
      from in_check_but_objs [OF this s h(1)] have "in_check u" .
      then show ?thesis using Inl None
        by (auto simp: objs_insert_def reading_def objs_search_tracked [OF ok] with_result_def u deref_def
            in_check_fail split: if_splits)
    qed
  qed
qed

lemma safe_assert_allocated [safe_rules]: "safe in_check (assert_allocated org obj)"
  unfolding assert_allocated_def by (intro safe_rules)

lemma safe_assert_allocated_weak [safe_rules]: "safe in_check (assert_allocated_weak obj minsize)"
  unfolding assert_allocated_weak_def by (intro safe_rules)

lemma safe_with_result:
  assumes "\<And>s e. P s \<Longrightarrow> p s = Inl e \<Longrightarrow> ends_well e"
    and "\<And>s v t. P s \<Longrightarrow> p s = Inr (v, t) \<Longrightarrow> P t \<and> Q v" and "\<And>v. Q v \<Longrightarrow> safe P (k v)"
  shows "safe P (with_result p k)"
proof (rule safeI)
  fix s assume s: "P s"
  show "case with_result p k s of Inl e \<Rightarrow> ends_well e | Inr t \<Rightarrow> P t"
  proof (cases "p s")
    case (Inl e)
    with assms(1) [OF s] show ?thesis by (simp add: with_result_def)
  next
    case (Inr r)
    then obtain v t where vt: "p s = Inr (v, t)" by (cases r) simp
    with assms(2) [OF s vt] safeD [OF assms(3), of v t] show ?thesis by (simp add: with_result_def)
  qed
qed

lemma safe_with_value:
  assumes "\<And>v. value_ok v \<Longrightarrow> safe in_check (k v)"
  shows "safe in_check (with_result (objs_value fn org sz new) k)"
  by (rule safe_with_result [where Q = value_ok, OF _ _ assms])
    (auto simp: objs_value_run value_ok_new split: if_splits)

lemma safe_with_key:
  assumes "safe in_check (k (objs_key obj))"
  shows "safe in_check (with_result (objs_key_ptr obj) k)"
  by (rule safe_with_result [where Q = "\<lambda>key. key = objs_key obj"])
    (use assms in \<open>auto simp: objs_key_ptr_run split: if_splits\<close>)

lemma safe_generic_allocator [safe_rules]: "safe in_check (generic_allocator fn prepost obj sz org)"
proof (cases "obj = 0")
  case True
  then show ?thesis unfolding generic_allocator_def
    by (intro safe_rules safeI) (simp_all add: in_check_fail)
next
  case False
  then have "object (objs_key obj) \<noteq> 0" by simp
  note ins = safe_objs_insert [OF this]
  show ?thesis unfolding generic_allocator_def
    by (intro safe_rules safe_with_value safe_with_key ins)
qed

lemma safe_generic_free [safe_rules]:
  "safe (in_check :: 'a test_state_scheme \<Rightarrow> bool) (generic_free prepost obj org)"
proof -
  have "safe (in_check :: 'a test_state_scheme \<Rightarrow> bool) (with_result (objs_remove (objs_key obj)) (\<lambda>value. case value of
            Some v \<Rightarrow> if origin v AND org = 0 then tf_fail ''Object origin'' else skip
          | None \<Rightarrow> tf_fail ''Freeing something that we never allocated''))"
  proof (rule safe_with_result [where Q = "\<lambda>_. True"])
    fix s :: "'a test_state_scheme" and e assume s: "in_check s" and r: "objs_remove (objs_key obj) s = Inl e"
    from objs_remove_spec [OF in_checkD(3) [OF s], of "objs_key obj"] r show "ends_well e"
      by (metis sum.distinct(1))
  next
    fix s :: "'a test_state_scheme" and v t assume s: "in_check s" and r: "objs_remove (objs_key obj) s = Inr (v, t)"
    from objs_remove_spec [OF in_checkD(3) [OF s], of "objs_key obj"] obtain u
      where u: "objs_remove (objs_key obj) s = Inr (tracked s (objs_key obj), u)" "tracker_ok u"
        "u = s\<lparr>objs := objs u\<rparr>" by blast
    have "u = t" using r u(1) by simp
    moreover have "but_objs u = but_objs s" using u(3) by (metis but_objs_update(2))
    ultimately show "in_check t \<and> True" using in_check_but_objs [OF _ s u(2)] by simp
  next
    fix v show "safe in_check (case v of
            Some v \<Rightarrow> if origin v AND org = 0 then tf_fail ''Object origin'' else skip
          | None \<Rightarrow> tf_fail ''Freeing something that we never allocated'')"
      by (intro safe_rules)
  qed
  then show ?thesis unfolding generic_free_def by (intro safe_rules)
qed

lemma safe_reset_new_objects [safe_rules]: "safe in_check reset_new_objects"
proof (rule safeI)
  fix s :: "'a test_state_scheme" assume s: "in_check s"
  from reset_new_objects_run [OF in_checkD(3) [OF s]] obtain t
    where t: "reset_new_objects s = Inr t" "tracker_ok t" "t = s\<lparr>objs := objs t, objs_dirty := 0\<rparr>" by blast
  have "in_check (s\<lparr>objs_dirty := 0\<rparr>)" using s by simp
  moreover have "but_objs t = but_objs (s\<lparr>objs_dirty := 0\<rparr>)" by (subst t(3)) (simp add: but_objs_def)
  ultimately show "case reset_new_objects s of Inl e \<Rightarrow> ends_well e | Inr t \<Rightarrow> in_check t"
    using in_check_but_objs t(1,2) by fastforce
qed

section \<open>Locks\<close>

lemma safe_lock_kernel_state [safe_rules]: "safe in_check (lock_kernel_state org lt d)"
  unfolding lock_kernel_state_def by (intro safe_rules)

lemma safe_verify_lock_state [safe_rules]: "safe in_check (verify_lock_state v)"
proof -
  have "safe in_check (block (map (\<lambda>x. tfassert (Q x) m) xs))" for Q m and xs :: "int list"
    by (induction xs) (auto intro: safe_rules simp del: block.simps)
  then show ?thesis unfolding verify_lock_state_def Let_def by (intro safe_rules)
qed

text \<open>
  Between the write of a lock state and the assertions that judge it the tracker may hold a bad
  lock vector; \<open>weak_check\<close> is what is left of the invariant there.
\<close>

definition weak_check :: "'a test_state_scheme \<Rightarrow> bool" where
  "weak_check s \<longleftrightarrow> blocking_ok s \<and> objs s \<noteq> None \<and> locked s"

lemma in_check_weak: "in_check s \<Longrightarrow> weak_check s"
  by (auto simp: in_check_def core_inv_def weak_check_def tracker_ok_def)

lemma weak_fail: "weak_check s \<Longrightarrow> tf_fail msg s = Inl (Killed 0 1 msg)"
  by (auto simp: weak_check_def locked_def tf_fail_def tf_fail_no_detail_def)

lemma weak_tf_fail: "safe weak_check (tf_fail msg)"
  by (rule safeI) (simp add: weak_fail)

lemma weak_tfassert: "safe weak_check (tfassert Q msg)"
  by (rule safeI) (simp add: tfassert_def weak_fail)

lemma weak_push: "safe weak_check (push_blocking_state bc)"
proof (rule safeI)
  fix s assume s: "weak_check s"
  then have b: "blocking_ok s" by (simp add: weak_check_def)
  with push_blocking_state_run [of s bc] s
  show "case push_blocking_state bc s of Inl e \<Rightarrow> ends_well e | Inr t \<Rightarrow> weak_check t"
    by (auto simp: blocking_ok_def weak_check_def stack_ok_def locked_def)
qed

lemma weak_pop: "safe weak_check pop_blocking_state"
proof (rule safeI)
  fix s assume s: "weak_check s"
  with pop_blocking_state_run [of s] weak_fail [OF s]
  show "case pop_blocking_state s of Inl e \<Rightarrow> ends_well e | Inr t \<Rightarrow> weak_check t"
    by (auto simp: blocking_ok_def weak_check_def stack_ok_def locked_def)
qed

lemma weak_poke: "safe weak_check (objs_poke k v)"
  by (rule safeI) (auto simp: objs_poke_def weak_check_def blocking_ok_def locked_def split: option.split)

lemmas weak_rules = weak_tf_fail weak_tfassert weak_push weak_pop weak_poke safe_if safe_skip safe_block_Nil
  safe_block_Cons

lemma weak_lock_kernel_state: "safe weak_check (lock_kernel_state org lt d)"
  unfolding lock_kernel_state_def by (intro weak_rules)

lemma weak_verify_lock_state: "safe weak_check (verify_lock_state v)"
proof -
  have "safe weak_check (block (map (\<lambda>x. tfassert (Q x) m) xs))" for Q m and xs :: "int list"
    by (induction xs) (auto intro: weak_rules simp del: block.simps)
  then show ?thesis unfolding verify_lock_state_def Let_def by (intro weak_rules)
qed

lemma weak_lock_acquired: "safe weak_check (lock_acquired key v org lt)"
  unfolding lock_acquired_def Let_def
  by (intro weak_rules weak_verify_lock_state weak_lock_kernel_state)

lemma weak_lock_released: "safe weak_check (lock_released key v org lt)"
  unfolding lock_released_def Let_def
  by (intro weak_rules weak_verify_lock_state weak_lock_kernel_state)

lemma objs_poke_in_check:
  assumes s: "in_check s" and "tracked s k \<noteq> None" and "value_ok v" and run: "objs_poke k v s = Inr u"
  shows "in_check u"
proof -
  from objs_poke_spec [OF in_checkD(3) [OF s] assms(2,3)] obtain w
    where w: "objs_poke k v s = Inr w" "tracker_ok w" "w = s\<lparr>objs := objs w\<rparr>" by blast
  have "but_objs w = but_objs s" using w(3) by (metis but_objs_update(2))
  from in_check_but_objs [OF this s w(2)] w(1) run show ?thesis by simp
qed

lemma lock_acquired_in_check:
  assumes s: "in_check s" and v: "tracked s k = Some v"
  shows "case lock_acquired k v org lt s of Inl e \<Rightarrow> ends_well e | Inr t \<Rightarrow> in_check t"
proof (cases "lock_acquired k v org lt s")
  case (Inl e)
  with safeD [OF weak_lock_acquired in_check_weak [OF s]] show ?thesis by (metis sum.case(1))
next
  case (Inr t)
  obtain h where h: "lock_state v = lock_vector h"
    using tracked_value_ok [OF in_checkD(3) [OF s] v] by (auto simp: value_ok_def)
  let ?v = "v\<lparr>lock_state := lock_vector (Some lt)\<rparr>"
  from lock_acquired_Inr(2) [OF h Inr] obtain u
    where u: "objs_poke k ?v s = Inr u" "lock_kernel_state org lt 1 u = Inr t" by blast
  have "in_check u"
    by (rule objs_poke_in_check [OF s _ _ u(1)]) (use v in \<open>auto simp: value_ok_def\<close>)
  then show ?thesis using Inr safe_Inr [OF safe_lock_kernel_state _ u(2)] by simp
qed

lemma lock_released_in_check:
  assumes s: "in_check s" and v: "tracked s k = Some v"
  shows "case lock_released k v org lt s of Inl e \<Rightarrow> ends_well e | Inr t \<Rightarrow> in_check t"
proof (cases "lock_released k v org lt s")
  case (Inl e)
  with safeD [OF weak_lock_released in_check_weak [OF s]] show ?thesis by (metis sum.case(1))
next
  case (Inr t)
  obtain h where h: "lock_state v = lock_vector h"
    using tracked_value_ok [OF in_checkD(3) [OF s] v] by (auto simp: value_ok_def)
  let ?v = "v\<lparr>lock_state := lock_vector None\<rparr>"
  from lock_released_Inr(3) [OF h Inr] obtain u
    where u: "objs_poke k ?v s = Inr u"
      "lock_kernel_state org (if h = Some GENERIC_LOCK then GENERIC_LOCK else lt) (-1) u = Inr t" by blast
  have "in_check u"
    by (rule objs_poke_in_check [OF s _ _ u(1)]) (use v in \<open>auto simp: value_ok_def\<close>)
  then show ?thesis using Inr safe_Inr [OF safe_lock_kernel_state _ u(2)] by simp
qed

lemma generic_lock_known_in_check:
  assumes s: "in_check s" and v: "tracked s (objs_key lock) \<noteq> None"
  shows "case generic_lock_state_fuel (Suc n) fn prepost lock org lt d s of
    Inl e \<Rightarrow> ends_well e | Inr t \<Rightarrow> in_check t"
proof -
  from v obtain w where w: "tracked s (objs_key lock) = Some w" by blast
  show ?thesis
    using lock_acquired_in_check [OF s w, of org lt] lock_released_in_check [OF s w, of org lt] s
    by (simp add: reading_def objs_search_tracked [OF in_checkD(3) [OF s]] w in_check_fail)
qed

lemma safe_reading_value:
  assumes "\<And>v. (\<And>x. v = Some x \<Longrightarrow> value_ok x) \<Longrightarrow> safe in_check (f v)"
  shows "safe in_check (reading (objs_search k) f)"
proof (rule safeI)
  fix s :: "'a test_state_scheme" assume s: "in_check s"
  note ok = in_checkD(3) [OF s]
  have "safe in_check (f (tracked s k))"
    by (rule assms) (rule tracked_value_ok [OF ok])
  from safeD [OF this s] show "case reading (objs_search k) f s of Inl e \<Rightarrow> ends_well e | Inr t \<Rightarrow> in_check t"
    by (simp add: reading_def objs_search_tracked [OF ok])
qed

lemma safe_with_removed:
  assumes "safe in_check (k v)"
  shows "safe (in_check :: 'a test_state_scheme \<Rightarrow> bool) (with_result (\<lambda>s. case objs_remove key s of
      Inl e \<Rightarrow> Inl e | Inr (_, t) \<Rightarrow> Inr (v, t)) k)"
proof (rule safe_with_result [where Q = "\<lambda>w. w = v"])
  fix s :: "'a test_state_scheme" assume s: "in_check s"
  from objs_remove_spec [OF in_checkD(3) [OF s], of key] obtain u
    where u: "objs_remove key s = Inr (tracked s key, u)" "tracker_ok u" "u = s\<lparr>objs := objs u\<rparr>" by blast
  have "but_objs u = but_objs s" using u(3) by (metis but_objs_update(2))
  from in_check_but_objs [OF this s u(2)] have iu: "in_check u" .
  show "(case objs_remove key s of Inl e \<Rightarrow> Inl e | Inr (_, t) \<Rightarrow> Inr (v, t)) = Inl e \<Longrightarrow> ends_well e" for e
    by (simp add: u(1))
  show "(case objs_remove key s of Inl e \<Rightarrow> Inl e | Inr (_, t) \<Rightarrow> Inr (v, t)) = Inr (w, t) \<Longrightarrow>
      in_check t \<and> w = v" for w t
    using iu by (simp add: u(1))
next
  show "w = v \<Longrightarrow> safe in_check (k w)" for w using assms by simp
qed

lemma safe_generic_lock_allocator [safe_rules]: "safe in_check (generic_lock_allocator fn prepost lock org)"
proof (cases "lock = 0")
  case True
  show ?thesis unfolding True
    by (rule safeI) (simp add: generic_lock_allocator_def in_check_fail)
next
  case False
  then have nz: "object (objs_key lock) \<noteq> 0" by simp
  show ?thesis unfolding generic_lock_allocator_def
  proof (intro safe_if safe_block_Cons safe_tfassert_check safe_with_key safe_reading_value safe_skip
      safe_tf_fail_check safe_block_Nil)
    fix v :: "hvalue option"
    assume v: "\<And>x. v = Some x \<Longrightarrow> value_ok x"
    show "safe in_check (with_result
          (case v of
             Some existing \<Rightarrow> (\<lambda>s. case objs_remove (objs_key lock) s of
                 Inl e \<Rightarrow> Inl e
               | Inr (_, t) \<Rightarrow> Inr (existing, t))
           | None \<Rightarrow> objs_value fn org (-1) 0) (\<lambda>value. block
          [objs_insert (objs_key lock) value,
           reading (objs_search (objs_key lock)) (\<lambda>existing_value.
             tfassert (\<lambda>_. existing_value \<noteq> None) ''existing_value != NULL'')]))"
    proof (cases v)
      case None
      show ?thesis unfolding None option.case
        by (intro safe_with_value safe_rules safe_objs_insert nz)
    next
      case (Some w)
      show ?thesis unfolding Some option.case
        by (intro safe_with_removed safe_rules safe_objs_insert nz v [OF Some])
    qed
  qed
qed

text \<open>
  A lock call is safe before the kernel function always, and after it when the lock is tracked, which
  the call before it has seen to.
\<close>

lemma safe_generic_lock_state_pre [safe_rules]: "safe in_check (generic_lock_state fn 0 lock org lt d)"
proof (rule safeI)
  fix s :: "'a test_state_scheme" assume s: "in_check s"
  note ok = in_checkD(3) [OF s]
  show "case generic_lock_state fn 0 lock org lt d s of Inl e \<Rightarrow> ends_well e | Inr t \<Rightarrow> in_check t"
  proof (cases "tracked s (objs_key lock)")
    case (Some v)
    then show ?thesis unfolding generic_lock_state_def numeral_2_eq_2
      by (intro generic_lock_known_in_check [OF s]) simp
  next
    case None
    show ?thesis
    proof (cases "generic_lock_allocator fn 0 lock org s")
      case (Inl e)
      with safe_Inl [OF safe_generic_lock_allocator s] show ?thesis
        by (simp add: generic_lock_state_def numeral_2_eq_2 generic_lock_state_unknown [OF ok None]
            in_check_fail [OF s] del: generic_lock_state_fuel.simps)
    next
      case (Inr t)
      from safe_Inr [OF safe_generic_lock_allocator s Inr] have t: "in_check t" .
      have "tracked t (objs_key lock) \<noteq> None" using generic_lock_allocator_Inr(4) [OF ok Inr] None by simp
      from generic_lock_known_in_check [OF t this, of 0 fn 0 org lt d] show ?thesis
        by (simp add: generic_lock_state_def numeral_2_eq_2 generic_lock_state_unknown [OF ok None]
            in_check_fail [OF s] Inr del: generic_lock_state_fuel.simps)
    qed
  qed
qed

lemma generic_lock_state_post:
  assumes "in_check s" and "tracked s (objs_key lock) \<noteq> None"
  shows "case generic_lock_state fn prepost lock org lt d s of Inl e \<Rightarrow> ends_well e | Inr t \<Rightarrow> in_check t"
  using generic_lock_known_in_check [OF assms] by (simp only: generic_lock_state_def numeral_2_eq_2)

lemma safe_mem_flags_test [safe_rules]: "safe in_check (mem_flags_test no yes flags)"
  unfolding mem_flags_test_def by (intro safe_rules)

lemma safe_ioctl_called_capable [safe_rules]: "safe in_check (ioctl_called_capable prepost retval cmd)"
  unfolding ioctl_called_capable_def by (intro safe_rules)

lemma safe_call_capable [safe_rules]: "safe in_check (call_capable prepost retval cap)"
proof (rule safeI)
  fix s :: "'a test_state_scheme" assume s: "in_check s"
  then have "ioctl_capable_retval s = NOT_CALLED" by (rule in_checkD)
  moreover have "in_check (s\<lparr>ioctl_capable_param := n, ioctl_capable_retval := NOT_CALLED\<rparr>)" for n
    using s by (simp add: in_check_def core_inv_def blocking_ok_def user_ok_def tracker_ok_def flags_ok_def
        all_buses_def flag_of_simps class_ok_def locked_def)
  moreover have "in_check (s\<lparr>ioctl_capable_param := n\<rparr>)" for n using s by simp
  ultimately show "case call_capable prepost retval cap s of Inl e \<Rightarrow> ends_well e | Inr t \<Rightarrow> in_check t"
    using s by (auto simp: call_capable_def set_call_state_def in_check_fail tfassert_def)
qed

section \<open>Check routines\<close>

definition routine_safe :: "('a test_state_scheme) check \<Rightarrow> bool" where
  "routine_safe c \<longleftrightarrow> (\<forall>s. tf_inv s \<longrightarrow> (case c s of Inl e \<Rightarrow> ends_well e | Inr r \<Rightarrow> tf_inv (snd r)))"

lemma in_check_acquire: "tf_inv s \<Longrightarrow> in_check (s\<lparr>global_lock := True, global_lock_acquired := 1\<rparr>)"
  by (simp add: tf_inv_def in_check_def core_inv_def blocking_ok_def user_ok_def tracker_ok_def flags_ok_def
      all_buses_def flag_of_simps class_ok_def locked_def)

lemma tf_inv_release: "in_check s \<Longrightarrow> tf_inv (s\<lparr>global_lock := False, global_lock_acquired := 0\<rparr>)"
  by (simp add: tf_inv_def in_check_def core_inv_def blocking_ok_def user_ok_def tracker_ok_def flags_ok_def
      all_buses_def flag_of_simps class_ok_def unlocked_def)

lemma routine_safe_check [safe_rules]:
  assumes "safe in_check body" shows "routine_safe (check_routine r body)"
proof -
  have "case check_routine r body s of Inl e \<Rightarrow> ends_well e | Inr q \<Rightarrow> tf_inv (snd q)" if s: "tf_inv s" for s
  proof -
    let ?s = "s\<lparr>global_lock := True, global_lock_acquired := 1\<rparr>"
    have un: "unlocked s" using s by (simp add: tf_inv_def)
    have i: "in_check ?s" by (rule in_check_acquire [OF s])
    show ?thesis
    proof (cases "body ?s")
      case (Inl e)
      then show ?thesis using safe_Inl [OF assms i] by (simp add: check_routine_run [OF un])
    next
      case (Inr t)
      from safe_Inr [OF assms i Inr] have t: "in_check t" .
      then have "global_lock_acquired t = 1" by (simp add: in_check_def locked_def)
      then show ?thesis using Inr tf_inv_release [OF t] by (simp add: check_routine_run [OF un] release_locked)
    qed
  qed
  then show ?thesis by (simp add: routine_safe_def)
qed

definition out_safe :: "(int \<times> 'v, 'a test_state_scheme) prog \<Rightarrow> bool" where
  "out_safe c \<longleftrightarrow> (\<forall>s. tf_inv s \<longrightarrow> (case c s of Inl e \<Rightarrow> ends_well e | Inr r \<Rightarrow> tf_inv (snd r)))"

lemma out_safe_with_out [safe_rules]: "routine_safe c \<Longrightarrow> out_safe (with_out out c)"
  by (auto simp: routine_safe_def out_safe_def with_out_def split: sum.splits)

end
