(* ===== verification/Testing_Ep.thy ===== *)
theory Testing_Ep
  imports Object_Tracker
begin

text \<open>
  Entry point testing, \<open>testing_ep.c\<close> and \<open>testing_ep_control.c:ep_control_ioctl\<close>: the tables of
  test functions, the functions that call the driver's ethtool and power management operations,
  and the dispatcher that runs one test and then ends the path.

  The driver is a parameter: \<open>ep_driver\<close> gives its operation tables and what a call of an operation
  does to the state. The entries of a table beyond those set are \<open>NULL\<close>, as \<open>memset\<close> left them.
\<close>

section \<open>State\<close>

datatype ep_fn =
    Fn_test_start
  | Fn_test_end
  | Fn_ethtool_get_settings
  | Fn_ethtool_set_settings
  | Fn_ethtool_get_drvinfo
  | Fn_ethtool_get_regs_len
  | Fn_ethtool_get_regs
  | Fn_ethtool_get_wol
  | Fn_ethtool_set_wol
  | Fn_ethtool_get_msglevel
  | Fn_ethtool_set_msglevel
  | Fn_ethtool_nway_reset
  | Fn_ethtool_get_link
  | Fn_ethtool_get_eeprom_len
  | Fn_ethtool_get_eeprom
  | Fn_ethtool_set_eeprom
  | Fn_ethtool_get_coalesce
  | Fn_ethtool_set_coalesce
  | Fn_ethtool_get_ringparam
  | Fn_ethtool_set_ringparam
  | Fn_ethtool_get_pauseparam
  | Fn_ethtool_set_pauseparam
  | Fn_ethtool_get_rx_csum
  | Fn_ethtool_set_rx_csum
  | Fn_ethtool_get_tx_csum
  | Fn_ethtool_set_tx_csum
  | Fn_ethtool_get_sg
  | Fn_ethtool_set_sg
  | Fn_ethtool_get_tso
  | Fn_ethtool_set_tso
  | Fn_ethtool_self_test
  | Fn_ethtool_get_strings
  | Fn_ethtool_set_phys_id
  | Fn_ethtool_get_ethtool_stats
  | Fn_ethtool_begin
  | Fn_ethtool_complete
  | Fn_ethtool_get_ufo
  | Fn_ethtool_set_ufo
  | Fn_ethtool_get_flags
  | Fn_ethtool_set_flags
  | Fn_ethtool_get_priv_flags
  | Fn_ethtool_set_priv_flags
  | Fn_ethtool_get_sset_count
  | Fn_pci_suspend
  | Fn_pci_resume
  | Fn_i2c_suspend
  | Fn_i2c_resume

record ep_state = test_state +
  net_dev :: ulong
  ethtool_fn_array :: "ep_fn list"
  pci_drv :: ulong
  pci_dev :: ulong
  pci_pm_fn_array :: "ep_fn list"
  i2c_drv :: ulong
  i2c_client :: ulong
  i2c_pm_fn_array :: "ep_fn list"

text \<open>
  \<open>ethtool_ops\<close> reads \<open>net_dev->ethtool_ops\<close>; the others read a function pointer of a table and
  give the effect of calling it, \<open>None\<close> when it is \<open>NULL\<close>.
\<close>

record 's ep_driver =
  ethtool_ops :: "ulong \<Rightarrow> ulong"
  ethtool_op :: "ulong \<Rightarrow> string \<Rightarrow> 's act option"
  pci_op :: "ulong \<Rightarrow> string \<Rightarrow> 's act option"
  i2c_op :: "ulong \<Rightarrow> string \<Rightarrow> 's act option"

definition TEST_CASE_ETHTOOL_BEGIN :: int where "TEST_CASE_ETHTOOL_BEGIN = 0"
definition TEST_CASE_ETHTOOL_END :: int where "TEST_CASE_ETHTOOL_END = 46"
definition TEST_CASE_PCI_PM_BEGIN :: int where "TEST_CASE_PCI_PM_BEGIN = 0"
definition TEST_CASE_PCI_PM_END :: int where "TEST_CASE_PCI_PM_END = 3"
definition TEST_CASE_I2C_PM_BEGIN :: int where "TEST_CASE_I2C_PM_BEGIN = 0"
definition TEST_CASE_I2C_PM_END :: int where "TEST_CASE_I2C_PM_END = 3"

datatype test_category = TEST_ETHTOOL | TEST_PCI_PM | TEST_I2C_PM | TEST_SND

section \<open>Calls of the driver\<close>

definition test_start :: "'s act" where
  "test_start = skip"

definition test_end :: "'s act" where
  "test_end = skip"

definition ETHTOOL_BASIC_CALL ::
  "('a ep_state_scheme) ep_driver \<Rightarrow> string \<Rightarrow> ('a ep_state_scheme) act" where
  "ETHTOOL_BASIC_CALL drv fn = block
    [tfassert (\<lambda>s. net_dev s \<noteq> 0) ''Failed to invoke 1'',
     tfassert (\<lambda>s. ethtool_ops drv (net_dev s) \<noteq> 0) ''Failed to invoke 2'',
     \<lambda>s. case ethtool_op drv (ethtool_ops drv (net_dev s)) fn of
         None \<Rightarrow> Inr s
       | Some call \<Rightarrow> call s]"

definition ETHTOOL_CALL2 ::
  "('a ep_state_scheme) ep_driver \<Rightarrow> string \<Rightarrow> string \<Rightarrow> string \<Rightarrow> ('a ep_state_scheme) act" where
  "ETHTOOL_CALL2 drv func fn ttd2 = block
    [s2e (S2E_make_symbolic_local ttd2 func),
     cond (\<lambda>s. net_dev s = 0 \<or> ethtool_ops drv (net_dev s) = 0) (fail Null_Deref)
      (\<lambda>s. case ethtool_op drv (ethtool_ops drv (net_dev s)) fn of
           None \<Rightarrow> Inr s
         | Some call \<Rightarrow> call s)]"

definition ethtool_get_settings :: "('a ep_state_scheme) ep_driver \<Rightarrow> ('a ep_state_scheme) act" where
  "ethtool_get_settings drv = ETHTOOL_CALL2 drv ''ethtool_get_settings'' ''get_settings'' ''struct ethtool_cmd''"

definition ethtool_set_settings :: "('a ep_state_scheme) ep_driver \<Rightarrow> ('a ep_state_scheme) act" where
  "ethtool_set_settings drv = ETHTOOL_CALL2 drv ''ethtool_set_settings'' ''set_settings'' ''struct ethtool_cmd''"

definition ethtool_get_drvinfo :: "('a ep_state_scheme) ep_driver \<Rightarrow> ('a ep_state_scheme) act" where
  "ethtool_get_drvinfo drv = ETHTOOL_CALL2 drv ''ethtool_get_drvinfo'' ''get_drvinfo'' ''struct ethtool_drvinfo''"

definition ethtool_get_regs_len :: "('a ep_state_scheme) ep_driver \<Rightarrow> ('a ep_state_scheme) act" where
  "ethtool_get_regs_len drv = ETHTOOL_BASIC_CALL drv ''get_regs_len''"

definition ethtool_get_regs :: "('a ep_state_scheme) ep_driver \<Rightarrow> ('a ep_state_scheme) act" where
  "ethtool_get_regs drv = block
    [with_result mjr_kmalloc (\<lambda>o3. skip),
     s2e (S2E_make_symbolic_local ''struct ethtool_regs'' ''ethtool_get_regs''),
     ETHTOOL_BASIC_CALL drv ''get_regs'']"

definition ethtool_get_wol :: "('a ep_state_scheme) ep_driver \<Rightarrow> ('a ep_state_scheme) act" where
  "ethtool_get_wol drv = ETHTOOL_CALL2 drv ''ethtool_get_wol'' ''get_wol'' ''struct ethtool_wolinfo''"

definition ethtool_set_wol :: "('a ep_state_scheme) ep_driver \<Rightarrow> ('a ep_state_scheme) act" where
  "ethtool_set_wol drv = ETHTOOL_CALL2 drv ''ethtool_set_wol'' ''set_wol'' ''struct ethtool_wolinfo''"

definition ethtool_get_msglevel :: "('a ep_state_scheme) ep_driver \<Rightarrow> ('a ep_state_scheme) act" where
  "ethtool_get_msglevel drv = ETHTOOL_BASIC_CALL drv ''get_msglevel''"

definition ethtool_set_msglevel :: "('a ep_state_scheme) ep_driver \<Rightarrow> ('a ep_state_scheme) act" where
  "ethtool_set_msglevel drv = ETHTOOL_CALL2 drv ''ethtool_set_msglevel'' ''set_msglevel'' ''u32''"

definition ethtool_nway_reset :: "('a ep_state_scheme) ep_driver \<Rightarrow> ('a ep_state_scheme) act" where
  "ethtool_nway_reset drv = ETHTOOL_BASIC_CALL drv ''nway_reset''"

definition ethtool_get_link :: "('a ep_state_scheme) ep_driver \<Rightarrow> ('a ep_state_scheme) act" where
  "ethtool_get_link drv = ETHTOOL_BASIC_CALL drv ''get_link''"

definition ethtool_get_eeprom_len :: "('a ep_state_scheme) ep_driver \<Rightarrow> ('a ep_state_scheme) act" where
  "ethtool_get_eeprom_len drv = ETHTOOL_BASIC_CALL drv ''get_eeprom_len''"

definition ethtool_get_eeprom :: "('a ep_state_scheme) ep_driver \<Rightarrow> ('a ep_state_scheme) act" where
  "ethtool_get_eeprom drv = block
    [with_result mjr_kmalloc (\<lambda>o3. skip),
     s2e (S2E_make_symbolic_local ''struct ethtool_eeprom'' ''ethtool_get_eeprom''),
     ETHTOOL_BASIC_CALL drv ''get_eeprom'']"

definition ethtool_set_eeprom :: "('a ep_state_scheme) ep_driver \<Rightarrow> ('a ep_state_scheme) act" where
  "ethtool_set_eeprom drv = block
    [with_result mjr_kmalloc (\<lambda>o3. if o3 then skip else fail Null_Deref),
     s2e (S2E_make_symbolic_local ''struct ethtool_eeprom'' ''ethtool_set_eeprom''),
     s2e (S2E_make_symbolic_local ''o3'' ''ethtool_set_eeprom''),
     ETHTOOL_BASIC_CALL drv ''set_eeprom'']"

definition ethtool_get_coalesce :: "('a ep_state_scheme) ep_driver \<Rightarrow> ('a ep_state_scheme) act" where
  "ethtool_get_coalesce drv = ETHTOOL_CALL2 drv ''ethtool_get_coalesce'' ''get_coalesce'' ''struct ethtool_coalesce''"

definition ethtool_set_coalesce :: "('a ep_state_scheme) ep_driver \<Rightarrow> ('a ep_state_scheme) act" where
  "ethtool_set_coalesce drv = ETHTOOL_CALL2 drv ''ethtool_set_coalesce'' ''set_coalesce'' ''struct ethtool_coalesce''"

definition ethtool_get_ringparam :: "('a ep_state_scheme) ep_driver \<Rightarrow> ('a ep_state_scheme) act" where
  "ethtool_get_ringparam drv = ETHTOOL_CALL2 drv ''ethtool_get_ringparam'' ''get_ringparam'' ''struct ethtool_ringparam''"

definition ethtool_set_ringparam :: "('a ep_state_scheme) ep_driver \<Rightarrow> ('a ep_state_scheme) act" where
  "ethtool_set_ringparam drv = ETHTOOL_CALL2 drv ''ethtool_set_ringparam'' ''set_ringparam'' ''struct ethtool_ringparam''"

definition ethtool_get_pauseparam :: "('a ep_state_scheme) ep_driver \<Rightarrow> ('a ep_state_scheme) act" where
  "ethtool_get_pauseparam drv = ETHTOOL_CALL2 drv ''ethtool_get_pauseparam'' ''get_pauseparam'' ''struct ethtool_pauseparam''"

definition ethtool_set_pauseparam :: "('a ep_state_scheme) ep_driver \<Rightarrow> ('a ep_state_scheme) act" where
  "ethtool_set_pauseparam drv = ETHTOOL_CALL2 drv ''ethtool_set_pauseparam'' ''set_pauseparam'' ''struct ethtool_pauseparam''"

definition ethtool_get_rx_csum :: "('a ep_state_scheme) ep_driver \<Rightarrow> ('a ep_state_scheme) act" where
  "ethtool_get_rx_csum drv = ETHTOOL_BASIC_CALL drv ''get_rx_csum''"

definition ethtool_set_rx_csum :: "('a ep_state_scheme) ep_driver \<Rightarrow> ('a ep_state_scheme) act" where
  "ethtool_set_rx_csum drv = ETHTOOL_CALL2 drv ''ethtool_set_rx_csum'' ''set_rx_csum'' ''u32''"

definition ethtool_get_tx_csum :: "('a ep_state_scheme) ep_driver \<Rightarrow> ('a ep_state_scheme) act" where
  "ethtool_get_tx_csum drv = ETHTOOL_BASIC_CALL drv ''get_tx_csum''"

definition ethtool_set_tx_csum :: "('a ep_state_scheme) ep_driver \<Rightarrow> ('a ep_state_scheme) act" where
  "ethtool_set_tx_csum drv = ETHTOOL_CALL2 drv ''ethtool_set_tx_csum'' ''set_tx_csum'' ''u32''"

definition ethtool_get_sg :: "('a ep_state_scheme) ep_driver \<Rightarrow> ('a ep_state_scheme) act" where
  "ethtool_get_sg drv = ETHTOOL_BASIC_CALL drv ''get_sg''"

definition ethtool_set_sg :: "('a ep_state_scheme) ep_driver \<Rightarrow> ('a ep_state_scheme) act" where
  "ethtool_set_sg drv = ETHTOOL_CALL2 drv ''ethtool_set_sg'' ''set_sg'' ''u32''"

definition ethtool_get_tso :: "('a ep_state_scheme) ep_driver \<Rightarrow> ('a ep_state_scheme) act" where
  "ethtool_get_tso drv = ETHTOOL_BASIC_CALL drv ''get_tso''"

definition ethtool_set_tso :: "('a ep_state_scheme) ep_driver \<Rightarrow> ('a ep_state_scheme) act" where
  "ethtool_set_tso drv = ETHTOOL_CALL2 drv ''ethtool_set_tso'' ''set_tso'' ''u32''"

definition ethtool_self_test :: "('a ep_state_scheme) ep_driver \<Rightarrow> ('a ep_state_scheme) act" where
  "ethtool_self_test drv = block
    [with_result mjr_kmalloc (\<lambda>o3. if o3 then skip else fail Null_Deref),
     s2e (S2E_make_symbolic_local ''struct ethtool_test'' ''ethtool_self_test''),
     s2e (S2E_make_symbolic_local ''o3'' ''ethtool_self_test''),
     ETHTOOL_BASIC_CALL drv ''self_test'']"

definition ethtool_get_strings :: "('a ep_state_scheme) ep_driver \<Rightarrow> ('a ep_state_scheme) act" where
  "ethtool_get_strings drv = block
    [with_result mjr_kmalloc (\<lambda>o3. if o3 then skip else fail Null_Deref),
     s2e (S2E_make_symbolic_local ''u32'' ''ethtool_get_strings''),
     s2e (S2E_make_symbolic_local ''o3'' ''ethtool_get_strings''),
     ETHTOOL_BASIC_CALL drv ''get_strings'']"

definition ethtool_set_phys_id :: "('a ep_state_scheme) ep_driver \<Rightarrow> ('a ep_state_scheme) act" where
  "ethtool_set_phys_id drv = ETHTOOL_CALL2 drv ''ethtool_set_phys_id'' ''set_phys_id'' ''u32''"

definition ethtool_get_ethtool_stats :: "('a ep_state_scheme) ep_driver \<Rightarrow> ('a ep_state_scheme) act" where
  "ethtool_get_ethtool_stats drv = block
    [with_result mjr_kmalloc (\<lambda>o3. if o3 then skip else fail Null_Deref),
     s2e (S2E_make_symbolic_local ''struct ethtool_stats'' ''ethtool_get_ethtool_stats''),
     s2e (S2E_make_symbolic_local ''o3'' ''ethtool_get_ethtool_stats''),
     ETHTOOL_BASIC_CALL drv ''get_ethtool_stats'']"

definition ethtool_begin :: "('a ep_state_scheme) ep_driver \<Rightarrow> ('a ep_state_scheme) act" where
  "ethtool_begin drv = ETHTOOL_BASIC_CALL drv ''begin''"

definition ethtool_complete :: "('a ep_state_scheme) ep_driver \<Rightarrow> ('a ep_state_scheme) act" where
  "ethtool_complete drv = ETHTOOL_BASIC_CALL drv ''complete''"

definition ethtool_get_ufo :: "('a ep_state_scheme) ep_driver \<Rightarrow> ('a ep_state_scheme) act" where
  "ethtool_get_ufo drv = ETHTOOL_BASIC_CALL drv ''get_ufo''"

definition ethtool_set_ufo :: "('a ep_state_scheme) ep_driver \<Rightarrow> ('a ep_state_scheme) act" where
  "ethtool_set_ufo drv = ETHTOOL_CALL2 drv ''ethtool_set_ufo'' ''set_ufo'' ''u32''"

definition ethtool_get_flags :: "('a ep_state_scheme) ep_driver \<Rightarrow> ('a ep_state_scheme) act" where
  "ethtool_get_flags drv = ETHTOOL_BASIC_CALL drv ''get_flags''"

definition ethtool_set_flags :: "('a ep_state_scheme) ep_driver \<Rightarrow> ('a ep_state_scheme) act" where
  "ethtool_set_flags drv = ETHTOOL_CALL2 drv ''ethtool_set_flags'' ''set_flags'' ''u32''"

definition ethtool_get_priv_flags :: "('a ep_state_scheme) ep_driver \<Rightarrow> ('a ep_state_scheme) act" where
  "ethtool_get_priv_flags drv = ETHTOOL_BASIC_CALL drv ''get_priv_flags''"

definition ethtool_set_priv_flags :: "('a ep_state_scheme) ep_driver \<Rightarrow> ('a ep_state_scheme) act" where
  "ethtool_set_priv_flags drv = ETHTOOL_CALL2 drv ''ethtool_set_priv_flags'' ''set_priv_flags'' ''u32''"

definition ethtool_get_sset_count :: "('a ep_state_scheme) ep_driver \<Rightarrow> ('a ep_state_scheme) act" where
  "ethtool_get_sset_count drv = ETHTOOL_CALL2 drv ''ethtool_get_sset_count'' ''get_sset_count'' ''int''"

text \<open>A function pointer called without a test.\<close>

definition call_op :: "'s act option \<Rightarrow> 's act" where
  "call_op op = deref op id"

definition pci_suspend :: "('a ep_state_scheme) ep_driver \<Rightarrow> ('a ep_state_scheme) act" where
  "pci_suspend drv = block
    [tfassert (\<lambda>s. pci_dev s \<noteq> 0) ''pci_dev must not be null when doing test'',
     tfassert (\<lambda>s. pci_drv s \<noteq> 0) ''pci_drv must not be null when doing test'',
     s2e (S2E_make_symbolic_local ''int'' ''pci_suspend''),
     \<lambda>s. call_op (pci_op drv (pci_drv s) ''suspend'') s]"

definition pci_resume :: "('a ep_state_scheme) ep_driver \<Rightarrow> ('a ep_state_scheme) act" where
  "pci_resume drv = block
    [tfassert (\<lambda>s. pci_dev s \<noteq> 0) ''pci_dev must not be null when doing test'',
     tfassert (\<lambda>s. pci_drv s \<noteq> 0) ''pci_drv must not be null when doing test'',
     \<lambda>s. call_op (pci_op drv (pci_drv s) ''resume'') s]"

definition i2c_suspend :: "('a ep_state_scheme) ep_driver \<Rightarrow> ('a ep_state_scheme) act" where
  "i2c_suspend drv = block
    [tfassert (\<lambda>s. i2c_client s \<noteq> 0) ''i2c_client must not be null when doing test'',
     tfassert (\<lambda>s. i2c_drv s \<noteq> 0) ''i2c_drv must not be null when doing test'',
     s2e (S2E_make_symbolic_local ''int'' ''i2c_suspend''),
     \<lambda>s. call_op (i2c_op drv (i2c_drv s) ''suspend'') s]"

definition i2c_resume :: "('a ep_state_scheme) ep_driver \<Rightarrow> ('a ep_state_scheme) act" where
  "i2c_resume drv = block
    [tfassert (\<lambda>s. i2c_client s \<noteq> 0) ''i2c_client must not be null when doing test'',
     tfassert (\<lambda>s. i2c_drv s \<noteq> 0) ''i2c_drv must not be null when doing test'',
     \<lambda>s. call_op (i2c_op drv (i2c_drv s) ''resume'') s]"

fun run_ep_fn :: "('a ep_state_scheme) ep_driver \<Rightarrow> ep_fn \<Rightarrow> ('a ep_state_scheme) act" where
  "run_ep_fn drv Fn_test_start = test_start"
| "run_ep_fn drv Fn_test_end = test_end"
| "run_ep_fn drv Fn_ethtool_get_settings = ethtool_get_settings drv"
| "run_ep_fn drv Fn_ethtool_set_settings = ethtool_set_settings drv"
| "run_ep_fn drv Fn_ethtool_get_drvinfo = ethtool_get_drvinfo drv"
| "run_ep_fn drv Fn_ethtool_get_regs_len = ethtool_get_regs_len drv"
| "run_ep_fn drv Fn_ethtool_get_regs = ethtool_get_regs drv"
| "run_ep_fn drv Fn_ethtool_get_wol = ethtool_get_wol drv"
| "run_ep_fn drv Fn_ethtool_set_wol = ethtool_set_wol drv"
| "run_ep_fn drv Fn_ethtool_get_msglevel = ethtool_get_msglevel drv"
| "run_ep_fn drv Fn_ethtool_set_msglevel = ethtool_set_msglevel drv"
| "run_ep_fn drv Fn_ethtool_nway_reset = ethtool_nway_reset drv"
| "run_ep_fn drv Fn_ethtool_get_link = ethtool_get_link drv"
| "run_ep_fn drv Fn_ethtool_get_eeprom_len = ethtool_get_eeprom_len drv"
| "run_ep_fn drv Fn_ethtool_get_eeprom = ethtool_get_eeprom drv"
| "run_ep_fn drv Fn_ethtool_set_eeprom = ethtool_set_eeprom drv"
| "run_ep_fn drv Fn_ethtool_get_coalesce = ethtool_get_coalesce drv"
| "run_ep_fn drv Fn_ethtool_set_coalesce = ethtool_set_coalesce drv"
| "run_ep_fn drv Fn_ethtool_get_ringparam = ethtool_get_ringparam drv"
| "run_ep_fn drv Fn_ethtool_set_ringparam = ethtool_set_ringparam drv"
| "run_ep_fn drv Fn_ethtool_get_pauseparam = ethtool_get_pauseparam drv"
| "run_ep_fn drv Fn_ethtool_set_pauseparam = ethtool_set_pauseparam drv"
| "run_ep_fn drv Fn_ethtool_get_rx_csum = ethtool_get_rx_csum drv"
| "run_ep_fn drv Fn_ethtool_set_rx_csum = ethtool_set_rx_csum drv"
| "run_ep_fn drv Fn_ethtool_get_tx_csum = ethtool_get_tx_csum drv"
| "run_ep_fn drv Fn_ethtool_set_tx_csum = ethtool_set_tx_csum drv"
| "run_ep_fn drv Fn_ethtool_get_sg = ethtool_get_sg drv"
| "run_ep_fn drv Fn_ethtool_set_sg = ethtool_set_sg drv"
| "run_ep_fn drv Fn_ethtool_get_tso = ethtool_get_tso drv"
| "run_ep_fn drv Fn_ethtool_set_tso = ethtool_set_tso drv"
| "run_ep_fn drv Fn_ethtool_self_test = ethtool_self_test drv"
| "run_ep_fn drv Fn_ethtool_get_strings = ethtool_get_strings drv"
| "run_ep_fn drv Fn_ethtool_set_phys_id = ethtool_set_phys_id drv"
| "run_ep_fn drv Fn_ethtool_get_ethtool_stats = ethtool_get_ethtool_stats drv"
| "run_ep_fn drv Fn_ethtool_begin = ethtool_begin drv"
| "run_ep_fn drv Fn_ethtool_complete = ethtool_complete drv"
| "run_ep_fn drv Fn_ethtool_get_ufo = ethtool_get_ufo drv"
| "run_ep_fn drv Fn_ethtool_set_ufo = ethtool_set_ufo drv"
| "run_ep_fn drv Fn_ethtool_get_flags = ethtool_get_flags drv"
| "run_ep_fn drv Fn_ethtool_set_flags = ethtool_set_flags drv"
| "run_ep_fn drv Fn_ethtool_get_priv_flags = ethtool_get_priv_flags drv"
| "run_ep_fn drv Fn_ethtool_set_priv_flags = ethtool_set_priv_flags drv"
| "run_ep_fn drv Fn_ethtool_get_sset_count = ethtool_get_sset_count drv"
| "run_ep_fn drv Fn_pci_suspend = pci_suspend drv"
| "run_ep_fn drv Fn_pci_resume = pci_resume drv"
| "run_ep_fn drv Fn_i2c_suspend = i2c_suspend drv"
| "run_ep_fn drv Fn_i2c_resume = i2c_resume drv"

section \<open>Tables and dispatch\<close>

definition initialize_ep :: "('a ep_state_scheme) check" where
  "initialize_ep = returning 0 (update (\<lambda>s. s\<lparr>net_dev := 0, pci_drv := 0, pci_dev := 0, i2c_drv := 0,
     i2c_client := 0,
     ethtool_fn_array :=
    [Fn_test_start,
     Fn_ethtool_get_settings,
     Fn_ethtool_set_settings,
     Fn_ethtool_get_drvinfo,
     Fn_ethtool_get_regs_len,
     Fn_ethtool_get_regs,
     Fn_ethtool_get_wol,
     Fn_ethtool_set_wol,
     Fn_ethtool_get_msglevel,
     Fn_ethtool_set_msglevel,
     Fn_ethtool_nway_reset,
     Fn_ethtool_get_link,
     Fn_ethtool_get_eeprom_len,
     Fn_ethtool_get_eeprom,
     Fn_ethtool_set_eeprom,
     Fn_ethtool_get_coalesce,
     Fn_ethtool_set_coalesce,
     Fn_ethtool_get_ringparam,
     Fn_ethtool_set_ringparam,
     Fn_ethtool_get_pauseparam,
     Fn_ethtool_set_pauseparam,
     Fn_ethtool_get_rx_csum,
     Fn_ethtool_set_rx_csum,
     Fn_ethtool_get_tx_csum,
     Fn_ethtool_set_tx_csum,
     Fn_ethtool_get_sg,
     Fn_ethtool_set_sg,
     Fn_ethtool_get_tso,
     Fn_ethtool_set_tso,
     Fn_ethtool_self_test,
     Fn_ethtool_get_strings,
     Fn_ethtool_set_phys_id,
     Fn_ethtool_get_ethtool_stats,
     Fn_ethtool_begin,
     Fn_ethtool_complete,
     Fn_ethtool_get_ufo,
     Fn_ethtool_set_ufo,
     Fn_ethtool_get_flags,
     Fn_ethtool_set_flags,
     Fn_ethtool_get_priv_flags,
     Fn_ethtool_set_priv_flags,
     Fn_ethtool_get_sset_count,
     Fn_test_end],
     pci_pm_fn_array := [Fn_test_start, Fn_pci_suspend, Fn_pci_resume, Fn_test_end],
     i2c_pm_fn_array := [Fn_test_start, Fn_i2c_suspend, Fn_i2c_resume, Fn_test_end]\<rparr>))"

definition ep_init_net :: "ulong \<Rightarrow> ('a ep_state_scheme) act" where
  "ep_init_net dev = update (\<lambda>s. s\<lparr>net_dev := dev\<rparr>)"

definition ep_init_pci_driver :: "ulong \<Rightarrow> ('a ep_state_scheme) act" where
  "ep_init_pci_driver drv = update (\<lambda>s. s\<lparr>pci_drv := drv\<rparr>)"

definition ep_init_pci_dev :: "ulong \<Rightarrow> ('a ep_state_scheme) act" where
  "ep_init_pci_dev dev = update (\<lambda>s. s\<lparr>pci_dev := dev\<rparr>)"

definition ep_init_i2c_driver :: "ulong \<Rightarrow> ('a ep_state_scheme) act" where
  "ep_init_i2c_driver drv = update (\<lambda>s. s\<lparr>i2c_drv := drv\<rparr>)"

definition ep_init_i2c_client :: "ulong \<Rightarrow> ('a ep_state_scheme) act" where
  "ep_init_i2c_client client = update (\<lambda>s. s\<lparr>i2c_client := client\<rparr>)"

definition call_fn_array ::
  "('a ep_state_scheme) ep_driver \<Rightarrow> ('a ep_state_scheme \<Rightarrow> ep_fn list) \<Rightarrow> int \<Rightarrow> ('a ep_state_scheme) act" where
  "call_fn_array drv fn_array i = (\<lambda>s. case load_at i (fn_array s) of
       None \<Rightarrow> Inl Null_Deref
     | Some fn \<Rightarrow> run_ep_fn drv fn s)"

text \<open>\<open>run_test\<close> is the value the symbolic variable takes on the path.\<close>

definition ep_test_generic ::
  "('a ep_state_scheme) ep_driver \<Rightarrow> int \<Rightarrow> int \<Rightarrow> int \<Rightarrow> int \<Rightarrow>
   ('a ep_state_scheme \<Rightarrow> ep_fn list) \<Rightarrow> int \<Rightarrow> ('a ep_state_scheme) act" where
  "ep_test_generic drv run_test fn_id lo hi fn_array disable_interrupts = block
    [s2e (S2E_favor_successful 0 0),
     if disable_interrupts \<noteq> 0 then update (\<lambda>s. snd (set_device_interrupts 1 s)) else skip,
     if fn_id < lo \<or> fn_id \<ge> hi then tf_fail ''Failed to invoke test case'' else skip,
     if fn_id = lo then block
       [s2e (S2E_make_symbolic_local ''int'' ''ep_test_generic''),
        if run_test \<ge> lo + 1 \<and> run_test \<le> hi - 1 then call_fn_array drv fn_array run_test
        else fail (Killed 1 0 ''Killing extra state in ep_test_generic'')]
     else call_fn_array drv fn_array fn_id,
     fail (Killed 1 0 ''Victory - test case(s) complete'')]"

definition ep_test ::
  "('a ep_state_scheme) ep_driver \<Rightarrow> int \<Rightarrow> test_category \<Rightarrow> int \<Rightarrow> ('a ep_state_scheme) act" where
  "ep_test drv run_test category fn_id = (case category of
       TEST_ETHTOOL \<Rightarrow> ep_test_generic drv run_test fn_id TEST_CASE_ETHTOOL_BEGIN TEST_CASE_ETHTOOL_END
         ethtool_fn_array 1
     | TEST_PCI_PM \<Rightarrow> ep_test_generic drv run_test fn_id TEST_CASE_PCI_PM_BEGIN TEST_CASE_PCI_PM_END
         pci_pm_fn_array 0
     | TEST_I2C_PM \<Rightarrow> ep_test_generic drv run_test fn_id TEST_CASE_I2C_PM_BEGIN TEST_CASE_I2C_PM_END
         i2c_pm_fn_array 0
     | _ \<Rightarrow> tf_fail ''Invalid test category specified'')"

definition ep_control_ioctl ::
  "('a ep_state_scheme) ep_driver \<Rightarrow> int \<Rightarrow> test_category \<Rightarrow> int \<Rightarrow> ('a ep_state_scheme) check" where
  "ep_control_ioctl drv run_test cmd arg = returning 0 (case cmd of
       TEST_ETHTOOL \<Rightarrow> ep_test drv run_test cmd arg
     | TEST_PCI_PM \<Rightarrow> ep_test drv run_test cmd arg
     | TEST_I2C_PM \<Rightarrow> ep_test drv run_test cmd arg
     | TEST_SND \<Rightarrow> tf_fail ''Snd not supported / no other values supported.'')"

section \<open>What the dispatcher does\<close>

lemma block_last_fails: "block (as @ [fail e]) s \<noteq> Inr t"
  by (induction as arbitrary: s) (auto split: sum.splits)

lemma block5_fails: "block [a, b, c, d, fail e] s \<noteq> Inr t"
  using block_last_fails [of "[a, b, c, d]" e s t] by (simp only: append.simps) simp

lemma ep_test_generic_ends: "ep_test_generic drv run_test fn_id lo hi arr d s \<noteq> Inr t"
  unfolding ep_test_generic_def by (rule block5_fails)

lemma ep_test_ends: "ep_test drv run_test category fn_id s \<noteq> Inr t"
  by (cases category) (simp_all add: ep_test_def ep_test_generic_ends)

end
