(* ===== verification/Irq.thy ===== *)
theory Irq
  imports Invariant Testing_Ep
begin

text \<open>
  Interrupt handling, the Linux part of \<open>misc_checks/irq.c\<close>: the table of requested interrupts,
  the checks of \<open>request_irq\<close> and its relatives, and the loop that calls the driver's handlers
  whenever the driver is entered from the kernel.

  A handler is a parameter, the effect of calling the function pointer with the interrupt number
  and the parameter it was registered with. The counter of calls per source line is a function from
  line numbers, \<open>None\<close> before \<open>initialize_irqs\<close>.
\<close>

section \<open>State\<close>

record irq_struct =
  allocated :: int
  number :: u32
  handler :: ulong
  parameter :: ulong
  flags :: ulong
  irq_name :: string
  irq_enabled :: int

definition MAX_IRQ_LINES :: nat where "MAX_IRQ_LINES = 200000"
definition MAX_IRQS :: nat where "MAX_IRQS = 16"

definition MAX_INTERRUPTS_PER_LINE :: "'a kernel_env_scheme \<Rightarrow> u8" where
  "MAX_INTERRUPTS_PER_LINE s = (if DISABLED [''ANDROID_CYTTSP'', ''ME4000''] s then 1 else 5)"

record irq_state = ep_state +
  sym_irq :: "irq_struct list"
  sym_num_requests :: int
  sym_irq_ongoing :: int
  sym_irq_lines :: "(nat \<Rightarrow> u8) option"
  irq_force_receive_called_before :: int

section \<open>Set-up\<close>

definition free_slot :: irq_struct where
  "free_slot = \<lparr>allocated = 0, number = 0, handler = 0, parameter = 0, flags = 0, irq_name = [],
     irq_enabled = 0\<rparr>"

definition reset_one :: "nat \<Rightarrow> ('a irq_state_scheme) act" where
  "reset_one index = update (\<lambda>s. s\<lparr>sym_irq := (sym_irq s)[index := free_slot]\<rparr>)"

definition irq_reset_state :: "('a irq_state_scheme) act" where
  "irq_reset_state = block
    [block (map reset_one [0..<MAX_IRQS]),
     update (\<lambda>s. s\<lparr>sym_irq_ongoing := 0\<rparr>),
     tfassert (\<lambda>s. sym_irq_lines s \<noteq> None) ''Failed -- why not allocated?'',
     update (\<lambda>s. s\<lparr>sym_irq_lines := Some (\<lambda>_. 0)\<rparr>),
     update (\<lambda>s. s\<lparr>sym_num_requests := 0\<rparr>)]"

definition initialize_irqs :: "('a irq_state_scheme) check" where
  "initialize_irqs = returning 0 (block
    [with_result mjr_kmalloc (\<lambda>ok.
       update (\<lambda>s. s\<lparr>sym_irq_lines := (if ok then Some (\<lambda>_. 0) else None)\<rparr>)),
     tfassert (\<lambda>s. sym_irq_lines s \<noteq> None) ''Failed -- insufficient memory for sym_irq_lines'',
     irq_reset_state])"

definition free_irqs :: "('a irq_state_scheme) act" where
  "free_irqs = block [irq_reset_state, update (\<lambda>s. s\<lparr>sym_irq_lines := None\<rparr>)]"

definition is_irq_allocated :: "'a irq_state_scheme \<Rightarrow> int" where
  "is_irq_allocated s = (if sym_num_requests s > 0 then 1 else 0)"

section \<open>Requests\<close>

text \<open>
  \<open>irq\<close> and \<open>dev_name\<close> are pointers the code tests, \<open>None\<close> for \<open>NULL\<close>. The name is copied with
  \<open>strcpy\<close> into 128 bytes.
\<close>

definition request_threaded_irq_MJRcheck ::
  "int \<Rightarrow> int \<Rightarrow> u32 option \<Rightarrow> ulong \<Rightarrow> ulong \<Rightarrow> string option \<Rightarrow> ulong \<Rightarrow> ('a irq_state_scheme) check" where
  "request_threaded_irq_MJRcheck prepost retval irq hdl flgs dev_name dev_id = check_routine 0
    (if prepost = 0 then block
      [tfassert (\<lambda>_. dev_name \<noteq> None) ''dev_name == NULL'',
       tfassert (\<lambda>_. irq \<noteq> None) ''irq == NULL'']
     else if prepost = 1 then
      (if retval \<noteq> 0 then skip
       else block
        [update (\<lambda>s. s\<lparr>sym_num_requests := sym_num_requests s + 1\<rparr>),
         with_state (\<lambda>s. let i = first_index (\<lambda>q. allocated q \<noteq> 1) (sym_irq s) in block
          [if i < length (sym_irq s) then block
            [tfassert (\<lambda>s. allocated (sym_irq s ! i) = 0) ''Allocated = 0 in request_irq_MJRcheck'',
             deref irq (\<lambda>n. deref dev_name (\<lambda>name.
               if length name > 127 then fail Out_Of_Bounds
               else update (\<lambda>s. s\<lparr>sym_irq := (sym_irq s)[i :=
                 \<lparr>allocated = 1, number = n, handler = hdl, parameter = dev_id, flags = flgs,
                  irq_name = name, irq_enabled = 1\<rparr>]\<rparr>)))]
           else skip,
           tfassert (\<lambda>s. i < MAX_IRQS) ''Driver requesting many many IRQs?'',
           tfassert (\<lambda>s. sym_irq_lines s \<noteq> None) ''Failed -- why not allocated?''])])
     else skip)"

definition free_irq_MJRcheck :: "int \<Rightarrow> u32 \<Rightarrow> ulong \<Rightarrow> ('a irq_state_scheme) check" where
  "free_irq_MJRcheck prepost irq dev_id = check_routine 0
    (if prepost = 0 then block
      [tfassert (\<lambda>s. sym_num_requests s \<ge> 1) ''Freeing IRQ incorrectly'',
       update (\<lambda>s. s\<lparr>sym_num_requests := sym_num_requests s - 1\<rparr>),
       with_state (\<lambda>s. let i = first_index (\<lambda>q. allocated q = 1 \<and> number q = irq) (sym_irq s) in block
        [if i < length (sym_irq s) then block
          [tfassert (\<lambda>s. sym_irq_ongoing s = 0) ''Weird: an IRQ is in progress but they are freeing it'',
           tfassert (\<lambda>s. dev_id = parameter (sym_irq s ! i))
             ''Ensure free_irq parameter matches request_irq parameter'',
           reset_one i]
         else skip,
         tfassert (\<lambda>s. i < MAX_IRQS) ''The driver freed an IRQ without first requesting it''])]
     else skip)"

definition set_enabled :: "nat \<Rightarrow> int \<Rightarrow> ('a irq_state_scheme) act" where
  "set_enabled i e = update (\<lambda>s. s\<lparr>sym_irq := (sym_irq s)[i := (sym_irq s ! i)\<lparr>irq_enabled := e\<rparr>]\<rparr>)"

definition enable_irq_MJRcheck :: "int \<Rightarrow> u32 \<Rightarrow> ('a irq_state_scheme) check" where
  "enable_irq_MJRcheck prepost irq = check_routine 0
    (if prepost = 1 then
      with_state (\<lambda>s. let i = first_index (\<lambda>q. allocated q = 1 \<and> number q = irq) (sym_irq s) in block
        [if i < length (sym_irq s) then block
          [tfassert (\<lambda>s. irq_enabled (sym_irq s ! i) = 0) ''Why enable an enabled interrupt?'',
           set_enabled i 1]
         else skip,
         tfassert (\<lambda>s. i < MAX_IRQS) ''Enabling interrupt that doesnt exist''])
     else skip)"

definition disable_interrupt :: "int \<Rightarrow> u32 \<Rightarrow> ('a irq_state_scheme) check" where
  "disable_interrupt prepost irq = check_routine 0
    (if prepost = 1 then
      with_state (\<lambda>s. let i = first_index (\<lambda>q. allocated q = 1 \<and> number q = irq) (sym_irq s) in block
        [if i < length (sym_irq s) then block
          [tfassert (\<lambda>s. irq_enabled (sym_irq s ! i) = 1) ''Why disable an enabled interrupt?'',
           set_enabled i 0]
         else skip,
         tfassert (\<lambda>s. i < MAX_IRQS) ''Disabling interrupt that doesnt exist''])
     else skip)"

definition disable_irq_MJRcheck :: "int \<Rightarrow> u32 \<Rightarrow> ('a irq_state_scheme) check" where
  "disable_irq_MJRcheck prepost irq = disable_interrupt prepost irq"

definition disable_irq_nosync_MJRcheck :: "int \<Rightarrow> u32 \<Rightarrow> ('a irq_state_scheme) check" where
  "disable_irq_nosync_MJRcheck prepost irq = disable_interrupt prepost irq"

section \<open>Handlers\<close>

definition interrupt_handler_MJRcheck :: "int \<Rightarrow> ('a irq_state_scheme) check" where
  "interrupt_handler_MJRcheck prepost = check_routine 0
    (if prepost = 0 then block [push_blocking_state BLOCKING_NO, push_user_state USER_YES]
     else if prepost = 1 then block
      [pop_blocking_state,
       pop_user_state,
       onlyif (\<lambda>s. g_sym_force_receive s = 1)
        (cond (\<lambda>s. irq_force_receive_called_before s = 0)
          (reading get_driver_class (\<lambda>c.
            if c = DRIVER_NET then
              cond (\<lambda>s. opened (ndo_driver_state s) = CALLED_OK \<and>
                       (u2_napi_schedule (ndo_driver_state s) = CALLED_OK \<or>
                        netif_rx (ndo_driver_state s) = CALLED_OK))
               (block
                [s2e (S2E_prioritize 0),
                 update (\<lambda>s. s\<lparr>irq_force_receive_called_before := 1\<rparr>)])
               (onlyif (\<lambda>s. opened (ndo_driver_state s) = CALLED_OK) (block
                [s2e (S2E_deprioritize 0),
                 update (\<lambda>s. s\<lparr>irq_force_receive_called_before := 1\<rparr>)]))
            else reading get_driver_class (\<lambda>_. skip)))
          (reading get_driver_class (\<lambda>_. skip)))]
     else tf_fail ''0'')"

type_synonym 's isr = "ulong \<Rightarrow> u32 \<Rightarrow> ulong \<Rightarrow> 's act"

definition line_count :: "nat \<Rightarrow> 'a irq_state_scheme \<Rightarrow> u8" where
  "line_count line s = (case sym_irq_lines s of None \<Rightarrow> 0 | Some f \<Rightarrow> f line)"

definition set_line_count :: "nat \<Rightarrow> u8 \<Rightarrow> ('a irq_state_scheme) act" where
  "set_line_count line c = (\<lambda>s. case sym_irq_lines s of
       None \<Rightarrow> Inl Null_Deref
     | Some f \<Rightarrow> Inr (s\<lparr>sym_irq_lines := Some (f(line := c))\<rparr>))"

text \<open>One round of the loop, then the loop over the table.\<close>

definition call_handler :: "('a irq_state_scheme) isr \<Rightarrow> nat \<Rightarrow> nat \<Rightarrow> ('a irq_state_scheme) act" where
  "call_handler isr line i =
     cond (\<lambda>s. allocated (sym_irq s ! i) = 0) skip
      (onlyif (\<lambda>s. irq_enabled (sym_irq s ! i) = 1) (block
        [with_state (\<lambda>s. set_line_count line (line_count line s + 1)),
         cond (\<lambda>s. line_count line s \<le> MAX_INTERRUPTS_PER_LINE s)
          (with_state (\<lambda>s. isr (handler (sym_irq s ! i)) (number (sym_irq s ! i)) (parameter (sym_irq s ! i))))
          (onlyif (\<lambda>s. line_count line s > 100)
            (with_state (\<lambda>s. set_line_count line (MAX_INTERRUPTS_PER_LINE s - 1))))]))"

definition call_interrupt_handlers :: "('a irq_state_scheme) isr \<Rightarrow> nat \<Rightarrow> ('a irq_state_scheme) act" where
  "call_interrupt_handlers isr line =
     cond (\<lambda>s. sym_irq_ongoing s > 0) skip
      (cond (\<lambda>s. can_call_interrupt_handlers s = 0) skip (block
        [tfassert (\<lambda>_. line < MAX_IRQ_LINES) ''Failed: MAX_IRQ_LINES not big enough'',
         update (\<lambda>s. s\<lparr>sym_irq_ongoing := sym_irq_ongoing s + 1\<rparr>),
         block (map (call_handler isr line) [0..<MAX_IRQS]),
         update (\<lambda>s. s\<lparr>sym_irq_ongoing := sym_irq_ongoing s - 1\<rparr>)]))"

definition execute_completions :: "nat \<Rightarrow> ('a irq_state_scheme) act" where
  "execute_completions line = skip"

section \<open>The table and the count\<close>

definition irq_ok :: "'a irq_state_scheme \<Rightarrow> bool" where
  "irq_ok s \<longleftrightarrow> length (sym_irq s) = MAX_IRQS \<and>
     (\<forall>q \<in> set (sym_irq s). (allocated q = 0 \<or> allocated q = 1) \<and> (irq_enabled q = 0 \<or> irq_enabled q = 1)) \<and>
     sym_num_requests s = int (length (filter (\<lambda>q. allocated q = 1) (sym_irq s)))"

lemma irq_ok_frame:
  "sym_irq t = sym_irq s \<Longrightarrow> sym_num_requests t = sym_num_requests s \<Longrightarrow> irq_ok s \<Longrightarrow> irq_ok t"
  by (simp add: irq_ok_def)

lemma is_irq_allocated_iff: "irq_ok s \<Longrightarrow> is_irq_allocated s = 1 \<longleftrightarrow> (\<exists>q \<in> set (sym_irq s). allocated q = 1)"
  by (auto simp: is_irq_allocated_def irq_ok_def filter_empty_conv)

lemma request_irq_Inr:
  assumes ok: "irq_ok s"
    and run: "request_threaded_irq_MJRcheck 1 0 irq hdl flgs dev_name dev_id s = Inr (r, t)"
  shows "irq_ok t" and "sym_num_requests t = sym_num_requests s + 1"
    and "\<exists>i n name. irq = Some n \<and> dev_name = Some name \<and> i < MAX_IRQS \<and> allocated (sym_irq s ! i) = 0 \<and>
      sym_irq t = (sym_irq s)[i := \<lparr>allocated = 1, number = n, handler = hdl, parameter = dev_id,
        flags = flgs, irq_name = name, irq_enabled = 1\<rparr>]"
proof -
  let ?i = "first_index (\<lambda>q. allocated q \<noteq> 1) (sym_irq s)"
  have len: "length (sym_irq s) = MAX_IRQS" using ok by (simp add: irq_ok_def)
  obtain n name where n: "irq = Some n" "dev_name = Some name" and i: "?i < MAX_IRQS" "allocated (sym_irq s ! ?i) = 0"
    and t: "sym_irq t = (sym_irq s)[?i := \<lparr>allocated = 1, number = n, handler = hdl, parameter = dev_id,
        flags = flgs, irq_name = name, irq_enabled = 1\<rparr>]" "sym_num_requests t = sym_num_requests s + 1"
    using run
    by (auto simp: request_threaded_irq_MJRcheck_def check_routine_Inr Let_def deref_def len
        split: if_splits option.splits)
  show "sym_num_requests t = sym_num_requests s + 1" by (rule t)
  show "\<exists>i n name. irq = Some n \<and> dev_name = Some name \<and> i < MAX_IRQS \<and> allocated (sym_irq s ! i) = 0 \<and>
      sym_irq t = (sym_irq s)[i := \<lparr>allocated = 1, number = n, handler = hdl, parameter = dev_id,
        flags = flgs, irq_name = name, irq_enabled = 1\<rparr>]"
    using n i t(1) by blast
  show "irq_ok t"
    using ok t(2) i filter_update [of ?i "sym_irq s" "\<lambda>q. allocated q = 1"]
    by (auto simp: irq_ok_def t(1) len dest!: set_update_subset_insert [THEN subsetD])
qed

lemma free_irq_Inr:
  assumes ok: "irq_ok s" and run: "free_irq_MJRcheck 0 irq dev_id s = Inr (r, t)"
  shows "irq_ok t" and "sym_num_requests t = sym_num_requests s - 1"
    and "\<exists>i < MAX_IRQS. allocated (sym_irq s ! i) = 1 \<and> number (sym_irq s ! i) = irq \<and>
      parameter (sym_irq s ! i) = dev_id \<and> sym_irq t = (sym_irq s)[i := free_slot]"
    and "sym_irq_ongoing s = 0"
proof -
  let ?i = "first_index (\<lambda>q. allocated q = 1 \<and> number q = irq) (sym_irq s)"
  have len: "length (sym_irq s) = MAX_IRQS" using ok by (simp add: irq_ok_def)
  have i: "?i < MAX_IRQS" and o: "sym_irq_ongoing s = 0" and p: "parameter (sym_irq s ! ?i) = dev_id"
    and t: "sym_irq t = (sym_irq s)[?i := free_slot]" "sym_num_requests t = sym_num_requests s - 1"
    using run by (auto simp: free_irq_MJRcheck_def check_routine_Inr Let_def len reset_one_def split: if_splits)
  have hit: "allocated (sym_irq s ! ?i) = 1 \<and> number (sym_irq s ! ?i) = irq"
    using first_index_hit [of "\<lambda>q. allocated q = 1 \<and> number q = irq" "sym_irq s"] i by (simp add: len)
  show "sym_num_requests t = sym_num_requests s - 1" by (rule t)
  show "\<exists>i < MAX_IRQS. allocated (sym_irq s ! i) = 1 \<and> number (sym_irq s ! i) = irq \<and>
      parameter (sym_irq s ! i) = dev_id \<and> sym_irq t = (sym_irq s)[i := free_slot]"
    using hit i p t(1) by blast
  show "sym_irq_ongoing s = 0" by (rule o)
  have "Suc (length (filter (\<lambda>q. allocated q = 1) ((sym_irq s)[?i := free_slot]))) =
      length (filter (\<lambda>q. allocated q = 1) (sym_irq s))"
    using hit i by (intro filter_update_drop) (simp_all add: len free_slot_def)
  then show "irq_ok t"
    using ok t(2)
    by (auto simp: irq_ok_def t(1) len free_slot_def dest!: set_update_subset_insert [THEN subsetD])
qed

section \<open>Calling the handlers\<close>

text \<open>The counter of a line stays at most 100, so the \<open>unsigned char\<close> never wraps.\<close>

definition lines_bounded :: "'a irq_state_scheme \<Rightarrow> bool" where
  "lines_bounded s \<longleftrightarrow> (\<forall>l. line_count l s \<le> 100)"

lemma line_count_set:
  "set_line_count line c s = Inr t \<Longrightarrow>
   line_count l t = (if l = line then c else line_count l s) \<and> sym_irq t = sym_irq s \<and>
   sym_irq_ongoing t = sym_irq_ongoing s \<and> driver_name t = driver_name s"
  by (auto simp: set_line_count_def line_count_def split: option.splits)

lemma MAX_INTERRUPTS_cases: "MAX_INTERRUPTS_PER_LINE s = 1 \<or> MAX_INTERRUPTS_PER_LINE s = 5"
  by (simp add: MAX_INTERRUPTS_PER_LINE_def)

lemma MAX_INTERRUPTS_cong: "driver_name t = driver_name s \<Longrightarrow> MAX_INTERRUPTS_PER_LINE t = MAX_INTERRUPTS_PER_LINE s"
  by (simp add: MAX_INTERRUPTS_PER_LINE_def DISABLED_def)

lemma suc_count_le: "c \<le> (100 :: u8) \<Longrightarrow> \<not> c + 1 > 100 \<longleftrightarrow> c + 1 \<le> 100"
  by (simp add: not_less)

lemma preserves_call_handler:
  assumes isr: "\<And>h n p. preserves lines_bounded (isr h n p)"
  shows "preserves lines_bounded (call_handler isr line i)"
proof (rule preservesI)
  fix s t assume s: "lines_bounded s" and run: "call_handler isr line i s = Inr t"
  show "lines_bounded t"
  proof (cases "allocated (sym_irq s ! i) = 0 \<or> irq_enabled (sym_irq s ! i) \<noteq> 1")
    case True
    with run s show ?thesis by (auto simp: call_handler_def split: if_splits)
  next
    case False
    let ?rest = "cond (\<lambda>s. line_count line s \<le> MAX_INTERRUPTS_PER_LINE s)
          (with_state (\<lambda>s. isr (handler (sym_irq s ! i)) (number (sym_irq s ! i)) (parameter (sym_irq s ! i))))
          (onlyif (\<lambda>s. line_count line s > 100)
            (with_state (\<lambda>s. set_line_count line (MAX_INTERRUPTS_PER_LINE s - 1))))"
    from run False have "block [with_state (\<lambda>s. set_line_count line (line_count line s + 1)), ?rest] s = Inr t"
      by (simp add: call_handler_def del: block.simps)
    then obtain u where u: "set_line_count line (line_count line s + 1) s = Inr u" and r: "?rest u = Inr t"
      by (auto simp: block_Cons_Inr simp del: block.simps(2) cond_apply)
    note lc = line_count_set [OF u]
    have others: "line_count l u \<le> 100" if "l \<noteq> line" for l
      using lc [of l] s that by (simp add: lines_bounded_def)
    have m: "MAX_INTERRUPTS_PER_LINE u \<le> 100" "MAX_INTERRUPTS_PER_LINE u - 1 \<le> 100"
      using MAX_INTERRUPTS_cases [of u] by auto
    consider (call) "line_count line u \<le> MAX_INTERRUPTS_PER_LINE u"
      | (reset) "line_count line u > MAX_INTERRUPTS_PER_LINE u" "line_count line u > 100"
      | (quiet) "line_count line u > MAX_INTERRUPTS_PER_LINE u" "line_count line u \<le> 100"
      by force
    then show ?thesis
    proof cases
      case call
      have "line_count l u \<le> 100" for l
      proof (cases "l = line")
        case True
        then show ?thesis using call m(1) by (simp add: order_trans [OF call])
      qed (rule others)
      then have "lines_bounded u" by (simp add: lines_bounded_def)
      moreover have "isr (handler (sym_irq u ! i)) (number (sym_irq u ! i)) (parameter (sym_irq u ! i)) u = Inr t"
        using r call by simp
      ultimately show ?thesis by (rule preservesD [OF isr])
    next
      case reset
      then have "set_line_count line (MAX_INTERRUPTS_PER_LINE u - 1) u = Inr t"
        using r reset by (auto split: if_splits)
      from line_count_set [OF this] m(2) others show ?thesis by (auto simp: lines_bounded_def)
    next
      case quiet
      then have "t = u" using r by (auto split: if_splits)
      then show ?thesis using quiet(2) others by (auto simp: lines_bounded_def) (metis others)
    qed
  qed
qed

lemma preserves_call_interrupt_handlers:
  assumes isr: "\<And>h n p. preserves lines_bounded (isr h n p)"
  shows "preserves lines_bounded (call_interrupt_handlers isr line)"
proof -
  have f: "preserves lines_bounded (update (\<lambda>s. s\<lparr>sym_irq_ongoing := f s\<rparr>))" for f
    by (rule preserves_update) (simp add: lines_bounded_def line_count_def)
  have l: "preserves lines_bounded (block (map (call_handler isr line) is))" for "is"
    by (rule preserves_block_set) (auto intro: preserves_call_handler isr)
  show ?thesis unfolding call_interrupt_handlers_def by (intro pres f l)
qed

text \<open>The number of interrupts in progress is the same before and after, whatever the handlers do in between.\<close>

lemma call_handler_ongoing:
  assumes isr: "\<And>h n p. preserves (\<lambda>s. sym_irq_ongoing s = k) (isr h n p)"
  shows "preserves (\<lambda>s. sym_irq_ongoing s = k) (call_handler isr line i)"
proof -
  have c: "preserves (\<lambda>s. sym_irq_ongoing s = k) (set_line_count line c)" for c
    by (rule preservesI) (auto dest: line_count_set)
  show ?thesis unfolding call_handler_def by (intro pres c isr)
qed

lemma call_interrupt_handlers_ongoing:
  assumes isr: "\<And>h n p. preserves (\<lambda>s. sym_irq_ongoing s = k + 1) (isr h n p)"
    and run: "call_interrupt_handlers isr line s = Inr t" and k: "sym_irq_ongoing s = k"
  shows "sym_irq_ongoing t = k"
proof -
  have l: "preserves (\<lambda>s. sym_irq_ongoing s = k + 1) (block (map (call_handler isr line) is))" for "is"
    by (rule preserves_block_set) (auto intro!: call_handler_ongoing isr)
  show ?thesis
  proof (cases "sym_irq_ongoing s > 0 \<or> can_call_interrupt_handlers s = 0")
    case True
    with run k show ?thesis by (auto simp: call_interrupt_handlers_def split: if_splits)
  next
    case False
    let ?s = "s\<lparr>sym_irq_ongoing := sym_irq_ongoing s + 1\<rparr>"
    from run False obtain u where u: "block (map (call_handler isr line) [0..<MAX_IRQS]) ?s = Inr u"
      and t: "t = u\<lparr>sym_irq_ongoing := sym_irq_ongoing u - 1\<rparr>"
      by (auto simp: call_interrupt_handlers_def split: if_splits sum.splits)
    have "sym_irq_ongoing u = k + 1" by (rule preservesD [OF l _ u]) (simp add: k)
    then show ?thesis by (simp add: t)
  qed
qed

section \<open>Safety of the checks\<close>

lemma in_check_irq_frames [simp]:
  "in_check (s\<lparr>sym_irq := q\<rparr>) = in_check s" "in_check (s\<lparr>sym_num_requests := n\<rparr>) = in_check s"
  "in_check (s\<lparr>irq_force_receive_called_before := n\<rparr>) = in_check s"
  by (simp_all add: in_check_def core_inv_def blocking_ok_def user_ok_def tracker_ok_def flags_ok_def
      all_buses_def flag_of_simps class_ok_def locked_def)

lemma safe_irq_updates [safe_rules]:
  "safe in_check (update (\<lambda>s. s\<lparr>sym_irq := f s\<rparr>))" "safe in_check (update (\<lambda>s. s\<lparr>sym_num_requests := g s\<rparr>))"
  "safe in_check (update (\<lambda>s. s\<lparr>irq_force_receive_called_before := k s\<rparr>))"
  by (rule safe_update, simp)+

lemma request_threaded_irq_safe:
  "routine_safe (request_threaded_irq_MJRcheck prepost retval irq hdl flgs dev_name dev_id)"
  unfolding request_threaded_irq_MJRcheck_def Let_def by (intro safe_rules)

lemma free_irq_safe: "routine_safe (free_irq_MJRcheck prepost irq dev_id)"
  unfolding free_irq_MJRcheck_def Let_def reset_one_def by (intro safe_rules)

lemma enable_irq_safe: "routine_safe (enable_irq_MJRcheck prepost irq)"
  unfolding enable_irq_MJRcheck_def Let_def set_enabled_def by (intro safe_rules)

lemma disable_interrupt_safe: "routine_safe (disable_interrupt prepost irq)"
  unfolding disable_interrupt_def Let_def set_enabled_def by (intro safe_rules)

lemma interrupt_handler_safe: "routine_safe (interrupt_handler_MJRcheck prepost)"
  unfolding interrupt_handler_MJRcheck_def by (intro safe_rules)

end
