(* ===== verification/Entry_Exit.thy ===== *)
theory Entry_Exit
  imports Irq
begin

text \<open>
  Entering and leaving the driver, \<open>enter_exit.c\<close>. Every driver function and every kernel function
  the driver calls is wrapped; the wrappers keep a stack of the functions in progress, call the
  interrupt handlers at the borders, and end a path whose entry point has failed or is explored
  enough. A kernel function is pushed when the driver is left into it and removed when it returns.

  \<open>frames\<close> is the live part of the stack, oldest first. Entering appends, leaving removes the last
  occurrence, since threads may leave in another order than they entered.

  Parameters: the effect of an interrupt handler (\<open>isr\<close>), of \<open>gen_register_all_param\<close>, whether
  the hypervisor holds a value to be symbolic, and the value a symbolic variable takes.
\<close>

section \<open>State\<close>

datatype wrapper = STUBWRAPPER | PREPOSTFN
datatype direction = ENTRANCE | EXIT

fun wrapper_int :: "wrapper \<Rightarrow> int" where
  "wrapper_int STUBWRAPPER = 0"
| "wrapper_int PREPOSTFN = 1"

definition driver_call_stack_max :: nat where "driver_call_stack_max = 32"
definition call_stack_buffer_size :: nat where "call_stack_buffer_size = 32768"

record ee_state = irq_state +
  driver_call_stack :: int
  driver_call_stack_str :: "string option list"
  call_stack_buffer1 :: bool
  call_stack_buffer2 :: bool
  g_symdrive_annotations :: int
  first_time_in_driver :: int

section \<open>Operations\<close>

definition initialize_enter_exit :: "('a ee_state_scheme) check" where
  "initialize_enter_exit = returning 0 (block
    [with_result mjr_kmalloc (\<lambda>ok. update (\<lambda>s. s\<lparr>call_stack_buffer1 := ok\<rparr>)),
     with_result mjr_kmalloc (\<lambda>ok. update (\<lambda>s. s\<lparr>call_stack_buffer2 := ok\<rparr>)),
     cond (\<lambda>s. \<not> call_stack_buffer1 s \<or> \<not> call_stack_buffer2 s)
       (fail (Panic ''Failed in initialize_enter_exit'')) skip])"

definition free_enter_exit :: "('a ee_state_scheme) act" where
  "free_enter_exit = block
    [update (\<lambda>s. s\<lparr>call_stack_buffer1 := False\<rparr>),
     update (\<lambda>s. s\<lparr>call_stack_buffer2 := False\<rparr>)]"

definition push_driver_call_stack :: "string \<Rightarrow> ('a ee_state_scheme) act" where
  "push_driver_call_stack fn = (\<lambda>s.
     case store_at (driver_call_stack s) (Some fn) (driver_call_stack_str s) of
       None \<Rightarrow> Inl Out_Of_Bounds
     | Some strs \<Rightarrow> Inr (s\<lparr>driver_call_stack_str := strs\<rparr>))"

text \<open>
  The search from the top of the array down to the last entry equal to \<open>fn\<close>; the entries above it
  are shifted back and the last becomes \<open>NULL\<close>.
\<close>

definition shift_back :: "nat \<Rightarrow> 'v option list \<Rightarrow> 'v option list" where
  "shift_back i xs = take i xs @ drop (Suc i) xs @ [None]"

definition pop_driver_call_stack :: "string \<Rightarrow> ('a ee_state_scheme) act" where
  "pop_driver_call_stack fn = with_state (\<lambda>s.
     let strs = driver_call_stack_str s;
         j = first_index (\<lambda>x. x = Some fn) (rev strs)
     in if j < length strs
        then update (\<lambda>s. s\<lparr>driver_call_stack_str := shift_back (length strs - Suc j) strs\<rparr>)
        else tf_fail ''pop_driver_call_stack: fn not found'')"

text \<open>
  The text \<open>driver_dump_stack\<close> puts together, cut to the size of its buffer by \<open>strlcat\<close>. Each entry
  is first printed by \<open>sprintf\<close> into the second buffer of the same size, terminator included: a name too
  long for it is written over its end.
\<close>

definition digit :: "nat \<Rightarrow> char" where
  "digit d = char_of (48 + d)"

fun show_nat :: "nat \<Rightarrow> string" where
  "show_nat n = (if n < 10 then [digit n] else show_nat (n div 10) @ [digit (n mod 10)])"

declare show_nat.simps [simp del]

definition show_int :: "int \<Rightarrow> string" where
  "show_int i = (if i < 0 then ''-'' @ show_nat (nat (- i)) else show_nat (nat i))"

definition strlcat :: "nat \<Rightarrow> string \<Rightarrow> string \<Rightarrow> string" where
  "strlcat n dst src = dst @ take (n - 1 - length dst) src"

definition stack_entry :: "nat \<Rightarrow> string \<Rightarrow> string" where
  "stack_entry i name = name @ '':'' @ show_nat i @ '' -> ''"

fun dump_entries :: "nat \<Rightarrow> string option list \<Rightarrow> string \<Rightarrow> tf_error + string" where
  "dump_entries i [] buf = Inr buf"
| "dump_entries i (None # es) buf = dump_entries (Suc i) es buf"
| "dump_entries i (Some str # es) buf =
     (if length (stack_entry i str) < call_stack_buffer_size
      then dump_entries (Suc i) es (strlcat call_stack_buffer_size buf (stack_entry i str))
      else Inl Out_Of_Bounds)"

text \<open>What \<open>driver_dump_stack\<close> does once it knows the lock to be held.\<close>

definition dump_text :: "'a ee_state_scheme \<Rightarrow> tf_error + string" where
  "dump_text s =
     (if \<not> call_stack_buffer1 s \<or> \<not> call_stack_buffer2 s then Inl Null_Deref
      else dump_entries 0 (driver_call_stack_str s) [])"

definition driver_dump_stack :: "('a ee_state_scheme \<Rightarrow> tf_error + string)" where
  "driver_dump_stack s = (case assert_global_lock s of Inl e \<Rightarrow> Inl e | Inr _ \<Rightarrow> dump_text s)"

text \<open>The branches on \<open>wrapper_type\<close> of \<open>manage_call_stack\<close>.\<close>

definition move_frame :: "string \<Rightarrow> int \<Rightarrow> wrapper \<Rightarrow> ('a ee_state_scheme) act" where
  "move_frame fn add wrapper_type = (case wrapper_type of
      STUBWRAPPER \<Rightarrow> block
       [if add < 0 then push_driver_call_stack fn else skip,
        update (\<lambda>s. s\<lparr>driver_call_stack := driver_call_stack s - add\<rparr>),
        if add > 0 then pop_driver_call_stack fn else skip]
    | PREPOSTFN \<Rightarrow> block
       [if add > 0 then push_driver_call_stack fn else skip,
        update (\<lambda>s. s\<lparr>driver_call_stack := driver_call_stack s + add\<rparr>),
        if add < 0 then pop_driver_call_stack fn else skip])"

definition manage_call_stack :: "string \<Rightarrow> int \<Rightarrow> wrapper \<Rightarrow> ('a ee_state_scheme) act" where
  "manage_call_stack fn add wrapper_type = block
    [if (add = -1 \<and> wrapper_type = STUBWRAPPER) \<or> (add = 1 \<and> wrapper_type = STUBWRAPPER) \<or>
        (add = -1 \<and> wrapper_type = PREPOSTFN) \<or> (add = 1 \<and> wrapper_type = PREPOSTFN)
     then skip else tf_fail ''Inconsistent add/wrapper_type'',
     tfassert (\<lambda>s. driver_call_stack s \<ge> 0 \<and> driver_call_stack s < int driver_call_stack_max)
       ''driver_call_stack'',
     move_frame fn add wrapper_type,
     tfassert (\<lambda>s. driver_call_stack s \<ge> 0 \<and> driver_call_stack s < int driver_call_stack_max)
       ''driver_call_stack'',
     reading driver_dump_stack (\<lambda>_. skip)]"

definition verify_invariants :: "string \<Rightarrow> int \<Rightarrow> int \<Rightarrow> wrapper \<Rightarrow> ('a ee_state_scheme) act" where
  "verify_invariants fn line add wrapper_type = block
    [manage_call_stack fn add wrapper_type,
     cond (\<lambda>s. driver_call_stack s < 0) (tf_fail ''driver_call_stack - error 3'') skip,
     cond (\<lambda>s. driver_call_stack s \<ge> int driver_call_stack_max - 1)
       (tf_fail ''driver_call_stack - error 4'') skip,
     with_state (\<lambda>s. s2e (S2E_driver_call_stack line (driver_call_stack s)))]"

definition verify_symretval :: "int \<Rightarrow> ('a ee_state_scheme) act" where
  "verify_symretval line =
     cond (\<lambda>s. bad_path s \<noteq> 0) (fail (Killed 1 0 ''Bad path returning to kernel''))
      (cond (\<lambda>s. driver_call_stack s \<ge> 1) skip
        (cond (\<lambda>s. g_sym_retval s = 1)
          (fail (Killed 1 0 ''Good path returning to kernel - reducing state explosion''))
          (cond (\<lambda>s. g_sym_retval s = 2) (s2e (S2E_deprioritize line))
            (tf_fail ''Expected g_sym_retval not to be''))))"

definition verify_retval ::
  "int \<Rightarrow> wrapper \<Rightarrow> direction \<Rightarrow> int \<Rightarrow> ulong \<Rightarrow> ('a ee_state_scheme) act" where
  "verify_retval line wrapper_type dir retval_valid retval = block
    [tfassert (\<lambda>s. driver_call_stack s = 0) ''driver_call_stack == 0'',
     if wrapper_type = PREPOSTFN \<and> dir = EXIT then
      (if retval_valid \<noteq> 0 then
        with_state (\<lambda>s0. let retval = (if g_symdrive_annotations s0 = 0 then retval else 0) in block
         [update (\<lambda>s. s\<lparr>g_symdrive_annotations := 0\<rparr>),
          cond (\<lambda>s. IS_ERR_VALUE s retval)
            (fail (Killed 0 0 ''Test complete:  failure detected on this path.''))
            (cond (\<lambda>s. g_sym_retval s = 0) (s2e (S2E_concretize_kill line))
              (cond (\<lambda>s. g_sym_retval s = 1 \<or> g_sym_retval s = 2) (verify_symretval line)
                (tf_fail ''g_sym_retval should not be'')))])
       else s2e (S2E_concretize_kill line))
     else skip]"

text \<open>
  \<open>sprintf\<close> into \<open>char temp[128]\<close>, and the end of the path with that text. The name printed equals
  \<open>g_sym_starting_fn\<close>, an array of 32 characters that \<open>init_module.c\<close> fills, so the text fits.
\<close>

definition kill_with_text :: "string \<Rightarrow> ('a ee_state_scheme) act" where
  "kill_with_text txt = (if length txt < 128 then fail (Killed 0 0 txt) else fail Out_Of_Bounds)"

lemma kill_with_text_never [simp]: "kill_with_text txt s \<noteq> Inr t"
  by (simp add: kill_with_text_def)

lemma preserves_kill_with_text [pres]: "preserves P (kill_with_text txt)"
  by (rule preservesI) simp

definition handle_max_coverage ::
  "string \<Rightarrow> int \<Rightarrow> int \<Rightarrow> ulong \<Rightarrow> direction \<Rightarrow> ('a ee_state_scheme) act" where
  "handle_max_coverage fn line retval_valid retval direction =
     cond (\<lambda>s. fn \<noteq> g_sym_starting_fn s) skip
      (case direction of
         ENTRANCE \<Rightarrow> block
          [update (\<lambda>s. s\<lparr>g_sym_retval := 1\<rparr>),
           s2e (S2E_kill_all_others line)]
       | EXIT \<Rightarrow>
           cond (\<lambda>s. retval_valid \<noteq> 0 \<and> IS_ERR_VALUE s retval)
             (kill_with_text (''Terminating failed thorough coverage fn path ('' @ fn @ '':'' @ show_int line @ '')...''))
             (block
              [s2e (S2E_favor_successful line 0),
               kill_with_text (''Terminating successful thorough coverage fn path (line '' @ fn @ ''/'' @ show_int line @ '')...'')]))"

text \<open>The function hands back the depth of the call stack.\<close>

definition call_depth :: "('a ee_state_scheme) act \<Rightarrow> ('a ee_state_scheme) check" where
  "call_depth a = (\<lambda>s. case a s of Inl e \<Rightarrow> Inl e | Inr t \<Rightarrow> Inr (driver_call_stack t, t))"

definition gen_enter_driver ::
  "('a ee_state_scheme) isr \<Rightarrow> ('a ee_state_scheme) act \<Rightarrow> string \<Rightarrow> nat \<Rightarrow> wrapper \<Rightarrow> int \<Rightarrow> ulong \<Rightarrow>
   ('a ee_state_scheme) check" where
  "gen_enter_driver isr gen_register_all_param fn line wrapper_type retval_valid retval = call_depth (block
    [onlyif (\<lambda>s. first_time_in_driver s = 1) (block
      [gen_register_all_param,
       update (\<lambda>s. s\<lparr>first_time_in_driver := 0\<rparr>)]),
     if wrapper_type = STUBWRAPPER then block
       [call_interrupt_handlers isr line, execute_completions line]
     else skip,
     acquire_global_lock,
     onlyif (\<lambda>s. driver_call_stack s = 0) (block
      [verify_retval (int line) wrapper_type ENTRANCE retval_valid retval,
       s2e (S2E_success_path (int line) fn 0)]),
     verify_invariants fn (int line) 1 wrapper_type,
     s2e (S2E_enter_function (int line) fn (wrapper_int wrapper_type)),
     handle_max_coverage fn (int line) retval_valid retval ENTRANCE,
     release_global_lock])"

definition gen_exit_driver ::
  "('a ee_state_scheme) isr \<Rightarrow> (ulong \<Rightarrow> bool) \<Rightarrow> string \<Rightarrow> nat \<Rightarrow> wrapper \<Rightarrow> int \<Rightarrow> ulong \<Rightarrow>
   ('a ee_state_scheme) check" where
  "gen_exit_driver isr is_symbolic fn line wrapper_type retval_valid retval = call_depth (block
    [acquire_global_lock,
     s2e (S2E_exit_function (int line) fn (wrapper_int wrapper_type)),
     handle_max_coverage fn (int line) retval_valid retval EXIT,
     with_state (\<lambda>s0.
       let concrete = (retval_valid \<noteq> 0 \<and> \<not> is_symbolic retval);
           retval' = (if concrete \<and> g_symdrive_annotations s0 \<noteq> 0 then 0 else retval) in block
        [if concrete then block
          [s2e (S2E_prioritize (int line)),
           update (\<lambda>s. s\<lparr>g_symdrive_annotations := 0\<rparr>),
           cond (\<lambda>s. \<not> IS_ERR_VALUE s retval') (s2e (S2E_success_path (int line) fn 1))
            (block
             [s2e (S2E_success_path (int line) fn (-1)),
              s2e (S2E_deprioritize (int line))])]
         else skip,
         verify_invariants fn (int line) (-1) wrapper_type,
         onlyif (\<lambda>s. driver_call_stack s = 0) (block
          [verify_retval (int line) wrapper_type EXIT retval_valid retval',
           reset_new_objects])]),
     release_global_lock,
     onlyif (\<lambda>s. wrapper_type = PREPOSTFN \<and> driver_call_stack s = 0) (block
      [call_interrupt_handlers isr line, execute_completions line])])"

text \<open>The pointer after the call, and \<open>g_sym_retval\<close>. \<open>symv\<close> is the value the pointer takes.\<close>

definition gen_make_symbolic_ptr ::
  "string \<Rightarrow> int \<Rightarrow> ulong \<Rightarrow> ulong \<Rightarrow> (int \<times> ulong, 'a ee_state_scheme) prog" where
  "gen_make_symbolic_ptr fn line symv ptr_retval = (\<lambda>s.
     if g_sym_retval s = 0 then Inr ((g_sym_retval s, ptr_retval), s)
     else case block
       [acquire_global_lock,
        s2e (S2E_make_symbolic_local ''void *'' ''symbolic_retval_ptr''),
        if symv = ptr_retval then s2e (S2E_success_path line fn 1)
        else if symv = 0 \<and> symv \<noteq> ptr_retval then block
         [s2e (S2E_success_path line fn (-1)),
          update (\<lambda>s. s\<lparr>bad_path := 1\<rparr>)]
        else fail (Killed 1 0 ''gen_make_symbolic_ptr:  extra path''),
        release_global_lock] s of
         Inl e \<Rightarrow> Inl e
       | Inr t \<Rightarrow> Inr ((g_sym_retval t, symv), t))"

text \<open>
  The same for an integer of \<open>int_retval_size\<close> bytes, read and compared as an unsigned value of that
  size. \<open>is_err\<close> is \<open>IS_ERR_VALUE\<close> at the type of the value, \<open>symv\<close> the value the bytes take.
\<close>

definition low_bytes :: "int \<Rightarrow> 64 word \<Rightarrow> 64 word" where
  "low_bytes n v = take_bit (8 * nat n) v"

definition gen_make_symbolic_int ::
  "(64 word \<Rightarrow> bool) \<Rightarrow> string \<Rightarrow> int \<Rightarrow> 64 word \<Rightarrow> 64 word \<Rightarrow> int \<Rightarrow>
   (int \<times> 64 word, 'a ee_state_scheme) prog" where
  "gen_make_symbolic_int is_err fn line symv int_retval int_retval_size = (\<lambda>s.
     if g_sym_retval s = 0 then Inr ((g_sym_retval s, int_retval), s)
     else case block
       [acquire_global_lock,
        tfassert (\<lambda>_. int_retval_size \<in> {1, 2, 4, 8}) ''Invalid size specified'',
        s2e (S2E_make_symbolic_local ''int'' ''symbolic_retval_int''),
        if low_bytes int_retval_size symv = low_bytes int_retval_size int_retval then
          s2e (S2E_success_path line fn 1)
        else if is_err (low_bytes int_retval_size symv) then block
         [s2e (S2E_success_path line fn (-1)),
          update (\<lambda>s. s\<lparr>bad_path := 1\<rparr>)]
        else fail (Killed 1 0 ''gen_make_symbolic_int:  extra path''),
        release_global_lock] s of
         Inl e \<Rightarrow> Inl e
       | Inr t \<Rightarrow> Inr ((g_sym_retval t, symv), t))"

definition symdrive_annotation :: "int \<Rightarrow> ('a ee_state_scheme) act" where
  "symdrive_annotation flgs = update (\<lambda>s. s\<lparr>g_symdrive_annotations := flgs\<rparr>)"

section \<open>The recursion of a failing assertion\<close>

text \<open>
  \<open>driver_dump_stack\<close> starts with \<open>assert_global_lock\<close>, whose failing assertion walks the tables of
  objects, through a pointer that must not be \<open>NULL\<close>, and calls \<open>driver_dump_stack\<close> before it ends the
  path. With \<open>n\<close> calls on the kernel stack:
\<close>

datatype dump = Still_Running | Text string | Crash tf_error | Path_Killed

fun dump_stack_fuel :: "nat \<Rightarrow> 'a ee_state_scheme \<Rightarrow> dump" where
  "dump_stack_fuel 0 s = Still_Running"
| "dump_stack_fuel (Suc n) s =
     (if global_lock_acquired s = 1 then (case dump_text s of Inl e \<Rightarrow> Crash e | Inr txt \<Rightarrow> Text txt)
      else if objs s = None then Crash Null_Deref
      else case dump_stack_fuel n s of
          Still_Running \<Rightarrow> Still_Running
        | Text _ \<Rightarrow> Path_Killed
        | Crash e \<Rightarrow> Crash e
        | Path_Killed \<Rightarrow> Path_Killed)"

lemma dump_stack_unlocked:
  "global_lock_acquired s \<noteq> 1 \<Longrightarrow> objs s \<noteq> None \<Longrightarrow> dump_stack_fuel n s = Still_Running"
  by (induction n) simp_all

lemma dump_entries_ends: "dump_entries i es buf \<noteq> Inl Stack_Overflow"
  by (induction i es buf rule: dump_entries.induct) simp_all

lemma dump_entries_fits:
  "dump_entries i es buf = Inr txt \<Longrightarrow> length buf < call_stack_buffer_size \<Longrightarrow> length txt < call_stack_buffer_size"
  by (induction i es buf rule: dump_entries.induct) (auto simp: strlcat_def split: if_splits)

text \<open>A dump succeeds exactly when the buffer has room for each entry.\<close>

lemma dump_entries_Inr:
  "(\<exists>txt. dump_entries i es buf = Inr txt) \<longleftrightarrow>
   (\<forall>j < length es. \<forall>name. es ! j = Some name \<longrightarrow> length (stack_entry (i + j) name) < call_stack_buffer_size)"
proof (induction i es buf rule: dump_entries.induct)
  case (2 i es buf)
  then show ?case by (simp add: All_less_Suc2)
next
  case (3 i str es buf)
  then show ?case by (auto simp: All_less_Suc2)
qed simp

section \<open>The stack of frames\<close>

definition frames :: "'a ee_state_scheme \<Rightarrow> string list" where
  "frames s = map the (take (nat (driver_call_stack s)) (driver_call_stack_str s))"

text \<open>Every name in progress can be dumped.\<close>

definition names_fit :: "string list \<Rightarrow> bool" where
  "names_fit fs \<longleftrightarrow> (\<forall>i < length fs. length (stack_entry i (fs ! i)) < call_stack_buffer_size)"

definition frames_ok :: "'a ee_state_scheme \<Rightarrow> bool" where
  "frames_ok s \<longleftrightarrow> driver_call_stack s = int (length (frames s)) \<and>
     length (frames s) < driver_call_stack_max - 1 \<and> names_fit (frames s) \<and>
     driver_call_stack_str s = map Some (frames s) @
       replicate (driver_call_stack_max - length (frames s)) None"

definition remove_last :: "'a \<Rightarrow> 'a list \<Rightarrow> 'a list" where
  "remove_last x xs = rev (remove1 x (rev xs))"

lemma remove_last_append: "remove_last x (xs @ [x]) = xs"
  by (simp add: remove_last_def)

lemma remove_last_split: "x \<notin> set bs \<Longrightarrow> remove_last x (as @ x # bs) = as @ bs"
  by (simp add: remove_last_def remove1_append)

lemma length_remove_last: "x \<in> set xs \<Longrightarrow> length (remove_last x xs) = length xs - 1"
  by (simp add: remove_last_def length_remove1)

lemma first_index_append:
  "\<forall>x \<in> set xs. \<not> P x \<Longrightarrow> first_index P (xs @ ys) = length xs + first_index P ys"
  by (induction xs) auto

lemma frames_eq:
  "driver_call_stack s = int (length fs) \<Longrightarrow> driver_call_stack_str s = map Some fs @ replicate n None \<Longrightarrow>
   frames s = fs"
  by (simp add: frames_def comp_def)

lemma frames_okI:
  "driver_call_stack s = int (length fs) \<Longrightarrow> length fs < driver_call_stack_max - 1 \<Longrightarrow> names_fit fs \<Longrightarrow>
   driver_call_stack_str s = map Some fs @ replicate (driver_call_stack_max - length fs) None \<Longrightarrow>
   frames_ok s \<and> frames s = fs"
  using frames_eq [of s fs] by (simp add: frames_ok_def)

lemma frames_okD:
  assumes "frames_ok s"
  shows "driver_call_stack s = int (length (frames s))" and "length (frames s) < driver_call_stack_max - 1"
    and "driver_call_stack_str s = map Some (frames s) @ replicate (driver_call_stack_max - length (frames s)) None"
    and "names_fit (frames s)"
  using assms by (simp_all add: frames_ok_def)

text \<open>Names fit where they move to: a smaller index takes no more room.\<close>

lemma length_show_nat_mono: "i \<le> j \<Longrightarrow> length (show_nat i) \<le> length (show_nat j)"
proof (induction j arbitrary: i rule: show_nat.induct)
  case (1 j)
  show ?case
  proof (cases "i < 10")
    case True
    then show ?thesis by (simp add: show_nat.simps [of i] show_nat.simps [of j])
  next
    case False
    with 1(2) have "length (show_nat (i div 10)) \<le> length (show_nat (j div 10))" by (intro 1(1) div_le_mono) simp_all
    with False 1(2) show ?thesis by (simp add: show_nat.simps [of i] show_nat.simps [of j])
  qed
qed

lemma names_fit_Nil [simp]: "names_fit []"
  by (simp add: names_fit_def)

lemma names_fit_snoc:
  "names_fit (fs @ [fn]) \<longleftrightarrow> names_fit fs \<and> length (stack_entry (length fs) fn) < call_stack_buffer_size"
  by (auto simp: names_fit_def nth_append less_Suc_eq)

lemma names_fit_remove:
  assumes fit: "names_fit (as @ x # bs)" shows "names_fit (as @ bs)"
  unfolding names_fit_def
proof (intro allI impI)
  fix i assume i: "i < length (as @ bs)"
  have at: "length (stack_entry j ((as @ x # bs) ! j)) < call_stack_buffer_size" if "j < length (as @ x # bs)" for j
    using fit that by (simp add: names_fit_def)
  show "length (stack_entry i ((as @ bs) ! i)) < call_stack_buffer_size"
  proof (cases "i < length as")
    case True
    then show ?thesis using at [of i] by (simp add: nth_append)
  next
    case False
    then show ?thesis using at [of "Suc i"] i length_show_nat_mono [of i "Suc i"]
      by (simp add: nth_append stack_entry_def Suc_diff_le)
  qed
qed

lemma names_fit_remove_last: "x \<in> set fs \<Longrightarrow> names_fit fs \<Longrightarrow> names_fit (remove_last x fs)"
  by (metis names_fit_remove remove_last_split split_list_last)

text \<open>A stub pushes when it is left and pops when it returns, a driver function the other way round.\<close>

definition pushes :: "int \<Rightarrow> wrapper \<Rightarrow> bool" where
  "pushes add wt \<longleftrightarrow> (wt = STUBWRAPPER \<and> add < 0) \<or> (wt = PREPOSTFN \<and> add > 0)"

definition frame_step :: "bool \<Rightarrow> string \<Rightarrow> string list \<Rightarrow> string list option" where
  "frame_step push fn fs =
     (if push then
        if Suc (length fs) < driver_call_stack_max - 1 \<and> length (stack_entry (length fs) fn) < call_stack_buffer_size
        then Some (fs @ [fn]) else None
      else if fn \<in> set fs then Some (remove_last fn fs) else None)"

lemma push_stack_run:
  assumes "frames_ok s"
  shows "push_driver_call_stack fn s = Inr (s\<lparr>driver_call_stack_str :=
    map Some (frames s @ [fn]) @ replicate (driver_call_stack_max - Suc (length (frames s))) None\<rparr>)"
proof -
  note ok = frames_okD [OF assms]
  have "driver_call_stack_max - length (frames s) = Suc (driver_call_stack_max - Suc (length (frames s)))"
    using ok(2) by (simp add: driver_call_stack_max_def)
  with ok(1,3) show ?thesis
    by (simp add: push_driver_call_stack_def store_at_def list_update_append)
qed

lemma pop_stack_run:
  assumes str: "driver_call_stack_str s = map Some fs @ replicate k None"
  shows "pop_driver_call_stack fn s =
    (if fn \<in> set fs then Inr (s\<lparr>driver_call_stack_str := map Some (remove_last fn fs) @ replicate (Suc k) None\<rparr>)
     else tf_fail ''pop_driver_call_stack: fn not found'' s)"
proof (cases "fn \<in> set fs")
  case True
  from split_list_last [OF True] obtain as bs where fs: "fs = as @ fn # bs" and bs: "fn \<notin> set bs" by blast
  have nb: "\<forall>x \<in> set (map Some (rev bs)). \<not> x = Some fn" using bs by auto
  have na: "\<forall>x \<in> set (replicate k None). \<not> x = Some fn" by simp
  have rv: "rev (driver_call_stack_str s) = replicate k None @ map Some (rev bs) @ Some fn # rev (map Some as)"
    by (simp add: str fs rev_map)
  have "first_index (\<lambda>x. x = Some fn) (rev (driver_call_stack_str s)) = k + length bs"
    unfolding rv first_index_append [OF na] first_index_append [OF nb] by simp
  moreover have "length (driver_call_stack_str s) - Suc (k + length bs) = length as" by (simp add: str fs)
  moreover have "k + length bs < length (driver_call_stack_str s)" by (simp add: str fs)
  moreover have "shift_back (length as) (driver_call_stack_str s) = map Some (remove_last fn fs) @ replicate (Suc k) None"
    by (simp add: shift_back_def str fs remove_last_split [OF bs] replicate_append_same)
  ultimately show ?thesis using True
    by (simp add: pop_driver_call_stack_def Let_def)
next
  case False
  then have "\<forall>x \<in> set (rev (driver_call_stack_str s)). \<not> x = Some fn" by (auto simp: str)
  then have "first_index (\<lambda>x. x = Some fn) (rev (driver_call_stack_str s)) = length (rev (driver_call_stack_str s))"
    by (rule iffD2 [OF first_index_none])
  with False show ?thesis by (simp add: pop_driver_call_stack_def Let_def)
qed

definition put_frames :: "string list \<Rightarrow> 'a ee_state_scheme \<Rightarrow> 'a ee_state_scheme" where
  "put_frames fs s = s\<lparr>driver_call_stack := int (length fs),
     driver_call_stack_str := map Some fs @ replicate (driver_call_stack_max - length fs) None\<rparr>"

lemma put_frames_ok:
  "length fs < driver_call_stack_max - 1 \<Longrightarrow> names_fit fs \<Longrightarrow> frames_ok (put_frames fs s) \<and> frames (put_frames fs s) = fs"
  by (rule frames_okI) (simp_all add: put_frames_def)

lemma put_frames_in_check [simp]: "in_check (put_frames fs s) = in_check s"
  by (simp add: put_frames_def in_check_def core_inv_def blocking_ok_def user_ok_def tracker_ok_def flags_ok_def
      all_buses_def flag_of_simps class_ok_def locked_def)

lemma driver_dump_stack_run:
  assumes "in_check s" and "call_stack_buffer1 s" and "call_stack_buffer2 s"
    and str: "driver_call_stack_str s = map Some fs @ replicate n None"
  shows "(\<exists>txt. driver_dump_stack s = Inr txt) \<longleftrightarrow> names_fit fs"
    and "\<not> names_fit fs \<Longrightarrow> \<exists>e. driver_dump_stack s = Inl e"
proof -
  have d: "driver_dump_stack s = dump_entries 0 (driver_call_stack_str s) []" using assms(1-3)
    by (simp add: driver_dump_stack_def dump_text_def assert_global_lock_def tfassert_def in_check_def locked_def)
  show fit: "(\<exists>txt. driver_dump_stack s = Inr txt) \<longleftrightarrow> names_fit fs"
    unfolding d dump_entries_Inr by (auto simp: str names_fit_def nth_append)
  show "\<exists>e. driver_dump_stack s = Inl e" if "\<not> names_fit fs"
    using fit that by (cases "driver_dump_stack s") auto
qed

lemma move_frame_run:
  assumes ok: "frames_ok s" and i: "in_check s" and add: "add = 1 \<or> add = -1"
  shows "move_frame fn add wt s =
    (if pushes add wt then Inr (put_frames (frames s @ [fn]) s)
     else if fn \<in> set (frames s) then Inr (put_frames (remove_last fn (frames s)) s)
     else Inl (Killed 0 1 ''pop_driver_call_stack: fn not found''))"
proof (cases "pushes add wt")
  case True
  then show ?thesis using add frames_okD(1) [OF ok]
    by (cases wt) (auto simp: pushes_def move_frame_def push_stack_run [OF ok] put_frames_def)
next
  case False
  let ?n = "driver_call_stack_max - length (frames s)"
  let ?s = "s\<lparr>driver_call_stack := driver_call_stack s - 1\<rparr>"
  have str: "driver_call_stack_str ?s = map Some (frames s) @ replicate ?n None"
    using frames_okD(3) [OF ok] by simp
  have "in_check (put_frames fs (s\<lparr>driver_call_stack := n\<rparr>)) = in_check (put_frames fs s)" for fs n
    by (simp add: put_frames_def)
  then have "in_check ?s" using i by (simp only: put_frames_in_check)
  note f = in_check_fail [OF this]
  have mv: "move_frame fn add wt s = pop_driver_call_stack fn ?s"
    using False add by (cases wt) (auto simp: pushes_def move_frame_def)
  show ?thesis
  proof (cases "fn \<in> set (frames s)")
    case True
    note len = length_remove_last [OF True]
    have "0 < length (frames s)" using True by auto
    then have "Suc ?n = driver_call_stack_max - length (remove_last fn (frames s))"
      using len frames_okD(2) [OF ok] by linarith
    then have "pop_driver_call_stack fn ?s = Inr (put_frames (remove_last fn (frames s)) s)"
      using True len frames_okD(1) [OF ok] \<open>0 < length (frames s)\<close>
      by (subst pop_stack_run [OF str]) (simp only: if_True, simp add: put_frames_def of_nat_diff Suc_le_eq)
    with True False show ?thesis by (simp add: mv)
  next
    case F: False
    with False show ?thesis by (simp add: mv pop_stack_run [OF str] f)
  qed
qed

lemma manage_call_stack_run:
  assumes ok: "frames_ok s" and i: "in_check s" and bufs: "call_stack_buffer1 s" "call_stack_buffer2 s"
    and add: "add = 1 \<or> add = -1"
    and fs: "fs = (if pushes add wt then frames s @ [fn] else remove_last fn (frames s))"
  shows "(pushes add wt \<or> fn \<in> set (frames s)) \<and> names_fit fs \<Longrightarrow> manage_call_stack fn add wt s = Inr (put_frames fs s)"
    and "\<not> ((pushes add wt \<or> fn \<in> set (frames s)) \<and> names_fit fs) \<Longrightarrow> \<exists>e. manage_call_stack fn add wt s = Inl e"
proof -
  note st = frames_okD [OF ok]
  let ?a = "\<lambda>s :: 'a ee_state_scheme. driver_call_stack s \<ge> 0 \<and> driver_call_stack s < int driver_call_stack_max"
  have 1: "(if (add = -1 \<and> wt = STUBWRAPPER) \<or> (add = 1 \<and> wt = STUBWRAPPER) \<or>
      (add = -1 \<and> wt = PREPOSTFN) \<or> (add = 1 \<and> wt = PREPOSTFN)
    then skip else tf_fail ''Inconsistent add/wrapper_type'') s = Inr s"
    using add by (cases wt) auto
  have 2: "tfassert ?a ''driver_call_stack'' s = Inr s"
    using st(1,2) by (simp add: tfassert_def)
  have run: "manage_call_stack fn add wt s = block [move_frame fn add wt,
      tfassert ?a ''driver_call_stack'', reading driver_dump_stack (\<lambda>_. skip)] s"
    unfolding manage_call_stack_def by (subst block_Cons_ok, rule 1, subst block_Cons_ok, rule 2, rule refl)
  have l: "length fs < driver_call_stack_max" if "pushes add wt \<or> fn \<in> set (frames s)"
    using length_remove_last [of fn "frames s"] st(2) that by (auto simp: fs)
  have dump: "(\<exists>txt. driver_dump_stack (put_frames fs s) = Inr txt) \<longleftrightarrow> names_fit fs"
    by (rule driver_dump_stack_run) (use i bufs in \<open>simp_all\<close>, simp_all add: put_frames_def)
  have move: "manage_call_stack fn add wt s = (case driver_dump_stack (put_frames fs s) of Inl e \<Rightarrow> Inl e | Inr _ \<Rightarrow> Inr (put_frames fs s))"
    if "pushes add wt \<or> fn \<in> set (frames s)"
  proof -
    have "move_frame fn add wt s = Inr (put_frames fs s)"
      using that by (auto simp: move_frame_run [OF ok i add] fs)
    moreover have "driver_call_stack (put_frames fs s) = int (length fs)" by (simp add: put_frames_def)
    ultimately show ?thesis unfolding run using l [OF that] by (simp add: tfassert_def reading_def split: sum.split)
  qed
  show "manage_call_stack fn add wt s = Inr (put_frames fs s)"
    if "(pushes add wt \<or> fn \<in> set (frames s)) \<and> names_fit fs"
    using move dump that by (auto split: sum.split)
  show "\<exists>e. manage_call_stack fn add wt s = Inl e" if bad: "\<not> ((pushes add wt \<or> fn \<in> set (frames s)) \<and> names_fit fs)"
  proof (cases "pushes add wt \<or> fn \<in> set (frames s)")
    case True
    with bad dump obtain e where "driver_dump_stack (put_frames fs s) = Inl e"
      by (cases "driver_dump_stack (put_frames fs s)") auto
    then show ?thesis by (simp add: move [OF True])
  next
    case False
    then show ?thesis unfolding run by (simp add: move_frame_run [OF ok i add])
  qed
qed

text \<open>
  A driver function or kernel function is let in or out as the abstract stack allows: at most
  \<open>driver_call_stack_max - 2\<close> frames, none too long for the dump, and only a function that is on the stack may
  leave it.
\<close>

lemma verify_invariants_run:
  assumes ok: "frames_ok s" and i: "in_check s" and bufs: "call_stack_buffer1 s" "call_stack_buffer2 s"
    and add: "add = 1 \<or> add = -1"
  shows "case frame_step (pushes add wt) fn (frames s) of
      Some fs \<Rightarrow> verify_invariants fn line add wt s = s2e (S2E_driver_call_stack line (int (length fs))) (put_frames fs s)
    | None \<Rightarrow> \<exists>e. verify_invariants fn line add wt s = Inl e"
proof -
  note m = manage_call_stack_run [OF assms refl, of wt fn]
  have d: "driver_call_stack (put_frames fs s) = int (length fs)" for fs
    by (simp add: put_frames_def)
  have fail: "tf_fail msg (put_frames fs s) = Inl (Killed 0 1 msg)" for msg fs
    using i by (intro in_check_fail) simp
  show ?thesis
  proof (cases "pushes add wt")
    case True
    show ?thesis
    proof (cases "names_fit (frames s @ [fn])")
      case fit: True
      with True m(1) have "manage_call_stack fn add wt s = Inr (put_frames (frames s @ [fn]) s)" by simp
      then show ?thesis using True fit names_fit_snoc [of "frames s" fn]
        by (auto simp: verify_invariants_def frame_step_def d fail driver_call_stack_max_def)
    next
      case False
      with True m(2) obtain e where "manage_call_stack fn add wt s = Inl e" by auto
      then show ?thesis using True False names_fit_snoc [of "frames s" fn] frames_okD(4) [OF ok]
        by (simp add: verify_invariants_def frame_step_def)
    qed
  next
    case False
    show ?thesis
    proof (cases "fn \<in> set (frames s)")
      case True
      have "manage_call_stack fn add wt s = Inr (put_frames (remove_last fn (frames s)) s)"
        using m(1) False True names_fit_remove_last [OF True frames_okD(4) [OF ok]] by simp
      moreover have "length (remove_last fn (frames s)) < driver_call_stack_max - 1"
        using length_remove_last [OF True] frames_okD(2) [OF ok] by simp
      ultimately show ?thesis using True False by (simp add: verify_invariants_def frame_step_def d)
    next
      case gone: False
      with False m(2) obtain e where "manage_call_stack fn add wt s = Inl e" by auto
      then show ?thesis using False gone by (simp add: verify_invariants_def frame_step_def)
    qed
  qed
qed

section \<open>Crossing the border\<close>

text \<open>
  \<open>ee_locked fs\<close> and \<open>ee_free fs\<close>: the invariant with the global lock held, and free, when \<open>fs\<close>
  are the frames.
\<close>

definition ee_at :: "string list \<Rightarrow> 'a ee_state_scheme \<Rightarrow> bool" where
  "ee_at fs s \<longleftrightarrow> frames_ok s \<and> frames s = fs \<and> call_stack_buffer1 s \<and> call_stack_buffer2 s"

definition ee_locked :: "string list \<Rightarrow> 'a ee_state_scheme \<Rightarrow> bool" where
  "ee_locked fs s \<longleftrightarrow> in_check s \<and> ee_at fs s"

definition ee_free :: "string list \<Rightarrow> 'a ee_state_scheme \<Rightarrow> bool" where
  "ee_free fs s \<longleftrightarrow> tf_inv s \<and> ee_at fs s"

lemma ee_at_frame:
  "driver_call_stack t = driver_call_stack s \<Longrightarrow> driver_call_stack_str t = driver_call_stack_str s \<Longrightarrow>
   call_stack_buffer1 t = call_stack_buffer1 s \<Longrightarrow> call_stack_buffer2 t = call_stack_buffer2 s \<Longrightarrow>
   ee_at fs t = ee_at fs s"
  by (simp add: ee_at_def frames_ok_def frames_def)

lemma in_check_ee_frames [simp]:
  "in_check (s\<lparr>g_symdrive_annotations := n\<rparr>) = in_check s"
  "tf_inv (s\<lparr>first_time_in_driver := n\<rparr>) = tf_inv s"
  "tf_inv (s\<lparr>sym_irq_ongoing := n\<rparr>) = tf_inv s"
  "tf_inv (s\<lparr>sym_irq_lines := l\<rparr>) = tf_inv s"
  by (simp_all add: tf_inv_def in_check_def core_inv_def blocking_ok_def user_ok_def tracker_ok_def flags_ok_def
      all_buses_def flag_of_simps class_ok_def locked_def unlocked_def)

lemma ee_at_frames [simp]:
  "ee_at fs (s\<lparr>g_symdrive_annotations := n\<rparr>) = ee_at fs s"
  "ee_at fs (s\<lparr>g_sym_retval := n\<rparr>) = ee_at fs s"
  "ee_at fs (s\<lparr>bad_path := n\<rparr>) = ee_at fs s"
  "ee_at fs (s\<lparr>s2e_log := l\<rparr>) = ee_at fs s"
  "ee_at fs (s\<lparr>first_time_in_driver := n\<rparr>) = ee_at fs s"
  "ee_at fs (s\<lparr>sym_irq_ongoing := n\<rparr>) = ee_at fs s"
  "ee_at fs (s\<lparr>sym_irq_lines := f\<rparr>) = ee_at fs s"
  by (rule ee_at_frame; simp)+

lemma ee_updates [pres]:
  "preserves (ee_locked fs) (update (\<lambda>s. s\<lparr>g_symdrive_annotations := a s\<rparr>))"
  "preserves (ee_locked fs) (update (\<lambda>s. s\<lparr>g_sym_retval := a s\<rparr>))"
  "preserves (ee_locked fs) (update (\<lambda>s. s\<lparr>bad_path := a s\<rparr>))"
  "preserves (ee_locked fs) (s2e e)"
  "preserves (ee_free fs) (update (\<lambda>s. s\<lparr>first_time_in_driver := a s\<rparr>))"
  "preserves (ee_free fs) (update (\<lambda>s. s\<lparr>sym_irq_ongoing := a s\<rparr>))"
  unfolding s2e_def by (rule preserves_update; simp add: ee_locked_def ee_free_def)+

lemma ee_set_line_count [pres]: "preserves (ee_free fs) (set_line_count line c)"
  by (rule preservesI)
    (auto simp: set_line_count_def ee_free_def split: option.splits)

lemma ee_reset_new_objects [pres]: "preserves (ee_locked fs) reset_new_objects"
proof (rule preservesI)
  fix s t :: "'a ee_state_scheme" assume s: "ee_locked fs s" and run: "reset_new_objects s = Inr t"
  then have c: "in_check s" by (simp add: ee_locked_def)
  have "in_check t" using safeD [OF safe_reset_new_objects c] run by simp
  moreover from reset_new_objects_run [OF in_checkD(3) [OF c]] run obtain x
    where "t = s\<lparr>objs := x, objs_dirty := 0\<rparr>" by auto
  ultimately show "ee_locked fs t" using s ee_at_frame [of t s fs] by (simp add: ee_locked_def)
qed

lemma ee_acquire: "leads (ee_free fs) acquire_global_lock (ee_locked fs)"
proof (rule leadsI)
  fix s t :: "'a ee_state_scheme" assume s: "ee_free fs s" and run: "acquire_global_lock s = Inr t"
  then have t: "t = s\<lparr>global_lock := True, global_lock_acquired := 1\<rparr>" by (simp add: acquire_Inr)
  then show "ee_locked fs t"
    using s in_check_acquire [of s] ee_at_frame [of t s fs] by (simp add: ee_locked_def ee_free_def)
qed

lemma ee_release: "leads (ee_locked fs) release_global_lock (ee_free fs)"
proof (rule leadsI)
  fix s t :: "'a ee_state_scheme" assume s: "ee_locked fs s" and run: "release_global_lock s = Inr t"
  then have t: "t = s\<lparr>global_lock := False, global_lock_acquired := 0\<rparr>" by (simp add: release_Inr)
  then show "ee_free fs t"
    using s tf_inv_release [of s] ee_at_frame [of t s fs] by (simp add: ee_locked_def ee_free_def)
qed

lemma ee_handle_max_coverage [pres]: "preserves (ee_locked fs) (handle_max_coverage fn line rv r dir)"
  unfolding handle_max_coverage_def by (cases dir) (simp_all, (intro pres)+)

lemma ee_verify_retval [pres]: "preserves (ee_locked fs) (verify_retval line wt dir rv r)"
  unfolding verify_retval_def verify_symretval_def Let_def by (intro pres)

text \<open>The one step that moves the frames.\<close>

definition stepped :: "(string list \<Rightarrow> 's \<Rightarrow> bool) \<Rightarrow> string list option \<Rightarrow> 's \<Rightarrow> bool" where
  "stepped P r t \<longleftrightarrow> (\<exists>fs. r = Some fs \<and> P fs t)"

lemma stepped_preserves: "(\<And>fs. preserves (P fs) a) \<Longrightarrow> preserves (stepped P r) a"
  by (rule preservesI) (auto simp: stepped_def dest: preservesD)

lemma stepped_leads: "(\<And>fs. leads (P fs) a (Q fs)) \<Longrightarrow> leads (stepped P r) a (stepped Q r)"
  by (rule leadsI) (auto simp: stepped_def dest: leadsD)

lemma ee_verify_invariants:
  assumes "add = 1 \<or> add = -1"
  shows "leads (ee_locked fs) (verify_invariants fn line add wt)
    (stepped ee_locked (frame_step (pushes add wt) fn fs))"
proof (rule leadsI)
  fix s t :: "'a ee_state_scheme" assume s: "ee_locked fs s" and run: "verify_invariants fn line add wt s = Inr t"
  from s have ok: "frames_ok s" "in_check s" "call_stack_buffer1 s" "call_stack_buffer2 s" "frames s = fs"
    by (simp_all add: ee_locked_def ee_at_def)
  from verify_invariants_run [OF ok(1-4) assms, where wt = wt and fn = fn and line = line] run ok(5) obtain fs'
    where st: "frame_step (pushes add wt) fn fs = Some fs'"
      and t: "s2e (S2E_driver_call_stack line (int (length fs'))) (put_frames fs' s) = Inr t"
    by (cases "frame_step (pushes add wt) fn fs") auto
  have "length fs' < driver_call_stack_max - 1"
    using st frames_okD(2) [OF ok(1)] length_remove_last [of fn fs] ok(5)
    by (auto simp: frame_step_def split: if_splits)
  moreover have "names_fit fs'"
    using st frames_okD(4) [OF ok(1)] names_fit_remove_last [of fn fs] ok(5)
    by (auto simp: frame_step_def names_fit_snoc split: if_splits)
  ultimately have "frames_ok (put_frames fs' s) \<and> frames (put_frames fs' s) = fs'" by (rule put_frames_ok)
  then have "ee_at fs' (put_frames fs' s)"
    using ok by (simp add: ee_at_def put_frames_def)
  then have "ee_locked fs' (put_frames fs' s)" using ok(2) by (simp add: ee_locked_def)
  then have "ee_locked fs' t" by (rule preservesD [OF ee_updates(4) _ t])
  then show "stepped ee_locked (frame_step (pushes add wt) fn fs) t" by (simp add: stepped_def st)
qed

lemma ee_call_interrupt_handlers:
  assumes "\<And>h n p. preserves (ee_free fs) (isr h n p)"
  shows "preserves (ee_free fs) (call_interrupt_handlers isr line)"
proof -
  have "preserves (ee_free fs) (call_handler isr line i)" for i
    unfolding call_handler_def by (intro pres assms)
  then have "preserves (ee_free fs) (block (map (call_handler isr line) is))" for "is"
    by (intro preserves_block_set) auto
  then show ?thesis unfolding call_interrupt_handlers_def by (intro pres)
qed

lemma leads_call_depth:
  assumes "leads (ee_free fs) a (stepped ee_free r)" and "ee_free fs s" and "call_depth a s = Inr (d, t)"
  shows "\<exists>fs'. r = Some fs' \<and> ee_free fs' t \<and> d = int (length fs')"
proof -
  from assms(3) have a: "a s = Inr t" and d: "d = driver_call_stack t"
    by (auto simp: call_depth_def split: sum.splits)
  from leadsD [OF assms(1,2) a] obtain fs' where "r = Some fs'" and f: "ee_free fs' t" by (auto simp: stepped_def)
  with d frames_okD(1) [of t] show ?thesis by (auto simp: ee_free_def ee_at_def)
qed

text \<open>
  The effect of a handler of the driver is any that keeps the invariant and the frames: a handler is
  a driver function, so whatever it enters it leaves again.
\<close>

definition isr_ok :: "('a ee_state_scheme) isr \<Rightarrow> bool" where
  "isr_ok isr \<longleftrightarrow> (\<forall>h n p fs. preserves (ee_free fs) (isr h n p))"

lemma isr_okD: "isr_ok isr \<Longrightarrow> preserves (ee_free fs) (isr h n p)"
  by (simp add: isr_ok_def)

lemma leads_pres_Cons: "preserves P a \<Longrightarrow> leads P (block as) Q \<Longrightarrow> leads P (block (a # as)) Q"
  by (rule leads_Cons [OF leads_preserves])

lemma gen_enter_leads:
  assumes isr: "isr_ok isr" and reg: "\<And>fs. preserves (ee_free fs) regs"
    and s: "ee_free fs s" and run: "gen_enter_driver isr regs fn line wt rv r s = Inr (d, t)"
  shows "\<exists>fs'. frame_step (pushes 1 wt) fn fs = Some fs' \<and> ee_free fs' t \<and> d = int (length fs')"
proof (rule leads_call_depth [OF _ s])
  let ?r = "frame_step (pushes 1 wt) fn fs"
  let ?body = "block
    [onlyif (\<lambda>s. first_time_in_driver s = 1) (block [regs, update (\<lambda>s. s\<lparr>first_time_in_driver := 0\<rparr>)]),
     if wt = STUBWRAPPER then block [call_interrupt_handlers isr line, execute_completions line] else skip,
     acquire_global_lock,
     onlyif (\<lambda>s. driver_call_stack s = 0) (block
      [verify_retval (int line) wt ENTRANCE rv r, s2e (S2E_success_path (int line) fn 0)]),
     verify_invariants fn (int line) 1 wt,
     s2e (S2E_enter_function (int line) fn (wrapper_int wt)),
     handle_max_coverage fn (int line) rv r ENTRANCE,
     release_global_lock]"
  note h = ee_call_interrupt_handlers [OF isr_okD [OF isr]]
  show "leads (ee_free fs) ?body (stepped ee_free ?r)"
    unfolding execute_completions_def
    apply (rule leads_pres_Cons, (intro pres reg)[1])
    apply (rule leads_pres_Cons, (intro pres h)[1])
    apply (rule leads_Cons [OF ee_acquire])
    apply (rule leads_pres_Cons, (intro pres)[1])
    apply (rule leads_Cons [OF ee_verify_invariants], simp)
    apply (rule leads_pres_Cons, (intro stepped_preserves pres)[1])
    apply (rule leads_pres_Cons, (intro stepped_preserves pres)[1])
    apply (rule leads_Cons [OF stepped_leads [OF ee_release] leads_Nil])
    done
  show "call_depth ?body s = Inr (d, t)" using run by (simp only: gen_enter_driver_def)
qed

lemma gen_exit_leads:
  assumes isr: "isr_ok isr"
    and s: "ee_free fs s" and run: "gen_exit_driver isr is_symbolic fn line wt rv r s = Inr (d, t)"
  shows "\<exists>fs'. frame_step (pushes (-1) wt) fn fs = Some fs' \<and> ee_free fs' t \<and> d = int (length fs')"
proof (rule leads_call_depth [OF _ s])
  let ?r = "frame_step (pushes (-1) wt) fn fs"
  note h = ee_call_interrupt_handlers [OF isr_okD [OF isr]]
  have verdict: "leads (ee_locked fs) (with_state (\<lambda>s0.
       let concrete = (rv \<noteq> 0 \<and> \<not> is_symbolic r);
           retval' = (if concrete \<and> g_symdrive_annotations s0 \<noteq> 0 then 0 else r) in block
        [if concrete then block
          [s2e (S2E_prioritize (int line)),
           update (\<lambda>s. s\<lparr>g_symdrive_annotations := 0\<rparr>),
           cond (\<lambda>s. \<not> IS_ERR_VALUE s retval') (s2e (S2E_success_path (int line) fn 1))
            (block
             [s2e (S2E_success_path (int line) fn (-1)),
              s2e (S2E_deprioritize (int line))])]
         else skip,
         verify_invariants fn (int line) (-1) wt,
         onlyif (\<lambda>s. driver_call_stack s = 0) (block
          [verify_retval (int line) wt EXIT rv retval',
           reset_new_objects])])) (stepped ee_locked ?r)"
    unfolding Let_def
    apply (rule leads_with_state)
    apply (rule leads_pres_Cons, (intro pres)[1])
    apply (rule leads_Cons [OF ee_verify_invariants], simp)
    apply (rule leads_pres_Cons, (intro stepped_preserves pres)[1])
    apply (rule leads_Nil)
    done
  show "leads (ee_free fs) (block
    [acquire_global_lock,
     s2e (S2E_exit_function (int line) fn (wrapper_int wt)),
     handle_max_coverage fn (int line) rv r EXIT,
     with_state (\<lambda>s0.
       let concrete = (rv \<noteq> 0 \<and> \<not> is_symbolic r);
           retval' = (if concrete \<and> g_symdrive_annotations s0 \<noteq> 0 then 0 else r) in block
        [if concrete then block
          [s2e (S2E_prioritize (int line)),
           update (\<lambda>s. s\<lparr>g_symdrive_annotations := 0\<rparr>),
           cond (\<lambda>s. \<not> IS_ERR_VALUE s retval') (s2e (S2E_success_path (int line) fn 1))
            (block
             [s2e (S2E_success_path (int line) fn (-1)),
              s2e (S2E_deprioritize (int line))])]
         else skip,
         verify_invariants fn (int line) (-1) wt,
         onlyif (\<lambda>s. driver_call_stack s = 0) (block
          [verify_retval (int line) wt EXIT rv retval',
           reset_new_objects])]),
     release_global_lock,
     onlyif (\<lambda>s. wt = PREPOSTFN \<and> driver_call_stack s = 0) (block
      [call_interrupt_handlers isr line, execute_completions line])]) (stepped ee_free ?r)"
    unfolding execute_completions_def
    apply (rule leads_Cons [OF ee_acquire])
    apply (rule leads_pres_Cons, (intro pres)[1])
    apply (rule leads_pres_Cons, (intro pres)[1])
    apply (rule leads_Cons [OF verdict])
    apply (rule leads_Cons [OF stepped_leads [OF ee_release]])
    apply (rule leads_pres_Cons, (intro stepped_preserves pres h)[1])
    apply (rule leads_Nil)
    done
qed (use run in \<open>simp only: gen_exit_driver_def\<close>)

datatype crossing = Enter wrapper string nat int ulong | Leave wrapper string nat int ulong

fun crossing_act ::
  "('a ee_state_scheme) isr \<Rightarrow> ('a ee_state_scheme) act \<Rightarrow> (ulong \<Rightarrow> bool) \<Rightarrow> crossing \<Rightarrow>
   ('a ee_state_scheme) act" where
  "crossing_act isr regs is_symbolic (Enter wt fn line rv r) =
     ignore_result (gen_enter_driver isr regs fn line wt rv r)"
| "crossing_act isr regs is_symbolic (Leave wt fn line rv r) =
     ignore_result (gen_exit_driver isr is_symbolic fn line wt rv r)"

fun crossing_frames :: "crossing \<Rightarrow> string list \<Rightarrow> string list option" where
  "crossing_frames (Enter wt fn line rv r) = frame_step (pushes 1 wt) fn"
| "crossing_frames (Leave wt fn line rv r) = frame_step (pushes (-1) wt) fn"

fun frames_run :: "crossing list \<Rightarrow> string list \<Rightarrow> string list option" where
  "frames_run [] fs = Some fs"
| "frames_run (c # cs) fs = (case crossing_frames c fs of None \<Rightarrow> None | Some fs' \<Rightarrow> frames_run cs fs')"

lemma crossing_leads:
  assumes isr: "isr_ok isr" and reg: "\<And>fs. preserves (ee_free fs) regs"
    and s: "ee_free fs s" and run: "crossing_act isr regs is_symbolic c s = Inr t"
  shows "\<exists>fs'. crossing_frames c fs = Some fs' \<and> ee_free fs' t"
proof (cases c)
  case (Enter wt fn line rv r)
  with run obtain d where "gen_enter_driver isr regs fn line wt rv r s = Inr (d, t)"
    by (auto simp: ignore_result_def map_sum_def split: sum.splits)
  from gen_enter_leads [OF isr reg s this] show ?thesis by (auto simp: Enter)
next
  case (Leave wt fn line rv r)
  with run obtain d where "gen_exit_driver isr is_symbolic fn line wt rv r s = Inr (d, t)"
    by (auto simp: ignore_result_def map_sum_def split: sum.splits)
  from gen_exit_leads [OF isr s this] show ?thesis by (auto simp: Leave)
qed

lemma crossings_lead:
  assumes isr: "isr_ok isr" and reg: "\<And>fs. preserves (ee_free fs) regs"
  shows "ee_free fs s \<Longrightarrow> block (map (crossing_act isr regs is_symbolic) cs) s = Inr t \<Longrightarrow>
    \<exists>fs'. frames_run cs fs = Some fs' \<and> ee_free fs' t"
proof (induction cs arbitrary: fs s)
  case Nil
  then show ?case by simp
next
  case (Cons c cs)
  from Cons.prems(2) obtain u where u: "crossing_act isr regs is_symbolic c s = Inr u"
    and r: "block (map (crossing_act isr regs is_symbolic) cs) u = Inr t"
    by (auto simp: block_Cons_Inr simp del: block.simps(2))
  from crossing_leads [OF isr reg Cons.prems(1) u] obtain fs' where "crossing_frames c fs = Some fs'" "ee_free fs' u"
    by blast
  with Cons.IH [OF _ r] show ?case by simp
qed

section \<open>Verdicts\<close>

text \<open>Which paths survive the outermost exit.\<close>

lemma verify_retval_exit:
  assumes "in_check s" and "driver_call_stack s = 0"
  shows "(\<exists>t. verify_retval line PREPOSTFN EXIT rv r s = Inr t) \<longleftrightarrow>
    rv = 0 \<or>
    (\<not> IS_ERR_VALUE s (if g_symdrive_annotations s = 0 then r else 0) \<and>
     (g_sym_retval s = 0 \<or> g_sym_retval s = 2 \<and> bad_path s = 0))"
  using assms by (auto simp: verify_retval_def verify_symretval_def Let_def tfassert_def)

lemma gen_make_symbolic_int_run:
  assumes s: "tf_inv s" and sym: "g_sym_retval s \<noteq> 0" and n: "n \<in> {1, 2, 4, 8}"
  shows "(\<exists>x t. gen_make_symbolic_int is_err fn line symv orig n s = Inr (x, t)) \<longleftrightarrow>
    low_bytes n symv = low_bytes n orig \<or> is_err (low_bytes n symv)"
    and "gen_make_symbolic_int is_err fn line symv orig n s = Inr (x, t) \<Longrightarrow>
      x = (g_sym_retval s, symv) \<and> unlocked t \<and>
      bad_path t = (if low_bytes n symv = low_bytes n orig then bad_path s else 1)"
proof -
  have u: "unlocked s" using s by (simp add: tf_inv_def)
  show "(\<exists>x t. gen_make_symbolic_int is_err fn line symv orig n s = Inr (x, t)) \<longleftrightarrow>
    low_bytes n symv = low_bytes n orig \<or> is_err (low_bytes n symv)"
    using n sym by (simp add: gen_make_symbolic_int_def acquire_unlocked [OF u] tfassert_def release_locked)
  show "gen_make_symbolic_int is_err fn line symv orig n s = Inr (x, t) \<Longrightarrow>
      x = (g_sym_retval s, symv) \<and> unlocked t \<and>
      bad_path t = (if low_bytes n symv = low_bytes n orig then bad_path s else 1)"
    using n sym
    by (auto simp: gen_make_symbolic_int_def acquire_unlocked [OF u] tfassert_def release_locked unlocked_def
        split: if_splits)
qed

text \<open>A value of one or two bytes is never an error value: the top of the address range is out of reach.\<close>

lemma low_bytes_small:
  assumes "n \<in> {1, 2}" shows "low_bytes n v < 2 ^ 16"
proof -
  have "take_bit 8 (unat v) < 2 ^ 8" "take_bit 16 (unat v) < 2 ^ 16" by (rule take_bit_nat_less_exp)+
  with assms show ?thesis
    by (auto simp: low_bytes_def word_less_nat_alt unsigned_take_bit_eq)
qed

end
