(* ===== verification/Function_Tracker.thy ===== *)
theory Function_Tracker
  imports Entry_Exit
begin

text \<open>
  The function tracker, \<open>function_tracker.c\<close>: the table from the driver's functions to their
  wrappers and purposes, and the look-up of the check routine that belongs to a function. A driver
  registers each function once; \<open>gen_convert_fn\<close> notes the structure and the field the function
  was stored in; the wrappers ask \<open>gen_lookup_MJRcheck\<close> for the routine to call.

  \<open>symbol_lookup\<close>, the kernel's search by symbol name, is a parameter (0 when there is no such
  symbol), so is the address of \<open>default_MJRcheck\<close>. The static functions and types that have the
  same name as one of \<open>test_state.c\<close> have the prefix \<open>ft_\<close> here.

  \<open>purposes\<close> is the finite map the table stands for.
\<close>

section \<open>State\<close>

record ft_hkey =
  driver_fn_ptr :: ulong

record ft_hvalue =
  driver_fn :: ulong
  wrapper_fn_ptr :: ulong
  str_driver_fn :: string
  str_wrapper_fn :: string
  str1 :: string
  str2 :: string

record ft_state = ee_state +
  ft_initialized :: int
  ft_objs :: "(ft_hkey, ft_hvalue) hashtable option"

section \<open>Operations\<close>

definition ft_objs_key :: "ulong \<Rightarrow> ft_hkey" where
  "ft_objs_key fn = \<lparr>driver_fn_ptr = fn\<rparr>"

definition ft_objs_key_ptr :: "ulong \<Rightarrow> (ft_hkey, 'a tf_globals_scheme) prog" where
  "ft_objs_key_ptr fn = (\<lambda>s. case mjr_kmalloc s of
       Inl e \<Rightarrow> Inl e
     | Inr (ok, t) \<Rightarrow> if ok then Inr (ft_objs_key fn, t) else Inl Null_Deref)"

definition ft_objs_value ::
  "ulong \<Rightarrow> ulong \<Rightarrow> string \<Rightarrow> string \<Rightarrow> string \<Rightarrow> string \<Rightarrow> (ft_hvalue, 'a tf_globals_scheme) prog" where
  "ft_objs_value dfn wfn dstr wstr s1 s2 = (\<lambda>s. case mjr_kmalloc s of
       Inl e \<Rightarrow> Inl e
     | Inr (ok, t) \<Rightarrow>
         if ok then Inr (\<lparr>driver_fn = dfn, wrapper_fn_ptr = wfn, str_driver_fn = dstr,
           str_wrapper_fn = wstr, str1 = s1, str2 = s2\<rparr>, t)
         else Inl Null_Deref)"

definition ft_hash_from_key_fn :: "ft_hkey \<Rightarrow> u32" where
  "ft_hash_from_key_fn key = driver_fn_ptr key"

definition ft_hash_keys_equal_fn :: "ft_hkey \<Rightarrow> ft_hkey \<Rightarrow> bool" where
  "ft_hash_keys_equal_fn key1 key2 = (driver_fn_ptr key1 = driver_fn_ptr key2)"

text \<open>\<open>hashtable_search\<close>, \<open>hashtable_insert\<close> and a write through the pointer found, on the tracker's table.\<close>

definition ft_search :: "ft_hkey \<Rightarrow> 'a ft_state_scheme \<Rightarrow> tf_error + ft_hvalue option" where
  "ft_search key s = (case ft_objs s of
       None \<Rightarrow> Inl Null_Deref
     | Some h \<Rightarrow> Inr (hashtable_search h key))"

definition ft_hashtable_insert :: "ft_hkey \<Rightarrow> ft_hvalue \<Rightarrow> (int, 'a ft_state_scheme) prog" where
  "ft_hashtable_insert key value = (\<lambda>s. case ft_objs s of
       None \<Rightarrow> Inl Null_Deref
     | Some h \<Rightarrow>
         (let n = kmalloc_calls s;
              m = (if will_expand h then Suc n else n);
              (r, h') = hashtable_insert (kmalloc_ok s n) (kmalloc_ok s m) h key value
          in Inr (r, s\<lparr>kmalloc_calls := Suc m, ft_objs := Some h'\<rparr>)))"

definition ft_poke :: "ft_hkey \<Rightarrow> ft_hvalue \<Rightarrow> ('a ft_state_scheme) act" where
  "ft_poke key value = (\<lambda>s. case ft_objs s of
       None \<Rightarrow> Inl Null_Deref
     | Some h \<Rightarrow> Inr (s\<lparr>ft_objs := Some (hashtable_poke h key value)\<rparr>))"

text \<open>
  \<open>orig_fn_ptr\<close> is the address of a function pointer, \<open>orig_fn\<close> the pointer stored there. The table
  keeps the purpose; the pointer itself is left as it is.
\<close>

definition gen_convert_fn :: "ulong \<Rightarrow> ulong \<Rightarrow> string \<Rightarrow> string \<Rightarrow> ('a ft_state_scheme) act" where
  "gen_convert_fn orig_fn_ptr orig_fn s1 s2 =
     (if orig_fn_ptr < 0xC0000000 \<or> orig_fn_ptr > 0xFFFF0000 then skip
      else block
       [acquire_global_lock,
        reading (ft_search (ft_objs_key orig_fn)) (\<lambda>value.
          case value of
            None \<Rightarrow> skip
          | Some v \<Rightarrow> ft_poke (ft_objs_key orig_fn) (v\<lparr>str1 := s1, str2 := s2\<rparr>)),
        release_global_lock])"

definition ft_objs_insert :: "ft_hkey \<Rightarrow> ft_hvalue \<Rightarrow> ('a ft_state_scheme) act" where
  "ft_objs_insert key value = reading (ft_search key) (\<lambda>result. block
    [tfassert (\<lambda>_. result = None) ''Object already present in table!'',
     with_result (ft_hashtable_insert key value) (\<lambda>result2.
       tfassert (\<lambda>_. result2 \<noteq> 0) ''Failed to insert into table'')])"

text \<open>Registering takes no lock.\<close>

definition gen_register_one :: "ulong \<Rightarrow> ulong \<Rightarrow> string \<Rightarrow> string \<Rightarrow> ('a ft_state_scheme) act" where
  "gen_register_one wrapper_fn dfn wrapper_fn_str driver_fn_str =
     with_result (ft_objs_key_ptr dfn) (\<lambda>key.
     with_result (ft_objs_value dfn wrapper_fn driver_fn_str wrapper_fn_str '''' '''') (\<lambda>value.
     ft_objs_insert key value))"

text \<open>The names are built in buffers of 128 bytes.\<close>

definition in_buffer :: "string \<Rightarrow> (string \<Rightarrow> 'v) \<Rightarrow> tf_error + 'v" where
  "in_buffer name f = (if length name > 127 then Inl Out_Of_Bounds else Inr (f name))"

definition simple_lookup_MJRcheck :: "(string \<Rightarrow> ulong) \<Rightarrow> ft_hvalue \<Rightarrow> tf_error + ulong" where
  "simple_lookup_MJRcheck symbol_lookup value =
     in_buffer (str_driver_fn value @ ''_MJRcheck'') symbol_lookup"

definition complex_lookup_MJRcheck ::
  "(string \<Rightarrow> ulong) \<Rightarrow> ft_hvalue \<Rightarrow> 'a test_state_scheme \<Rightarrow> tf_error + ulong" where
  "complex_lookup_MJRcheck symbol_lookup value s =
     (if str1 value \<noteq> [] \<and> str2 value \<noteq> []
      then in_buffer (str1 value @ ''_'' @ str2 value @ ''_'' @ ''MJRcheck'') symbol_lookup
      else if (str1 value \<noteq> [] \<and> str2 value = []) \<or> (str1 value = [] \<and> str2 value \<noteq> [])
      then (case tf_fail ''Unknown lookup_MJRcheck parameters'' s of Inl e \<Rightarrow> Inl e | Inr _ \<Rightarrow> Inr 0)
      else simple_lookup_MJRcheck symbol_lookup value)"

text \<open>
  The character of \<open>wrapper_type\<close> that is tested is the terminator when the string is empty. Both
  messages at the end read fields of \<open>value\<close>.
\<close>

definition numbered :: "string \<Rightarrow> bool" where
  "numbered wrapper_type \<longleftrightarrow> wrapper_type \<noteq> [] \<and> (hd wrapper_type = CHR ''0'' \<or> hd wrapper_type = CHR ''1'')"

definition find_MJRcheck ::
  "(string \<Rightarrow> ulong) \<Rightarrow> ulong \<Rightarrow> string \<Rightarrow> ulong \<Rightarrow> 'a ft_state_scheme \<Rightarrow> tf_error + ulong" where
  "find_MJRcheck symbol_lookup default_check wrapper_type dfn s =
     (case ft_search (ft_objs_key dfn) s of
        Inl e \<Rightarrow> Inl e
      | Inr value \<Rightarrow>
         (case tfassert (\<lambda>_. \<not> (value = None \<and> numbered wrapper_type)) ''failed to lookup'' s of
            Inl e \<Rightarrow> Inl e
          | Inr _ \<Rightarrow>
             (case (if numbered wrapper_type then complex_lookup_MJRcheck symbol_lookup (the value) s
                    else in_buffer (wrapper_type @ ''_MJRcheck'') symbol_lookup) of
                Inl e \<Rightarrow> Inl e
              | Inr retval \<Rightarrow>
                  if value = None then Inl Null_Deref
                  else if retval = 0 then Inr default_check else Inr retval)))"

definition gen_lookup_MJRcheck ::
  "(string \<Rightarrow> ulong) \<Rightarrow> ulong \<Rightarrow> string \<Rightarrow> ulong \<Rightarrow> (ulong, 'a ft_state_scheme) prog" where
  "gen_lookup_MJRcheck symbol_lookup default_check wrapper_type dfn = (\<lambda>s.
     case acquire_global_lock s of
       Inl e \<Rightarrow> Inl e
     | Inr t \<Rightarrow>
        (case find_MJRcheck symbol_lookup default_check wrapper_type dfn t of
           Inl e \<Rightarrow> Inl e
         | Inr retval \<Rightarrow> (case release_global_lock t of Inl e \<Rightarrow> Inl e | Inr u \<Rightarrow> Inr (retval, u))))"

definition initialize_function_tracker :: "('a ft_state_scheme) check" where
  "initialize_function_tracker = returning 0 (block
    [\<lambda>s. let n = kmalloc_calls s;
             m = (if kmalloc_ok s n then Suc (Suc n) else Suc n)
         in Inr (s\<lparr>kmalloc_calls := m,
              ft_objs := create_hashtable (kmalloc_ok s n) (kmalloc_ok s (Suc n)) 16
                ft_hash_from_key_fn ft_hash_keys_equal_fn\<rparr>),
     update (\<lambda>s. s\<lparr>ft_initialized := 1\<rparr>)])"

definition free_function_tracker :: "('a ft_state_scheme) act" where
  "free_function_tracker = block
    [acquire_global_lock,
     onlyif (\<lambda>s. ft_initialized s = 1) (block
      [\<lambda>s. case ft_objs s of
           None \<Rightarrow> Inl Null_Deref
         | Some h \<Rightarrow> Inr (s\<lparr>ft_objs := None\<rparr>),
       update (\<lambda>s. s\<lparr>ft_initialized := 0, ft_objs := None\<rparr>)]),
     release_global_lock]"

section \<open>The map of purposes\<close>

definition ft_ok :: "'a ft_state_scheme \<Rightarrow> bool" where
  "ft_ok s \<longleftrightarrow> (\<exists>h. ft_objs s = Some h \<and> ht_inv h \<and> (\<forall>k \<in> dom (ht_map h). driver_fn_ptr k \<noteq> 0))"

definition purposes :: "'a ft_state_scheme \<Rightarrow> ulong \<rightharpoonup> ft_hvalue" where
  "purposes s = (\<lambda>fn. case ft_objs s of None \<Rightarrow> None | Some h \<Rightarrow> ht_map h (ft_objs_key fn))"

lemma ft_okE:
  assumes "ft_ok s"
  obtains h where "ft_objs s = Some h" and "ht_inv h" and "\<forall>k \<in> dom (ht_map h). driver_fn_ptr k \<noteq> 0"
    and "purposes s = (\<lambda>fn. ht_map h (ft_objs_key fn))"
  using assms by (auto simp: ft_ok_def purposes_def fun_eq_iff)

lemma ft_frame: "ft_objs t = ft_objs s \<Longrightarrow> ft_ok t = ft_ok s \<and> purposes t = purposes s"
  by (simp add: ft_ok_def purposes_def)

lemma inj_driver_fn_ptr: "inj (driver_fn_ptr :: ft_hkey \<Rightarrow> ulong)"
  by (rule injI) (metis ft_hkey.surjective old.unit.exhaust)

lemma ft_objs_key_eq [simp]: "ft_objs_key a = ft_objs_key b \<longleftrightarrow> a = b"
  by (simp add: ft_objs_key_def)

lemma driver_fn_ptr_key [simp]: "driver_fn_ptr (ft_objs_key fn) = fn"
  by (simp add: ft_objs_key_def)

lemma ft_search_run: "ft_ok s \<Longrightarrow> ft_search (ft_objs_key fn) s = Inr (purposes s fn)"
  by (auto simp: ft_search_def ht.look_view elim!: ft_okE)

lemma ft_poke_run:
  assumes ok: "ft_ok s" and hit: "purposes s fn \<noteq> None"
  shows "\<exists>h. ft_poke (ft_objs_key fn) v s = Inr (s\<lparr>ft_objs := Some h\<rparr>) \<and>
    ft_ok (s\<lparr>ft_objs := Some h\<rparr>) \<and> purposes (s\<lparr>ft_objs := Some h\<rparr>) = (purposes s)(fn \<mapsto> v)"
proof -
  from ok obtain h where h: "ft_objs s = Some h" "ht_inv h" "\<forall>k \<in> dom (ht_map h). driver_fn_ptr k \<noteq> 0"
    "purposes s = (\<lambda>fn. ht_map h (ft_objs_key fn))" by (rule ft_okE)
  let ?k = "ft_objs_key fn"
  have c: "ht_inv (hashtable_poke h ?k v)" "ht_map (hashtable_poke h ?k v) = (ht_map h)(?k \<mapsto> v)"
    using ht.chg_view [OF h(2), of ?k v] hit by (auto simp: hashtable_poke_def h(4))
  have "?k \<in> dom (ht_map h)" using hit h(4) by auto
  from bspec [OF h(3) this] have "fn \<noteq> 0" by simp
  then have nz: "\<forall>k \<in> dom (ht_map (hashtable_poke h ?k v)). driver_fn_ptr k \<noteq> 0"
    using c(2) h(3) by auto
  have "purposes (s\<lparr>ft_objs := Some (hashtable_poke h ?k v)\<rparr>) = (purposes s)(fn \<mapsto> v)"
    by (simp add: purposes_def c(2) h(1) fun_eq_iff)
  with c(1) nz h(1) show ?thesis
    by (intro exI [of _ "hashtable_poke h ?k v"]) (simp add: ft_poke_def ft_ok_def)
qed

section \<open>Registering\<close>

definition no_purpose :: "ulong \<Rightarrow> ulong \<Rightarrow> string \<Rightarrow> string \<Rightarrow> ft_hvalue" where
  "no_purpose dfn wfn dstr wstr = \<lparr>driver_fn = dfn, wrapper_fn_ptr = wfn, str_driver_fn = dstr,
     str_wrapper_fn = wstr, str1 = [], str2 = []\<rparr>"

lemma gen_register_one_run:
  assumes ok: "ft_ok s" and new: "purposes s dfn = None" and nz: "dfn \<noteq> 0" and mem: "\<forall>n. kmalloc_ok s n"
  shows "\<exists>m h. let t = s\<lparr>kmalloc_calls := m, ft_objs := Some h\<rparr> in
    gen_register_one wfn dfn wstr dstr s = Inr t \<and> ft_ok t \<and>
    purposes t = (purposes s)(dfn \<mapsto> no_purpose dfn wfn dstr wstr)"
proof -
  from ok obtain h where h: "ft_objs s = Some h" "ht_inv h" "\<forall>k \<in> dom (ht_map h). driver_fn_ptr k \<noteq> 0"
    "purposes s = (\<lambda>fn. ht_map h (ft_objs_key fn))" by (rule ft_okE)
  let ?k = "ft_objs_key dfn" and ?v = "no_purpose dfn wfn dstr wstr"
  have none: "ht_map h ?k = None" using new h(4) by simp
  have room: "unat (hashtable_count h) + 1 < 2 ^ 32"
    by (rule ht.room [OF h(2) inj_driver_fn_ptr h(3) none]) (simp add: nz)
  note p = ht.put_ok [OF h(2) none room, of True ?v]
  let ?h = "snd (hashtable_insert True True h ?k ?v)"
  let ?m = "if will_expand h then Suc (Suc (Suc (Suc (kmalloc_calls s)))) else Suc (Suc (Suc (kmalloc_calls s)))"
  have srch: "hashtable_search h ?k = None" using ht.look_view [OF h(2)] none by simp
  have "gen_register_one wfn dfn wstr dstr s = Inr (s\<lparr>kmalloc_calls := ?m, ft_objs := Some ?h\<rparr>)"
    using p mem
    by (auto simp: gen_register_one_def with_result_def ft_objs_key_ptr_def ft_objs_value_def mjr_kmalloc_def
        ft_objs_insert_def reading_def ft_search_def srch h(1) ft_hashtable_insert_def Let_def no_purpose_def
        tfassert_def split: prod.split)
  moreover have "ft_ok (s\<lparr>kmalloc_calls := ?m, ft_objs := Some ?h\<rparr>)"
    using p h(3) nz by (auto simp: ft_ok_def)
  moreover have "purposes (s\<lparr>kmalloc_calls := ?m, ft_objs := Some ?h\<rparr>) = (purposes s)(dfn \<mapsto> ?v)"
    using p h by (auto simp: purposes_def fun_eq_iff)
  ultimately show ?thesis unfolding Let_def by blast
qed

text \<open>A function that is registered already makes the assertion fail, and no lock is held.\<close>

lemma gen_register_one_twice:
  assumes ok: "ft_ok s" and old: "purposes s dfn \<noteq> None" and mem: "\<forall>n. kmalloc_ok s n"
    and u: "unlocked s" and o: "objs s \<noteq> None"
  shows "gen_register_one wfn dfn wstr dstr s = Inl Stack_Overflow"
proof -
  from ok obtain h where h: "ft_objs s = Some h" "ht_inv h" "purposes s = (\<lambda>fn. ht_map h (ft_objs_key fn))"
    by (rule ft_okE)
  obtain v where "hashtable_search h (ft_objs_key dfn) = Some v"
    using ht.look_view [OF h(2)] old h(3) by auto
  then show ?thesis using mem u o
    by (simp add: gen_register_one_def with_result_def ft_objs_key_ptr_def ft_objs_value_def mjr_kmalloc_def
        ft_objs_insert_def reading_def ft_search_def h(1) tfassert_def tf_fail_def tf_fail_no_detail_def unlocked_def)
qed

section \<open>Purposes and look-up\<close>

definition kernel_address :: "ulong \<Rightarrow> bool" where
  "kernel_address a \<longleftrightarrow> 0xC0000000 \<le> a \<and> a \<le> 0xFFFF0000"

definition with_purpose :: "string \<Rightarrow> string \<Rightarrow> ft_hvalue \<Rightarrow> ft_hvalue" where
  "with_purpose s1 s2 v = v\<lparr>str1 := s1, str2 := s2\<rparr>"

lemma gen_convert_fn_run:
  assumes ok: "ft_ok s" and u: "unlocked s"
  shows "\<exists>h. let t = s\<lparr>ft_objs := h\<rparr> in gen_convert_fn p fn s1 s2 s = Inr t \<and> ft_ok t \<and>
    purposes t = (if kernel_address p \<and> purposes s fn \<noteq> None
      then (purposes s)(fn \<mapsto> with_purpose s1 s2 (the (purposes s fn))) else purposes s)"
proof (cases "kernel_address p \<and> purposes s fn \<noteq> None")
  case False
  let ?l = "s\<lparr>global_lock := True, global_lock_acquired := 1\<rparr>"
  have l: "ft_ok ?l" "purposes ?l = purposes s" using ft_frame [of ?l s] ok by simp_all
  have "gen_convert_fn p fn s1 s2 s = Inr s"
  proof (cases "kernel_address p")
    case True
    with False have "purposes s fn = None" by simp
    with True u show ?thesis
      by (simp add: gen_convert_fn_def kernel_address_def not_less acquire_unlocked reading_def ft_search_run [OF l(1)] l(2)
          release_locked unlocked_def)
  next
    case F: False
    then show ?thesis by (auto simp: gen_convert_fn_def kernel_address_def not_less)
  qed
  then show ?thesis using ok False by (intro exI [of _ "ft_objs s"]) (auto simp: Let_def)
next
  case True
  then obtain v where v: "purposes s fn = Some v" by blast
  let ?l = "s\<lparr>global_lock := True, global_lock_acquired := 1\<rparr>"
  have l: "ft_ok ?l" "purposes ?l = purposes s" using ft_frame [of ?l s] ok by simp_all
  have hit: "purposes ?l fn \<noteq> None" using v l(2) by simp
  from ft_poke_run [OF l(1) hit, of "with_purpose s1 s2 v"] obtain h
    where h: "ft_poke (ft_objs_key fn) (with_purpose s1 s2 v) ?l = Inr (?l\<lparr>ft_objs := Some h\<rparr>)"
      "ft_ok (?l\<lparr>ft_objs := Some h\<rparr>)" "purposes (?l\<lparr>ft_objs := Some h\<rparr>) = (purposes ?l)(fn \<mapsto> with_purpose s1 s2 v)"
    by blast
  have f: "ft_ok (s\<lparr>ft_objs := Some h\<rparr>) = ft_ok (?l\<lparr>ft_objs := Some h\<rparr>)"
    "purposes (s\<lparr>ft_objs := Some h\<rparr>) = purposes (?l\<lparr>ft_objs := Some h\<rparr>)"
    by (simp_all add: ft_ok_def purposes_def)
  have "gen_convert_fn p fn s1 s2 s = Inr (s\<lparr>ft_objs := Some h\<rparr>)"
    using True u h(1)
    by (simp add: gen_convert_fn_def kernel_address_def not_less [symmetric] acquire_unlocked reading_def ft_search_run [OF l(1)] l(2) v
        with_purpose_def release_locked unlocked_def)
  then show ?thesis using True h v l(2) f by (intro exI [of _ "Some h"]) (simp add: Let_def)
qed

text \<open>The name of the routine that belongs to a registered function.\<close>

definition check_name :: "ft_hvalue \<Rightarrow> string" where
  "check_name v = (if str1 v = [] then str_driver_fn v else str1 v @ ''_'' @ str2 v) @ ''_MJRcheck''"

lemma gen_lookup_MJRcheck_run:
  assumes ok: "ft_ok s" and u: "unlocked s" and v: "purposes s dfn = Some v" and w: "numbered wrapper_type"
    and both: "str1 v = [] \<longleftrightarrow> str2 v = []" and small: "length (check_name v) \<le> 127"
  shows "gen_lookup_MJRcheck symbol_lookup default_check wrapper_type dfn s =
    Inr (if symbol_lookup (check_name v) = 0 then default_check else symbol_lookup (check_name v), s)"
proof -
  let ?l = "s\<lparr>global_lock := True, global_lock_acquired := 1\<rparr>"
  have l: "ft_ok ?l" "purposes ?l = purposes s" using ft_frame [of ?l s] ok by simp_all
  have "complex_lookup_MJRcheck symbol_lookup v ?l = Inr (symbol_lookup (check_name v))"
    using both small
    by (auto simp: complex_lookup_MJRcheck_def simple_lookup_MJRcheck_def in_buffer_def check_name_def)
  then have "find_MJRcheck symbol_lookup default_check wrapper_type dfn ?l =
      Inr (if symbol_lookup (check_name v) = 0 then default_check else symbol_lookup (check_name v))"
    using w by (simp add: find_MJRcheck_def ft_search_run [OF l(1)] l(2) v tfassert_def)
  then show ?thesis using u
    by (simp add: gen_lookup_MJRcheck_def acquire_unlocked release_locked unlocked_def)
qed

lemma initialize_function_tracker_run:
  assumes "initialize_function_tracker s = Inr (r, t)"
  shows "r = 0" and "ft_initialized t = 1"
    and "t = s\<lparr>kmalloc_calls := kmalloc_calls t, ft_objs := ft_objs t, ft_initialized := 1\<rparr>"
    and "ft_objs t = None \<or> ft_ok t \<and> purposes t = Map.empty"
proof -
  let ?n = "kmalloc_calls s"
  let ?c = "create_hashtable (kmalloc_ok s ?n) (kmalloc_ok s (Suc ?n)) 16 ft_hash_from_key_fn ft_hash_keys_equal_fn
    :: (ft_hkey, ft_hvalue) hashtable option"
  have r: "r = 0" and t: "t = s\<lparr>kmalloc_calls := kmalloc_calls t, ft_objs := ?c, ft_initialized := 1\<rparr>"
    using assms by (auto simp: initialize_function_tracker_def Let_def)
  show "r = 0" by (rule r)
  from t obtain m where m: "t = s\<lparr>kmalloc_calls := m, ft_objs := ?c, ft_initialized := 1\<rparr>" by blast
  show "ft_initialized t = 1" by (simp add: m)
  show "t = s\<lparr>kmalloc_calls := kmalloc_calls t, ft_objs := ft_objs t, ft_initialized := 1\<rparr>" by (simp add: m)
  have eq: "ft_hash_keys_equal_fn = (=)"
    by (auto simp: ft_hash_keys_equal_fn_def fun_eq_iff dest: injD [OF inj_driver_fn_ptr])
  show "ft_objs t = None \<or> ft_ok t \<and> purposes t = Map.empty"
  proof (cases ?c)
    case None
    then show ?thesis by (simp add: m)
  next
    case (Some h)
    note h = create_hashtable_spec [OF Some [unfolded eq]]
    show ?thesis using h by (simp add: m Some ft_ok_def purposes_def)
  qed
qed

end
