(* ===== verification/Check_Routines.thy ===== *)
theory Check_Routines
  imports Invariant
begin

text \<open>
  What the check routines share: the three-way branch on \<open>prepost\<close>, routines whose result depends on
  the state they end in, the kernel structs whose fields they read, and the kernel constants they
  pass on.

  A routine takes the addresses of the arguments of the kernel function it checks; a definition takes
  the values found there. A struct pointer is an option, \<open>None\<close> for \<open>NULL\<close>, of the record of the
  fields read.
\<close>

section \<open>Before and after the kernel function\<close>

definition on_prepost :: "int \<Rightarrow> ('a test_state_scheme) act \<Rightarrow> ('a test_state_scheme) act \<Rightarrow> ('a test_state_scheme) act" where
  "on_prepost prepost before after =
     (if prepost = 0 then before else if prepost = 1 then after else tf_fail ''0'')"

lemma on_prepost_simps [simp]:
  "on_prepost 0 a b = a" "on_prepost 1 a b = b" for a b :: "('a test_state_scheme) act"
  by (simp_all add: on_prepost_def)

lemma safe_on_prepost [safe_rules]:
  "safe in_check a \<Longrightarrow> safe in_check b \<Longrightarrow> safe in_check (on_prepost prepost a b)"
  unfolding on_prepost_def by (intro safe_rules)

lemma on_prepost_other:
  "prepost \<noteq> 0 \<Longrightarrow> prepost \<noteq> 1 \<Longrightarrow> on_prepost prepost a b = tf_fail ''0''"
  by (simp add: on_prepost_def)

definition check_returning :: "('a test_state_scheme \<Rightarrow> int) \<Rightarrow> ('a test_state_scheme) act \<Rightarrow> ('a test_state_scheme) check" where
  "check_returning result body = (\<lambda>s. case check_routine 0 body s of
       Inl e \<Rightarrow> Inl e
     | Inr (_, t) \<Rightarrow> Inr (result t, t))"

lemma check_returning_Inr:
  "check_returning result body s = Inr (r, t) \<longleftrightarrow> check_routine 0 body s = Inr (0, t) \<and> r = result t"
proof (cases "check_routine 0 body s")
  case (Inl e)
  then show ?thesis by (simp add: check_returning_def)
next
  case (Inr q)
  then obtain n u where q: "q = (n, u)" "check_routine 0 body s = Inr (n, u)" by (cases q) auto
  then have "n = 0" by (simp add: check_routine_Inr)
  with q show ?thesis by (auto simp: check_returning_def)
qed

lemma routine_safe_returning [safe_rules]:
  assumes "safe in_check body" shows "routine_safe (check_returning result body)"
proof -
  have "routine_safe (check_routine 0 body)" by (rule routine_safe_check [OF assms])
  then show ?thesis by (auto simp: routine_safe_def check_returning_def split: sum.splits)
qed

section \<open>Kernel data\<close>

record sk_buff =
  skb_address :: ulong
  head :: ulong
  skb_len :: ulong

record urb =
  urb_address :: ulong
  transfer_buffer :: ulong

text \<open>The value of a pointer as a number.\<close>

definition skb_ptr :: "sk_buff option \<Rightarrow> ulong" where
  "skb_ptr p = (case p of None \<Rightarrow> 0 | Some v \<Rightarrow> skb_address v)"

definition urb_ptr :: "urb option \<Rightarrow> ulong" where
  "urb_ptr p = (case p of None \<Rightarrow> 0 | Some v \<Rightarrow> urb_address v)"

text \<open>\<open>mem_flags_test (fn, GFP_ATOMIC, GFP_KERNEL, flags)\<close>.\<close>

definition gfp_test :: "u32 \<Rightarrow> ('a test_state_scheme) act" where
  "gfp_test flgs = with_state (\<lambda>s. mem_flags_test (GFP_ATOMIC s) (GFP_KERNEL s) flgs)"

lemma safe_gfp_test [safe_rules]: "safe in_check (gfp_test flgs)"
  unfolding gfp_test_def by (intro safe_rules)

text \<open>A multiplication of an \<open>unsigned long\<close> or \<open>long\<close> by the \<open>int\<close> \<open>g_sym_slow_timers\<close>, at 32 bits.\<close>

definition slowed :: "ulong \<Rightarrow> 'a tf_globals_scheme \<Rightarrow> ulong" where
  "slowed t s = t * of_int (g_sym_slow_timers s)"

text \<open>\<open>prepost == 0\<close> writes the slowed value, otherwise the argument stays.\<close>

definition slow_before :: "int \<Rightarrow> ulong \<Rightarrow> 'a tf_globals_scheme \<Rightarrow> ulong" where
  "slow_before prepost t s = (if prepost = 0 then slowed t s else t)"

lemma slowed_exact:
  assumes "0 \<le> g_sym_slow_timers s" and "uint t * g_sym_slow_timers s < 2 ^ 32"
  shows "uint (slowed t s) = uint t * g_sym_slow_timers s"
proof -
  have "slowed t s = word_of_int (uint t * g_sym_slow_timers s)"
    by (simp add: slowed_def)
  then have "uint (slowed t s) = uint (word_of_int (uint t * g_sym_slow_timers s) :: ulong)"
    by (rule arg_cong)
  also have "\<dots> = take_bit 32 (uint t * g_sym_slow_timers s)" by (subst uint_word_of_int_eq) simp
  also have "\<dots> = uint t * g_sym_slow_timers s" using assms by (intro take_bit_int_eq_self) simp_all
  finally show ?thesis .
qed

end
