(* ===== verification/Checks_Memory.thy ===== *)
theory Checks_Memory
  imports Check_Routines
begin

text \<open>
  The checks of allocation and release in \<open>misc_checks/main.c\<close>: each kernel allocator hands the object
  to the tracker after it ran, each release function takes it out before it runs. Names that start
  with underscores in C have \<open>u1_\<close> or \<open>u2_\<close> here.
\<close>

section \<open>Pages, heap and DMA memory\<close>

definition u2_kmalloc_MJRcheck :: "string \<Rightarrow> int \<Rightarrow> ulong \<Rightarrow> ulong \<Rightarrow> u32 \<Rightarrow> ('a test_state_scheme) check" where
  "u2_kmalloc_MJRcheck fn prepost retval arg0 arg1 = check_routine 0 (on_prepost prepost
     (gfp_test arg1)
     (generic_allocator fn prepost retval arg0 ORIGIN_KMALLOC))"

definition kstrdup_MJRcheck :: "string \<Rightarrow> int \<Rightarrow> ulong \<Rightarrow> u32 \<Rightarrow> ('a test_state_scheme) check" where
  "kstrdup_MJRcheck fn prepost retval arg1 = check_routine 0
    (if prepost = 0 then gfp_test arg1
     else if prepost = 1 then generic_allocator fn prepost retval (-1) ORIGIN_KMALLOC
     else skip)"

definition kfree_MJRcheck :: "int \<Rightarrow> ulong option \<Rightarrow> ('a test_state_scheme) check" where
  "kfree_MJRcheck prepost arg0 = check_routine 0 (on_prepost prepost
     (case arg0 of
        None \<Rightarrow> tf_fail ''requires non-null arg0''
      | Some p \<Rightarrow> if p = 0 then skip else generic_free prepost p ORIGIN_KMALLOC)
     skip)"

definition vmalloc_MJRcheck :: "string \<Rightarrow> int \<Rightarrow> ulong \<Rightarrow> ulong \<Rightarrow> ('a test_state_scheme) check" where
  "vmalloc_MJRcheck fn prepost retval arg0 = check_routine 0 (on_prepost prepost
     skip
     (generic_allocator fn prepost retval arg0 ORIGIN_VMALLOC))"

definition vfree_MJRcheck :: "int \<Rightarrow> ulong option \<Rightarrow> ('a test_state_scheme) check" where
  "vfree_MJRcheck prepost arg0 = check_routine 0 (on_prepost prepost
     (case arg0 of
        None \<Rightarrow> tf_fail ''requires non-null arg0''
      | Some p \<Rightarrow> if p = 0 then skip else generic_free prepost p ORIGIN_VMALLOC)
     skip)"

text \<open>\<open>1 << order\<close>: from order 32 on the shift has no defined value in C, here it is 0.\<close>

definition u2_get_free_pages_MJRcheck :: "string \<Rightarrow> int \<Rightarrow> ulong \<Rightarrow> u32 \<Rightarrow> ('a test_state_scheme) check" where
  "u2_get_free_pages_MJRcheck fn prepost retval order = check_routine 0 (on_prepost prepost
     skip
     (generic_allocator fn prepost retval (push_bit (unat order) 1) ORIGIN_GET_FREE_PAGES))"

definition free_pages_MJRcheck :: "int \<Rightarrow> ulong \<Rightarrow> ('a test_state_scheme) check" where
  "free_pages_MJRcheck prepost addr = check_routine 0 (on_prepost prepost
     (generic_free prepost addr ORIGIN_GET_FREE_PAGES)
     skip)"

definition dma_alloc_coherent_MJRcheck ::
  "string \<Rightarrow> int \<Rightarrow> ulong \<Rightarrow> ulong \<Rightarrow> ulong option \<Rightarrow> ('a test_state_scheme) check" where
  "dma_alloc_coherent_MJRcheck fn prepost retval sz dma_handle = check_routine 0 (on_prepost prepost
     skip
     (block
      [generic_allocator fn prepost retval sz ORIGIN_DMA_ALLOC_COHERENT,
       if retval \<noteq> 0 then deref dma_handle (\<lambda>h. s2e (S2E_make_dma_symbolic h sz ''dma_alloc_coherent''))
       else skip]))"

definition dma_free_coherent_MJRcheck :: "int \<Rightarrow> ulong \<Rightarrow> ulong \<Rightarrow> ulong \<Rightarrow> ('a test_state_scheme) check" where
  "dma_free_coherent_MJRcheck prepost sz vaddr dma_handle = check_routine 0 (on_prepost prepost
     (block
      [generic_free prepost vaddr ORIGIN_DMA_ALLOC_COHERENT,
       s2e (S2E_free_dma_symbolic dma_handle sz ''dma_alloc_coherent''),
       s2e (S2E_make_symbolic vaddr sz ''dma_free_coherent'')])
     skip)"

definition dma_alloc_from_coherent_MJRcheck :: "int \<Rightarrow> ('a test_state_scheme) check" where
  "dma_alloc_from_coherent_MJRcheck prepost = check_routine 0 skip"

definition dma_release_from_coherent_MJRcheck :: "int \<Rightarrow> ('a test_state_scheme) check" where
  "dma_release_from_coherent_MJRcheck prepost = check_routine 0 skip"

section \<open>Socket buffers and network devices\<close>

definition kfree_skb_MJRcheck :: "int \<Rightarrow> sk_buff option \<Rightarrow> ('a test_state_scheme) check" where
  "kfree_skb_MJRcheck prepost skb = check_routine 0
    (if prepost = 0 then deref skb (\<lambda>b. generic_free prepost (head b) ORIGIN_DEV_ALLOC_SKB) else skip)"

definition u2_netdev_alloc_skb_MJRcheck :: "string \<Rightarrow> int \<Rightarrow> sk_buff option \<Rightarrow> ('a test_state_scheme) check" where
  "u2_netdev_alloc_skb_MJRcheck fn prepost retval = check_routine 0
    (if prepost = 1 then
       (case retval of
          None \<Rightarrow> skip
        | Some b \<Rightarrow> generic_allocator fn prepost (head b) (-1) ORIGIN_DEV_ALLOC_SKB)
     else skip)"

text \<open>
  The size handed on is \<open>(unsigned long) size\<close>, the address of the argument: \<open>size_address\<close>, not the
  length \<open>sz\<close> the driver asked for, which the routine never reads.
\<close>

definition u2_alloc_skb_MJRcheck ::
  "string \<Rightarrow> int \<Rightarrow> sk_buff option \<Rightarrow> ulong \<Rightarrow> u32 \<Rightarrow> ('a test_state_scheme) check" where
  "u2_alloc_skb_MJRcheck fn prepost retval size_address sz = check_routine 0
    (if prepost = 1 then
       deref retval (\<lambda>b. generic_allocator fn prepost (head b) size_address ORIGIN_DEV_ALLOC_SKB)
     else skip)"

definition dev_alloc_skb_MJRcheck :: "string \<Rightarrow> int \<Rightarrow> sk_buff option \<Rightarrow> ('a test_state_scheme) check" where
  "dev_alloc_skb_MJRcheck fn prepost retval = check_routine 0 (on_prepost prepost
     skip
     (deref retval (\<lambda>b. generic_allocator fn prepost (head b) (-1) ORIGIN_DEV_ALLOC_SKB)))"

definition dev_kfree_skb_any_MJRcheck :: "int \<Rightarrow> sk_buff option \<Rightarrow> ('a test_state_scheme) check" where
  "dev_kfree_skb_any_MJRcheck prepost skb = check_routine 0 (on_prepost prepost
     (deref skb (\<lambda>b. generic_free prepost (head b) ORIGIN_DEV_ALLOC_SKB))
     skip)"

definition consume_skb_MJRcheck :: "int \<Rightarrow> sk_buff option \<Rightarrow> ('a test_state_scheme) check" where
  "consume_skb_MJRcheck prepost skb = check_routine 0 (on_prepost prepost
     (deref skb (\<lambda>b. generic_free prepost (head b) ORIGIN_DEV_ALLOC_SKB))
     skip)"

text \<open>The first two conditions of the source are the same, so the second branch is never taken.\<close>

definition skb_dma_map_MJRcheck :: "string \<Rightarrow> int \<Rightarrow> sk_buff option \<Rightarrow> ('a test_state_scheme) check" where
  "skb_dma_map_MJRcheck fn prepost skb = check_routine 0
    (if prepost = 1 then skip
     else if prepost = 1 then generic_allocator fn prepost (skb_ptr skb) (-1) ORIGIN_SKB_DMA_MAP
     else tf_fail ''0'')"

definition skb_dma_unmap_MJRcheck :: "int \<Rightarrow> sk_buff option \<Rightarrow> ('a test_state_scheme) check" where
  "skb_dma_unmap_MJRcheck prepost skb = check_routine 0 (on_prepost prepost
     (generic_free prepost (skb_ptr skb) ORIGIN_SKB_DMA_MAP)
     skip)"

definition alloc_etherdev_mqs_MJRcheck :: "string \<Rightarrow> int \<Rightarrow> ulong \<Rightarrow> ('a test_state_scheme) check" where
  "alloc_etherdev_mqs_MJRcheck fn prepost retval = check_routine 0 (on_prepost prepost
     skip
     (generic_allocator fn prepost retval (-1) ORIGIN_ALLOC_ETHERDEV_MQS))"

definition alloc_netdev_mqs_MJRcheck :: "string \<Rightarrow> int \<Rightarrow> ulong \<Rightarrow> ('a test_state_scheme) check" where
  "alloc_netdev_mqs_MJRcheck fn prepost retval = check_routine 0 (on_prepost prepost
     skip
     (generic_allocator fn prepost retval (-1) ORIGIN_ALLOC_ETHERDEV_MQS))"

text \<open>On a path with an artificial kernel result the kernel function itself is bypassed.\<close>

definition free_netdev_MJRcheck :: "int \<Rightarrow> ulong \<Rightarrow> ('a test_state_scheme) check" where
  "free_netdev_MJRcheck prepost dev = check_returning (\<lambda>s. if prepost = 0 \<and> bad_path s \<noteq> 0 then 1 else 0)
    (if prepost = 0 then generic_free prepost dev ORIGIN_ALLOC_ETHERDEV_MQS else skip)"

section \<open>Devices, regions and I/O memory\<close>

definition iounmap_MJRcheck :: "int \<Rightarrow> ulong \<Rightarrow> ('a test_state_scheme) check" where
  "iounmap_MJRcheck prepost addr = check_routine 0
    (if prepost = 0 then block
      [generic_free prepost addr ORIGIN_IOREMAP,
       if addr \<noteq> 0 then s2e (S2E_io_unmap addr) else skip]
     else skip)"

definition ioremap_nocache_MJRcheck :: "string \<Rightarrow> int \<Rightarrow> ulong \<Rightarrow> ulong \<Rightarrow> ('a test_state_scheme) check" where
  "ioremap_nocache_MJRcheck fn prepost retval sz = check_routine 0
    (if prepost = 1 then block
      [generic_allocator fn prepost retval sz ORIGIN_IOREMAP,
       s2e (S2E_io_map retval sz)]
     else skip)"

definition device_register_MJRcheck :: "string \<Rightarrow> int \<Rightarrow> int \<Rightarrow> ulong \<Rightarrow> ('a test_state_scheme) check" where
  "device_register_MJRcheck fn prepost retval dev = check_routine 0
    (if prepost = 0 then skip
     else if prepost = 1 then
       (let o' = (if retval = 0 then ORIGIN_DEVICE_REGISTER else ORIGIN_GET_DEVICE)
        in generic_allocator fn prepost dev (-1) o')
     else skip)"

definition device_unregister_MJRcheck :: "int \<Rightarrow> ulong \<Rightarrow> ('a test_state_scheme) check" where
  "device_unregister_MJRcheck prepost dev = check_routine 0
    (cond (DISABLED [''ENS1371_SND'']) skip
      (if prepost = 0 then generic_free prepost dev (ORIGIN_DEVICE_REGISTER OR ORIGIN_GET_DEVICE) else skip))"

definition u2_request_region_MJRcheck :: "string \<Rightarrow> int \<Rightarrow> ulong \<Rightarrow> ulong \<Rightarrow> ('a test_state_scheme) check" where
  "u2_request_region_MJRcheck fn prepost start n = check_routine 0
    (if prepost = 1 then generic_allocator fn prepost start n ORIGIN_KMALLOC else skip)"

definition u2_release_region_MJRcheck :: "int \<Rightarrow> ulong \<Rightarrow> ('a test_state_scheme) check" where
  "u2_release_region_MJRcheck prepost start = check_routine 0
    (if prepost = 0 then generic_free prepost start ORIGIN_KMALLOC else skip)"

section \<open>USB transfers\<close>

definition usb_alloc_urb_MJRcheck :: "string \<Rightarrow> int \<Rightarrow> ulong \<Rightarrow> ('a test_state_scheme) check" where
  "usb_alloc_urb_MJRcheck fn prepost retval = check_routine 0
    (if prepost = 1 then generic_allocator fn prepost retval (-1) ORIGIN_ALLOC_URB else skip)"

definition usb_free_urb_MJRcheck :: "int \<Rightarrow> ulong option \<Rightarrow> ('a test_state_scheme) check" where
  "usb_free_urb_MJRcheck prepost u = check_routine 0 (on_prepost prepost
     (case u of
        None \<Rightarrow> tf_fail ''requires non-null urb''
      | Some p \<Rightarrow> if p = 0 then skip else generic_free prepost p ORIGIN_ALLOC_URB)
     skip)"

definition usb_control_msg_MJRcheck :: "int \<Rightarrow> ulong \<Rightarrow> ('a test_state_scheme) check" where
  "usb_control_msg_MJRcheck prepost data = check_routine 0 (on_prepost prepost
     (block
      [tfassert (\<lambda>s. kernel_blocking_state s = BLOCKING_YES \<or> kernel_blocking_state s = BLOCKING_UNDEFINED)
         ''kernel_blocking_state () == BLOCKING_YES'',
       cond (DISABLED [''PEGASUS'']) skip
        (assert_allocated (ORIGIN_KMALLOC OR ORIGIN_ALLOC_URB OR ORIGIN_DEV_ALLOC_SKB) data)])
     skip)"

definition usb_submit_urb_MJRcheck :: "int \<Rightarrow> urb option \<Rightarrow> u32 \<Rightarrow> ('a test_state_scheme) check" where
  "usb_submit_urb_MJRcheck prepost u mem_flags = check_routine 0 (on_prepost prepost
     (block
      [gfp_test mem_flags,
       assert_allocated (ORIGIN_KMALLOC OR ORIGIN_ALLOC_URB) (urb_ptr u),
       cond (DISABLED [''PEGASUS'']) skip
        (deref u (\<lambda>v. assert_allocated (ORIGIN_KMALLOC OR ORIGIN_DEV_ALLOC_SKB) (transfer_buffer v)))])
     skip)"

section \<open>Copies to and from user space\<close>

text \<open>\<open>copy_to_user\<close> itself is never run: the result 1 tells the stub to leave it out, with the value 0.\<close>

definition copy_to_user_MJRcheck :: "int \<Rightarrow> ulong \<Rightarrow> (int \<times> ulong, 'a test_state_scheme) prog" where
  "copy_to_user_MJRcheck prepost retval = with_out (\<lambda>_. if prepost = 0 then 0 else retval) (check_routine 1
    (if prepost = 0 then skip else tf_fail ''0''))"

definition copy_from_user_MJRcheck :: "int \<Rightarrow> ulong \<Rightarrow> ulong \<Rightarrow> ('a test_state_scheme) check" where
  "copy_from_user_MJRcheck prepost to' n = check_routine 0 (assert_allocated_weak to' n)"

end
