(* ===== verification/Checks_Locks.thy ===== *)
theory Checks_Locks
  imports Check_Routines
begin

text \<open>
  The checks of locking functions in \<open>misc_checks/main.c\<close>, as built for kernels with
  \<open>_raw_spin_lock\<close> (\<open>ENABLE_SPIN_LOCK\<close> is not defined). \<open>lockp\<close> is the address of the argument,
  \<open>lock\<close> the address of the lock stored there. It is \<open>lockp\<close> that the routines compare with 0x1000;
  \<open>generic_lock_state\<close> then looks at the lock itself.
\<close>

section \<open>Initialisation\<close>

definition u2_raw_spin_lock_init_MJRcheck :: "string \<Rightarrow> int \<Rightarrow> ulong \<Rightarrow> ('a test_state_scheme) check" where
  "u2_raw_spin_lock_init_MJRcheck fn prepost lock = check_routine 0 (generic_lock_allocator fn prepost lock ORIGIN_SPIN_LOCK)"

definition u2_mutex_init_MJRcheck :: "string \<Rightarrow> int \<Rightarrow> ulong \<Rightarrow> ('a test_state_scheme) check" where
  "u2_mutex_init_MJRcheck fn prepost lock = check_routine 0 (generic_lock_allocator fn prepost lock ORIGIN_MUTEX)"

definition mutex_init_MJRcheck :: "string \<Rightarrow> int \<Rightarrow> ulong \<Rightarrow> ('a test_state_scheme) check" where
  "mutex_init_MJRcheck fn prepost lock = check_routine 0 (generic_lock_allocator fn prepost lock ORIGIN_MUTEX)"

definition u2_init_rwsem_MJRcheck :: "string \<Rightarrow> int \<Rightarrow> ulong \<Rightarrow> ('a test_state_scheme) check" where
  "u2_init_rwsem_MJRcheck fn prepost lock = check_routine 0 (generic_lock_allocator fn prepost lock ORIGIN_RWSEM)"

definition u2_rwlock_init_MJRcheck :: "string \<Rightarrow> int \<Rightarrow> ulong \<Rightarrow> ('a test_state_scheme) check" where
  "u2_rwlock_init_MJRcheck fn prepost lock = check_routine 0 (generic_lock_allocator fn prepost lock ORIGIN_RWLOCK)"

section \<open>Spin locks\<close>

definition u1_raw_spin_lock_MJRcheck :: "string \<Rightarrow> int \<Rightarrow> ulong \<Rightarrow> ulong \<Rightarrow> ('a test_state_scheme) check" where
  "u1_raw_spin_lock_MJRcheck fn prepost lockp lock = check_routine 0 (block
    [tfassert (\<lambda>_. lockp > 0x1000) ''Incorrect lock provided'',
     generic_lock_state fn prepost lock ORIGIN_SPIN_LOCK SPIN_LOCK 1])"

definition u1_raw_spin_lock_bh_MJRcheck :: "string \<Rightarrow> int \<Rightarrow> ulong \<Rightarrow> ulong \<Rightarrow> ('a test_state_scheme) check" where
  "u1_raw_spin_lock_bh_MJRcheck fn prepost lockp lock = check_routine 0 (block
    [tfassert (\<lambda>_. lockp > 0x1000) ''Incorrect lock provided'',
     generic_lock_state fn prepost lock ORIGIN_SPIN_LOCK SPIN_LOCK_BH 1])"

definition u1_raw_spin_lock_irqsave_MJRcheck :: "string \<Rightarrow> int \<Rightarrow> ulong \<Rightarrow> ulong \<Rightarrow> ('a test_state_scheme) check" where
  "u1_raw_spin_lock_irqsave_MJRcheck fn prepost lockp lock = check_routine 0 (block
    [tfassert (\<lambda>_. lockp > 0x1000) ''Incorrect lock provided'',
     generic_lock_state fn prepost lock ORIGIN_SPIN_LOCK SPIN_LOCK_IRQSAVE 1])"

definition u1_raw_spin_lock_irq_MJRcheck :: "string \<Rightarrow> int \<Rightarrow> ulong \<Rightarrow> ulong \<Rightarrow> ('a test_state_scheme) check" where
  "u1_raw_spin_lock_irq_MJRcheck fn prepost lockp lock = check_routine 0 (block
    [tfassert (\<lambda>_. lockp > 0x1000) ''Incorrect lock provided'',
     generic_lock_state fn prepost lock ORIGIN_SPIN_LOCK SPIN_LOCK_IRQ 1])"

definition u1_raw_spin_unlock_MJRcheck :: "string \<Rightarrow> int \<Rightarrow> ulong \<Rightarrow> ulong \<Rightarrow> ('a test_state_scheme) check" where
  "u1_raw_spin_unlock_MJRcheck fn prepost lockp lock = check_routine 0 (block
    [tfassert (\<lambda>_. lockp > 0x1000) ''Incorrect lock provided'',
     generic_lock_state fn prepost lock ORIGIN_SPIN_LOCK SPIN_LOCK (-1)])"

definition u1_raw_spin_unlock_bh_MJRcheck :: "string \<Rightarrow> int \<Rightarrow> ulong \<Rightarrow> ulong \<Rightarrow> ('a test_state_scheme) check" where
  "u1_raw_spin_unlock_bh_MJRcheck fn prepost lockp lock = check_routine 0 (block
    [tfassert (\<lambda>_. lockp > 0x1000) ''Incorrect lock provided'',
     generic_lock_state fn prepost lock ORIGIN_SPIN_LOCK SPIN_LOCK_BH (-1)])"

definition u1_raw_spin_unlock_irqrestore_MJRcheck :: "string \<Rightarrow> int \<Rightarrow> ulong \<Rightarrow> ulong \<Rightarrow> ('a test_state_scheme) check" where
  "u1_raw_spin_unlock_irqrestore_MJRcheck fn prepost lockp lock = check_routine 0 (block
    [tfassert (\<lambda>_. lockp > 0x1000) ''Incorrect lock provided'',
     generic_lock_state fn prepost lock ORIGIN_SPIN_LOCK SPIN_LOCK_IRQSAVE (-1)])"

definition u1_raw_spin_unlock_irq_MJRcheck :: "string \<Rightarrow> int \<Rightarrow> ulong \<Rightarrow> ulong \<Rightarrow> ('a test_state_scheme) check" where
  "u1_raw_spin_unlock_irq_MJRcheck fn prepost lockp lock = check_routine 0 (block
    [tfassert (\<lambda>_. lockp > 0x1000) ''Incorrect lock provided'',
     generic_lock_state fn prepost lock ORIGIN_SPIN_LOCK SPIN_LOCK_IRQ (-1)])"

text \<open>A try-lock counts when it succeeded; any kind of unlock may release it.\<close>

definition u1_raw_spin_trylock_MJRcheck :: "string \<Rightarrow> int \<Rightarrow> int \<Rightarrow> ulong \<Rightarrow> ulong \<Rightarrow> ('a test_state_scheme) check" where
  "u1_raw_spin_trylock_MJRcheck fn prepost retval lockp lock = check_routine 0 (block
    [tfassert (\<lambda>_. lockp > 0x1000) ''Incorrect lock provided'',
     if prepost = 1 \<and> retval \<noteq> 0 then generic_lock_state fn prepost lock ORIGIN_SPIN_LOCK GENERIC_LOCK 1
     else skip])"

section \<open>Mutexes\<close>

text \<open>The interruptible and killable variants have a result, which the routines do not look at.\<close>

definition mutex_lock_nested_MJRcheck :: "string \<Rightarrow> int \<Rightarrow> ulong \<Rightarrow> ulong \<Rightarrow> ('a test_state_scheme) check" where
  "mutex_lock_nested_MJRcheck fn prepost lockp lock = check_routine 0 (block
    [tfassert (\<lambda>_. lockp > 0x1000) ''Incorrect lock provided'',
     generic_lock_state fn prepost lock ORIGIN_MUTEX MUTEX 1])"

definition mutex_lock_interruptible_nested_MJRcheck :: "string \<Rightarrow> int \<Rightarrow> int \<Rightarrow> ulong \<Rightarrow> ulong \<Rightarrow> ('a test_state_scheme) check" where
  "mutex_lock_interruptible_nested_MJRcheck fn prepost retval lockp lock = check_routine 0 (block
    [tfassert (\<lambda>_. lockp > 0x1000) ''Incorrect lock provided'',
     generic_lock_state fn prepost lock ORIGIN_MUTEX MUTEX 1])"

definition mutex_lock_killable_nested_MJRcheck :: "string \<Rightarrow> int \<Rightarrow> int \<Rightarrow> ulong \<Rightarrow> ulong \<Rightarrow> ('a test_state_scheme) check" where
  "mutex_lock_killable_nested_MJRcheck fn prepost retval lockp lock = check_routine 0 (block
    [tfassert (\<lambda>_. lockp > 0x1000) ''Incorrect lock provided'',
     generic_lock_state fn prepost lock ORIGIN_MUTEX MUTEX 1])"

definition mutex_unlock_MJRcheck :: "string \<Rightarrow> int \<Rightarrow> ulong \<Rightarrow> ulong \<Rightarrow> ('a test_state_scheme) check" where
  "mutex_unlock_MJRcheck fn prepost lockp lock = check_routine 0 (block
    [tfassert (\<lambda>_. lockp > 0x1000) ''Incorrect lock provided'',
     generic_lock_state fn prepost lock ORIGIN_MUTEX MUTEX (-1)])"

section \<open>Reader-writer locks\<close>

definition u1_write_lock_irq_MJRcheck :: "string \<Rightarrow> int \<Rightarrow> ulong \<Rightarrow> ulong \<Rightarrow> ('a test_state_scheme) check" where
  "u1_write_lock_irq_MJRcheck fn prepost lockp lock = check_routine 0 (block
    [tfassert (\<lambda>_. lockp > 0x1000) ''Incorrect lock provided'',
     generic_lock_state fn prepost lock ORIGIN_RWLOCK RWLOCK 1])"

definition u1_write_unlock_irq_MJRcheck :: "string \<Rightarrow> int \<Rightarrow> ulong \<Rightarrow> ulong \<Rightarrow> ('a test_state_scheme) check" where
  "u1_write_unlock_irq_MJRcheck fn prepost lockp lock = check_routine 0 (block
    [tfassert (\<lambda>_. lockp > 0x1000) ''Incorrect lock provided'',
     generic_lock_state fn prepost lock ORIGIN_RWLOCK RWLOCK (-1)])"

definition u1_read_lock_irq_MJRcheck :: "string \<Rightarrow> int \<Rightarrow> ulong \<Rightarrow> ulong \<Rightarrow> ('a test_state_scheme) check" where
  "u1_read_lock_irq_MJRcheck fn prepost lockp lock = check_routine 0 (block
    [tfassert (\<lambda>_. lockp > 0x1000) ''Incorrect lock provided'',
     generic_lock_state fn prepost lock ORIGIN_RWLOCK RWLOCK 1])"

definition u1_read_unlock_irq_MJRcheck :: "string \<Rightarrow> int \<Rightarrow> ulong \<Rightarrow> ulong \<Rightarrow> ('a test_state_scheme) check" where
  "u1_read_unlock_irq_MJRcheck fn prepost lockp lock = check_routine 0 (block
    [tfassert (\<lambda>_. lockp > 0x1000) ''Incorrect lock provided'',
     generic_lock_state fn prepost lock ORIGIN_RWLOCK RWLOCK (-1)])"

definition u1_read_lock_MJRcheck :: "string \<Rightarrow> int \<Rightarrow> ulong \<Rightarrow> ulong \<Rightarrow> ('a test_state_scheme) check" where
  "u1_read_lock_MJRcheck fn prepost lockp lock = check_routine 0 (block
    [tfassert (\<lambda>_. lockp > 0x1000) ''Incorrect lock provided'',
     generic_lock_state fn prepost lock ORIGIN_RWLOCK RWLOCK 1])"

definition u1_read_unlock_MJRcheck :: "string \<Rightarrow> int \<Rightarrow> ulong \<Rightarrow> ulong \<Rightarrow> ('a test_state_scheme) check" where
  "u1_read_unlock_MJRcheck fn prepost lockp lock = check_routine 0 (block
    [tfassert (\<lambda>_. lockp > 0x1000) ''Incorrect lock provided'',
     generic_lock_state fn prepost lock ORIGIN_RWLOCK RWLOCK (-1)])"

definition u1_write_lock_irqsave_MJRcheck :: "string \<Rightarrow> int \<Rightarrow> ulong \<Rightarrow> ulong \<Rightarrow> ('a test_state_scheme) check" where
  "u1_write_lock_irqsave_MJRcheck fn prepost lockp lock = check_routine 0 (block
    [tfassert (\<lambda>_. lockp > 0x1000) ''Incorrect lock provided'',
     generic_lock_state fn prepost lock ORIGIN_RWLOCK RWLOCK 1])"

definition u1_write_unlock_irqrestore_MJRcheck :: "string \<Rightarrow> int \<Rightarrow> ulong \<Rightarrow> ulong \<Rightarrow> ('a test_state_scheme) check" where
  "u1_write_unlock_irqrestore_MJRcheck fn prepost lockp lock = check_routine 0 (block
    [tfassert (\<lambda>_. lockp > 0x1000) ''Incorrect lock provided'',
     generic_lock_state fn prepost lock ORIGIN_RWLOCK RWLOCK (-1)])"

definition u1_read_lock_irqsave_MJRcheck :: "string \<Rightarrow> int \<Rightarrow> ulong \<Rightarrow> ulong \<Rightarrow> ('a test_state_scheme) check" where
  "u1_read_lock_irqsave_MJRcheck fn prepost lockp lock = check_routine 0 (block
    [tfassert (\<lambda>_. lockp > 0x1000) ''Incorrect lock provided'',
     generic_lock_state fn prepost lock ORIGIN_RWLOCK RWLOCK 1])"

definition u1_read_unlock_irqrestore_MJRcheck :: "string \<Rightarrow> int \<Rightarrow> ulong \<Rightarrow> ulong \<Rightarrow> ('a test_state_scheme) check" where
  "u1_read_unlock_irqrestore_MJRcheck fn prepost lockp lock = check_routine 0 (block
    [tfassert (\<lambda>_. lockp > 0x1000) ''Incorrect lock provided'',
     generic_lock_state fn prepost lock ORIGIN_RWLOCK RWLOCK (-1)])"

text \<open>Semaphores are not followed.\<close>

definition up_write_MJRcheck :: "int \<Rightarrow> ('a test_state_scheme) check" where
  "up_write_MJRcheck prepost = check_routine 0 skip"

definition up_read_MJRcheck :: "int \<Rightarrow> ('a test_state_scheme) check" where
  "up_read_MJRcheck prepost = check_routine 0 skip"

definition down_write_MJRcheck :: "int \<Rightarrow> ('a test_state_scheme) check" where
  "down_write_MJRcheck prepost = check_routine 0 skip"

definition down_read_MJRcheck :: "int \<Rightarrow> ('a test_state_scheme) check" where
  "down_read_MJRcheck prepost = check_routine 0 skip"

section \<open>The discipline the checks impose\<close>

text \<open>
  What is known of one lock: \<open>None\<close> when it is not tracked, else the kind of lock it is held by, if
  any. A lock that is not sleeping or interrupt-disabling leaves the context as it is.
\<close>

definition lock_types :: "lock_type list" where
  "lock_types = [LOCK_UNDEFINED, SPIN_LOCK, SPIN_LOCK_BH, SPIN_LOCK_IRQSAVE, SPIN_LOCK_IRQ, MUTEX, RWSEM, RWLOCK,
     GENERIC_LOCK]"

definition lock_holder :: "hvalue \<Rightarrow> lock_type option" where
  "lock_holder v = find (\<lambda>t. lock_state v = lock_vector (Some t)) lock_types"

definition lock_status :: "ulong \<Rightarrow> 'a test_state_scheme \<Rightarrow> lock_type option option" where
  "lock_status lock s = map_option lock_holder (tracked s (objs_key lock))"

lemma lock_holder_vector: "lock_state v = lock_vector h \<Longrightarrow> lock_holder v = h"
proof (cases h)
  case None
  moreover assume "lock_state v = lock_vector h"
  ultimately show ?thesis by (auto simp: lock_holder_def find_None_iff dest: lock_vector_inj)
next
  case (Some t)
  moreover assume "lock_state v = lock_vector h"
  moreover have "(\<lambda>u. lock_vector (Some t) = lock_vector (Some u)) = (\<lambda>u. t = u)"
    by (auto dest: lock_vector_inj)
  ultimately show ?thesis by (cases t) (simp_all add: lock_holder_def lock_types_def)
qed

datatype lock_op = Acquire | Release

text \<open>
  The discipline for the calls of one kind of lock: taken only when free, released only when held by
  that kind or by a try-lock.
\<close>

fun lock_step :: "lock_type \<Rightarrow> lock_type option \<times> blocking list \<Rightarrow> lock_op \<Rightarrow> (lock_type option \<times> blocking list) option" where
  "lock_step lt (h, ctx) Acquire =
     (if h = None then Some (Some lt, case lock_context lt of None \<Rightarrow> ctx | Some bc \<Rightarrow> bc # ctx) else None)"
| "lock_step lt (h, ctx) Release =
     (if h = Some lt \<or> h = Some GENERIC_LOCK
      then Some (None, if lock_context (the h) = None then ctx else tl ctx) else None)"

fun lock_run :: "lock_type \<Rightarrow> lock_type option \<times> blocking list \<Rightarrow> lock_op list \<Rightarrow> (lock_type option \<times> blocking list) option" where
  "lock_run lt a [] = Some a"
| "lock_run lt a (p # ps) = (case lock_step lt a p of None \<Rightarrow> None | Some b \<Rightarrow> lock_run lt b ps)"

fun lock_calls_act :: "'s check \<Rightarrow> 's check \<Rightarrow> lock_op \<Rightarrow> 's act" where
  "lock_calls_act acq rel Acquire = ignore_result acq"
| "lock_calls_act acq rel Release = ignore_result rel"

locale lock_calls =
  fixes inv :: "'s \<Rightarrow> bool"
    and status :: "'s \<Rightarrow> lock_type option option"
    and ctx :: "'s \<Rightarrow> blocking list"
    and acq rel :: "'s check"
    and lt :: lock_type
  assumes acquire_effect: "inv s \<Longrightarrow> status s = Some h \<Longrightarrow> acq s = Inr (r, t) \<Longrightarrow>
      inv t \<and> (\<exists>h' c. lock_step lt (h, ctx s) Acquire = Some (h', c) \<and> status t = Some h' \<and> ctx t = c)"
    and release_effect: "inv s \<Longrightarrow> status s = Some h \<Longrightarrow> rel s = Inr (r, t) \<Longrightarrow>
      inv t \<and> (\<exists>h' c. lock_step lt (h, ctx s) Release = Some (h', c) \<and> status t = Some h' \<and> ctx t = c)"
begin

lemma step_refines:
  assumes "inv s" and "status s = Some h" and "lock_calls_act acq rel p s = Inr t"
  shows "inv t \<and> (\<exists>h' c. lock_step lt (h, ctx s) p = Some (h', c) \<and> status t = Some h' \<and> ctx t = c)"
proof (cases p)
  case Acquire
  with assms(3) obtain r where "acq s = Inr (r, t)" by (auto simp: ignore_result_def map_sum_def split: sum.splits)
  from acquire_effect [OF assms(1,2) this] Acquire show ?thesis by simp
next
  case Release
  with assms(3) obtain r where "rel s = Inr (r, t)" by (auto simp: ignore_result_def map_sum_def split: sum.splits)
  from release_effect [OF assms(1,2) this] Release show ?thesis by simp
qed

lemma run_refines:
  "inv s \<Longrightarrow> status s = Some h \<Longrightarrow> block (map (lock_calls_act acq rel) ps) s = Inr t \<Longrightarrow>
   inv t \<and> (\<exists>h' c. lock_run lt (h, ctx s) ps = Some (h', c) \<and> status t = Some h' \<and> ctx t = c)"
proof (induction ps arbitrary: s h)
  case Nil
  then show ?case by simp
next
  case (Cons p ps)
  from Cons.prems(3) obtain u where u: "lock_calls_act acq rel p s = Inr u"
    and r: "block (map (lock_calls_act acq rel) ps) u = Inr t"
    by (auto simp: block_Cons_Inr simp del: block.simps(2))
  from step_refines [OF Cons.prems(1,2) u] obtain h' c where "inv u" "status u = Some h'"
    and c: "lock_step lt (h, ctx s) p = Some (h', c)" "ctx u = c" by blast
  from Cons.IH [OF this(1,2) r] c show ?case by simp
qed

text \<open>So no lock is ever taken twice in a row, nor released twice in a row.\<close>

lemma no_double:
  "inv s \<Longrightarrow> status s = Some h \<Longrightarrow> lt \<noteq> GENERIC_LOCK \<Longrightarrow>
   block (map (lock_calls_act acq rel) [p, p]) s \<noteq> Inr t"
proof
  assume a: "inv s" "status s = Some h" "block (map (lock_calls_act acq rel) [p, p]) s = Inr t"
  from run_refines [OF this] show False by (cases p) (auto split: if_splits option.splits)
qed

end

definition lock_inv :: "'a test_state_scheme \<Rightarrow> bool" where
  "lock_inv s \<longleftrightarrow> tracker_ok s \<and> blocking_ok s"

lemma lock_status_frame [simp]:
  "lock_inv (s\<lparr>global_lock := b, global_lock_acquired := n\<rparr>) = lock_inv s"
  "lock_status lock (s\<lparr>global_lock := b, global_lock_acquired := n\<rparr>) = lock_status lock s"
  "blocking_stack (s\<lparr>global_lock := b, global_lock_acquired := n\<rparr>) = blocking_stack s"
  by (simp_all add: lock_inv_def lock_status_def tracker_ok_def blocking_ok_def tracked_def blocking_stack_def)

lemma acquire_routine:
  assumes inv: "lock_inv s" and st: "lock_status lock s = Some h"
    and run: "check_routine 0 (block [tfassert P m, generic_lock_state fn 1 lock org lt 1]) s = Inr (r, t)"
  shows "lock_inv t \<and> (\<exists>h' c. lock_step lt (h, blocking_stack s) Acquire = Some (h', c) \<and>
    lock_status lock t = Some h' \<and> blocking_stack t = c)"
proof -
  let ?s = "s\<lparr>global_lock := True, global_lock_acquired := 1\<rparr>"
  from run obtain u where u: "generic_lock_state fn 1 lock org lt 1 ?s = Inr u"
    and t: "t = u\<lparr>global_lock := False, global_lock_acquired := 0\<rparr>"
    by (auto simp: check_routine_Inr block_Cons_Inr simp del: block.simps(2))
  have "lock_inv ?s" using inv by simp
  then have ok: "tracker_ok ?s" "blocking_ok ?s" by (simp_all only: lock_inv_def)
  obtain v where v: "tracked ?s (objs_key lock) = Some v" "h = lock_holder v"
    using lock_status_frame(2) [where lock = lock and s = s and b = True and n = 1] st by (auto simp: lock_status_def)
  note e = generic_lock_take_effect [OF ok v(1) u]
  have "h = None" using v(2) lock_holder_vector [OF e(3)] by simp
  moreover have "lock_status lock u = Some (Some lt)" by (simp add: lock_status_def e(4) lock_holder_vector)
  ultimately show ?thesis using e(1,2,5) by (simp add: t lock_inv_def [of u] split: option.split)
qed

lemma release_routine:
  assumes inv: "lock_inv s" and st: "lock_status lock s = Some h"
    and run: "check_routine 0 (block [tfassert P m, generic_lock_state fn 0 lock org lt (-1)]) s = Inr (r, t)"
  shows "lock_inv t \<and> (\<exists>h' c. lock_step lt (h, blocking_stack s) Release = Some (h', c) \<and>
    lock_status lock t = Some h' \<and> blocking_stack t = c)"
proof -
  let ?s = "s\<lparr>global_lock := True, global_lock_acquired := 1\<rparr>"
  from run obtain u where u: "generic_lock_state fn 0 lock org lt (-1) ?s = Inr u"
    and t: "t = u\<lparr>global_lock := False, global_lock_acquired := 0\<rparr>"
    by (auto simp: check_routine_Inr block_Cons_Inr simp del: block.simps(2))
  have "lock_inv ?s" using inv by simp
  then have ok: "tracker_ok ?s" "blocking_ok ?s" by (simp_all only: lock_inv_def)
  obtain v where v: "tracked ?s (objs_key lock) = Some v" "h = lock_holder v"
    using lock_status_frame(2) [where lock = lock and s = s and b = True and n = 1] st by (auto simp: lock_status_def)
  note e = generic_lock_drop_effect [OF ok v(1) u]
  from e(3) obtain g where g: "g = lt \<or> g = GENERIC_LOCK" "lock_state v = lock_vector (Some g)"
    "blocking_stack u = (if lock_context g = None then blocking_stack ?s else tl (blocking_stack ?s))" by blast
  have "h = Some g" using v(2) lock_holder_vector [OF g(2)] by simp
  moreover have "lock_status lock u = Some None" by (simp add: lock_status_def e(4) lock_holder_vector)
  ultimately show ?thesis using e(1,2) g(1,3) by (auto simp: t lock_inv_def [of u])
qed

interpretation spin: lock_calls lock_inv "lock_status lock" blocking_stack
  "u1_raw_spin_lock_MJRcheck fn 1 lockp lock" "u1_raw_spin_unlock_MJRcheck fn 0 lockp lock" SPIN_LOCK for fn lockp lock
  by unfold_locales (unfold u1_raw_spin_lock_MJRcheck_def u1_raw_spin_unlock_MJRcheck_def, erule (2) acquire_routine, erule (2) release_routine)

interpretation spin_bh: lock_calls lock_inv "lock_status lock" blocking_stack
  "u1_raw_spin_lock_bh_MJRcheck fn 1 lockp lock" "u1_raw_spin_unlock_bh_MJRcheck fn 0 lockp lock" SPIN_LOCK_BH for fn lockp lock
  by unfold_locales (unfold u1_raw_spin_lock_bh_MJRcheck_def u1_raw_spin_unlock_bh_MJRcheck_def, erule (2) acquire_routine, erule (2) release_routine)

interpretation spin_irqsave: lock_calls lock_inv "lock_status lock" blocking_stack
  "u1_raw_spin_lock_irqsave_MJRcheck fn 1 lockp lock" "u1_raw_spin_unlock_irqrestore_MJRcheck fn 0 lockp lock" SPIN_LOCK_IRQSAVE for fn lockp lock
  by unfold_locales (unfold u1_raw_spin_lock_irqsave_MJRcheck_def u1_raw_spin_unlock_irqrestore_MJRcheck_def, erule (2) acquire_routine, erule (2) release_routine)

interpretation spin_irq: lock_calls lock_inv "lock_status lock" blocking_stack
  "u1_raw_spin_lock_irq_MJRcheck fn 1 lockp lock" "u1_raw_spin_unlock_irq_MJRcheck fn 0 lockp lock" SPIN_LOCK_IRQ for fn lockp lock
  by unfold_locales (unfold u1_raw_spin_lock_irq_MJRcheck_def u1_raw_spin_unlock_irq_MJRcheck_def, erule (2) acquire_routine, erule (2) release_routine)

interpretation mutex: lock_calls lock_inv "lock_status lock" blocking_stack
  "mutex_lock_nested_MJRcheck fn 1 lockp lock" "mutex_unlock_MJRcheck fn 0 lockp lock" MUTEX for fn lockp lock
  by unfold_locales (unfold mutex_lock_nested_MJRcheck_def mutex_unlock_MJRcheck_def, erule (2) acquire_routine, erule (2) release_routine)

interpretation read_lock: lock_calls lock_inv "lock_status lock" blocking_stack
  "u1_read_lock_MJRcheck fn 1 lockp lock" "u1_read_unlock_MJRcheck fn 0 lockp lock" RWLOCK for fn lockp lock
  by unfold_locales (unfold u1_read_lock_MJRcheck_def u1_read_unlock_MJRcheck_def, erule (2) acquire_routine, erule (2) release_routine)

interpretation write_lock: lock_calls lock_inv "lock_status lock" blocking_stack
  "u1_write_lock_irqsave_MJRcheck fn 1 lockp lock" "u1_write_unlock_irqrestore_MJRcheck fn 0 lockp lock" RWLOCK for fn lockp lock
  by unfold_locales (unfold u1_write_lock_irqsave_MJRcheck_def u1_write_unlock_irqrestore_MJRcheck_def, erule (2) acquire_routine, erule (2) release_routine)

end
