(* ===== verification/Checks_Bus.thy ===== *)
theory Checks_Bus
  imports Check_Routines Testing_Ep
begin

text \<open>
  The checks of the bus interfaces: \<open>pci.c\<close>, \<open>pci_config_space.c\<close>, \<open>platform.c\<close>, \<open>spi.c\<close>, \<open>i2c.c\<close>,
  \<open>class.c\<close>, \<open>driver_core.c\<close>, \<open>mii.c\<close> and \<open>gpio.c\<close> under \<open>misc_checks/\<close>. Where a routine makes a
  value of the driver symbolic, \<open>symv\<close> is the value it takes.
\<close>

section \<open>PCI devices and drivers\<close>

definition pci_enable_device_MJRcheck :: "int \<Rightarrow> int \<Rightarrow> ('a test_state_scheme) check" where
  "pci_enable_device_MJRcheck prepost retval = check_routine 0 (on_prepost prepost
     (tfassert (\<lambda>s. enabled (pci_driver_state s) = DEVICE_STATE_DISABLED \<or>
        enabled (pci_driver_state s) = DEVICE_STATE_UNDEFINED) ''enabled == DEVICE_STATE_DISABLED'')
     (if retval = 0 then set_device_state (dot pci_r enabled_f) DEVICE_STATE_ENABLED
      else set_device_state (dot pci_r enabled_f) DEVICE_STATE_DISABLED))"

definition pci_enable_device_mem_MJRcheck :: "int \<Rightarrow> int \<Rightarrow> ('a test_state_scheme) check" where
  "pci_enable_device_mem_MJRcheck prepost retval =
     returning 0 (ignore_result (pci_enable_device_MJRcheck prepost retval))"

definition pci_disable_device_MJRcheck :: "int \<Rightarrow> ('a test_state_scheme) check" where
  "pci_disable_device_MJRcheck prepost = check_routine 0 (on_prepost prepost
     (block
      [tfassert (\<lambda>s. enabled (pci_driver_state s) = DEVICE_STATE_ENABLED) ''enabled == DEVICE_STATE_ENABLED'',
       tfassert (\<lambda>s. register_netdev (ndo_driver_state s) = NOT_CALLED \<or>
         register_netdev (ndo_driver_state s) = CALLED_FAILED) ''register_netdev == NOT_CALLED'',
       tfassert (\<lambda>s. unregister_netdev (ndo_driver_state s) = NOT_CALLED \<or>
         unregister_netdev (ndo_driver_state s) = CALLED_FAILED) ''unregister_netdev == NOT_CALLED''])
     (set_device_state (dot pci_r enabled_f) DEVICE_STATE_DISABLED))"

definition u2_pci_register_driver_MJRcheck :: "int \<Rightarrow> int \<Rightarrow> ulong \<Rightarrow> ('a ep_state_scheme) check" where
  "u2_pci_register_driver_MJRcheck prepost retval arg0 = check_routine 0 (on_prepost prepost
     (block
      [tfassert (\<lambda>s. registered (pci_driver_state s) = NOT_CALLED) ''registered == NOT_CALLED'',
       set_call_state (dot pci_r registered_f) IN_PROGRESS,
       set_driver_bus DRIVER_PCI])
     (if retval = 0 then block
       [ep_init_pci_driver arg0,
        set_call_state (dot pci_r registered_f) CALLED_OK]
      else set_call_state (dot pci_r registered_f) CALLED_FAILED))"

definition pci_unregister_driver_MJRcheck :: "int \<Rightarrow> ('a test_state_scheme) check" where
  "pci_unregister_driver_MJRcheck prepost = check_routine 0 (on_prepost prepost
     (block
      [tfassert (\<lambda>s. registered (pci_driver_state s) = CALLED_OK) ''registered == CALLED_OK'',
       set_call_state (dot pci_r unregistered_f) IN_PROGRESS])
     (block
      [set_call_state (dot pci_r registered_f) NOT_CALLED,
       set_call_state (dot pci_r unregistered_f) NOT_CALLED,
       remove_driver_bus DRIVER_PCI]))"

text \<open>\<open>resource_len\<close> is \<open>pci_resource_len\<close> of the device and the region the routine is called with.\<close>

definition pci_iomap_MJRcheck :: "int \<Rightarrow> ulong \<Rightarrow> ulong \<Rightarrow> ('a test_state_scheme) check" where
  "pci_iomap_MJRcheck prepost retval resource_len = check_routine 0
    (if prepost = 1 then (if retval \<noteq> 0 then s2e (S2E_port_map retval resource_len) else skip) else skip)"

definition pci_iounmap_MJRcheck :: "int \<Rightarrow> ulong \<Rightarrow> ('a test_state_scheme) check" where
  "pci_iounmap_MJRcheck prepost addr = check_routine 0
    (if prepost = 0 then (if addr \<noteq> 0 then s2e (S2E_port_unmap addr) else skip) else skip)"

definition pci_ioremap_bar_MJRcheck :: "string \<Rightarrow> int \<Rightarrow> ulong \<Rightarrow> ulong \<Rightarrow> ('a test_state_scheme) check" where
  "pci_ioremap_bar_MJRcheck fn prepost retval resource_len = check_routine 0
    (if prepost = 1 then block
      [generic_allocator fn prepost retval (-1) ORIGIN_IOREMAP,
       if retval \<noteq> 0 then s2e (S2E_io_map retval resource_len) else skip]
     else skip)"

definition pci_map_single_MJRcheck :: "string \<Rightarrow> int \<Rightarrow> ulong \<Rightarrow> ulong \<Rightarrow> ('a test_state_scheme) check" where
  "pci_map_single_MJRcheck fn prepost retval sz = check_routine 0
    (if prepost = 1 then generic_allocator fn prepost retval sz ORIGIN_PCI_MAP_SINGLE else skip)"

definition pci_unmap_single_MJRcheck :: "int \<Rightarrow> ulong \<Rightarrow> ('a test_state_scheme) check" where
  "pci_unmap_single_MJRcheck prepost dma_addr = check_routine 0
    (cond (DISABLED [''DL2K'', ''ET131X'', ''BE2NET'']) skip
      (if prepost = 0 then generic_free prepost dma_addr ORIGIN_PCI_MAP_SINGLE else skip))"

definition pci_map_page_MJRcheck :: "string \<Rightarrow> int \<Rightarrow> ulong \<Rightarrow> ulong \<Rightarrow> ('a test_state_scheme) check" where
  "pci_map_page_MJRcheck fn prepost retval sz = check_routine 0
    (if prepost = 1 then generic_allocator fn prepost retval sz ORIGIN_PCI_MAP_PAGE else skip)"

definition pci_unmap_page_MJRcheck :: "int \<Rightarrow> ulong \<Rightarrow> ('a test_state_scheme) check" where
  "pci_unmap_page_MJRcheck prepost dma_addr = check_routine 0
    (cond (DISABLED [''BE2NET'']) skip
      (if prepost = 0 then generic_free prepost dma_addr ORIGIN_PCI_MAP_PAGE else skip))"

section \<open>PCI configuration space\<close>

text \<open>Reads give symbolic values at \<open>val\<close>; writes are left out, with the result 0.\<close>

definition config_read :: "string \<Rightarrow> ulong \<Rightarrow> int \<Rightarrow> ulong \<Rightarrow> ('a test_state_scheme) check" where
  "config_read func n prepost val = check_routine 0 (on_prepost prepost skip (s2e (S2E_make_symbolic val n func)))"

definition pci_bus_read_config_byte_MJRcheck :: "int \<Rightarrow> ulong \<Rightarrow> ('a test_state_scheme) check" where
  "pci_bus_read_config_byte_MJRcheck = config_read ''pci_bus_read_config_byte_MJRcheck'' 1"

definition pci_bus_read_config_word_MJRcheck :: "int \<Rightarrow> ulong \<Rightarrow> ('a test_state_scheme) check" where
  "pci_bus_read_config_word_MJRcheck = config_read ''pci_bus_read_config_word_MJRcheck'' 2"

definition pci_bus_read_config_dword_MJRcheck :: "int \<Rightarrow> ulong \<Rightarrow> ('a test_state_scheme) check" where
  "pci_bus_read_config_dword_MJRcheck = config_read ''pci_bus_read_config_dword_MJRcheck'' 4"

definition config_write :: "int \<Rightarrow> int \<Rightarrow> (int \<times> int, 'a test_state_scheme) prog" where
  "config_write prepost retval = with_out (\<lambda>_. if prepost = 0 then 0 else retval)
    (check_routine 1 (on_prepost prepost skip skip))"

definition pci_bus_write_config_byte_MJRcheck :: "int \<Rightarrow> int \<Rightarrow> (int \<times> int, 'a test_state_scheme) prog" where
  "pci_bus_write_config_byte_MJRcheck = config_write"

definition pci_bus_write_config_word_MJRcheck :: "int \<Rightarrow> int \<Rightarrow> (int \<times> int, 'a test_state_scheme) prog" where
  "pci_bus_write_config_word_MJRcheck = config_write"

definition pci_bus_write_config_dword_MJRcheck :: "int \<Rightarrow> int \<Rightarrow> (int \<times> int, 'a test_state_scheme) prog" where
  "pci_bus_write_config_dword_MJRcheck = config_write"

definition pci_find_capability_MJRcheck :: "int \<Rightarrow> ('a test_state_scheme) check" where
  "pci_find_capability_MJRcheck prepost = check_routine 0 (on_prepost prepost skip skip)"

section \<open>Platform, SPI and I2C drivers\<close>

definition platform_driver_register_MJRcheck :: "int \<Rightarrow> int \<Rightarrow> ('a test_state_scheme) check" where
  "platform_driver_register_MJRcheck prepost retval = check_routine 0 (on_prepost prepost
     (set_call_state (dot platform_r registered_f) IN_PROGRESS)
     (if retval = 0 then block
       [set_call_state (dot platform_r registered_f) CALLED_OK,
        set_driver_bus DRIVER_PLATFORM]
      else set_call_state (dot platform_r registered_f) CALLED_FAILED))"

definition platform_driver_unregister_MJRcheck :: "int \<Rightarrow> ('a test_state_scheme) check" where
  "platform_driver_unregister_MJRcheck prepost = check_routine 0 (on_prepost prepost
     skip
     (remove_driver_bus DRIVER_PLATFORM))"

definition spi_register_driver_MJRcheck :: "int \<Rightarrow> int \<Rightarrow> ('a test_state_scheme) check" where
  "spi_register_driver_MJRcheck prepost retval = check_routine 0 (on_prepost prepost
     (set_call_state (dot spi_r registered_f) IN_PROGRESS)
     (if retval = 0 then block
       [set_call_state (dot spi_r registered_f) CALLED_OK,
        set_driver_bus DRIVER_SPI]
      else set_call_state (dot spi_r registered_f) CALLED_FAILED))"

definition spi_unregister_driver_MJRcheck :: "int \<Rightarrow> ('a test_state_scheme) check" where
  "spi_unregister_driver_MJRcheck prepost = check_routine 0 (on_prepost prepost
     skip
     (remove_driver_bus DRIVER_SPI))"

definition i2c_add_driver_MJRcheck :: "int \<Rightarrow> int \<Rightarrow> ulong \<Rightarrow> ('a ep_state_scheme) check" where
  "i2c_add_driver_MJRcheck prepost retval driver = check_routine 0 (on_prepost prepost
     (set_call_state (dot i2c_r registered_f) IN_PROGRESS)
     (if retval = 0 then block
       [set_call_state (dot i2c_r registered_f) CALLED_OK,
        set_driver_bus DRIVER_I2C,
        ep_init_i2c_driver driver]
      else set_call_state (dot i2c_r registered_f) CALLED_FAILED))"

definition i2c_del_driver_MJRcheck :: "int \<Rightarrow> ('a test_state_scheme) check" where
  "i2c_del_driver_MJRcheck prepost = check_routine 0 (on_prepost prepost
     skip
     (remove_driver_bus DRIVER_I2C))"

section \<open>Classes and device files\<close>

definition u2_class_create_MJRcheck :: "string \<Rightarrow> int \<Rightarrow> ulong \<Rightarrow> ('a test_state_scheme) check" where
  "u2_class_create_MJRcheck fn prepost retval = check_routine 0 (on_prepost prepost
     skip
     (onlyif (\<lambda>s. \<not> IS_ERR_VALUE s retval) (generic_allocator fn prepost retval (-1) ORIGIN_CLASS_CREATE)))"

definition class_destroy_MJRcheck :: "int \<Rightarrow> ulong \<Rightarrow> ('a test_state_scheme) check" where
  "class_destroy_MJRcheck prepost cls = check_routine 0 (on_prepost prepost
     (generic_free prepost cls ORIGIN_CLASS_CREATE)
     skip)"

definition device_create_file_MJRcheck :: "string \<Rightarrow> int \<Rightarrow> int \<Rightarrow> ulong \<Rightarrow> ('a test_state_scheme) check" where
  "device_create_file_MJRcheck fn prepost retval attr = check_routine 0 (on_prepost prepost
     skip
     (onlyif (\<lambda>s. \<not> IS_ERR_VALUE s (of_int retval)) (generic_allocator fn prepost attr (-1) ORIGIN_DEVICEFILE_CREATE)))"

definition device_remove_file_MJRcheck :: "int \<Rightarrow> ulong \<Rightarrow> ('a test_state_scheme) check" where
  "device_remove_file_MJRcheck prepost attr = check_routine 0 (on_prepost prepost
     (generic_free prepost attr ORIGIN_DEVICEFILE_CREATE)
     skip)"

section \<open>Media independent interface\<close>

definition generic_mii_ioctl_MJRcheck :: "int \<Rightarrow> ('a test_state_scheme) check" where
  "generic_mii_ioctl_MJRcheck prepost = check_routine 0 (on_prepost prepost
     (set_call_state (dot ndo_r ndo_capable_f) IN_PROGRESS)
     (set_call_state (dot ndo_r ndo_capable_f) CALLED_OK))"

text \<open>
  \<open>mii\<close> is the network device of the interface, \<open>None\<close> for a \<open>NULL\<close> interface; the kernel function
  \<open>netif_carrier_on\<close> is a parameter.
\<close>

definition mii_check_link_MJRcheck ::
  "(ulong \<Rightarrow> ('a test_state_scheme) act) \<Rightarrow> int \<Rightarrow> ulong option \<Rightarrow> ('a test_state_scheme) check" where
  "mii_check_link_MJRcheck netif_carrier_on prepost mii = check_routine 0
    (if prepost = 1 then onlyif (\<lambda>s. g_sym_kill_carrier_off s \<noteq> 0) (deref mii netif_carrier_on) else skip)"

definition mii_check_media_MJRcheck ::
  "(ulong \<Rightarrow> ('a test_state_scheme) act) \<Rightarrow> int \<Rightarrow> ulong option \<Rightarrow> ('a test_state_scheme) check" where
  "mii_check_media_MJRcheck netif_carrier_on prepost mii = check_routine 0
    (if prepost = 1 then onlyif (\<lambda>s. g_sym_kill_carrier_off s \<noteq> 0) (deref mii netif_carrier_on) else skip)"

definition mii_link_ok_MJRcheck :: "int \<Rightarrow> int \<Rightarrow> (int \<times> int, 'a test_state_scheme) prog" where
  "mii_link_ok_MJRcheck prepost retval =
     with_out (\<lambda>s. if prepost = 1 \<and> g_sym_kill_carrier_off s \<noteq> 0 then 1 else retval) (check_routine 0 skip)"

section \<open>GPIO\<close>

text \<open>
  The kernel's functions are never run (the result is 1); the driver gets symbolic values, cut down to
  the values the kernel may return.
\<close>

definition gpio_before :: "('a test_state_scheme) act \<Rightarrow> int \<Rightarrow> ('a test_state_scheme) check" where
  "gpio_before body prepost = check_routine 1 (if prepost = 0 then body else tf_fail ''0'')"

definition gpio_symbolic :: "string \<Rightarrow> string \<Rightarrow> (int \<Rightarrow> 'a test_state_scheme \<Rightarrow> int) \<Rightarrow> int \<Rightarrow> int \<Rightarrow> int \<Rightarrow>
    (int \<times> int, 'a test_state_scheme) prog" where
  "gpio_symbolic type func narrow symv prepost retval =
     with_out (\<lambda>s. if prepost = 0 then narrow symv s else retval)
      (gpio_before (s2e (S2E_make_symbolic_local type func)) prepost)"

text \<open>An error other than \<open>-ENXIO\<close> and \<open>-ENODEV\<close> stays, anything else becomes 0.\<close>

definition error_or_zero :: "int \<Rightarrow> 'a kernel_env_scheme \<Rightarrow> int" where
  "error_or_zero v s = (if IS_ERR_VALUE s (of_int v) \<and> v \<noteq> - ENXIO s \<and> v \<noteq> - ENODEV s then v else 0)"

definition gpio_is_valid_MJRcheck :: "int \<Rightarrow> int \<Rightarrow> int \<Rightarrow> (int \<times> int, 'a test_state_scheme) prog" where
  "gpio_is_valid_MJRcheck = gpio_symbolic ''bool'' ''gpio_is_valid_MJRcheck'' (\<lambda>v _. v)"

definition gpio_request_MJRcheck :: "int \<Rightarrow> int \<Rightarrow> int \<Rightarrow> (int \<times> int, 'a test_state_scheme) prog" where
  "gpio_request_MJRcheck = gpio_symbolic ''int'' ''gpio_request_MJRcheck'' error_or_zero"

definition gpio_request_one_MJRcheck :: "int \<Rightarrow> int \<Rightarrow> int \<Rightarrow> (int \<times> int, 'a test_state_scheme) prog" where
  "gpio_request_one_MJRcheck = gpio_symbolic ''int'' ''gpio_request_one_MJRcheck'' error_or_zero"

definition gpio_request_array_MJRcheck :: "int \<Rightarrow> int \<Rightarrow> int \<Rightarrow> (int \<times> int, 'a test_state_scheme) prog" where
  "gpio_request_array_MJRcheck = gpio_symbolic ''int'' ''gpio_request_array_MJRcheck'' error_or_zero"

definition gpio_free_MJRcheck :: "int \<Rightarrow> ('a test_state_scheme) check" where
  "gpio_free_MJRcheck prepost = check_routine 1 skip"

definition gpio_free_array_MJRcheck :: "int \<Rightarrow> ('a test_state_scheme) check" where
  "gpio_free_array_MJRcheck prepost = check_routine 1 skip"

definition gpio_direction_input_MJRcheck :: "int \<Rightarrow> int \<Rightarrow> int \<Rightarrow> (int \<times> int, 'a test_state_scheme) prog" where
  "gpio_direction_input_MJRcheck = gpio_symbolic ''int'' ''gpio_direction_input_MJRcheck'' error_or_zero"

definition gpio_direction_output_MJRcheck :: "int \<Rightarrow> int \<Rightarrow> int \<Rightarrow> (int \<times> int, 'a test_state_scheme) prog" where
  "gpio_direction_output_MJRcheck = gpio_symbolic ''int'' ''gpio_direction_output_MJRcheck'' error_or_zero"

definition gpio_set_debounce_MJRcheck :: "int \<Rightarrow> int \<Rightarrow> int \<Rightarrow> (int \<times> int, 'a test_state_scheme) prog" where
  "gpio_set_debounce_MJRcheck = gpio_symbolic ''int'' ''gpio_set_debounce_MJRcheck'' error_or_zero"

definition gpio_get_value_wrapper :: "int \<Rightarrow> int \<Rightarrow> int \<Rightarrow> (int \<times> int, 'a test_state_scheme) prog" where
  "gpio_get_value_wrapper = gpio_symbolic ''int'' ''gpio_get_value_wrapper'' (\<lambda>v _. v)"

definition gpio_get_value_MJRcheck :: "int \<Rightarrow> int \<Rightarrow> int \<Rightarrow> (int \<times> int, 'a test_state_scheme) prog" where
  "gpio_get_value_MJRcheck = gpio_get_value_wrapper"

definition u2_gpio_get_value_MJRcheck :: "int \<Rightarrow> int \<Rightarrow> int \<Rightarrow> (int \<times> int, 'a test_state_scheme) prog" where
  "u2_gpio_get_value_MJRcheck = gpio_get_value_wrapper"

definition gpio_set_value_MJRcheck :: "int \<Rightarrow> ('a test_state_scheme) check" where
  "gpio_set_value_MJRcheck prepost = check_routine 1 skip"

definition u2_gpio_set_value_MJRcheck :: "int \<Rightarrow> ('a test_state_scheme) check" where
  "u2_gpio_set_value_MJRcheck prepost = check_routine 1 skip"

definition gpio_cansleep_MJRcheck :: "int \<Rightarrow> int \<Rightarrow> int \<Rightarrow> (int \<times> int, 'a test_state_scheme) prog" where
  "gpio_cansleep_MJRcheck = gpio_symbolic ''int'' ''gpio_cansleep_MJRcheck'' (\<lambda>v _. if v = 0 then v else 1)"

definition gpio_get_value_cansleep_MJRcheck :: "int \<Rightarrow> int \<Rightarrow> int \<Rightarrow> (int \<times> int, 'a test_state_scheme) prog" where
  "gpio_get_value_cansleep_MJRcheck = gpio_symbolic ''int'' ''gpio_get_value_cansleep_MJRcheck'' (\<lambda>v _. v)"

definition gpio_set_value_cansleep_MJRcheck :: "int \<Rightarrow> ('a test_state_scheme) check" where
  "gpio_set_value_cansleep_MJRcheck prepost = check_routine 1 skip"

definition gpio_export_MJRcheck :: "int \<Rightarrow> int \<Rightarrow> int \<Rightarrow> (int \<times> int, 'a test_state_scheme) prog" where
  "gpio_export_MJRcheck = gpio_symbolic ''int'' ''gpio_export_MJRcheck'' (\<lambda>v _. v)"

definition gpio_export_link_MJRcheck :: "int \<Rightarrow> int \<Rightarrow> int \<Rightarrow> (int \<times> int, 'a test_state_scheme) prog" where
  "gpio_export_link_MJRcheck = gpio_symbolic ''int'' ''gpio_export_link_MJRcheck'' (\<lambda>v _. v)"

definition gpio_sysfs_set_active_low_MJRcheck :: "int \<Rightarrow> int \<Rightarrow> int \<Rightarrow> (int \<times> int, 'a test_state_scheme) prog" where
  "gpio_sysfs_set_active_low_MJRcheck = gpio_symbolic ''int'' ''gpio_sysfs_set_active_low_MJRcheck'' (\<lambda>v _. v)"

definition gpio_unexport_MJRcheck :: "int \<Rightarrow> ('a test_state_scheme) check" where
  "gpio_unexport_MJRcheck prepost = check_routine 1 skip"

definition gpio_to_irq_MJRcheck :: "int \<Rightarrow> int \<Rightarrow> (int \<times> int, 'a test_state_scheme) prog" where
  "gpio_to_irq_MJRcheck prepost retval =
     with_out (\<lambda>s. if prepost = 0 then - ENXIO s else retval) (gpio_before skip prepost)"

definition irq_to_gpio_MJRcheck :: "int \<Rightarrow> int \<Rightarrow> (int \<times> int, 'a test_state_scheme) prog" where
  "irq_to_gpio_MJRcheck prepost retval =
     with_out (\<lambda>s. if prepost = 0 then - EINVAL s else retval) (gpio_before skip prepost)"

end
