(* ===== verification/Checks_Main.thy ===== *)
theory Checks_Main
  imports Check_Routines Testing_Ep
begin

text \<open>
  The checks of \<open>misc_checks/main.c\<close> that are not about memory or locks: module set-up, registration
  of network, USB, miscellaneous and protocol drivers, timers, and the functions that report to the
  hypervisor.
\<close>

section \<open>The module\<close>

definition default_MJRcheck :: "int \<Rightarrow> ('a test_state_scheme) check" where
  "default_MJRcheck prepost = returning 0 skip"

definition some_registered :: "'a test_state_scheme \<Rightarrow> bool" where
  "some_registered s \<longleftrightarrow> registered (pci_driver_state s) = CALLED_OK \<or> registered (usb_driver_state s) = CALLED_OK \<or>
     registered (misc_driver_state s) = CALLED_OK \<or> registered (proto_ops_state s) = CALLED_OK \<or>
     registered (i2c_driver_state s) = CALLED_OK \<or> registered (platform_driver_state s) = CALLED_OK \<or>
     registered (spi_driver_state s) = CALLED_OK"

definition init_module_MJRcheck :: "int \<Rightarrow> int \<Rightarrow> ('a test_state_scheme) check" where
  "init_module_MJRcheck prepost retval = check_routine 0 (on_prepost prepost
     (block [push_blocking_state BLOCKING_YES, push_user_state USER_YES])
     (block
      [pop_blocking_state,
       pop_user_state,
       cond (DISABLED [''DOR'']) skip
        (if retval = 0 then tfassert some_registered ''registered == CALLED_OK''
         else tfassert (\<lambda>s. \<not> some_registered s) ''registered != CALLED_OK'')]))"

definition cleanup_module_MJRcheck :: "int \<Rightarrow> ('a test_state_scheme) check" where
  "cleanup_module_MJRcheck prepost = check_routine 0 (on_prepost prepost
     (block [push_blocking_state BLOCKING_YES, push_user_state USER_NO])
     (block [pop_blocking_state, pop_user_state]))"

section \<open>Network devices\<close>

definition u2_napi_schedule_MJRcheck :: "int \<Rightarrow> ('a test_state_scheme) check" where
  "u2_napi_schedule_MJRcheck prepost = check_routine 0 (on_prepost prepost
     (set_call_state (dot ndo_r u2_napi_schedule_f) IN_PROGRESS)
     (set_call_state (dot ndo_r u2_napi_schedule_f) CALLED_OK))"

definition netif_rx_MJRcheck :: "int \<Rightarrow> ('a test_state_scheme) check" where
  "netif_rx_MJRcheck prepost = check_routine 0 (on_prepost prepost
     (set_call_state (dot ndo_r netif_rx_f) IN_PROGRESS)
     (set_call_state (dot ndo_r netif_rx_f) CALLED_OK))"

definition register_netdev_MJRcheck :: "int \<Rightarrow> int \<Rightarrow> ulong \<Rightarrow> ('a ep_state_scheme) check" where
  "register_netdev_MJRcheck prepost retval dev = check_routine 0 (on_prepost prepost
     (block
      [set_call_state (dot ndo_r register_netdev_f) IN_PROGRESS,
       set_driver_class DRIVER_NET,
       onlyif (DISABLED [''FORCEDETH'', ''E100'']) (s2e (S2E_concretize_kill 0))])
     (if retval = 0 then block
       [ep_init_net dev,
        set_call_state (dot ndo_r register_netdev_f) CALLED_OK]
      else set_call_state (dot ndo_r register_netdev_f) CALLED_FAILED))"

definition unregister_netdev_MJRcheck :: "int \<Rightarrow> ('a test_state_scheme) check" where
  "unregister_netdev_MJRcheck prepost = check_routine 0 (on_prepost prepost
     (block
      [reading get_driver_bus (\<lambda>bus.
         if bus AND DRIVER_PCI \<noteq> 0
         then tfassert (\<lambda>s. enabled (pci_driver_state s) = DEVICE_STATE_ENABLED) ''enabled == DEVICE_STATE_ENABLED''
         else skip),
       tfassert (\<lambda>s. register_netdev (ndo_driver_state s) = CALLED_OK) ''register_netdev == CALLED_OK'',
       tfassert (\<lambda>s. unregister_netdev (ndo_driver_state s) = NOT_CALLED) ''unregister_netdev == NOT_CALLED'',
       set_call_state (dot ndo_r unregister_netdev_f) IN_PROGRESS])
     (block
      [set_call_state (dot ndo_r register_netdev_f) NOT_CALLED,
       set_call_state (dot ndo_r unregister_netdev_f) NOT_CALLED]))"

text \<open>
  \<open>STATIC int called_before = 0\<close>: \<open>mega_header.h\<close> defines \<open>STATIC\<close> as nothing, so the variable is
  local to the call and starts at 0 every time.
\<close>

definition netif_carrier_off_MJRcheck :: "int \<Rightarrow> ('a test_state_scheme) check" where
  "netif_carrier_off_MJRcheck prepost = check_routine 0 (on_prepost prepost
     (block
      [cond (DISABLED [''BE2NET'', ''E1000'', ''ET131X'', ''ORINOCO'']) skip
        (tfassert (\<lambda>s. register_netdev (ndo_driver_state s) = CALLED_OK) ''register_netdev == CALLED_OK''),
       onlyif (\<lambda>s. g_sym_kill_carrier_off s \<noteq> 0)
        (let called_before = (0 :: int) in
         if called_before = 0 then skip
         else tfassert_no_detail (\<lambda>_. False) ''Terminating netif_carrier_off path...'')])
     skip)"

definition netif_stop_queue_MJRcheck :: "int \<Rightarrow> ('a test_state_scheme) check" where
  "netif_stop_queue_MJRcheck prepost = check_routine 0 (on_prepost prepost
     (cond (DISABLED [''BE2NET'', ''E1000'']) skip
       (tfassert (\<lambda>s. register_netdev (ndo_driver_state s) = CALLED_OK) ''register_netdev == CALLED_OK''))
     skip)"

definition netif_napi_add_poll_MJRcheck :: "int \<Rightarrow> ('a test_state_scheme) check" where
  "netif_napi_add_poll_MJRcheck prepost = check_routine 0 (on_prepost prepost
     (push_blocking_state BLOCKING_NO)
     pop_blocking_state)"

definition napi_struct_poll_MJRcheck :: "int \<Rightarrow> ('a test_state_scheme) check" where
  "napi_struct_poll_MJRcheck prepost = netif_napi_add_poll_MJRcheck prepost"

section \<open>Timers\<close>

text \<open>The second result is the time the kernel function is called with.\<close>

definition schedule_delayed_work_MJRcheck :: "int \<Rightarrow> ulong \<Rightarrow> (int \<times> ulong, 'a test_state_scheme) prog" where
  "schedule_delayed_work_MJRcheck prepost delay = with_out (slow_before prepost delay) (check_routine 0 skip)"

definition queue_delayed_work_MJRcheck :: "int \<Rightarrow> ulong \<Rightarrow> (int \<times> ulong, 'a test_state_scheme) prog" where
  "queue_delayed_work_MJRcheck prepost delay = with_out (slow_before prepost delay) (check_routine 0 skip)"

definition schedule_timeout_MJRcheck :: "int \<Rightarrow> ulong \<Rightarrow> (int \<times> ulong, 'a test_state_scheme) prog" where
  "schedule_timeout_MJRcheck prepost timeout = with_out (slow_before prepost timeout) (check_routine 0 skip)"

definition schedule_timeout_uninterruptible_MJRcheck ::
  "int \<Rightarrow> ulong \<Rightarrow> (int \<times> ulong, 'a test_state_scheme) prog" where
  "schedule_timeout_uninterruptible_MJRcheck prepost timeout = with_out (slow_before prepost timeout)
    (check_routine 0 (on_prepost prepost
      (s2e S2E_enable_all_apic_interrupts)
      (s2e S2E_disable_all_apic_interrupts)))"

definition mod_timer_MJRcheck :: "int \<Rightarrow> ulong \<Rightarrow> (int \<times> ulong, 'a test_state_scheme) prog" where
  "mod_timer_MJRcheck prepost expires = with_out
    (\<lambda>s. if prepost = 0 then expires + of_int (g_sym_slow_timers s - 1) * HZ s else expires)
    (check_routine 0 skip)"

text \<open>The argument is the field \<open>expires\<close> of the timer, \<open>None\<close> when the timer is \<open>NULL\<close>.\<close>

definition add_timer_MJRcheck :: "int \<Rightarrow> ulong option \<Rightarrow> (int \<times> ulong option, 'a test_state_scheme) prog" where
  "add_timer_MJRcheck prepost timer = with_out (\<lambda>s. map_option (\<lambda>e. slow_before prepost e s) timer)
    (check_routine 0 (on_prepost prepost (deref timer (\<lambda>_. skip)) skip))"

section \<open>Registration of drivers\<close>

definition usb_deregister_MJRcheck :: "int \<Rightarrow> ('a test_state_scheme) check" where
  "usb_deregister_MJRcheck prepost = check_routine 0 (on_prepost prepost
     (block
      [reading get_driver_bus (\<lambda>bus. tfassert (\<lambda>_. bus AND DRIVER_USB \<noteq> 0) ''get_driver_bus & DRIVER_USB''),
       tfassert (\<lambda>s. registered (usb_driver_state s) = CALLED_OK) ''registered == CALLED_OK'',
       set_call_state (dot usb_r registered_f) IN_PROGRESS])
     (block
      [set_call_state (dot usb_r registered_f) NOT_CALLED,
       remove_driver_bus DRIVER_USB]))"

definition usb_register_driver_MJRcheck :: "int \<Rightarrow> int \<Rightarrow> ('a test_state_scheme) check" where
  "usb_register_driver_MJRcheck prepost retval = check_routine 0 (on_prepost prepost
     (block
      [tfassert (\<lambda>s. registered (usb_driver_state s) = NOT_CALLED) ''registered == NOT_CALLED'',
       set_call_state (dot usb_r registered_f) IN_PROGRESS,
       set_driver_bus DRIVER_USB])
     (if retval = 0 then set_call_state (dot usb_r registered_f) CALLED_OK
      else set_call_state (dot usb_r registered_f) CALLED_FAILED))"

definition misc_register_MJRcheck :: "int \<Rightarrow> int \<Rightarrow> ('a test_state_scheme) check" where
  "misc_register_MJRcheck prepost retval = check_routine 0 (cond (DISABLED [''ANDROID_AKM8975'']) skip
    (on_prepost prepost
     (block
      [tfassert (\<lambda>s. registered (misc_driver_state s) = NOT_CALLED) ''registered == NOT_CALLED'',
       set_call_state (dot misc_r registered_f) IN_PROGRESS,
       set_driver_bus DRIVER_MISC])
     (if retval = 0 then set_call_state (dot misc_r registered_f) CALLED_OK
      else set_call_state (dot misc_r registered_f) CALLED_FAILED)))"

definition misc_deregister_MJRcheck :: "int \<Rightarrow> int \<Rightarrow> ('a test_state_scheme) check" where
  "misc_deregister_MJRcheck prepost retval = check_routine 0 (cond (DISABLED [''ANDROID_AKM8975'']) skip
    (on_prepost prepost
     (block
      [reading get_driver_bus (\<lambda>bus. tfassert (\<lambda>_. bus AND DRIVER_MISC \<noteq> 0) ''get_driver_bus & DRIVER_MISC''),
       tfassert (\<lambda>s. registered (misc_driver_state s) = CALLED_OK) ''registered == CALLED_OK'',
       set_call_state (dot misc_r registered_f) IN_PROGRESS])
     (if retval = 0 then block
       [set_call_state (dot misc_r registered_f) NOT_CALLED,
        remove_driver_bus DRIVER_MISC]
      else skip)))"

definition proto_register_MJRcheck :: "int \<Rightarrow> int \<Rightarrow> ('a test_state_scheme) check" where
  "proto_register_MJRcheck prepost retval = check_routine 0 (on_prepost prepost
     (block
      [tfassert (\<lambda>s. registered (proto_ops_state s) = NOT_CALLED) ''registered == NOT_CALLED'',
       set_call_state (dot proto_r registered_f) IN_PROGRESS,
       set_driver_bus DRIVER_PROTO_OPS])
     (if retval = 0 then set_call_state (dot proto_r registered_f) CALLED_OK
      else set_call_state (dot proto_r registered_f) CALLED_FAILED))"

definition proto_unregister_MJRcheck :: "int \<Rightarrow> ('a test_state_scheme) check" where
  "proto_unregister_MJRcheck prepost = check_routine 0 (on_prepost prepost
     (block
      [tfassert (\<lambda>s. registered (proto_ops_state s) = CALLED_OK) ''registered == CALLED_OK'',
       set_call_state (dot proto_r unregistered_f) IN_PROGRESS])
     (block
      [set_call_state (dot proto_r registered_f) NOT_CALLED,
       set_call_state (dot proto_r unregistered_f) NOT_CALLED,
       remove_driver_bus DRIVER_PROTO_OPS]))"

section \<open>Capabilities, interrupt probing and firmware\<close>

definition capable_MJRcheck :: "int \<Rightarrow> bool \<Rightarrow> int \<Rightarrow> ('a test_state_scheme) check" where
  "capable_MJRcheck prepost retval cap = check_routine 0 (call_capable prepost retval cap)"

text \<open>The result 1 tells the stub not to call the kernel function.\<close>

definition probe_irq_mask_MJRcheck :: "int \<Rightarrow> u32 \<Rightarrow> (int \<times> u32, 'a test_state_scheme) prog" where
  "probe_irq_mask_MJRcheck prepost retval = with_out (\<lambda>_. if prepost = 0 then 0 else retval)
    (check_routine 1 (on_prepost prepost skip skip))"

definition probe_irq_off_MJRcheck :: "int \<Rightarrow> ('a test_state_scheme) check" where
  "probe_irq_off_MJRcheck prepost = check_routine 1 (on_prepost prepost
     (tf_fail ''You probably should look at this'')
     (tf_fail ''0''))"

definition request_firmware_MJRcheck :: "int \<Rightarrow> ('a test_state_scheme) check" where
  "request_firmware_MJRcheck prepost = check_routine 0 (on_prepost prepost
     (s2e S2E_enable_all_apic_interrupts)
     (s2e S2E_disable_all_apic_interrupts))"

definition release_firmware_MJRcheck :: "int \<Rightarrow> ('a test_state_scheme) check" where
  "release_firmware_MJRcheck prepost = check_routine 0 (on_prepost prepost skip skip)"

end
