(* ===== verification/Checks_Structs.thy ===== *)
theory Checks_Structs
  imports Checks_Main Irq
begin

text \<open>
  The checks of the driver's own callbacks, \<open>structs/*.c\<close>: they run when the kernel calls the driver
  through an operation table, set the context the callback runs in and follow the state of the device.
\<close>

section \<open>Callbacks that only have a context\<close>

text \<open>
  Most callbacks may sleep; the second argument of \<open>push_kernel_state\<close> says whether user code can
  bring them about. Others are not followed at all.
\<close>

definition in_context :: "blocking \<Rightarrow> user \<Rightarrow> int \<Rightarrow> ('a test_state_scheme) check" where
  "in_context bc uc prepost = check_routine 0 (on_prepost prepost (push_kernel_state bc uc) pop_kernel_state)"

definition not_followed :: "int \<Rightarrow> ('a test_state_scheme) check" where
  "not_followed prepost = check_routine 0 skip"

text \<open>\<open>structs/file_operations.c\<close>\<close>

definition file_operations_llseek_MJRcheck :: "int \<Rightarrow> ('a test_state_scheme) check" where
  "file_operations_llseek_MJRcheck = in_context BLOCKING_YES USER_YES"

definition file_operations_read_MJRcheck :: "int \<Rightarrow> ('a test_state_scheme) check" where
  "file_operations_read_MJRcheck = in_context BLOCKING_YES USER_YES"

definition file_operations_write_MJRcheck :: "int \<Rightarrow> ('a test_state_scheme) check" where
  "file_operations_write_MJRcheck = in_context BLOCKING_YES USER_YES"

definition file_operations_aio_read_MJRcheck :: "int \<Rightarrow> ('a test_state_scheme) check" where
  "file_operations_aio_read_MJRcheck = in_context BLOCKING_YES USER_YES"

definition file_operations_aio_write_MJRcheck :: "int \<Rightarrow> ('a test_state_scheme) check" where
  "file_operations_aio_write_MJRcheck = in_context BLOCKING_YES USER_YES"

definition file_operations_readdir_MJRcheck :: "int \<Rightarrow> ('a test_state_scheme) check" where
  "file_operations_readdir_MJRcheck = in_context BLOCKING_YES USER_YES"

definition file_operations_poll_MJRcheck :: "int \<Rightarrow> ('a test_state_scheme) check" where
  "file_operations_poll_MJRcheck = in_context BLOCKING_YES USER_YES"

definition file_operations_unlocked_ioctl_MJRcheck :: "int \<Rightarrow> ('a test_state_scheme) check" where
  "file_operations_unlocked_ioctl_MJRcheck = in_context BLOCKING_YES USER_YES"

definition file_operations_compat_ioctl_MJRcheck :: "int \<Rightarrow> ('a test_state_scheme) check" where
  "file_operations_compat_ioctl_MJRcheck = in_context BLOCKING_YES USER_YES"

definition file_operations_mmap_MJRcheck :: "int \<Rightarrow> ('a test_state_scheme) check" where
  "file_operations_mmap_MJRcheck = in_context BLOCKING_YES USER_YES"

definition file_operations_open_MJRcheck :: "int \<Rightarrow> ('a test_state_scheme) check" where
  "file_operations_open_MJRcheck = in_context BLOCKING_YES USER_YES"

definition file_operations_flush_MJRcheck :: "int \<Rightarrow> ('a test_state_scheme) check" where
  "file_operations_flush_MJRcheck = in_context BLOCKING_YES USER_YES"

definition file_operations_release_MJRcheck :: "int \<Rightarrow> ('a test_state_scheme) check" where
  "file_operations_release_MJRcheck = in_context BLOCKING_YES USER_YES"

definition file_operations_fsync_MJRcheck :: "int \<Rightarrow> ('a test_state_scheme) check" where
  "file_operations_fsync_MJRcheck = in_context BLOCKING_YES USER_YES"

definition file_operations_aio_fsync_MJRcheck :: "int \<Rightarrow> ('a test_state_scheme) check" where
  "file_operations_aio_fsync_MJRcheck = in_context BLOCKING_YES USER_YES"

definition file_operations_fasync_MJRcheck :: "int \<Rightarrow> ('a test_state_scheme) check" where
  "file_operations_fasync_MJRcheck = in_context BLOCKING_YES USER_YES"

definition file_operations_lock_MJRcheck :: "int \<Rightarrow> ('a test_state_scheme) check" where
  "file_operations_lock_MJRcheck = in_context BLOCKING_YES USER_YES"

definition file_operations_sendpage_MJRcheck :: "int \<Rightarrow> ('a test_state_scheme) check" where
  "file_operations_sendpage_MJRcheck = in_context BLOCKING_YES USER_YES"

definition file_operations_get_unmapped_area_MJRcheck :: "int \<Rightarrow> ('a test_state_scheme) check" where
  "file_operations_get_unmapped_area_MJRcheck = in_context BLOCKING_YES USER_YES"

definition file_operations_MJRcheck_flags_MJRcheck :: "int \<Rightarrow> ('a test_state_scheme) check" where
  "file_operations_MJRcheck_flags_MJRcheck = in_context BLOCKING_YES USER_YES"

definition file_operations_flock_MJRcheck :: "int \<Rightarrow> ('a test_state_scheme) check" where
  "file_operations_flock_MJRcheck = in_context BLOCKING_YES USER_YES"

definition file_operations_splice_write_MJRcheck :: "int \<Rightarrow> ('a test_state_scheme) check" where
  "file_operations_splice_write_MJRcheck = in_context BLOCKING_YES USER_YES"

definition file_operations_splice_read_MJRcheck :: "int \<Rightarrow> ('a test_state_scheme) check" where
  "file_operations_splice_read_MJRcheck = in_context BLOCKING_YES USER_YES"

definition file_operations_setlease_MJRcheck :: "int \<Rightarrow> ('a test_state_scheme) check" where
  "file_operations_setlease_MJRcheck = in_context BLOCKING_YES USER_YES"

definition file_operations_fallocate_MJRcheck :: "int \<Rightarrow> ('a test_state_scheme) check" where
  "file_operations_fallocate_MJRcheck = in_context BLOCKING_YES USER_YES"

text \<open>\<open>structs/vm_operations_struct.c\<close>\<close>

definition vm_operations_struct_open_MJRcheck :: "int \<Rightarrow> ('a test_state_scheme) check" where
  "vm_operations_struct_open_MJRcheck = in_context BLOCKING_YES USER_YES"

definition vm_operations_struct_close_MJRcheck :: "int \<Rightarrow> ('a test_state_scheme) check" where
  "vm_operations_struct_close_MJRcheck = in_context BLOCKING_YES USER_YES"

definition vm_operations_struct_fault_MJRcheck :: "int \<Rightarrow> ('a test_state_scheme) check" where
  "vm_operations_struct_fault_MJRcheck = in_context BLOCKING_YES USER_YES"

definition vm_operations_struct_page_mkwrite_MJRcheck :: "int \<Rightarrow> ('a test_state_scheme) check" where
  "vm_operations_struct_page_mkwrite_MJRcheck = in_context BLOCKING_YES USER_YES"

definition vm_operations_struct_access_MJRcheck :: "int \<Rightarrow> ('a test_state_scheme) check" where
  "vm_operations_struct_access_MJRcheck = in_context BLOCKING_YES USER_YES"

text \<open>\<open>structs/bus_type.c\<close>\<close>

definition bus_type_match_MJRcheck :: "int \<Rightarrow> ('a test_state_scheme) check" where
  "bus_type_match_MJRcheck = in_context BLOCKING_YES USER_NO"

definition bus_type_uevent_MJRcheck :: "int \<Rightarrow> ('a test_state_scheme) check" where
  "bus_type_uevent_MJRcheck = in_context BLOCKING_YES USER_NO"

definition bus_type_probe_MJRcheck :: "int \<Rightarrow> ('a test_state_scheme) check" where
  "bus_type_probe_MJRcheck = in_context BLOCKING_YES USER_NO"

definition bus_type_remove_MJRcheck :: "int \<Rightarrow> ('a test_state_scheme) check" where
  "bus_type_remove_MJRcheck = in_context BLOCKING_YES USER_NO"

definition bus_type_shutdown_MJRcheck :: "int \<Rightarrow> ('a test_state_scheme) check" where
  "bus_type_shutdown_MJRcheck = in_context BLOCKING_YES USER_NO"

definition bus_type_suspend_MJRcheck :: "int \<Rightarrow> ('a test_state_scheme) check" where
  "bus_type_suspend_MJRcheck = not_followed"

definition bus_type_resume_MJRcheck :: "int \<Rightarrow> ('a test_state_scheme) check" where
  "bus_type_resume_MJRcheck = not_followed"

text \<open>\<open>structs/pci_driver.c\<close>\<close>

definition pci_driver_remove_MJRcheck :: "int \<Rightarrow> ('a test_state_scheme) check" where
  "pci_driver_remove_MJRcheck = in_context BLOCKING_YES USER_NO"

definition pci_driver_suspend_MJRcheck :: "int \<Rightarrow> ('a test_state_scheme) check" where
  "pci_driver_suspend_MJRcheck = not_followed"

definition pci_driver_suspend_late_MJRcheck :: "int \<Rightarrow> ('a test_state_scheme) check" where
  "pci_driver_suspend_late_MJRcheck = not_followed"

definition pci_driver_resume_early_MJRcheck :: "int \<Rightarrow> ('a test_state_scheme) check" where
  "pci_driver_resume_early_MJRcheck = in_context BLOCKING_YES USER_NO"

definition pci_driver_resume_MJRcheck :: "int \<Rightarrow> ('a test_state_scheme) check" where
  "pci_driver_resume_MJRcheck = in_context BLOCKING_YES USER_NO"

definition pci_driver_shutdown_MJRcheck :: "int \<Rightarrow> ('a test_state_scheme) check" where
  "pci_driver_shutdown_MJRcheck = in_context BLOCKING_YES USER_NO"

text \<open>\<open>structs/usb_driver.c\<close>\<close>

definition usb_driver_unlocked_ioctl_MJRcheck :: "int \<Rightarrow> ('a test_state_scheme) check" where
  "usb_driver_unlocked_ioctl_MJRcheck = in_context BLOCKING_YES USER_YES"

definition usb_driver_suspend_MJRcheck :: "int \<Rightarrow> ('a test_state_scheme) check" where
  "usb_driver_suspend_MJRcheck = not_followed"

definition usb_driver_resume_MJRcheck :: "int \<Rightarrow> ('a test_state_scheme) check" where
  "usb_driver_resume_MJRcheck = in_context BLOCKING_YES USER_NO"

definition usb_driver_reset_resume_MJRcheck :: "int \<Rightarrow> ('a test_state_scheme) check" where
  "usb_driver_reset_resume_MJRcheck = in_context BLOCKING_YES USER_NO"

definition usb_driver_pre_reset_MJRcheck :: "int \<Rightarrow> ('a test_state_scheme) check" where
  "usb_driver_pre_reset_MJRcheck = in_context BLOCKING_YES USER_NO"

definition usb_driver_post_reset_MJRcheck :: "int \<Rightarrow> ('a test_state_scheme) check" where
  "usb_driver_post_reset_MJRcheck = in_context BLOCKING_YES USER_NO"

text \<open>\<open>structs/i2c_driver.c\<close>\<close>

definition i2c_driver_attach_adapter_MJRcheck :: "int \<Rightarrow> ('a test_state_scheme) check" where
  "i2c_driver_attach_adapter_MJRcheck = not_followed"

definition i2c_driver_detach_adapter_MJRcheck :: "int \<Rightarrow> ('a test_state_scheme) check" where
  "i2c_driver_detach_adapter_MJRcheck = not_followed"

definition i2c_driver_remove_MJRcheck :: "int \<Rightarrow> ('a test_state_scheme) check" where
  "i2c_driver_remove_MJRcheck = not_followed"

definition i2c_driver_shutdown_MJRcheck :: "int \<Rightarrow> ('a test_state_scheme) check" where
  "i2c_driver_shutdown_MJRcheck = not_followed"

definition i2c_driver_suspend_MJRcheck :: "int \<Rightarrow> ('a test_state_scheme) check" where
  "i2c_driver_suspend_MJRcheck = not_followed"

definition i2c_driver_resume_MJRcheck :: "int \<Rightarrow> ('a test_state_scheme) check" where
  "i2c_driver_resume_MJRcheck = not_followed"

definition i2c_driver_alert_MJRcheck :: "int \<Rightarrow> ('a test_state_scheme) check" where
  "i2c_driver_alert_MJRcheck = not_followed"

definition i2c_driver_command_MJRcheck :: "int \<Rightarrow> ('a test_state_scheme) check" where
  "i2c_driver_command_MJRcheck = not_followed"

text \<open>\<open>structs/platform_driver.c\<close>\<close>

definition platform_driver_remove_MJRcheck :: "int \<Rightarrow> ('a test_state_scheme) check" where
  "platform_driver_remove_MJRcheck = not_followed"

definition platform_driver_shutdown_MJRcheck :: "int \<Rightarrow> ('a test_state_scheme) check" where
  "platform_driver_shutdown_MJRcheck = not_followed"

definition platform_driver_suspend_MJRcheck :: "int \<Rightarrow> ('a test_state_scheme) check" where
  "platform_driver_suspend_MJRcheck = not_followed"

definition platform_driver_resume_MJRcheck :: "int \<Rightarrow> ('a test_state_scheme) check" where
  "platform_driver_resume_MJRcheck = not_followed"

text \<open>\<open>structs/spi_driver.c\<close>\<close>

definition spi_driver_remove_MJRcheck :: "int \<Rightarrow> ('a test_state_scheme) check" where
  "spi_driver_remove_MJRcheck = not_followed"

definition spi_driver_shutdown_MJRcheck :: "int \<Rightarrow> ('a test_state_scheme) check" where
  "spi_driver_shutdown_MJRcheck = not_followed"

definition spi_driver_suspend_MJRcheck :: "int \<Rightarrow> ('a test_state_scheme) check" where
  "spi_driver_suspend_MJRcheck = not_followed"

definition spi_driver_resume_MJRcheck :: "int \<Rightarrow> ('a test_state_scheme) check" where
  "spi_driver_resume_MJRcheck = not_followed"

text \<open>\<open>structs/net_device_ops.c\<close>\<close>

definition net_device_ops_ndo_init_MJRcheck :: "int \<Rightarrow> ('a test_state_scheme) check" where
  "net_device_ops_ndo_init_MJRcheck = not_followed"

definition net_device_ops_ndo_uninit_MJRcheck :: "int \<Rightarrow> ('a test_state_scheme) check" where
  "net_device_ops_ndo_uninit_MJRcheck = not_followed"

definition net_device_ops_ndo_select_queue_MJRcheck :: "int \<Rightarrow> ('a test_state_scheme) check" where
  "net_device_ops_ndo_select_queue_MJRcheck = not_followed"

definition net_device_ops_ndo_change_rx_flags_MJRcheck :: "int \<Rightarrow> ('a test_state_scheme) check" where
  "net_device_ops_ndo_change_rx_flags_MJRcheck = not_followed"

definition net_device_ops_ndo_set_rx_mode_MJRcheck :: "int \<Rightarrow> ('a test_state_scheme) check" where
  "net_device_ops_ndo_set_rx_mode_MJRcheck = not_followed"

definition net_device_ops_ndo_set_multicast_list_MJRcheck :: "int \<Rightarrow> ('a test_state_scheme) check" where
  "net_device_ops_ndo_set_multicast_list_MJRcheck = not_followed"

definition net_device_ops_ndo_set_mac_address_MJRcheck :: "int \<Rightarrow> ('a test_state_scheme) check" where
  "net_device_ops_ndo_set_mac_address_MJRcheck = not_followed"

definition net_device_ops_ndo_validate_addr_MJRcheck :: "int \<Rightarrow> ('a test_state_scheme) check" where
  "net_device_ops_ndo_validate_addr_MJRcheck = not_followed"

definition net_device_ops_ndo_set_config_MJRcheck :: "int \<Rightarrow> ('a test_state_scheme) check" where
  "net_device_ops_ndo_set_config_MJRcheck = not_followed"

definition net_device_ops_ndo_change_mtu_MJRcheck :: "int \<Rightarrow> ('a test_state_scheme) check" where
  "net_device_ops_ndo_change_mtu_MJRcheck = not_followed"

definition net_device_ops_ndo_neigh_setup_MJRcheck :: "int \<Rightarrow> ('a test_state_scheme) check" where
  "net_device_ops_ndo_neigh_setup_MJRcheck = not_followed"

definition net_device_ops_ndo_tx_timeout_MJRcheck :: "int \<Rightarrow> ('a test_state_scheme) check" where
  "net_device_ops_ndo_tx_timeout_MJRcheck = not_followed"

definition net_device_ops_ndo_get_stats64_MJRcheck :: "int \<Rightarrow> ('a test_state_scheme) check" where
  "net_device_ops_ndo_get_stats64_MJRcheck = not_followed"

definition net_device_ops_ndo_get_stats_MJRcheck :: "int \<Rightarrow> ('a test_state_scheme) check" where
  "net_device_ops_ndo_get_stats_MJRcheck = not_followed"

definition net_device_ops_ndo_vlan_rx_add_vid_MJRcheck :: "int \<Rightarrow> ('a test_state_scheme) check" where
  "net_device_ops_ndo_vlan_rx_add_vid_MJRcheck = not_followed"

definition net_device_ops_ndo_vlan_rx_kill_vid_MJRcheck :: "int \<Rightarrow> ('a test_state_scheme) check" where
  "net_device_ops_ndo_vlan_rx_kill_vid_MJRcheck = not_followed"

text \<open>\<open>structs/timer_list.c\<close>\<close>

definition timer_list_function_MJRcheck :: "int \<Rightarrow> ('a test_state_scheme) check" where
  "timer_list_function_MJRcheck = not_followed"

section \<open>Probing\<close>

record pci_dev =
  pci_dev_address :: ulong
  resource0_start :: ulong
  dev_irq :: u32

text \<open>The fields of the device that \<open>g_sym_pci\<close> makes symbolic: name and size.\<close>

definition symbolic_pci_fields :: "(string \<times> string) list" where
  "symbolic_pci_fields =
    [(''unsigned short'', ''pci_driver_probe_device''),
     (''unsigned short'', ''pci_driver_probe_vendor''),
     (''unsigned short'', ''pci_driver_probe_subsystem_device''),
     (''unsigned short'', ''pci_driver_probe_subsystem_vendor''),
     (''unsigned int'', ''pci_driver_probe_class''),
     (''u8'', ''pci_driver_probe_revision'')]"

definition pci_driver_probe_MJRcheck :: "int \<Rightarrow> int \<Rightarrow> pci_dev option \<Rightarrow> ('a ep_state_scheme) check" where
  "pci_driver_probe_MJRcheck prepost retval dev = check_routine 0 (on_prepost prepost
     (block
      [tfassert (\<lambda>s. probed (pci_driver_state s) = NOT_CALLED) ''probed == NOT_CALLED'',
       cond (DISABLED [''TG3'']) skip
        (deref dev (\<lambda>d. tfassert (\<lambda>_. resource0_start d \<noteq> 0) ''resource[0].start != 0'')),
       deref dev (\<lambda>d. tfassert (\<lambda>_. dev_irq d \<noteq> 0) ''irq != 0''),
       push_kernel_state BLOCKING_YES USER_NO,
       set_call_state (dot pci_r probed_f) IN_PROGRESS,
       deref dev (\<lambda>d. ep_init_pci_dev (pci_dev_address d)),
       onlyif (\<lambda>s. g_sym_pci s = 1)
        (block (map (\<lambda>(ty, n). s2e (S2E_make_symbolic_local ty n)) symbolic_pci_fields))])
     (block
      [if retval = 0 then block
        [set_call_state (dot pci_r probed_f) CALLED_OK,
         reading get_driver_class (\<lambda>c. if c = DRIVER_NET
           then tfassert (\<lambda>s. register_netdev (ndo_driver_state s) = CALLED_OK) ''register_netdev == CALLED_OK''
           else skip)]
       else block
        [set_call_state (dot pci_r probed_f) CALLED_FAILED,
         reading get_driver_class (\<lambda>c. if c = DRIVER_NET
           then tfassert (\<lambda>s. register_netdev (ndo_driver_state s) = CALLED_FAILED \<or>
             register_netdev (ndo_driver_state s) = NOT_CALLED) ''register_netdev == CALLED_FAILED''
           else skip)],
       pop_kernel_state]))"

text \<open>The context of the USB callbacks is left undefined for the Pegasus driver.\<close>

definition usb_context :: "('a test_state_scheme) act" where
  "usb_context = cond (DISABLED [''PEGASUS''])
     (push_kernel_state BLOCKING_UNDEFINED USER_UNDEFINED)
     (push_kernel_state BLOCKING_YES USER_NO)"

definition usb_driver_probe_MJRcheck :: "int \<Rightarrow> int \<Rightarrow> ('a test_state_scheme) check" where
  "usb_driver_probe_MJRcheck prepost retval = check_routine 0 (on_prepost prepost
     (block
      [tfassert (\<lambda>s. probed (usb_driver_state s) = NOT_CALLED) ''probed == NOT_CALLED'',
       set_call_state (dot usb_r probed_f) IN_PROGRESS,
       usb_context])
     (block
      [if retval = 0 then block
        [set_call_state (dot usb_r probed_f) CALLED_OK,
         reading get_driver_class (\<lambda>c. if c = DRIVER_NET
           then tfassert (\<lambda>s. register_netdev (ndo_driver_state s) = CALLED_OK) ''register_netdev == CALLED_OK''
           else skip)]
       else block
        [set_call_state (dot usb_r probed_f) CALLED_FAILED,
         reading get_driver_class (\<lambda>c. if c = DRIVER_NET
           then tfassert (\<lambda>s. register_netdev (ndo_driver_state s) = CALLED_FAILED \<or>
             register_netdev (ndo_driver_state s) = NOT_CALLED) ''register_netdev == CALLED_FAILED''
           else skip)],
       pop_kernel_state]))"

definition usb_driver_disconnect_MJRcheck :: "int \<Rightarrow> ('a test_state_scheme) check" where
  "usb_driver_disconnect_MJRcheck prepost = check_routine 0 (on_prepost prepost usb_context pop_kernel_state)"

definition i2c_driver_probe_MJRcheck :: "int \<Rightarrow> int \<Rightarrow> ulong \<Rightarrow> ('a ep_state_scheme) check" where
  "i2c_driver_probe_MJRcheck prepost retval client = check_routine 0 (on_prepost prepost
     (block
      [ep_init_i2c_client client,
       set_call_state (dot i2c_r probed_f) IN_PROGRESS])
     (if retval = 0 then set_call_state (dot i2c_r probed_f) CALLED_OK
      else set_call_state (dot i2c_r probed_f) CALLED_FAILED))"

definition platform_driver_probe_MJRcheck :: "int \<Rightarrow> int \<Rightarrow> ('a test_state_scheme) check" where
  "platform_driver_probe_MJRcheck prepost retval = check_routine 0 (on_prepost prepost
     (set_call_state (dot platform_r probed_f) IN_PROGRESS)
     (if retval = 0 then set_call_state (dot platform_r probed_f) CALLED_OK
      else set_call_state (dot platform_r probed_f) CALLED_FAILED))"

definition spi_driver_probe_MJRcheck :: "int \<Rightarrow> int \<Rightarrow> ('a test_state_scheme) check" where
  "spi_driver_probe_MJRcheck prepost retval = check_routine 0 (on_prepost prepost
     (set_call_state (dot spi_r probed_f) IN_PROGRESS)
     (if retval = 0 then set_call_state (dot spi_r probed_f) CALLED_OK
      else set_call_state (dot spi_r probed_f) CALLED_FAILED))"

section \<open>Network operations\<close>

text \<open>
  Of a network device: \<open>netdev_get_tx_queue(dev, 0)->state\<close>, \<open>netdev_priv\<close> and \<open>trans_start\<close>. Its name
  is an array inside the struct, so that \<open>(*dev)->name != 0\<close> always holds.
\<close>

record net_device =
  tx_queue_state :: ulong
  netdev_priv :: ulong
  trans_start :: ulong

definition some_probed :: "'a test_state_scheme \<Rightarrow> bool" where
  "some_probed s \<longleftrightarrow> probed (pci_driver_state s) = CALLED_OK \<or> probed (usb_driver_state s) = CALLED_OK \<or>
     probed (i2c_driver_state s) = CALLED_OK \<or> probed (platform_driver_state s) = CALLED_OK \<or>
     probed (spi_driver_state s) = CALLED_OK"

definition net_device_ops_ndo_open_MJRcheck :: "int \<Rightarrow> int \<Rightarrow> net_device option \<Rightarrow> ('a irq_state_scheme) check" where
  "net_device_ops_ndo_open_MJRcheck prepost retval dev = check_routine 0 (on_prepost prepost
     (block
      [tfassert (\<lambda>s. opened (ndo_driver_state s) = NOT_CALLED \<or> opened (ndo_driver_state s) = CALLED_FAILED)
         ''opened == NOT_CALLED'',
       tfassert some_probed ''probed == CALLED_OK'',
       cond (DISABLED [''PEGASUS''])
        (push_kernel_state BLOCKING_UNDEFINED USER_UNDEFINED)
        (push_kernel_state BLOCKING_YES USER_NO),
       set_call_state (dot ndo_r opened_f) IN_PROGRESS])
     (block
      [cond (DISABLED [''BE2NET'']) skip
        (tfassert (\<lambda>_. retval \<le> 0 \<and> retval \<ge> -4095) ''*retval <= 0''),
       if retval = 0 then block
        [deref dev (\<lambda>d. tfassert (\<lambda>s. tx_queue_state d AND QUEUE_STATE_XOFF s = 0) ''state & __QUEUE_STATE_XOFF == 0''),
         set_call_state (dot ndo_r opened_f) CALLED_OK]
       else block
        [tfassert (\<lambda>s. is_irq_allocated s = 0) ''is_irq_allocated () == 0'',
         cond (DISABLED [''BE2NET'', ''E100'']) skip
          (deref dev (\<lambda>d. tfassert (\<lambda>s. tx_queue_state d AND QUEUE_STATE_XOFF s \<noteq> 0) ''state & __QUEUE_STATE_XOFF != 0'')),
         set_call_state (dot ndo_r opened_f) CALLED_FAILED],
       pop_kernel_state]))"

definition net_device_ops_ndo_stop_MJRcheck :: "int \<Rightarrow> net_device option \<Rightarrow> ('a test_state_scheme) check" where
  "net_device_ops_ndo_stop_MJRcheck prepost dev = check_routine 0 (on_prepost prepost
     (block
      [tfassert some_probed ''probed == CALLED_OK'',
       cond (DISABLED [''PEGASUS''])
        (push_kernel_state BLOCKING_UNDEFINED USER_NO)
        (push_kernel_state BLOCKING_YES USER_NO)])
     (block
      [cond (DISABLED [''BE2NET'']) skip
        (deref dev (\<lambda>d. tfassert (\<lambda>s. bit (tx_queue_state d) (unat (QUEUE_STATE_XOFF s))) ''test_bit (__QUEUE_STATE_XOFF)'')),
       pop_kernel_state]))"

definition net_device_ops_ndo_start_xmit_MJRcheck ::
  "string \<Rightarrow> int \<Rightarrow> int \<Rightarrow> sk_buff option \<Rightarrow> net_device option \<Rightarrow> ('a test_state_scheme) check" where
  "net_device_ops_ndo_start_xmit_MJRcheck fn prepost retval skb dev = check_routine 0
    (if prepost = 0 then block
      [deref skb (\<lambda>b. tfassert (\<lambda>_. skb_len b \<le> 1536) ''len <= 1536''),
       deref dev (\<lambda>d. tfassert (\<lambda>_. netdev_priv d \<noteq> 0) ''netdev_priv != 0''),
       tfassert some_probed ''probed == CALLED_OK'',
       deref dev (\<lambda>d. update (\<lambda>s. s\<lparr>ndo_driver_state :=
         (ndo_driver_state s)\<lparr>trans_start_check := sint (trans_start d)\<rparr>\<rparr>)),
       push_kernel_state BLOCKING_NO USER_NO,
       deref skb (\<lambda>b. generic_allocator fn 1 (head b) (-1) ORIGIN_DEV_ALLOC_SKB)]
     else if prepost = 1 then block
      [onlyif (\<lambda>s. retval \<noteq> NETDEV_TX_OK s)
        (deref skb (\<lambda>b. generic_free 0 (head b) ORIGIN_DEV_ALLOC_SKB)),
       deref skb (\<lambda>_. skip),
       update (\<lambda>s. s\<lparr>g_sym_kill_carrier_off := 0\<rparr>),
       pop_kernel_state]
     else skip)"

definition net_device_ops_ndo_do_ioctl_MJRcheck :: "int \<Rightarrow> int \<Rightarrow> int \<Rightarrow> ('a test_state_scheme) check" where
  "net_device_ops_ndo_do_ioctl_MJRcheck prepost retval cmd = check_routine 0 (on_prepost prepost
     skip
     (ioctl_called_capable prepost retval cmd))"

definition net_device_ops_ndo_poll_controller_MJRcheck :: "int \<Rightarrow> int \<Rightarrow> ('a test_state_scheme) check" where
  "net_device_ops_ndo_poll_controller_MJRcheck prepost retval = check_routine 0
    (if prepost = 1 then (if retval \<le> 0 then s2e (S2E_deprioritize 0) else skip) else skip)"

text \<open>\<open>proto_ops_ioctl\<close> looks at its result and command only through pointers it tests first.\<close>

definition proto_ops_ioctl_MJRcheck :: "int \<Rightarrow> int option \<Rightarrow> int option \<Rightarrow> ('a test_state_scheme) check" where
  "proto_ops_ioctl_MJRcheck prepost retval cmd = check_routine 0 (on_prepost prepost
     skip
     (block
      [tfassert (\<lambda>_. retval \<noteq> None) ''retval != NULL'',
       tfassert (\<lambda>_. cmd \<noteq> None) ''cmd != NULL'',
       deref retval (\<lambda>r. deref cmd (\<lambda>c. ioctl_called_capable prepost r c))]))"

end
