(* ===== verification/Check_Safety.thy ===== *)
theory Check_Safety
  imports Checks_Memory Checks_Locks Checks_Bus Checks_Structs
begin

text \<open>
  Every check routine keeps the invariant of the framework, or ends the path by a failed assertion or a
  bad pointer. The routines are collected in an inductive predicate; a driver's run is a sequence of
  their calls.
\<close>

lemma in_check_ep_frames [simp]:
  "in_check (s\<lparr>net_dev := d\<rparr>) = in_check s" "in_check (s\<lparr>pci_drv := d\<rparr>) = in_check s"
  "in_check (s\<lparr>pci_dev := d\<rparr>) = in_check s" "in_check (s\<lparr>i2c_drv := d\<rparr>) = in_check s"
  "in_check (s\<lparr>i2c_client := d\<rparr>) = in_check s"
  by (simp_all add: in_check_def core_inv_def blocking_ok_def user_ok_def tracker_ok_def flags_ok_def
      all_buses_def flag_of_simps class_ok_def locked_def)

lemma safe_ep_init [safe_rules]:
  "safe in_check (ep_init_net d)" "safe in_check (ep_init_pci_driver d)" "safe in_check (ep_init_pci_dev d)"
  "safe in_check (ep_init_i2c_driver d)" "safe in_check (ep_init_i2c_client d)"
  unfolding ep_init_net_def ep_init_pci_driver_def ep_init_pci_dev_def ep_init_i2c_driver_def ep_init_i2c_client_def
  by (rule safe_update, simp)+

lemma safe_misc_updates [safe_rules]:
  "safe in_check (update (\<lambda>s. s\<lparr>ndo_driver_state := (ndo_driver_state s)\<lparr>trans_start_check := k s\<rparr>\<rparr>))"
  "safe in_check (update (\<lambda>s. s\<lparr>g_sym_kill_carrier_off := n\<rparr>))"
  by (rule safe_update, simp)+

lemma safe_usb_context [safe_rules]: "safe in_check usb_context"
  unfolding usb_context_def by (intro safe_rules)

lemma safe_symbolic_pci_fields [safe_rules]:
  "safe in_check (block (map (\<lambda>(ty, n). s2e (S2E_make_symbolic_local ty n)) xs))"
proof (induction xs)
  case Nil
  show ?case unfolding list.map by (rule safe_block_Nil)
next
  case (Cons x xs)
  then show ?case by (cases x) (simp only: list.map prod.case, intro safe_block_Cons safe_s2e)
qed

lemma routine_safe_skip [safe_rules]: "routine_safe (returning 0 skip)"
  by (simp add: routine_safe_def returning_def)

lemma routine_safe_ignore [safe_rules]:
  assumes "routine_safe c" shows "routine_safe (returning 0 (ignore_result c))"
proof -
  have "case returning 0 (ignore_result c) s of Inl e \<Rightarrow> ends_well e | Inr r \<Rightarrow> tf_inv (snd r)" if "tf_inv s" for s
    using assms that by (cases "c s") (auto simp: routine_safe_def returning_def ignore_result_def)
  then show ?thesis by (simp add: routine_safe_def)
qed

named_theorems routine_safes \<open>check routines that keep the invariant\<close>

lemmas memory_defs =
  u2_kmalloc_MJRcheck_def kstrdup_MJRcheck_def kfree_MJRcheck_def vmalloc_MJRcheck_def
    vfree_MJRcheck_def u2_get_free_pages_MJRcheck_def free_pages_MJRcheck_def dma_alloc_coherent_MJRcheck_def
    dma_free_coherent_MJRcheck_def dma_alloc_from_coherent_MJRcheck_def
    dma_release_from_coherent_MJRcheck_def kfree_skb_MJRcheck_def u2_netdev_alloc_skb_MJRcheck_def
    u2_alloc_skb_MJRcheck_def dev_alloc_skb_MJRcheck_def dev_kfree_skb_any_MJRcheck_def
    consume_skb_MJRcheck_def skb_dma_map_MJRcheck_def skb_dma_unmap_MJRcheck_def
    alloc_etherdev_mqs_MJRcheck_def alloc_netdev_mqs_MJRcheck_def free_netdev_MJRcheck_def
    iounmap_MJRcheck_def ioremap_nocache_MJRcheck_def device_register_MJRcheck_def
    device_unregister_MJRcheck_def u2_request_region_MJRcheck_def u2_release_region_MJRcheck_def
    usb_alloc_urb_MJRcheck_def usb_free_urb_MJRcheck_def usb_control_msg_MJRcheck_def
    usb_submit_urb_MJRcheck_def copy_from_user_MJRcheck_def

lemma memory_routines [routine_safes]:
  "routine_safe (u2_kmalloc_MJRcheck fn pp x y f)" "routine_safe (kstrdup_MJRcheck fn pp x f)"
  "routine_safe (kfree_MJRcheck pp q)" "routine_safe (vmalloc_MJRcheck fn pp x y)"
  "routine_safe (vfree_MJRcheck pp q)" "routine_safe (u2_get_free_pages_MJRcheck fn pp x f)"
  "routine_safe (free_pages_MJRcheck pp x)" "routine_safe (dma_alloc_coherent_MJRcheck fn pp x y q)"
  "routine_safe (dma_free_coherent_MJRcheck pp x y z)" "routine_safe (dma_alloc_from_coherent_MJRcheck pp)"
  "routine_safe (dma_release_from_coherent_MJRcheck pp)" "routine_safe (kfree_skb_MJRcheck pp skb)"
  "routine_safe (u2_netdev_alloc_skb_MJRcheck fn pp skb)"
  "routine_safe (u2_alloc_skb_MJRcheck fn pp skb x f)" "routine_safe (dev_alloc_skb_MJRcheck fn pp skb)"
  "routine_safe (dev_kfree_skb_any_MJRcheck pp skb)" "routine_safe (consume_skb_MJRcheck pp skb)"
  "routine_safe (skb_dma_map_MJRcheck fn pp skb)" "routine_safe (skb_dma_unmap_MJRcheck pp skb)"
  "routine_safe (alloc_etherdev_mqs_MJRcheck fn pp x)" "routine_safe (alloc_netdev_mqs_MJRcheck fn pp x)"
  "routine_safe (free_netdev_MJRcheck pp x)" "routine_safe (iounmap_MJRcheck pp x)"
  "routine_safe (ioremap_nocache_MJRcheck fn pp x y)" "routine_safe (device_register_MJRcheck fn pp m x)"
  "routine_safe (device_unregister_MJRcheck pp x)" "routine_safe (u2_request_region_MJRcheck fn pp x y)"
  "routine_safe (u2_release_region_MJRcheck pp x)" "routine_safe (usb_alloc_urb_MJRcheck fn pp x)"
  "routine_safe (usb_free_urb_MJRcheck pp q)" "routine_safe (usb_control_msg_MJRcheck pp x)"
  "routine_safe (usb_submit_urb_MJRcheck pp u f)" "routine_safe (copy_from_user_MJRcheck pp x y)"
  unfolding memory_defs Let_def
  by (intro safe_rules)+

lemmas memory_out_defs =
  copy_to_user_MJRcheck_def

lemma memory_out_routines [routine_safes]:
  "out_safe (copy_to_user_MJRcheck pp x)"
  unfolding memory_out_defs Let_def
  by (intro safe_rules)+

lemmas main_defs =
  default_MJRcheck_def init_module_MJRcheck_def cleanup_module_MJRcheck_def
    u2_napi_schedule_MJRcheck_def netif_rx_MJRcheck_def register_netdev_MJRcheck_def
    unregister_netdev_MJRcheck_def netif_carrier_off_MJRcheck_def netif_stop_queue_MJRcheck_def
    netif_napi_add_poll_MJRcheck_def napi_struct_poll_MJRcheck_def usb_deregister_MJRcheck_def
    usb_register_driver_MJRcheck_def misc_register_MJRcheck_def misc_deregister_MJRcheck_def
    proto_register_MJRcheck_def proto_unregister_MJRcheck_def capable_MJRcheck_def probe_irq_off_MJRcheck_def
    request_firmware_MJRcheck_def release_firmware_MJRcheck_def

lemma main_routines [routine_safes]:
  "routine_safe (default_MJRcheck pp)" "routine_safe (init_module_MJRcheck pp m)"
  "routine_safe (cleanup_module_MJRcheck pp)" "routine_safe (u2_napi_schedule_MJRcheck pp)"
  "routine_safe (netif_rx_MJRcheck pp)" "routine_safe (register_netdev_MJRcheck pp m x)"
  "routine_safe (unregister_netdev_MJRcheck pp)" "routine_safe (netif_carrier_off_MJRcheck pp)"
  "routine_safe (netif_stop_queue_MJRcheck pp)" "routine_safe (netif_napi_add_poll_MJRcheck pp)"
  "routine_safe (napi_struct_poll_MJRcheck pp)" "routine_safe (usb_deregister_MJRcheck pp)"
  "routine_safe (usb_register_driver_MJRcheck pp m)" "routine_safe (misc_register_MJRcheck pp m)"
  "routine_safe (misc_deregister_MJRcheck pp m)" "routine_safe (proto_register_MJRcheck pp m)"
  "routine_safe (proto_unregister_MJRcheck pp)" "routine_safe (capable_MJRcheck pp b m)"
  "routine_safe (probe_irq_off_MJRcheck pp)" "routine_safe (request_firmware_MJRcheck pp)"
  "routine_safe (release_firmware_MJRcheck pp)"
  unfolding main_defs Let_def
  by (intro safe_rules)+

lemmas main_out_defs =
  schedule_delayed_work_MJRcheck_def queue_delayed_work_MJRcheck_def schedule_timeout_MJRcheck_def
    schedule_timeout_uninterruptible_MJRcheck_def mod_timer_MJRcheck_def add_timer_MJRcheck_def
    probe_irq_mask_MJRcheck_def netif_napi_add_poll_MJRcheck_def

lemma main_out_routines [routine_safes]:
  "out_safe (schedule_delayed_work_MJRcheck pp x)" "out_safe (queue_delayed_work_MJRcheck pp x)"
  "out_safe (schedule_timeout_MJRcheck pp x)" "out_safe (schedule_timeout_uninterruptible_MJRcheck pp x)"
  "out_safe (mod_timer_MJRcheck pp x)" "out_safe (add_timer_MJRcheck pp q)"
  "out_safe (probe_irq_mask_MJRcheck pp f)"
  unfolding main_out_defs Let_def
  by (intro safe_rules)+

lemmas bus_defs =
  pci_enable_device_MJRcheck_def pci_enable_device_mem_MJRcheck_def pci_disable_device_MJRcheck_def
    u2_pci_register_driver_MJRcheck_def pci_unregister_driver_MJRcheck_def pci_iomap_MJRcheck_def
    pci_iounmap_MJRcheck_def pci_ioremap_bar_MJRcheck_def pci_map_single_MJRcheck_def
    pci_unmap_single_MJRcheck_def pci_map_page_MJRcheck_def pci_unmap_page_MJRcheck_def
    pci_bus_read_config_byte_MJRcheck_def pci_bus_read_config_word_MJRcheck_def
    pci_bus_read_config_dword_MJRcheck_def pci_find_capability_MJRcheck_def
    platform_driver_register_MJRcheck_def platform_driver_unregister_MJRcheck_def
    spi_register_driver_MJRcheck_def spi_unregister_driver_MJRcheck_def i2c_add_driver_MJRcheck_def
    i2c_del_driver_MJRcheck_def u2_class_create_MJRcheck_def class_destroy_MJRcheck_def
    device_create_file_MJRcheck_def device_remove_file_MJRcheck_def generic_mii_ioctl_MJRcheck_def
    gpio_free_MJRcheck_def gpio_free_array_MJRcheck_def gpio_set_value_MJRcheck_def
    u2_gpio_set_value_MJRcheck_def gpio_set_value_cansleep_MJRcheck_def gpio_unexport_MJRcheck_def
    config_read_def config_write_def gpio_symbolic_def gpio_before_def gpio_get_value_wrapper_def
    mii_check_link_MJRcheck_def mii_check_media_MJRcheck_def

lemma bus_routines [routine_safes]:
  "routine_safe (pci_enable_device_MJRcheck pp m)" "routine_safe (pci_enable_device_mem_MJRcheck pp m)"
  "routine_safe (pci_disable_device_MJRcheck pp)" "routine_safe (u2_pci_register_driver_MJRcheck pp m x)"
  "routine_safe (pci_unregister_driver_MJRcheck pp)" "routine_safe (pci_iomap_MJRcheck pp x y)"
  "routine_safe (pci_iounmap_MJRcheck pp x)" "routine_safe (pci_ioremap_bar_MJRcheck fn pp x y)"
  "routine_safe (pci_map_single_MJRcheck fn pp x y)" "routine_safe (pci_unmap_single_MJRcheck pp x)"
  "routine_safe (pci_map_page_MJRcheck fn pp x y)" "routine_safe (pci_unmap_page_MJRcheck pp x)"
  "routine_safe (pci_bus_read_config_byte_MJRcheck pp x)"
  "routine_safe (pci_bus_read_config_word_MJRcheck pp x)"
  "routine_safe (pci_bus_read_config_dword_MJRcheck pp x)" "routine_safe (pci_find_capability_MJRcheck pp)"
  "routine_safe (platform_driver_register_MJRcheck pp m)"
  "routine_safe (platform_driver_unregister_MJRcheck pp)" "routine_safe (spi_register_driver_MJRcheck pp m)"
  "routine_safe (spi_unregister_driver_MJRcheck pp)" "routine_safe (i2c_add_driver_MJRcheck pp m x)"
  "routine_safe (i2c_del_driver_MJRcheck pp)" "routine_safe (u2_class_create_MJRcheck fn pp x)"
  "routine_safe (class_destroy_MJRcheck pp x)" "routine_safe (device_create_file_MJRcheck fn pp m x)"
  "routine_safe (device_remove_file_MJRcheck pp x)" "routine_safe (generic_mii_ioctl_MJRcheck pp)"
  "routine_safe (gpio_free_MJRcheck pp)" "routine_safe (gpio_free_array_MJRcheck pp)"
  "routine_safe (gpio_set_value_MJRcheck pp)" "routine_safe (u2_gpio_set_value_MJRcheck pp)"
  "routine_safe (gpio_set_value_cansleep_MJRcheck pp)" "routine_safe (gpio_unexport_MJRcheck pp)"
  "routine_safe (mii_check_link_MJRcheck (\<lambda>_. skip) pp q)" "routine_safe (mii_check_media_MJRcheck (\<lambda>_. skip) pp q)"
  unfolding bus_defs Let_def
  by (intro safe_rules)+

lemmas bus_out_defs =
  pci_bus_write_config_byte_MJRcheck_def pci_bus_write_config_word_MJRcheck_def
    pci_bus_write_config_dword_MJRcheck_def mii_link_ok_MJRcheck_def gpio_is_valid_MJRcheck_def
    gpio_request_MJRcheck_def gpio_request_one_MJRcheck_def gpio_request_array_MJRcheck_def
    gpio_direction_input_MJRcheck_def gpio_direction_output_MJRcheck_def gpio_set_debounce_MJRcheck_def
    gpio_get_value_MJRcheck_def u2_gpio_get_value_MJRcheck_def gpio_cansleep_MJRcheck_def
    gpio_get_value_cansleep_MJRcheck_def gpio_export_MJRcheck_def gpio_export_link_MJRcheck_def
    gpio_sysfs_set_active_low_MJRcheck_def gpio_to_irq_MJRcheck_def irq_to_gpio_MJRcheck_def config_read_def
    config_write_def gpio_symbolic_def gpio_before_def gpio_get_value_wrapper_def

lemma bus_out_routines [routine_safes]:
  "out_safe (pci_bus_write_config_byte_MJRcheck pp m)" "out_safe (pci_bus_write_config_word_MJRcheck pp m)"
  "out_safe (pci_bus_write_config_dword_MJRcheck pp m)" "out_safe (mii_link_ok_MJRcheck pp m)"
  "out_safe (gpio_is_valid_MJRcheck pp m n)" "out_safe (gpio_request_MJRcheck pp m n)"
  "out_safe (gpio_request_one_MJRcheck pp m n)" "out_safe (gpio_request_array_MJRcheck pp m n)"
  "out_safe (gpio_direction_input_MJRcheck pp m n)" "out_safe (gpio_direction_output_MJRcheck pp m n)"
  "out_safe (gpio_set_debounce_MJRcheck pp m n)" "out_safe (gpio_get_value_MJRcheck pp m n)"
  "out_safe (u2_gpio_get_value_MJRcheck pp m n)" "out_safe (gpio_cansleep_MJRcheck pp m n)"
  "out_safe (gpio_get_value_cansleep_MJRcheck pp m n)" "out_safe (gpio_export_MJRcheck pp m n)"
  "out_safe (gpio_export_link_MJRcheck pp m n)" "out_safe (gpio_sysfs_set_active_low_MJRcheck pp m n)"
  "out_safe (gpio_to_irq_MJRcheck pp m)" "out_safe (irq_to_gpio_MJRcheck pp m)"
  unfolding bus_out_defs Let_def
  by (intro safe_rules)+

lemmas structs_defs =
  file_operations_llseek_MJRcheck_def file_operations_read_MJRcheck_def
    file_operations_write_MJRcheck_def file_operations_aio_read_MJRcheck_def
    file_operations_aio_write_MJRcheck_def file_operations_readdir_MJRcheck_def
    file_operations_poll_MJRcheck_def file_operations_unlocked_ioctl_MJRcheck_def
    file_operations_compat_ioctl_MJRcheck_def file_operations_mmap_MJRcheck_def
    file_operations_open_MJRcheck_def file_operations_flush_MJRcheck_def file_operations_release_MJRcheck_def
    file_operations_fsync_MJRcheck_def file_operations_aio_fsync_MJRcheck_def
    file_operations_fasync_MJRcheck_def file_operations_lock_MJRcheck_def
    file_operations_sendpage_MJRcheck_def file_operations_get_unmapped_area_MJRcheck_def
    file_operations_MJRcheck_flags_MJRcheck_def file_operations_flock_MJRcheck_def
    file_operations_splice_write_MJRcheck_def file_operations_splice_read_MJRcheck_def
    file_operations_setlease_MJRcheck_def file_operations_fallocate_MJRcheck_def
    vm_operations_struct_open_MJRcheck_def vm_operations_struct_close_MJRcheck_def
    vm_operations_struct_fault_MJRcheck_def vm_operations_struct_page_mkwrite_MJRcheck_def
    vm_operations_struct_access_MJRcheck_def bus_type_match_MJRcheck_def bus_type_uevent_MJRcheck_def
    bus_type_probe_MJRcheck_def bus_type_remove_MJRcheck_def bus_type_shutdown_MJRcheck_def
    bus_type_suspend_MJRcheck_def bus_type_resume_MJRcheck_def pci_driver_remove_MJRcheck_def
    pci_driver_suspend_MJRcheck_def pci_driver_suspend_late_MJRcheck_def pci_driver_resume_early_MJRcheck_def
    pci_driver_resume_MJRcheck_def pci_driver_shutdown_MJRcheck_def usb_driver_unlocked_ioctl_MJRcheck_def
    usb_driver_suspend_MJRcheck_def usb_driver_resume_MJRcheck_def usb_driver_reset_resume_MJRcheck_def
    usb_driver_pre_reset_MJRcheck_def usb_driver_post_reset_MJRcheck_def
    i2c_driver_attach_adapter_MJRcheck_def i2c_driver_detach_adapter_MJRcheck_def
    i2c_driver_remove_MJRcheck_def i2c_driver_shutdown_MJRcheck_def i2c_driver_suspend_MJRcheck_def
    i2c_driver_resume_MJRcheck_def i2c_driver_alert_MJRcheck_def i2c_driver_command_MJRcheck_def
    platform_driver_remove_MJRcheck_def platform_driver_shutdown_MJRcheck_def
    platform_driver_suspend_MJRcheck_def platform_driver_resume_MJRcheck_def spi_driver_remove_MJRcheck_def
    spi_driver_shutdown_MJRcheck_def spi_driver_suspend_MJRcheck_def spi_driver_resume_MJRcheck_def
    net_device_ops_ndo_init_MJRcheck_def net_device_ops_ndo_uninit_MJRcheck_def
    net_device_ops_ndo_select_queue_MJRcheck_def net_device_ops_ndo_change_rx_flags_MJRcheck_def
    net_device_ops_ndo_set_rx_mode_MJRcheck_def net_device_ops_ndo_set_multicast_list_MJRcheck_def
    net_device_ops_ndo_set_mac_address_MJRcheck_def net_device_ops_ndo_validate_addr_MJRcheck_def
    net_device_ops_ndo_set_config_MJRcheck_def net_device_ops_ndo_change_mtu_MJRcheck_def
    net_device_ops_ndo_neigh_setup_MJRcheck_def net_device_ops_ndo_tx_timeout_MJRcheck_def
    net_device_ops_ndo_get_stats64_MJRcheck_def net_device_ops_ndo_get_stats_MJRcheck_def
    net_device_ops_ndo_vlan_rx_add_vid_MJRcheck_def net_device_ops_ndo_vlan_rx_kill_vid_MJRcheck_def
    timer_list_function_MJRcheck_def pci_driver_probe_MJRcheck_def usb_driver_probe_MJRcheck_def
    usb_driver_disconnect_MJRcheck_def i2c_driver_probe_MJRcheck_def platform_driver_probe_MJRcheck_def
    spi_driver_probe_MJRcheck_def net_device_ops_ndo_open_MJRcheck_def net_device_ops_ndo_stop_MJRcheck_def
    net_device_ops_ndo_start_xmit_MJRcheck_def net_device_ops_ndo_do_ioctl_MJRcheck_def
    net_device_ops_ndo_poll_controller_MJRcheck_def proto_ops_ioctl_MJRcheck_def in_context_def
    not_followed_def

lemma structs_routines [routine_safes]:
  "routine_safe (file_operations_llseek_MJRcheck pp)" "routine_safe (file_operations_read_MJRcheck pp)"
  "routine_safe (file_operations_write_MJRcheck pp)" "routine_safe (file_operations_aio_read_MJRcheck pp)"
  "routine_safe (file_operations_aio_write_MJRcheck pp)" "routine_safe (file_operations_readdir_MJRcheck pp)"
  "routine_safe (file_operations_poll_MJRcheck pp)"
  "routine_safe (file_operations_unlocked_ioctl_MJRcheck pp)"
  "routine_safe (file_operations_compat_ioctl_MJRcheck pp)" "routine_safe (file_operations_mmap_MJRcheck pp)"
  "routine_safe (file_operations_open_MJRcheck pp)" "routine_safe (file_operations_flush_MJRcheck pp)"
  "routine_safe (file_operations_release_MJRcheck pp)" "routine_safe (file_operations_fsync_MJRcheck pp)"
  "routine_safe (file_operations_aio_fsync_MJRcheck pp)" "routine_safe (file_operations_fasync_MJRcheck pp)"
  "routine_safe (file_operations_lock_MJRcheck pp)" "routine_safe (file_operations_sendpage_MJRcheck pp)"
  "routine_safe (file_operations_get_unmapped_area_MJRcheck pp)"
  "routine_safe (file_operations_MJRcheck_flags_MJRcheck pp)"
  "routine_safe (file_operations_flock_MJRcheck pp)"
  "routine_safe (file_operations_splice_write_MJRcheck pp)"
  "routine_safe (file_operations_splice_read_MJRcheck pp)"
  "routine_safe (file_operations_setlease_MJRcheck pp)"
  "routine_safe (file_operations_fallocate_MJRcheck pp)"
  "routine_safe (vm_operations_struct_open_MJRcheck pp)"
  "routine_safe (vm_operations_struct_close_MJRcheck pp)"
  "routine_safe (vm_operations_struct_fault_MJRcheck pp)"
  "routine_safe (vm_operations_struct_page_mkwrite_MJRcheck pp)"
  "routine_safe (vm_operations_struct_access_MJRcheck pp)" "routine_safe (bus_type_match_MJRcheck pp)"
  "routine_safe (bus_type_uevent_MJRcheck pp)" "routine_safe (bus_type_probe_MJRcheck pp)"
  "routine_safe (bus_type_remove_MJRcheck pp)" "routine_safe (bus_type_shutdown_MJRcheck pp)"
  "routine_safe (bus_type_suspend_MJRcheck pp)" "routine_safe (bus_type_resume_MJRcheck pp)"
  "routine_safe (pci_driver_remove_MJRcheck pp)" "routine_safe (pci_driver_suspend_MJRcheck pp)"
  "routine_safe (pci_driver_suspend_late_MJRcheck pp)" "routine_safe (pci_driver_resume_early_MJRcheck pp)"
  "routine_safe (pci_driver_resume_MJRcheck pp)" "routine_safe (pci_driver_shutdown_MJRcheck pp)"
  "routine_safe (usb_driver_unlocked_ioctl_MJRcheck pp)" "routine_safe (usb_driver_suspend_MJRcheck pp)"
  "routine_safe (usb_driver_resume_MJRcheck pp)" "routine_safe (usb_driver_reset_resume_MJRcheck pp)"
  "routine_safe (usb_driver_pre_reset_MJRcheck pp)" "routine_safe (usb_driver_post_reset_MJRcheck pp)"
  "routine_safe (i2c_driver_attach_adapter_MJRcheck pp)"
  "routine_safe (i2c_driver_detach_adapter_MJRcheck pp)" "routine_safe (i2c_driver_remove_MJRcheck pp)"
  "routine_safe (i2c_driver_shutdown_MJRcheck pp)" "routine_safe (i2c_driver_suspend_MJRcheck pp)"
  "routine_safe (i2c_driver_resume_MJRcheck pp)" "routine_safe (i2c_driver_alert_MJRcheck pp)"
  "routine_safe (i2c_driver_command_MJRcheck pp)" "routine_safe (platform_driver_remove_MJRcheck pp)"
  "routine_safe (platform_driver_shutdown_MJRcheck pp)" "routine_safe (platform_driver_suspend_MJRcheck pp)"
  "routine_safe (platform_driver_resume_MJRcheck pp)" "routine_safe (spi_driver_remove_MJRcheck pp)"
  "routine_safe (spi_driver_shutdown_MJRcheck pp)" "routine_safe (spi_driver_suspend_MJRcheck pp)"
  "routine_safe (spi_driver_resume_MJRcheck pp)" "routine_safe (net_device_ops_ndo_init_MJRcheck pp)"
  "routine_safe (net_device_ops_ndo_uninit_MJRcheck pp)"
  "routine_safe (net_device_ops_ndo_select_queue_MJRcheck pp)"
  "routine_safe (net_device_ops_ndo_change_rx_flags_MJRcheck pp)"
  "routine_safe (net_device_ops_ndo_set_rx_mode_MJRcheck pp)"
  "routine_safe (net_device_ops_ndo_set_multicast_list_MJRcheck pp)"
  "routine_safe (net_device_ops_ndo_set_mac_address_MJRcheck pp)"
  "routine_safe (net_device_ops_ndo_validate_addr_MJRcheck pp)"
  "routine_safe (net_device_ops_ndo_set_config_MJRcheck pp)"
  "routine_safe (net_device_ops_ndo_change_mtu_MJRcheck pp)"
  "routine_safe (net_device_ops_ndo_neigh_setup_MJRcheck pp)"
  "routine_safe (net_device_ops_ndo_tx_timeout_MJRcheck pp)"
  "routine_safe (net_device_ops_ndo_get_stats64_MJRcheck pp)"
  "routine_safe (net_device_ops_ndo_get_stats_MJRcheck pp)"
  "routine_safe (net_device_ops_ndo_vlan_rx_add_vid_MJRcheck pp)"
  "routine_safe (net_device_ops_ndo_vlan_rx_kill_vid_MJRcheck pp)"
  "routine_safe (timer_list_function_MJRcheck pp)" "routine_safe (pci_driver_probe_MJRcheck pp m dev)"
  "routine_safe (usb_driver_probe_MJRcheck pp m)" "routine_safe (usb_driver_disconnect_MJRcheck pp)"
  "routine_safe (i2c_driver_probe_MJRcheck pp m x)" "routine_safe (platform_driver_probe_MJRcheck pp m)"
  "routine_safe (spi_driver_probe_MJRcheck pp m)" "routine_safe (net_device_ops_ndo_open_MJRcheck pp m nd)"
  "routine_safe (net_device_ops_ndo_stop_MJRcheck pp nd)"
  "routine_safe (net_device_ops_ndo_start_xmit_MJRcheck fn pp m skb nd)"
  "routine_safe (net_device_ops_ndo_do_ioctl_MJRcheck pp m n)"
  "routine_safe (net_device_ops_ndo_poll_controller_MJRcheck pp m)"
  "routine_safe (proto_ops_ioctl_MJRcheck pp i j)"
  unfolding structs_defs Let_def
  by (intro safe_rules)+

lemmas lock_set_up_defs =
  u2_raw_spin_lock_init_MJRcheck_def u2_mutex_init_MJRcheck_def mutex_init_MJRcheck_def
    u2_init_rwsem_MJRcheck_def u2_rwlock_init_MJRcheck_def up_write_MJRcheck_def up_read_MJRcheck_def
    down_write_MJRcheck_def down_read_MJRcheck_def

lemma lock_set_up_routines [routine_safes]:
  "routine_safe (u2_raw_spin_lock_init_MJRcheck fn pp x)" "routine_safe (u2_mutex_init_MJRcheck fn pp x)"
  "routine_safe (mutex_init_MJRcheck fn pp x)" "routine_safe (u2_init_rwsem_MJRcheck fn pp x)"
  "routine_safe (u2_rwlock_init_MJRcheck fn pp x)" "routine_safe (up_write_MJRcheck pp)"
  "routine_safe (up_read_MJRcheck pp)" "routine_safe (down_write_MJRcheck pp)" "routine_safe (down_read_MJRcheck pp)"
  unfolding lock_set_up_defs Let_def
  by (intro safe_rules)+

section \<open>All routines\<close>

text \<open>
  The calls a stub makes, with any arguments, by the file the routine is in. Two of them call the kernel's
  \<open>netif_carrier_on\<close>, a parameter of theirs, which touches none of the framework's variables: its effect on
  them is \<open>skip\<close>.
\<close>

inductive plain_routine :: "('a irq_state_scheme) act \<Rightarrow> bool" where
   "plain_routine (ignore_result (u2_kmalloc_MJRcheck fn pp x y f))"
| "plain_routine (ignore_result (kstrdup_MJRcheck fn pp x f))"
| "plain_routine (ignore_result (kfree_MJRcheck pp q))"
| "plain_routine (ignore_result (vmalloc_MJRcheck fn pp x y))"
| "plain_routine (ignore_result (vfree_MJRcheck pp q))"
| "plain_routine (ignore_result (u2_get_free_pages_MJRcheck fn pp x f))"
| "plain_routine (ignore_result (free_pages_MJRcheck pp x))"
| "plain_routine (ignore_result (dma_alloc_coherent_MJRcheck fn pp x y q))"
| "plain_routine (ignore_result (dma_free_coherent_MJRcheck pp x y z))"
| "plain_routine (ignore_result (dma_alloc_from_coherent_MJRcheck pp))"
| "plain_routine (ignore_result (dma_release_from_coherent_MJRcheck pp))"
| "plain_routine (ignore_result (kfree_skb_MJRcheck pp skb))"
| "plain_routine (ignore_result (u2_netdev_alloc_skb_MJRcheck fn pp skb))"
| "plain_routine (ignore_result (u2_alloc_skb_MJRcheck fn pp skb x f))"
| "plain_routine (ignore_result (dev_alloc_skb_MJRcheck fn pp skb))"
| "plain_routine (ignore_result (dev_kfree_skb_any_MJRcheck pp skb))"
| "plain_routine (ignore_result (consume_skb_MJRcheck pp skb))"
| "plain_routine (ignore_result (skb_dma_map_MJRcheck fn pp skb))"
| "plain_routine (ignore_result (skb_dma_unmap_MJRcheck pp skb))"
| "plain_routine (ignore_result (alloc_etherdev_mqs_MJRcheck fn pp x))"
| "plain_routine (ignore_result (alloc_netdev_mqs_MJRcheck fn pp x))"
| "plain_routine (ignore_result (free_netdev_MJRcheck pp x))"
| "plain_routine (ignore_result (iounmap_MJRcheck pp x))"
| "plain_routine (ignore_result (ioremap_nocache_MJRcheck fn pp x y))"
| "plain_routine (ignore_result (device_register_MJRcheck fn pp m x))"
| "plain_routine (ignore_result (device_unregister_MJRcheck pp x))"
| "plain_routine (ignore_result (u2_request_region_MJRcheck fn pp x y))"
| "plain_routine (ignore_result (u2_release_region_MJRcheck pp x))"
| "plain_routine (ignore_result (usb_alloc_urb_MJRcheck fn pp x))"
| "plain_routine (ignore_result (usb_free_urb_MJRcheck pp q))"
| "plain_routine (ignore_result (usb_control_msg_MJRcheck pp x))"
| "plain_routine (ignore_result (usb_submit_urb_MJRcheck pp u f))"
| "plain_routine (ignore_result (copy_to_user_MJRcheck pp x))"
| "plain_routine (ignore_result (copy_from_user_MJRcheck pp x y))"
| "plain_routine (ignore_result (default_MJRcheck pp))"
| "plain_routine (ignore_result (init_module_MJRcheck pp m))"
| "plain_routine (ignore_result (cleanup_module_MJRcheck pp))"
| "plain_routine (ignore_result (u2_napi_schedule_MJRcheck pp))"
| "plain_routine (ignore_result (netif_rx_MJRcheck pp))"
| "plain_routine (ignore_result (register_netdev_MJRcheck pp m x))"
| "plain_routine (ignore_result (unregister_netdev_MJRcheck pp))"
| "plain_routine (ignore_result (netif_carrier_off_MJRcheck pp))"
| "plain_routine (ignore_result (netif_stop_queue_MJRcheck pp))"
| "plain_routine (ignore_result (netif_napi_add_poll_MJRcheck pp))"
| "plain_routine (ignore_result (napi_struct_poll_MJRcheck pp))"
| "plain_routine (ignore_result (schedule_delayed_work_MJRcheck pp x))"
| "plain_routine (ignore_result (queue_delayed_work_MJRcheck pp x))"
| "plain_routine (ignore_result (schedule_timeout_MJRcheck pp x))"
| "plain_routine (ignore_result (schedule_timeout_uninterruptible_MJRcheck pp x))"
| "plain_routine (ignore_result (mod_timer_MJRcheck pp x))"
| "plain_routine (ignore_result (add_timer_MJRcheck pp q))"
| "plain_routine (ignore_result (usb_deregister_MJRcheck pp))"
| "plain_routine (ignore_result (usb_register_driver_MJRcheck pp m))"
| "plain_routine (ignore_result (misc_register_MJRcheck pp m))"
| "plain_routine (ignore_result (misc_deregister_MJRcheck pp m))"
| "plain_routine (ignore_result (proto_register_MJRcheck pp m))"
| "plain_routine (ignore_result (proto_unregister_MJRcheck pp))"
| "plain_routine (ignore_result (capable_MJRcheck pp b m))"
| "plain_routine (ignore_result (probe_irq_mask_MJRcheck pp f))"
| "plain_routine (ignore_result (probe_irq_off_MJRcheck pp))"
| "plain_routine (ignore_result (request_firmware_MJRcheck pp))"
| "plain_routine (ignore_result (release_firmware_MJRcheck pp))"
| "plain_routine (ignore_result (pci_enable_device_MJRcheck pp m))"
| "plain_routine (ignore_result (pci_enable_device_mem_MJRcheck pp m))"
| "plain_routine (ignore_result (pci_disable_device_MJRcheck pp))"
| "plain_routine (ignore_result (u2_pci_register_driver_MJRcheck pp m x))"
| "plain_routine (ignore_result (pci_unregister_driver_MJRcheck pp))"
| "plain_routine (ignore_result (pci_iomap_MJRcheck pp x y))"
| "plain_routine (ignore_result (pci_iounmap_MJRcheck pp x))"
| "plain_routine (ignore_result (pci_ioremap_bar_MJRcheck fn pp x y))"
| "plain_routine (ignore_result (pci_map_single_MJRcheck fn pp x y))"
| "plain_routine (ignore_result (pci_unmap_single_MJRcheck pp x))"
| "plain_routine (ignore_result (pci_map_page_MJRcheck fn pp x y))"
| "plain_routine (ignore_result (pci_unmap_page_MJRcheck pp x))"
| "plain_routine (ignore_result (pci_bus_read_config_byte_MJRcheck pp x))"
| "plain_routine (ignore_result (pci_bus_read_config_word_MJRcheck pp x))"
| "plain_routine (ignore_result (pci_bus_read_config_dword_MJRcheck pp x))"
| "plain_routine (ignore_result (pci_bus_write_config_byte_MJRcheck pp m))"
| "plain_routine (ignore_result (pci_bus_write_config_word_MJRcheck pp m))"
| "plain_routine (ignore_result (pci_bus_write_config_dword_MJRcheck pp m))"
| "plain_routine (ignore_result (pci_find_capability_MJRcheck pp))"
| "plain_routine (ignore_result (platform_driver_register_MJRcheck pp m))"
| "plain_routine (ignore_result (platform_driver_unregister_MJRcheck pp))"
| "plain_routine (ignore_result (spi_register_driver_MJRcheck pp m))"
| "plain_routine (ignore_result (spi_unregister_driver_MJRcheck pp))"
| "plain_routine (ignore_result (i2c_add_driver_MJRcheck pp m x))"
| "plain_routine (ignore_result (i2c_del_driver_MJRcheck pp))"
| "plain_routine (ignore_result (u2_class_create_MJRcheck fn pp x))"
| "plain_routine (ignore_result (class_destroy_MJRcheck pp x))"
| "plain_routine (ignore_result (device_create_file_MJRcheck fn pp m x))"
| "plain_routine (ignore_result (device_remove_file_MJRcheck pp x))"
| "plain_routine (ignore_result (generic_mii_ioctl_MJRcheck pp))"
| "plain_routine (ignore_result (mii_link_ok_MJRcheck pp m))"
| "plain_routine (ignore_result (mii_check_link_MJRcheck (\<lambda>_. skip) pp q))"
| "plain_routine (ignore_result (mii_check_media_MJRcheck (\<lambda>_. skip) pp q))"
| "plain_routine (ignore_result (gpio_is_valid_MJRcheck pp m n))"
| "plain_routine (ignore_result (gpio_request_MJRcheck pp m n))"
| "plain_routine (ignore_result (gpio_request_one_MJRcheck pp m n))"
| "plain_routine (ignore_result (gpio_request_array_MJRcheck pp m n))"
| "plain_routine (ignore_result (gpio_free_MJRcheck pp))"
| "plain_routine (ignore_result (gpio_free_array_MJRcheck pp))"
| "plain_routine (ignore_result (gpio_direction_input_MJRcheck pp m n))"
| "plain_routine (ignore_result (gpio_direction_output_MJRcheck pp m n))"
| "plain_routine (ignore_result (gpio_set_debounce_MJRcheck pp m n))"
| "plain_routine (ignore_result (gpio_get_value_MJRcheck pp m n))"
| "plain_routine (ignore_result (u2_gpio_get_value_MJRcheck pp m n))"
| "plain_routine (ignore_result (gpio_set_value_MJRcheck pp))"
| "plain_routine (ignore_result (u2_gpio_set_value_MJRcheck pp))"
| "plain_routine (ignore_result (gpio_cansleep_MJRcheck pp m n))"
| "plain_routine (ignore_result (gpio_get_value_cansleep_MJRcheck pp m n))"
| "plain_routine (ignore_result (gpio_set_value_cansleep_MJRcheck pp))"
| "plain_routine (ignore_result (gpio_export_MJRcheck pp m n))"
| "plain_routine (ignore_result (gpio_export_link_MJRcheck pp m n))"
| "plain_routine (ignore_result (gpio_sysfs_set_active_low_MJRcheck pp m n))"
| "plain_routine (ignore_result (gpio_unexport_MJRcheck pp))"
| "plain_routine (ignore_result (gpio_to_irq_MJRcheck pp m))"
| "plain_routine (ignore_result (irq_to_gpio_MJRcheck pp m))"
| "plain_routine (ignore_result (file_operations_llseek_MJRcheck pp))"
| "plain_routine (ignore_result (file_operations_read_MJRcheck pp))"
| "plain_routine (ignore_result (file_operations_write_MJRcheck pp))"
| "plain_routine (ignore_result (file_operations_aio_read_MJRcheck pp))"
| "plain_routine (ignore_result (file_operations_aio_write_MJRcheck pp))"
| "plain_routine (ignore_result (file_operations_readdir_MJRcheck pp))"
| "plain_routine (ignore_result (file_operations_poll_MJRcheck pp))"
| "plain_routine (ignore_result (file_operations_unlocked_ioctl_MJRcheck pp))"
| "plain_routine (ignore_result (file_operations_compat_ioctl_MJRcheck pp))"
| "plain_routine (ignore_result (file_operations_mmap_MJRcheck pp))"
| "plain_routine (ignore_result (file_operations_open_MJRcheck pp))"
| "plain_routine (ignore_result (file_operations_flush_MJRcheck pp))"
| "plain_routine (ignore_result (file_operations_release_MJRcheck pp))"
| "plain_routine (ignore_result (file_operations_fsync_MJRcheck pp))"
| "plain_routine (ignore_result (file_operations_aio_fsync_MJRcheck pp))"
| "plain_routine (ignore_result (file_operations_fasync_MJRcheck pp))"
| "plain_routine (ignore_result (file_operations_lock_MJRcheck pp))"
| "plain_routine (ignore_result (file_operations_sendpage_MJRcheck pp))"
| "plain_routine (ignore_result (file_operations_get_unmapped_area_MJRcheck pp))"
| "plain_routine (ignore_result (file_operations_MJRcheck_flags_MJRcheck pp))"
| "plain_routine (ignore_result (file_operations_flock_MJRcheck pp))"
| "plain_routine (ignore_result (file_operations_splice_write_MJRcheck pp))"
| "plain_routine (ignore_result (file_operations_splice_read_MJRcheck pp))"
| "plain_routine (ignore_result (file_operations_setlease_MJRcheck pp))"
| "plain_routine (ignore_result (file_operations_fallocate_MJRcheck pp))"
| "plain_routine (ignore_result (vm_operations_struct_open_MJRcheck pp))"
| "plain_routine (ignore_result (vm_operations_struct_close_MJRcheck pp))"
| "plain_routine (ignore_result (vm_operations_struct_fault_MJRcheck pp))"
| "plain_routine (ignore_result (vm_operations_struct_page_mkwrite_MJRcheck pp))"
| "plain_routine (ignore_result (vm_operations_struct_access_MJRcheck pp))"
| "plain_routine (ignore_result (bus_type_match_MJRcheck pp))"
| "plain_routine (ignore_result (bus_type_uevent_MJRcheck pp))"
| "plain_routine (ignore_result (bus_type_probe_MJRcheck pp))"
| "plain_routine (ignore_result (bus_type_remove_MJRcheck pp))"
| "plain_routine (ignore_result (bus_type_shutdown_MJRcheck pp))"
| "plain_routine (ignore_result (bus_type_suspend_MJRcheck pp))"
| "plain_routine (ignore_result (bus_type_resume_MJRcheck pp))"
| "plain_routine (ignore_result (pci_driver_remove_MJRcheck pp))"
| "plain_routine (ignore_result (pci_driver_suspend_MJRcheck pp))"
| "plain_routine (ignore_result (pci_driver_suspend_late_MJRcheck pp))"
| "plain_routine (ignore_result (pci_driver_resume_early_MJRcheck pp))"
| "plain_routine (ignore_result (pci_driver_resume_MJRcheck pp))"
| "plain_routine (ignore_result (pci_driver_shutdown_MJRcheck pp))"
| "plain_routine (ignore_result (usb_driver_unlocked_ioctl_MJRcheck pp))"
| "plain_routine (ignore_result (usb_driver_suspend_MJRcheck pp))"
| "plain_routine (ignore_result (usb_driver_resume_MJRcheck pp))"
| "plain_routine (ignore_result (usb_driver_reset_resume_MJRcheck pp))"
| "plain_routine (ignore_result (usb_driver_pre_reset_MJRcheck pp))"
| "plain_routine (ignore_result (usb_driver_post_reset_MJRcheck pp))"
| "plain_routine (ignore_result (i2c_driver_attach_adapter_MJRcheck pp))"
| "plain_routine (ignore_result (i2c_driver_detach_adapter_MJRcheck pp))"
| "plain_routine (ignore_result (i2c_driver_remove_MJRcheck pp))"
| "plain_routine (ignore_result (i2c_driver_shutdown_MJRcheck pp))"
| "plain_routine (ignore_result (i2c_driver_suspend_MJRcheck pp))"
| "plain_routine (ignore_result (i2c_driver_resume_MJRcheck pp))"
| "plain_routine (ignore_result (i2c_driver_alert_MJRcheck pp))"
| "plain_routine (ignore_result (i2c_driver_command_MJRcheck pp))"
| "plain_routine (ignore_result (platform_driver_remove_MJRcheck pp))"
| "plain_routine (ignore_result (platform_driver_shutdown_MJRcheck pp))"
| "plain_routine (ignore_result (platform_driver_suspend_MJRcheck pp))"
| "plain_routine (ignore_result (platform_driver_resume_MJRcheck pp))"
| "plain_routine (ignore_result (spi_driver_remove_MJRcheck pp))"
| "plain_routine (ignore_result (spi_driver_shutdown_MJRcheck pp))"
| "plain_routine (ignore_result (spi_driver_suspend_MJRcheck pp))"
| "plain_routine (ignore_result (spi_driver_resume_MJRcheck pp))"
| "plain_routine (ignore_result (net_device_ops_ndo_init_MJRcheck pp))"
| "plain_routine (ignore_result (net_device_ops_ndo_uninit_MJRcheck pp))"
| "plain_routine (ignore_result (net_device_ops_ndo_select_queue_MJRcheck pp))"
| "plain_routine (ignore_result (net_device_ops_ndo_change_rx_flags_MJRcheck pp))"
| "plain_routine (ignore_result (net_device_ops_ndo_set_rx_mode_MJRcheck pp))"
| "plain_routine (ignore_result (net_device_ops_ndo_set_multicast_list_MJRcheck pp))"
| "plain_routine (ignore_result (net_device_ops_ndo_set_mac_address_MJRcheck pp))"
| "plain_routine (ignore_result (net_device_ops_ndo_validate_addr_MJRcheck pp))"
| "plain_routine (ignore_result (net_device_ops_ndo_set_config_MJRcheck pp))"
| "plain_routine (ignore_result (net_device_ops_ndo_change_mtu_MJRcheck pp))"
| "plain_routine (ignore_result (net_device_ops_ndo_neigh_setup_MJRcheck pp))"
| "plain_routine (ignore_result (net_device_ops_ndo_tx_timeout_MJRcheck pp))"
| "plain_routine (ignore_result (net_device_ops_ndo_get_stats64_MJRcheck pp))"
| "plain_routine (ignore_result (net_device_ops_ndo_get_stats_MJRcheck pp))"
| "plain_routine (ignore_result (net_device_ops_ndo_vlan_rx_add_vid_MJRcheck pp))"
| "plain_routine (ignore_result (net_device_ops_ndo_vlan_rx_kill_vid_MJRcheck pp))"
| "plain_routine (ignore_result (timer_list_function_MJRcheck pp))"
| "plain_routine (ignore_result (pci_driver_probe_MJRcheck pp m dev))"
| "plain_routine (ignore_result (usb_driver_probe_MJRcheck pp m))"
| "plain_routine (ignore_result (usb_driver_disconnect_MJRcheck pp))"
| "plain_routine (ignore_result (i2c_driver_probe_MJRcheck pp m x))"
| "plain_routine (ignore_result (platform_driver_probe_MJRcheck pp m))"
| "plain_routine (ignore_result (spi_driver_probe_MJRcheck pp m))"
| "plain_routine (ignore_result (net_device_ops_ndo_open_MJRcheck pp m nd))"
| "plain_routine (ignore_result (net_device_ops_ndo_stop_MJRcheck pp nd))"
| "plain_routine (ignore_result (net_device_ops_ndo_start_xmit_MJRcheck fn pp m skb nd))"
| "plain_routine (ignore_result (net_device_ops_ndo_do_ioctl_MJRcheck pp m n))"
| "plain_routine (ignore_result (net_device_ops_ndo_poll_controller_MJRcheck pp m))"
| "plain_routine (ignore_result (proto_ops_ioctl_MJRcheck pp i j))"
| "plain_routine (ignore_result (u2_raw_spin_lock_init_MJRcheck fn pp x))"
| "plain_routine (ignore_result (u2_mutex_init_MJRcheck fn pp x))"
| "plain_routine (ignore_result (mutex_init_MJRcheck fn pp x))"
| "plain_routine (ignore_result (u2_init_rwsem_MJRcheck fn pp x))"
| "plain_routine (ignore_result (u2_rwlock_init_MJRcheck fn pp x))"
| "plain_routine (ignore_result (up_write_MJRcheck pp))"
| "plain_routine (ignore_result (up_read_MJRcheck pp))"
| "plain_routine (ignore_result (down_write_MJRcheck pp))"
| "plain_routine (ignore_result (down_read_MJRcheck pp))"

text \<open>The routines of interrupts, which move the table of interrupts too.\<close>

inductive irq_routine :: "('a irq_state_scheme) act \<Rightarrow> bool" where
   "irq_routine (ignore_result (request_threaded_irq_MJRcheck pp m iq x y nm z))"
| "irq_routine (ignore_result (free_irq_MJRcheck pp f x))"
| "irq_routine (ignore_result (enable_irq_MJRcheck pp f))"
| "irq_routine (ignore_result (disable_irq_MJRcheck pp f))"
| "irq_routine (ignore_result (disable_irq_nosync_MJRcheck pp f))"
| "irq_routine (ignore_result (interrupt_handler_MJRcheck pp))"

definition routine :: "('a irq_state_scheme) act \<Rightarrow> bool" where
  "routine a \<longleftrightarrow> plain_routine a \<or> irq_routine a"

lemma plain_is_routine: "plain_routine a \<Longrightarrow> routine a"
  by (simp add: routine_def)

lemma irq_is_routine: "irq_routine a \<Longrightarrow> routine a"
  by (simp add: routine_def)

lemmas routine_intros = plain_routine.intros [THEN plain_is_routine] irq_routine.intros [THEN irq_is_routine]

lemma safe_ignore_check:
  fixes c :: "('a irq_state_scheme) check"
  assumes c: "routine_safe c"
  shows "safe tf_inv (ignore_result c)"
proof (rule safeI)
  fix s :: "'a irq_state_scheme" assume s: "tf_inv s"
  with c show "case ignore_result c s of Inl e \<Rightarrow> ends_well e | Inr t \<Rightarrow> tf_inv t"
    by (cases "c s") (auto simp: routine_safe_def ignore_result_def)
qed

lemma safe_ignore_out:
  fixes c :: "(int \<times> 'v, 'a irq_state_scheme) prog"
  assumes c: "out_safe c"
  shows "safe tf_inv (ignore_result c)"
proof (rule safeI)
  fix s :: "'a irq_state_scheme" assume s: "tf_inv s"
  with c show "case ignore_result c s of Inl e \<Rightarrow> ends_well e | Inr t \<Rightarrow> tf_inv t"
    by (cases "c s") (auto simp: out_safe_def ignore_result_def)
qed

lemmas irq_routine_safes [routine_safes] = request_threaded_irq_safe free_irq_safe enable_irq_safe
  disable_interrupt_safe interrupt_handler_safe

lemma plain_routine_keeps: "plain_routine a \<Longrightarrow> safe tf_inv a"
  by (induction rule: plain_routine.induct)
    (rule safe_ignore_check routine_safes | rule safe_ignore_out routine_safes)+

lemma irq_routine_keeps: "irq_routine a \<Longrightarrow> safe tf_inv a"
  by (induction rule: irq_routine.induct)
    (unfold disable_irq_MJRcheck_def disable_irq_nosync_MJRcheck_def, (rule safe_ignore_check routine_safes)+)

lemma routine_keeps: "routine a \<Longrightarrow> safe tf_inv a"
  using plain_routine_keeps irq_routine_keeps by (auto simp: routine_def)

text \<open>
  The lock routines: the call after the kernel function needs a lock that is tracked, or the tracker
  would never stop looking for it.
\<close>

inductive lock_routine :: "int \<Rightarrow> ulong \<Rightarrow> ('a irq_state_scheme) act \<Rightarrow> bool" where
  "lock_routine prepost lock (ignore_result (u1_raw_spin_lock_MJRcheck fn prepost lockp lock))"
| "lock_routine prepost lock (ignore_result (u1_raw_spin_lock_bh_MJRcheck fn prepost lockp lock))"
| "lock_routine prepost lock (ignore_result (u1_raw_spin_lock_irqsave_MJRcheck fn prepost lockp lock))"
| "lock_routine prepost lock (ignore_result (u1_raw_spin_lock_irq_MJRcheck fn prepost lockp lock))"
| "lock_routine prepost lock (ignore_result (u1_raw_spin_unlock_MJRcheck fn prepost lockp lock))"
| "lock_routine prepost lock (ignore_result (u1_raw_spin_unlock_bh_MJRcheck fn prepost lockp lock))"
| "lock_routine prepost lock (ignore_result (u1_raw_spin_unlock_irqrestore_MJRcheck fn prepost lockp lock))"
| "lock_routine prepost lock (ignore_result (u1_raw_spin_unlock_irq_MJRcheck fn prepost lockp lock))"
| lock_try: "lock_routine prepost lock (ignore_result (u1_raw_spin_trylock_MJRcheck fn prepost retval lockp lock))"
| "lock_routine prepost lock (ignore_result (mutex_lock_nested_MJRcheck fn prepost lockp lock))"
| "lock_routine prepost lock (ignore_result (mutex_lock_interruptible_nested_MJRcheck fn prepost retval lockp lock))"
| "lock_routine prepost lock (ignore_result (mutex_lock_killable_nested_MJRcheck fn prepost retval lockp lock))"
| "lock_routine prepost lock (ignore_result (mutex_unlock_MJRcheck fn prepost lockp lock))"
| "lock_routine prepost lock (ignore_result (u1_write_lock_irq_MJRcheck fn prepost lockp lock))"
| "lock_routine prepost lock (ignore_result (u1_write_unlock_irq_MJRcheck fn prepost lockp lock))"
| "lock_routine prepost lock (ignore_result (u1_read_lock_irq_MJRcheck fn prepost lockp lock))"
| "lock_routine prepost lock (ignore_result (u1_read_unlock_irq_MJRcheck fn prepost lockp lock))"
| "lock_routine prepost lock (ignore_result (u1_read_lock_MJRcheck fn prepost lockp lock))"
| "lock_routine prepost lock (ignore_result (u1_read_unlock_MJRcheck fn prepost lockp lock))"
| "lock_routine prepost lock (ignore_result (u1_write_lock_irqsave_MJRcheck fn prepost lockp lock))"
| "lock_routine prepost lock (ignore_result (u1_write_unlock_irqrestore_MJRcheck fn prepost lockp lock))"
| "lock_routine prepost lock (ignore_result (u1_read_lock_irqsave_MJRcheck fn prepost lockp lock))"
| "lock_routine prepost lock (ignore_result (u1_read_unlock_irqrestore_MJRcheck fn prepost lockp lock))"

lemma routine_safe_lock_pre [routine_safes]:
  "routine_safe (check_routine 0 (block [tfassert P m, generic_lock_state fn 0 lock org lt d]))"
  by (intro safe_rules)

lemma lock_body_safe:
  assumes s: "tf_inv s" and pp: "pp = 0 \<or> tracked s (objs_key lock) \<noteq> None"
  shows "case ignore_result (check_routine 0 (block [tfassert P m, generic_lock_state fn pp lock org lt d])) s of
    Inl e \<Rightarrow> ends_well e | Inr t \<Rightarrow> tf_inv t"
proof -
  let ?s = "s\<lparr>global_lock := True, global_lock_acquired := 1\<rparr>"
  have i: "in_check ?s" by (rule in_check_acquire [OF s])
  have u: "unlocked s" using s by (simp add: tf_inv_def)
  have "case generic_lock_state fn pp lock org lt d ?s of Inl e \<Rightarrow> ends_well e | Inr t \<Rightarrow> in_check t"
  proof (cases "pp = 0")
    case True
    then show ?thesis using safeD [OF safe_generic_lock_state_pre i] by simp
  next
    case False
    then have "tracked ?s (objs_key lock) \<noteq> None" using pp by (simp add: tracked_def)
    then show ?thesis by (rule generic_lock_state_post [OF i])
  qed
  then have b: "case block [tfassert P m, generic_lock_state fn pp lock org lt d] ?s of
      Inl e \<Rightarrow> ends_well e | Inr t \<Rightarrow> in_check t"
    using in_check_fail [OF i] by (simp add: tfassert_def)
  show ?thesis
  proof (cases "block [tfassert P m, generic_lock_state fn pp lock org lt d] ?s")
    case (Inl e)
    then show ?thesis using b by (simp add: ignore_result_def check_routine_run [OF u] del: block.simps)
  next
    case (Inr t)
    with b have t: "in_check t" by (simp del: block.simps)
    then have "global_lock_acquired t = 1" by (simp add: in_check_def locked_def)
    then show ?thesis using Inr tf_inv_release [OF t]
      by (simp add: ignore_result_def check_routine_run [OF u] release_locked del: block.simps)
  qed
qed

lemmas lock_routine_defs =
  u1_raw_spin_trylock_MJRcheck_def u1_raw_spin_lock_MJRcheck_def u1_raw_spin_lock_bh_MJRcheck_def
  u1_raw_spin_lock_irqsave_MJRcheck_def u1_raw_spin_lock_irq_MJRcheck_def u1_raw_spin_unlock_MJRcheck_def
  u1_raw_spin_unlock_bh_MJRcheck_def u1_raw_spin_unlock_irqrestore_MJRcheck_def
  u1_raw_spin_unlock_irq_MJRcheck_def mutex_lock_nested_MJRcheck_def
  mutex_lock_interruptible_nested_MJRcheck_def mutex_lock_killable_nested_MJRcheck_def mutex_unlock_MJRcheck_def
  u1_write_lock_irq_MJRcheck_def u1_write_unlock_irq_MJRcheck_def u1_read_lock_irq_MJRcheck_def
  u1_read_unlock_irq_MJRcheck_def u1_read_lock_MJRcheck_def u1_read_unlock_MJRcheck_def
  u1_write_lock_irqsave_MJRcheck_def u1_write_unlock_irqrestore_MJRcheck_def u1_read_lock_irqsave_MJRcheck_def
  u1_read_unlock_irqrestore_MJRcheck_def

lemma lock_routine_keeps:
  "lock_routine pp lock a \<Longrightarrow> tf_inv s \<Longrightarrow> pp = 0 \<or> tracked s (objs_key lock) \<noteq> None \<Longrightarrow>
   case a s of Inl e \<Rightarrow> ends_well e | Inr t \<Rightarrow> tf_inv t"
proof (induction rule: lock_routine.induct)
  case (lock_try prepost lock fn retval lockp)
  show ?case
  proof (cases "prepost = 1 \<and> retval \<noteq> 0")
    case True
    then show ?thesis unfolding u1_raw_spin_trylock_MJRcheck_def if_P [OF True]
      by (intro lock_body_safe lock_try.prems)
  next
    case False
    have "routine_safe (u1_raw_spin_trylock_MJRcheck fn prepost retval lockp lock :: ('a irq_state_scheme) check)"
      unfolding u1_raw_spin_trylock_MJRcheck_def if_not_P [OF False] by (intro safe_rules)
    from safeD [OF safe_ignore_check [OF this] lock_try.prems(1)] show ?thesis .
  qed
qed (simp_all only: lock_routine_defs lock_body_safe)

section \<open>Runs\<close>

inductive check_step :: "'a irq_state_scheme \<Rightarrow> 'a irq_state_scheme \<Rightarrow> bool" where
  step_routine: "routine a \<Longrightarrow> a s = Inr t \<Longrightarrow> check_step s t"
| step_lock: "lock_routine pp lock a \<Longrightarrow> pp = 0 \<or> tracked s (objs_key lock) \<noteq> None \<Longrightarrow> a s = Inr t \<Longrightarrow>
    check_step s t"

lemma check_step_keeps: "check_step s t \<Longrightarrow> tf_inv s \<Longrightarrow> tf_inv t"
proof (induction rule: check_step.induct)
  case (step_routine a s t)
  then show ?case using safe_Inr [OF routine_keeps] by blast
next
  case (step_lock pp lock a s t)
  from lock_routine_keeps [OF step_lock.hyps(1) step_lock.prems step_lock.hyps(2)] step_lock.hyps(3)
  show ?case by simp
qed

lemma reachable_keeps: "check_step\<^sup>*\<^sup>* s t \<Longrightarrow> tf_inv s \<Longrightarrow> tf_inv t"
  by (induction rule: rtranclp_induct) (auto intro: check_step_keeps)

end
