(* ===== verification/Module_Init.thy ===== *)
theory Module_Init
  imports Function_Tracker Check_Safety
begin

text \<open>
  Loading and unloading the module, the part of \<open>init_module.c\<close> that every platform runs:
  \<open>init_common\<close> sets up each component, and \<open>cleanup_common\<close> takes them down in reverse order.
  An error code makes the kernel panic. The line numbers of its own calls are written 0.

  \<open>unloaded\<close> describes the state the module starts from, with every static variable at its initial
  value. The state \<open>loading\<close> is a concrete one of that kind.
\<close>

section \<open>State\<close>

definition MAX_TRACKPERF :: nat where "MAX_TRACKPERF = 10"
definition SYMDRIVE_TRACKPERF_IRQ_NONE :: int where "SYMDRIVE_TRACKPERF_IRQ_NONE = 1000"
definition SYMDRIVE_TRACKPERF_IRQ_ONLY_CALLED :: int where "SYMDRIVE_TRACKPERF_IRQ_ONLY_CALLED = 1001"
definition SYMDRIVE_TRACKPERF_IRQ_ALL :: int where "SYMDRIVE_TRACKPERF_IRQ_ALL = 1002"

record mod_state = ft_state +
  g_sym_primary_fn :: string
  g_sym_enable_tracing :: int
  g_sym_num_trackperf_fn :: int
  g_sym_trackperf_fn :: "string list"
  g_sym_num_trackperf_fn_flags :: int
  g_sym_trackperf_fn_flags :: "int list"
  g_sym_trackperf_irq :: int

section \<open>Operations\<close>

definition must_succeed :: "string \<Rightarrow> 's check \<Rightarrow> 's act" where
  "must_succeed msg c = with_result c (\<lambda>retval. if retval \<noteq> 0 then fail (Panic msg) else skip)"

definition track_function :: "nat \<Rightarrow> ('a mod_state_scheme) act" where
  "track_function i = with_state (\<lambda>s. case load_at (int i) (g_sym_trackperf_fn_flags s) of
       None \<Rightarrow> fail Out_Of_Bounds
     | Some flag \<Rightarrow>
         if flag \<noteq> 0 \<and> flag \<noteq> 1 then fail (Panic ''Specify 0 (non transitive) or 1 (transitive)'')
         else (case load_at (int i) (g_sym_trackperf_fn s) of
             None \<Rightarrow> fail Out_Of_Bounds
           | Some name \<Rightarrow> s2e (S2E_trackperf_fn 0 name flag)))"

definition init_trackperf :: "('a mod_state_scheme) act" where
  "init_trackperf = block
    [cond (\<lambda>s. g_sym_num_trackperf_fn s \<noteq> g_sym_num_trackperf_fn_flags s)
       (fail (Panic ''should equal g_sym_num_trackperf'')) skip,
     with_state (\<lambda>s. block (map track_function [0..<nat (g_sym_num_trackperf_fn s)])),
     with_state (\<lambda>s.
       if g_sym_trackperf_irq s = SYMDRIVE_TRACKPERF_IRQ_ALL then
         s2e (S2E_enable_trackperf SYMDRIVE_TRACKPERF_IRQ_ALL)
       else if g_sym_trackperf_irq s = SYMDRIVE_TRACKPERF_IRQ_ONLY_CALLED then
         s2e (S2E_enable_trackperf SYMDRIVE_TRACKPERF_IRQ_ONLY_CALLED)
       else if g_sym_trackperf_irq s = SYMDRIVE_TRACKPERF_IRQ_NONE then
         s2e (S2E_enable_trackperf SYMDRIVE_TRACKPERF_IRQ_NONE)
       else fail (Panic ''Specify SYMDRIVE_TRACKPERF_IRQ_*''))]"

definition init_common :: "('a mod_state_scheme) act" where
  "init_common = block
    [must_succeed ''Failed initializing global lock'' initialize_global_lock,
     must_succeed ''Failed initializing function tracker'' initialize_function_tracker,
     must_succeed ''Failed initializing test framework 1'' initialize_driver_state,
     must_succeed ''Failed initializing test framework 2'' initialize_irqs,
     must_succeed ''Failed initializing test framework 3'' initialize_enter_exit,
     onlyif (\<lambda>s. g_sym_enable_tracing s \<noteq> 0) (s2e (S2E_enable_tracing 0)),
     with_state (\<lambda>s. s2e (S2E_primary_fn 0 (g_sym_starting_fn s))),
     with_state (\<lambda>s. s2e (S2E_primary_fn 0 (g_sym_primary_fn s))),
     init_trackperf]"

definition free_global_lock :: "'s act" where
  "free_global_lock = skip"

definition cleanup_common :: "('a mod_state_scheme) act" where
  "cleanup_common = block
    [onlyif (\<lambda>s. g_sym_enable_tracing s \<noteq> 0) (s2e (S2E_disable_tracing 0)),
     free_enter_exit,
     free_irqs,
     ignore_result free_driver_state,
     free_function_tracker,
     free_global_lock]"

section \<open>Each component comes up\<close>

definition set_up :: "(hkey, hvalue) hashtable \<Rightarrow> 'a test_state_scheme \<Rightarrow> 'a test_state_scheme" where
  "set_up h s = s\<lparr>kmalloc_calls := Suc (Suc (kmalloc_calls s)),
      blocking_context := replicate MAX_NESTING BLOCKING_UNDEFINED, blocking_context_current := 0,
      user_context := replicate MAX_NESTING USER_UNDEFINED, user_context_current := 0,
      device_irq_disabled := 0, objs := Some h, objs_dirty := 0, pci_driver_state := zero_pci_driver_state,
      usb_driver_state := zero_driver_state, misc_driver_state := zero_driver_state,
      proto_ops_state := zero_driver_state, i2c_driver_state := zero_driver_state,
      platform_driver_state := zero_driver_state, spi_driver_state := zero_driver_state,
      ndo_driver_state := zero_ndo_driver_state, sound_driver_state := \<lparr>sound = 0\<rparr>\<rparr>"

lemma initialize_driver_state_run:
  assumes "net (ndo_driver_state s) = 0" and "sound (sound_driver_state s) = 0"
    and mem: "kmalloc_ok s (kmalloc_calls s)" "kmalloc_ok s (Suc (kmalloc_calls s))"
  shows "\<exists>h. create_hashtable True True 16 hash_from_key_fn (=) = Some h \<and>
    initialize_driver_state s = Inr (0, set_up h s)"
proof -
  have "create_hashtable True True 16 hash_from_key_fn (=) \<noteq> (None :: (hkey, hvalue) hashtable option)"
    by (simp add: create_hashtable_def primes_def prime_table_length_def)
  then obtain h :: "(hkey, hvalue) hashtable" where h: "create_hashtable True True 16 hash_from_key_fn (=) = Some h"
    by blast
  have c: "get_driver_class t = Inr DRIVER_UNKNOWN_CLASS"
    if "net (ndo_driver_state t) = 0" "sound (sound_driver_state t) = 0" for t :: "'a test_state_scheme"
    using that by (simp add: get_driver_class_def tfassert_def)
  have r: "(replicate n x)[0 := x] = replicate n x" for n and x :: 'b by (cases n) simp_all
  have "initialize_driver_state s = Inr (0, set_up h s)"
    using assms
    by (simp add: initialize_driver_state_def returning_def objs_create_def hash_keys_equal_fn_eq h set_driver_class_def
        reading_def c init_driver_bus_def set_blocking_state_def set_user_state_def tfassert_def set_up_def r)
  with h show ?thesis by blast
qed

lemma set_up_spec:
  assumes h: "create_hashtable True True 16 hash_from_key_fn (=) = Some h" and nc: "ioctl_capable_retval s = NOT_CALLED"
  shows "core_inv (set_up h s)" and "tracked (set_up h s) = Map.empty" and "bus_set (set_up h s) = {}"
    and "blocking_stack (set_up h s) = [BLOCKING_UNDEFINED]" and "user_stack (set_up h s) = [USER_UNDEFINED]"
proof -
  note hs = create_hashtable_spec(1,2) [OF h]
  have tr: "tracker_ok (set_up h s)"
    using hs by (simp add: set_up_def tracker_ok_def table_ok_def ran_def)
  have ctx: "blocking_ok (set_up h s)" "user_ok (set_up h s)"
    by (simp_all add: set_up_def blocking_ok_def user_ok_def stack_ok_def MAX_NESTING_def)
  have "flags_ok (set_up h s)" "class_ok (set_up h s)"
    by (simp_all add: set_up_def flags_ok_def all_buses_def flag_of_simps class_ok_def zero_pci_driver_state_def
        zero_driver_state_def zero_ndo_driver_state_def)
  moreover have "ioctl_capable_retval (set_up h s) = NOT_CALLED" using nc by (simp add: set_up_def)
  ultimately show "core_inv (set_up h s)" using tr ctx by (simp add: core_inv_def)
  show "tracked (set_up h s) = Map.empty" using hs by (simp add: set_up_def tracked_def)
  show "bus_set (set_up h s) = {}"
    by (simp add: set_up_def flag_of_def bus_set_def zero_pci_driver_state_def zero_driver_state_def)
  show "blocking_stack (set_up h s) = [BLOCKING_UNDEFINED]" and "user_stack (set_up h s) = [USER_UNDEFINED]"
    by (simp_all add: set_up_def blocking_stack_def user_stack_def live_def MAX_NESTING_def numeral_eq_Suc)
qed

lemma reset_slots:
  "m \<le> length (sym_irq s) \<Longrightarrow>
   block (map reset_one [0..<m]) s = Inr (s\<lparr>sym_irq := replicate m free_slot @ drop m (sym_irq s)\<rparr>)"
proof (induction m)
  case 0
  then show ?case by simp
next
  case (Suc m)
  from Suc.prems obtain q where q: "drop m (sym_irq s) = q # drop (Suc m) (sym_irq s)"
    by (metis Cons_nth_drop_Suc Suc_le_lessD)
  have "(replicate m free_slot @ drop m (sym_irq s))[m := free_slot] =
      replicate (Suc m) free_slot @ drop (Suc m) (sym_irq s)"
    by (simp add: q list_update_append replicate_append_same)
  then show ?case using Suc by (simp add: block_append reset_one_def)
qed

definition irq_reset :: "'a irq_state_scheme \<Rightarrow> 'a irq_state_scheme" where
  "irq_reset s = s\<lparr>sym_irq := replicate MAX_IRQS free_slot, sym_irq_ongoing := 0, sym_irq_lines := Some (\<lambda>_. 0),
     sym_num_requests := 0\<rparr>"

lemma irq_reset_state_run:
  assumes "length (sym_irq s) = MAX_IRQS" and "sym_irq_lines s \<noteq> None"
  shows "irq_reset_state s = Inr (irq_reset s)"
  using assms reset_slots [of MAX_IRQS s]
  by (simp add: irq_reset_state_def irq_reset_def tfassert_def)

lemma irq_reset_ok: "irq_ok (irq_reset s)"
  by (simp add: irq_ok_def irq_reset_def free_slot_def)

lemma initialize_irqs_run:
  assumes "length (sym_irq s) = MAX_IRQS" and "kmalloc_ok s (kmalloc_calls s)"
  shows "initialize_irqs s = Inr (0, irq_reset (s\<lparr>kmalloc_calls := Suc (kmalloc_calls s)\<rparr>))"
proof -
  let ?s = "s\<lparr>kmalloc_calls := Suc (kmalloc_calls s), sym_irq_lines := Some (\<lambda>_. 0)\<rparr>"
  have "irq_reset_state ?s = Inr (irq_reset ?s)" by (rule irq_reset_state_run) (use assms in simp_all)
  moreover have "irq_reset ?s = irq_reset (s\<lparr>kmalloc_calls := Suc (kmalloc_calls s)\<rparr>)"
    by (simp add: irq_reset_def)
  ultimately show ?thesis using assms(2)
    by (simp add: initialize_irqs_def returning_def with_result_def mjr_kmalloc_def tfassert_def)
qed

lemma initialize_enter_exit_run:
  assumes "\<forall>n. kmalloc_ok s n"
  shows "initialize_enter_exit s = Inr (0, s\<lparr>kmalloc_calls := Suc (Suc (kmalloc_calls s)), call_stack_buffer1 := True,
    call_stack_buffer2 := True\<rparr>)"
  using assms by (simp add: initialize_enter_exit_def returning_def with_result_def mjr_kmalloc_def)

lemma initialize_function_tracker_ok:
  assumes "\<forall>n. kmalloc_ok s n"
  shows "\<exists>f. initialize_function_tracker s = Inr (0, s\<lparr>kmalloc_calls := Suc (Suc (kmalloc_calls s)),
      ft_objs := Some f, ft_initialized := 1\<rparr>) \<and> ht_inv f \<and> ht_map f = Map.empty"
proof -
  have eq: "ft_hash_keys_equal_fn = (=)"
    by (auto simp: ft_hash_keys_equal_fn_def fun_eq_iff dest: injD [OF inj_driver_fn_ptr])
  have "create_hashtable True True 16 ft_hash_from_key_fn (=) \<noteq> (None :: (ft_hkey, ft_hvalue) hashtable option)"
    by (simp add: create_hashtable_def primes_def prime_table_length_def)
  then obtain f :: "(ft_hkey, ft_hvalue) hashtable" where f: "create_hashtable True True 16 ft_hash_from_key_fn (=) = Some f"
    by blast
  show ?thesis using assms create_hashtable_spec(1,2) [OF f]
    by (intro exI [of _ f]) (simp add: initialize_function_tracker_def returning_def eq f)
qed

section \<open>Loading\<close>

definition unloaded :: "'a mod_state_scheme \<Rightarrow> bool" where
  "unloaded s \<longleftrightarrow> global_lock_acquired s = 0 \<and> net (ndo_driver_state s) = 0 \<and> sound (sound_driver_state s) = 0 \<and>
     ioctl_capable_retval s = NOT_CALLED \<and> length (sym_irq s) = MAX_IRQS \<and> driver_call_stack s = 0 \<and>
     driver_call_stack_str s = replicate driver_call_stack_max None"

text \<open>The parameters of the performance counters have to fit.\<close>

definition trackperf_ok :: "'a mod_state_scheme \<Rightarrow> bool" where
  "trackperf_ok s \<longleftrightarrow> length (g_sym_trackperf_fn s) = MAX_TRACKPERF \<and>
     length (g_sym_trackperf_fn_flags s) = MAX_TRACKPERF \<and>
     g_sym_num_trackperf_fn s \<in> {0..int MAX_TRACKPERF} \<and>
     g_sym_num_trackperf_fn_flags s = g_sym_num_trackperf_fn s \<and>
     (\<forall>f \<in> set (take (nat (g_sym_num_trackperf_fn s)) (g_sym_trackperf_fn_flags s)). f = 0 \<or> f = 1) \<and>
     g_sym_trackperf_irq s \<in>
       {SYMDRIVE_TRACKPERF_IRQ_ALL, SYMDRIVE_TRACKPERF_IRQ_ONLY_CALLED, SYMDRIVE_TRACKPERF_IRQ_NONE}"

text \<open>What the hypervisor is told about functions to measure.\<close>

definition function_events :: "nat \<Rightarrow> 'a mod_state_scheme \<Rightarrow> s2e_event list" where
  "function_events n s = map2 (S2E_trackperf_fn 0) (take n (g_sym_trackperf_fn s)) (take n (g_sym_trackperf_fn_flags s))"

definition trackperf_events :: "'a mod_state_scheme \<Rightarrow> s2e_event list" where
  "trackperf_events s = function_events (nat (g_sym_num_trackperf_fn s)) s @ [S2E_enable_trackperf (g_sym_trackperf_irq s)]"

lemma function_events_Suc:
  "m < length (g_sym_trackperf_fn s) \<Longrightarrow> m < length (g_sym_trackperf_fn_flags s) \<Longrightarrow>
   function_events (Suc m) s =
     function_events m s @ [S2E_trackperf_fn 0 (g_sym_trackperf_fn s ! m) (g_sym_trackperf_fn_flags s ! m)]"
  by (simp add: function_events_def take_Suc_conv_app_nth)

lemma track_functions_run:
  assumes len: "n \<le> length (g_sym_trackperf_fn s)" "n \<le> length (g_sym_trackperf_fn_flags s)"
    and flag: "\<forall>f \<in> set (take n (g_sym_trackperf_fn_flags s)). f = 0 \<or> f = 1"
  shows "m \<le> n \<Longrightarrow> block (map track_function [0..<m]) s = Inr (s\<lparr>s2e_log := s2e_log s @ function_events m s\<rparr>)"
proof (induction m)
  case 0
  then show ?case by (simp add: function_events_def)
next
  case (Suc m)
  have m: "m < length (g_sym_trackperf_fn s)" "m < length (g_sym_trackperf_fn_flags s)" using Suc.prems len by simp_all
  have "take n (g_sym_trackperf_fn_flags s) ! m \<in> set (take n (g_sym_trackperf_fn_flags s))"
    using Suc.prems len by (intro nth_mem) simp
  then have "g_sym_trackperf_fn_flags s ! m = 0 \<or> g_sym_trackperf_fn_flags s ! m = 1"
    using flag Suc.prems by fastforce
  then show ?case using Suc m
    by (auto simp: block_append track_function_def load_at_def function_events_Suc [OF m])
qed

lemma init_trackperf_run:
  assumes ok: "trackperf_ok s"
  shows "init_trackperf s = Inr (s\<lparr>s2e_log := s2e_log s @ trackperf_events s\<rparr>)"
proof -
  let ?n = "nat (g_sym_num_trackperf_fn s)"
  have "block (map track_function [0..<?n]) s = Inr (s\<lparr>s2e_log := s2e_log s @ function_events ?n s\<rparr>)"
    by (rule track_functions_run [of ?n]) (use ok in \<open>auto simp: trackperf_ok_def\<close>)
  with ok show ?thesis by (auto simp: init_trackperf_def trackperf_ok_def trackperf_events_def)
qed

lemma must_succeed_Cons:
  "c s = Inr (0, t) \<Longrightarrow> block as t = r \<Longrightarrow> block (must_succeed msg c # as) s = r"
  by (simp add: must_succeed_def with_result_def)

text \<open>The hypervisor hears of the trace, the two functions of interest and the counters, in this order.\<close>

definition load_events :: "'a mod_state_scheme \<Rightarrow> s2e_event list" where
  "load_events s = (if g_sym_enable_tracing s \<noteq> 0 then [S2E_enable_tracing 0] else []) @
     [S2E_primary_fn 0 (g_sym_starting_fn s), S2E_primary_fn 0 (g_sym_primary_fn s)] @ trackperf_events s"

text \<open>All components are up, nothing has happened yet.\<close>

definition loaded :: "'a mod_state_scheme \<Rightarrow> bool" where
  "loaded s \<longleftrightarrow> ee_free [] s \<and> ft_initialized s = 1 \<and> sym_irq_lines s \<noteq> None \<and> ft_ok s \<and> purposes s = Map.empty \<and> irq_ok s \<and> sym_num_requests s = 0 \<and>
     sym_irq_ongoing s = 0 \<and> tracked s = Map.empty \<and> bus_set s = {} \<and> blocking_stack s = [BLOCKING_UNDEFINED] \<and>
     user_stack s = [USER_UNDEFINED] \<and> device_irq_disabled s = 0 \<and> pci_driver_state s = zero_pci_driver_state \<and>
     usb_driver_state s = zero_driver_state \<and> ndo_driver_state s = zero_ndo_driver_state \<and>
     misc_driver_state s = zero_driver_state \<and> proto_ops_state s = zero_driver_state \<and>
     i2c_driver_state s = zero_driver_state \<and> platform_driver_state s = zero_driver_state \<and>
     spi_driver_state s = zero_driver_state \<and> lines_bounded s"

definition same_build :: "'a tf_globals_scheme \<Rightarrow> 'a tf_globals_scheme \<Rightarrow> bool" where
  "same_build s t \<longleftrightarrow> driver_name t = driver_name s \<and> kmalloc_ok t = kmalloc_ok s \<and> IS_ERR_VALUE t = IS_ERR_VALUE s \<and> g_sym_starting_fn t = g_sym_starting_fn s \<and>
     GFP_ATOMIC t = GFP_ATOMIC s \<and> GFP_KERNEL t = GFP_KERNEL s \<and> g_sym_retval t = g_sym_retval s \<and>
     bad_path t = bad_path s"

lemma load_tail_run:
  assumes "trackperf_ok s"
  shows "block
    [onlyif (\<lambda>s. g_sym_enable_tracing s \<noteq> 0) (s2e (S2E_enable_tracing 0)),
     with_state (\<lambda>s. s2e (S2E_primary_fn 0 (g_sym_starting_fn s))),
     with_state (\<lambda>s. s2e (S2E_primary_fn 0 (g_sym_primary_fn s))),
     init_trackperf] s = Inr (s\<lparr>s2e_log := s2e_log s @ load_events s\<rparr>)"
proof -
  have "trackperf_ok (s\<lparr>s2e_log := l\<rparr>)" "trackperf_events (s\<lparr>s2e_log := l\<rparr>) = trackperf_events s" for l
    using assms by (simp_all add: trackperf_ok_def trackperf_events_def function_events_def)
  then show ?thesis by (simp add: load_events_def init_trackperf_run)
qed

lemma loaded_state:
  fixes s2 :: "'a mod_state_scheme"
  assumes h: "create_hashtable True True 16 hash_from_key_fn (=) = Some h"
    and nc: "ioctl_capable_retval s2 = NOT_CALLED" and u: "unlocked s2"
    and f: "ft_objs s2 = Some f" "ht_inv f" "ht_map f = Map.empty" and fi: "ft_initialized s2 = 1"
    and st: "driver_call_stack s2 = 0" "driver_call_stack_str s2 = replicate driver_call_stack_max None"
    and t: "t = (irq_reset ((set_up h s2)\<lparr>kmalloc_calls := m\<rparr>))\<lparr>kmalloc_calls := n, call_stack_buffer1 := True,
      call_stack_buffer2 := True, s2e_log := l\<rparr>"
  shows "loaded t"
proof -
  note su = set_up_spec [OF h nc]
  have "core_inv t"
    using su(1) by (simp add: t irq_reset_def core_inv_def blocking_ok_def user_ok_def tracker_ok_def flags_ok_def
        all_buses_def flag_of_simps class_ok_def)
  moreover have "unlocked t" using u by (simp add: t irq_reset_def set_up_def unlocked_def)
  ultimately have "tf_inv t" by (simp add: tf_inv_def)
  moreover have "frames_ok t \<and> frames t = []"
    by (rule frames_okI) (use st in \<open>simp_all add: t irq_reset_def set_up_def driver_call_stack_max_def\<close>)
  moreover have "call_stack_buffer1 t" "call_stack_buffer2 t" by (simp_all add: t)
  ultimately have 1: "ee_free [] t" by (simp add: ee_free_def ee_at_def)
  have 2: "ft_ok t" "purposes t = Map.empty"
    using f by (simp_all add: t irq_reset_def set_up_def ft_ok_def purposes_def)
  have 3: "irq_ok t" by (rule irq_ok_frame [OF _ _ irq_reset_ok [of "(set_up h s2)\<lparr>kmalloc_calls := m\<rparr>"]]) (simp_all add: t)
  have 4: "sym_num_requests t = 0" "sym_irq_ongoing t = 0" by (simp_all add: t irq_reset_def)
  have 5: "tracked t = Map.empty" using su(2) by (simp add: t irq_reset_def tracked_def)
  have "flag_of t x = flag_of (set_up h s2) x" for x by (simp add: t irq_reset_def flag_of_def cong: if_cong)
  then have 6: "bus_set t = {}" using su(3) by (simp add: bus_set_def)
  have 7: "blocking_stack t = [BLOCKING_UNDEFINED]" "user_stack t = [USER_UNDEFINED]"
    using su(4,5) by (simp_all add: t irq_reset_def blocking_stack_def user_stack_def)
  have 8: "device_irq_disabled t = 0" "pci_driver_state t = zero_pci_driver_state"
    "usb_driver_state t = zero_driver_state" "ndo_driver_state t = zero_ndo_driver_state"
    "misc_driver_state t = zero_driver_state" "proto_ops_state t = zero_driver_state" "i2c_driver_state t = zero_driver_state"
    "platform_driver_state t = zero_driver_state" "spi_driver_state t = zero_driver_state"
    by (simp_all add: t irq_reset_def set_up_def)
  have 9: "ft_initialized t = 1" "sym_irq_lines t \<noteq> None" using fi by (simp_all add: t irq_reset_def set_up_def)
  have 10: "lines_bounded t" by (simp add: t irq_reset_def lines_bounded_def line_count_def)
  show ?thesis using 1 2 3 4 5 6 7 8 9 10 by (simp add: loaded_def)
qed

lemma init_common_run:
  assumes un: "unloaded s" and mem: "\<forall>n. kmalloc_ok s n" and tp: "trackperf_ok s"
  shows "\<exists>t. init_common s = Inr t \<and> loaded t \<and> same_build s t \<and> s2e_log t = s2e_log s @ load_events s \<and>
    mod_state.more t = mod_state.more s \<and> sym_irq_lines t = Some (\<lambda>_. 0)"
proof -
  let ?s1 = "s\<lparr>global_lock := False\<rparr>"
  from initialize_function_tracker_ok [of ?s1] mem obtain f
    where f: "initialize_function_tracker ?s1 = Inr (0, ?s1\<lparr>kmalloc_calls := Suc (Suc (kmalloc_calls ?s1)),
      ft_objs := Some f, ft_initialized := 1\<rparr>)" "ht_inv f" "ht_map f = Map.empty" by auto
  let ?s2 = "?s1\<lparr>kmalloc_calls := Suc (Suc (kmalloc_calls ?s1)), ft_objs := Some f, ft_initialized := 1\<rparr>"
  from initialize_driver_state_run [of ?s2] un mem obtain h
    where h: "create_hashtable True True 16 hash_from_key_fn (=) = Some h"
      "initialize_driver_state ?s2 = Inr (0, set_up h ?s2)" by (auto simp: unloaded_def)
  let ?s3 = "set_up h ?s2"
  let ?s4 = "irq_reset (?s3\<lparr>kmalloc_calls := Suc (kmalloc_calls ?s3)\<rparr>)"
  have irq: "initialize_irqs ?s3 = Inr (0, ?s4)"
    by (rule initialize_irqs_run) (use un mem in \<open>simp_all add: unloaded_def set_up_def\<close>)
  let ?s5 = "?s4\<lparr>kmalloc_calls := Suc (Suc (kmalloc_calls ?s4)), call_stack_buffer1 := True, call_stack_buffer2 := True\<rparr>"
  have ee: "initialize_enter_exit ?s4 = Inr (0, ?s5)"
    by (rule initialize_enter_exit_run) (use mem in \<open>simp add: set_up_def irq_reset_def\<close>)
  let ?t = "?s5\<lparr>s2e_log := s2e_log s @ load_events s\<rparr>"
  have le: "load_events ?s5 = load_events s" "s2e_log ?s5 = s2e_log s" "trackperf_ok ?s5"
    using tp by (simp_all add: load_events_def trackperf_events_def function_events_def trackperf_ok_def irq_reset_def
        set_up_def)
  have gl: "initialize_global_lock s = Inr (0, ?s1)" by (simp add: initialize_global_lock_def returning_def)
  have "init_common s = Inr ?t"
    unfolding init_common_def
    by (rule must_succeed_Cons, rule gl, rule must_succeed_Cons, rule f(1), rule must_succeed_Cons, rule h(2),
        rule must_succeed_Cons, rule irq, rule must_succeed_Cons, rule ee) (simp only: load_tail_run [OF le(3)] le(1,2))
  moreover have "loaded ?t"
    by (rule loaded_state [OF h(1) _ _ _ f(2,3) _ _ _ refl]) (use un in \<open>simp_all add: unloaded_def unlocked_def\<close>)
  moreover have "same_build s ?t" by (simp add: same_build_def irq_reset_def set_up_def)
  moreover have "mod_state.more ?t = mod_state.more s" "sym_irq_lines ?t = Some (\<lambda>_. 0)"
    by (simp_all add: irq_reset_def set_up_def)
  ultimately show ?thesis by auto
qed

section \<open>Unloading\<close>

text \<open>Unloading between calls gives every table and buffer back.\<close>

lemma cleanup_common_run:
  assumes u: "unlocked s" and t: "tracker_ok s" and f: "ft_ok s" and i: "ft_initialized s = 1"
    and irq: "length (sym_irq s) = MAX_IRQS" "sym_irq_lines s \<noteq> None"
  shows "\<exists>t. cleanup_common s = Inr t \<and> objs t = None \<and> ft_objs t = None \<and> ft_initialized t = 0 \<and>
    sym_irq_lines t = None \<and> \<not> call_stack_buffer1 t \<and> \<not> call_stack_buffer2 t \<and>
    sym_irq t = replicate MAX_IRQS free_slot \<and> unlocked t \<and> mod_state.more t = mod_state.more s"
proof -
  from t obtain h where h: "objs s = Some h" by (auto simp: tracker_ok_def)
  from f obtain g where g: "ft_objs s = Some g" by (auto simp: ft_ok_def)
  have r: "irq_reset_state x = Inr (irq_reset x)"
    if "sym_irq x = sym_irq s" "sym_irq_lines x = sym_irq_lines s" for x :: "'a mod_state_scheme"
    by (rule irq_reset_state_run) (use that irq in simp_all)
  have a: "acquire_global_lock x = Inr (x\<lparr>global_lock := True, global_lock_acquired := 1\<rparr>)"
    if "global_lock x = global_lock s" "global_lock_acquired x = global_lock_acquired s" for x :: "'a mod_state_scheme"
    by (rule acquire_unlocked) (use that u in \<open>simp add: unlocked_def\<close>)
  show ?thesis using u i
    by (simp add: cleanup_common_def free_enter_exit_def free_irqs_def r irq_reset_def ignore_result_def
        free_driver_state_def h free_function_tracker_def a g release_locked free_global_lock_def unlocked_def)
qed

section \<open>A concrete state\<close>

definition loading :: mod_state where
  "loading = \<lparr>driver_name = ''8139TOO'', kmalloc_ok = \<lambda>_. True, IS_ERR_VALUE = \<lambda>v. v \<ge> -4095,
     GFP_ATOMIC = 0x20, GFP_KERNEL = 0xD0, HZ = 250, SIOCGMIIREG = 0x8948, SIOCSMIIREG = 0x8949,
     SIOCDEVPRIVATE = 0x89F0, SIOCSIFADDR = 0x8916, CAP_NET_ADMIN = 12, EPERM = 1, ENXIO = 6, ENODEV = 19,
     EINVAL = 22, NETDEV_TX_OK = 0, QUEUE_STATE_XOFF = 0, kmalloc_calls = 0, s2e_log = [], g_sym_retval = 0,
     g_sym_starting_fn = [], g_sym_kill_carrier_off = 0, g_sym_slow_timers = 1, g_sym_force_receive = 0,
     g_sym_pci = 0, bad_path = 0, global_lock = False, global_lock_acquired = 0, blocking_context = [],
     blocking_context_current = 0, user_context = [], user_context_current = 0, device_irq_disabled = 0,
     objs = None, objs_dirty = 0, pci_driver_state = zero_pci_driver_state, usb_driver_state = zero_driver_state,
     misc_driver_state = zero_driver_state, proto_ops_state = zero_driver_state, i2c_driver_state = zero_driver_state,
     platform_driver_state = zero_driver_state, spi_driver_state = zero_driver_state,
     ndo_driver_state = zero_ndo_driver_state, sound_driver_state = \<lparr>sound = 0\<rparr>, ioctl_capable_param = 0,
     ioctl_capable_retval = NOT_CALLED, net_dev = 0, ethtool_fn_array = [], pci_drv = 0, pci_dev = 0,
     pci_pm_fn_array = [], i2c_drv = 0, i2c_client = 0, i2c_pm_fn_array = [],
     sym_irq = replicate MAX_IRQS free_slot, sym_num_requests = 0, sym_irq_ongoing = 0, sym_irq_lines = None,
     irq_force_receive_called_before = 0, driver_call_stack = 0,
     driver_call_stack_str = replicate driver_call_stack_max None, call_stack_buffer1 = False,
     call_stack_buffer2 = False, g_symdrive_annotations = 0, first_time_in_driver = 1, ft_initialized = 0,
     ft_objs = None, g_sym_primary_fn = [], g_sym_enable_tracing = 0, g_sym_num_trackperf_fn = 1,
     g_sym_trackperf_fn = replicate MAX_TRACKPERF ''rx'', g_sym_num_trackperf_fn_flags = 1,
     g_sym_trackperf_fn_flags = replicate MAX_TRACKPERF 1, g_sym_trackperf_irq = SYMDRIVE_TRACKPERF_IRQ_ALL\<rparr>"

lemma loading_unloaded:
  "unloaded loading" "\<forall>n. kmalloc_ok loading n" "trackperf_ok loading" "driver_name loading = ''8139TOO''"
  "IS_ERR_VALUE loading = (\<lambda>v. v \<ge> -4095)" "GFP_KERNEL loading = 0xD0" "GFP_ATOMIC loading = 0x20"
  "g_sym_retval loading = 0" "bad_path loading = 0" "g_sym_starting_fn loading = []"
  by (simp_all add: loading_def unloaded_def trackperf_ok_def zero_ndo_driver_state_def MAX_TRACKPERF_def)

text \<open>The state after loading, in which the examples of the development start.\<close>

lemma started:
  obtains s :: mod_state where "init_common loading = Inr s" and "loaded s" and "mem_ok s" and "tf_inv s"
    and "driver_name s = ''8139TOO''" and "IS_ERR_VALUE s = (\<lambda>v. v \<ge> -4095)" and "GFP_KERNEL s = 0xD0"
    and "GFP_ATOMIC s = 0x20" and "g_sym_retval s = 0" and "bad_path s = 0"
    and "g_sym_starting_fn s = []" and "sym_irq_lines s = Some (\<lambda>_. 0)"
proof -
  from init_common_run [OF loading_unloaded(1-3)] obtain s :: mod_state
    where s: "init_common loading = Inr s" "loaded s" "same_build loading s" "sym_irq_lines s = Some (\<lambda>_. 0)" by blast
  have t: "tf_inv s" using s(2) by (simp add: loaded_def ee_free_def)
  then have "tracker_ok s" by (simp add: tf_inv_def core_inv_def)
  with s loading_unloaded have "mem_ok s" by (simp add: same_build_def mem_ok_def)
  then show thesis by (rule that [OF s(1,2) _ t]) (use s(3,4) loading_unloaded in \<open>simp_all add: same_build_def\<close>)
qed

lemma loadedD:
  assumes "loaded s"
  shows "ee_free [] s" and "tracked s = Map.empty" and "bus_set s = {}" and "blocking_stack s = [BLOCKING_UNDEFINED]"
    and "user_stack s = [USER_UNDEFINED]" and "irq_ok s" and "sym_irq_ongoing s = 0" and "ft_ok s"
    and "purposes s = Map.empty" and "usb_driver_state s = zero_driver_state" and "pci_driver_state s = zero_pci_driver_state"
    and "ndo_driver_state s = zero_ndo_driver_state" and "ft_initialized s = 1" and "sym_irq_lines s \<noteq> None" and "platform_driver_state s = zero_driver_state"
    and "sym_num_requests s = 0" and "lines_bounded s"
  using assms by (simp_all add: loaded_def)

end
