(* ===== verification/Core_Properties.thy ===== *)
theory Core_Properties
  imports Module_Init
begin

text \<open>
  Properties of the components that keep state: the hash table, the kernel context, the bus flags, the
  object tracker, the locks and the checks built on one of them. Each is followed by an example: the
  state the module has after loading, where the hypotheses hold.
\<close>

section \<open>The hash table\<close>

text \<open>C40. Destroying a table with its values frees every key, every value and every entry exactly once, then
  the array and the table: the frees are those of the entries the map stands for, with no repetition.\<close>

theorem hashtable_destroy_frees_once:
  fixes h :: "('k, 'v) hashtable"
  assumes "ht_inv h"
  shows "mset (hashtable_destroy h True) =
      image_mset Free_Key (mset_set (dom (ht_map h))) + image_mset Free_Entry (mset_set (dom (ht_map h))) +
      image_mset (\<lambda>k. Free_Value (the (ht_map h k))) (mset_set (dom (ht_map h))) + {#Free_Table, Free_Hashtable#}"
proof -
  let ?es = "all_entries h"
  have len: "take (unat (tablelength h)) (table h) = table h"
    using assms by (simp add: ht_inv_def placed_def)
  have keys: "image_mset ent_k (mset ?es) = mset_set (dom (ht_map h))"
    using assms by (simp add: dom_ht_map ht_inv_def mset_set_set flip: mset_map set_map)
  have val: "the (ht_map h (ent_k e)) = ent_v e" if "e \<in> set ?es" for e
  proof -
    have "ht_map h (ent_k e) = Some (ent_v e)"
      using that assms by (auto simp: ht_map_Some_iff ht_inv_def)
    then show ?thesis by simp
  qed
  have vals: "image_mset (\<lambda>e. Free_Value (ent_v e)) (mset ?es) =
      image_mset (\<lambda>k. Free_Value (the (ht_map h k))) (mset_set (dom (ht_map h)))"
    unfolding keys [symmetric] by (simp add: multiset.map_comp comp_def) (rule image_mset_cong, simp add: val)
  have "image_mset (\<lambda>e. Free_Key (ent_k e)) (mset ?es) = (image_mset Free_Key (mset_set (dom (ht_map h))) :: ('k, 'v) freed multiset)"
    "image_mset (\<lambda>e. Free_Entry (ent_k e)) (mset ?es) = (image_mset Free_Entry (mset_set (dom (ht_map h))) :: ('k, 'v) freed multiset)"
    unfolding keys [symmetric] by (simp_all add: multiset.map_comp comp_def)
  with vals show ?thesis
    by (simp add: hashtable_destroy_def len mset_destroy_chains all_entries_def)
qed

theorem hashtable_destroy_frees_once_witness:
  "\<exists>h. create_hashtable True True 16 id (=) = Some h \<and>
     mset (hashtable_destroy (snd (hashtable_insert True True h (5 :: u32) ''v'')) True) =
       {#Free_Key 5, Free_Entry 5, Free_Value ''v'', Free_Table, Free_Hashtable#}"
proof -
  have "create_hashtable True True 16 (id :: u32 \<Rightarrow> u32) (=) \<noteq> (None :: (u32, string) hashtable option)"
    by (simp add: create_hashtable_def primes_def prime_table_length_def)
  then obtain h :: "(u32, string) hashtable" where h: "create_hashtable True True 16 id (=) = Some h" by blast
  note h' = create_hashtable_spec [OF h]
  have i: "ht_inv (snd (hashtable_insert True True h 5 ''v''))"
    "ht_map (snd (hashtable_insert True True h 5 ''v'')) = [5 \<mapsto> ''v'']"
    using ht.put_ok [OF h'(1), of 5 True "''v''"] h'(2,3) by (simp_all add: hashtable_count_def)
  show ?thesis
    by (rule exI [of _ h], rule conjI [OF h], subst hashtable_destroy_frees_once [OF i(1)]) (simp add: i(2))
qed

text \<open>The size in bytes of the chain array fits the 32-bit argument of \<open>kmalloc\<close> for every prime of the
  table but the last: there the product wraps and far too little memory is asked for.\<close>

lemma table_bytes_exact:
  "list_all2 (\<lambda>i p. (unat (table_bytes p) = 4 * unat p) = (i \<noteq> prime_table_length - 1)) [0..<prime_table_length] primes"
  by (simp add: primes_def prime_table_length_def table_bytes_def upt_rec)

section \<open>The kernel context\<close>

text \<open>C14. A sequence of pushes and pops on the stack of blocking contexts, kept in an array of
  16 entries, does what it does on a list that holds at most 16 entries and never loses its last one;
  every other part of the state stays as it was. When the list runs over or empty, so does the array.\<close>

theorem context_run_refines_stack:
  assumes "blocking_ok s"
  shows "case stack_run (blocking_stack s) ps of
      Some st \<Rightarrow> \<exists>t. block (map (ctx_act push_blocking_state pop_blocking_state) ps) s = Inr t \<and> blocking_ok t \<and>
        blocking_stack t = st \<and> but_blocking t = but_blocking s
    | None \<Rightarrow> \<exists>e. block (map (ctx_act push_blocking_state pop_blocking_state) ps) s = Inl e"
  using blocking.run_succeeds [OF assms] blocking.run_fails [OF assms]
  by (cases "stack_run (blocking_stack s) ps") auto

theorem context_run_refines_stack_witness:
  "\<exists>(s :: mod_state) t u. init_common loading = Inr s \<and>
     block (map (ctx_act push_blocking_state pop_blocking_state) [Push BLOCKING_NO, Push BLOCKING_YES, Pop]) s = Inr t \<and>
     blocking_stack t = [BLOCKING_NO, BLOCKING_UNDEFINED] \<and>
     block (map (ctx_act push_blocking_state pop_blocking_state) [Push BLOCKING_NO, Pop, Pop]) s = Inl u"
proof -
  obtain s :: mod_state where s: "init_common loading = Inr s" "loaded s" "tf_inv s" by (rule started)
  have b: "blocking_ok s" using s(3) by (simp add: tf_inv_def core_inv_def)
  note st = loadedD(4) [OF s(2)]
  show ?thesis
    using s(1) context_run_refines_stack [OF b, of "[Push BLOCKING_NO, Push BLOCKING_YES, Pop]"]
      context_run_refines_stack [OF b, of "[Push BLOCKING_NO, Pop, Pop]"]
    by (auto simp: st MAX_NESTING_def simp del: block.simps)
qed

text \<open>C13. Entering a callback and leaving it again gives back both context stacks and the whole rest of the
  state, whatever the context of the callback is; entering fails only when one of the stacks is full.\<close>

theorem kernel_state_round_trip:
  assumes "blocking_ok s" and "user_ok s"
  shows "(\<exists>t. push_kernel_state bc uc s = Inr t \<and> blocking_stack t = bc # blocking_stack s \<and>
      user_stack t = uc # user_stack s \<and>
      (\<exists>u. pop_kernel_state t = Inr u \<and> blocking_stack u = blocking_stack s \<and> user_stack u = user_stack s \<and>
        but_user (but_blocking u) = but_user (but_blocking s))) \<longleftrightarrow>
    length (blocking_stack s) < MAX_NESTING \<and> length (user_stack s) < MAX_NESTING"
proof -
  have b: "stack_ok (blocking_context_current s) (blocking_context s)" using assms(1) by (simp add: blocking_ok_def)
  have u: "stack_ok (user_context_current s) (user_context s)" using assms(2) by (simp add: user_ok_def)
  have lb: "length (blocking_stack s) < MAX_NESTING \<longleftrightarrow> blocking_context_current s + 1 < int MAX_NESTING"
    "length (user_stack s) < MAX_NESTING \<longleftrightarrow> user_context_current s + 1 < int MAX_NESTING"
    using b u by (auto simp: blocking_stack_def user_stack_def length_live stack_ok_def)
  let ?t = "s\<lparr>blocking_context_current := blocking_context_current s + 1,
      blocking_context := (blocking_context s)[nat (blocking_context_current s + 1) := bc]\<rparr>"
  have u': "stack_ok (user_context_current ?t) (user_context ?t)" using u by simp
  have pb: "push_blocking_state bc s = (if length (blocking_stack s) < MAX_NESTING then Inr ?t else Inl Out_Of_Bounds)"
    by (simp add: push_blocking_state_run [OF b] lb)
  have pu: "push_user_state uc ?t = (if length (user_stack s) < MAX_NESTING
      then Inr (?t\<lparr>user_context_current := user_context_current s + 1,
        user_context := (user_context s)[nat (user_context_current s + 1) := uc]\<rparr>)
      else Inl Out_Of_Bounds)"
    using push_user_state_run [OF u', of uc] by (simp add: lb)
  show ?thesis
  proof (cases "length (blocking_stack s) < MAX_NESTING \<and> length (user_stack s) < MAX_NESTING")
    case True
    let ?v = "?t\<lparr>user_context_current := user_context_current s + 1,
        user_context := (user_context s)[nat (user_context_current s + 1) := uc]\<rparr>"
    let ?w = "?v\<lparr>blocking_context_current := blocking_context_current s, user_context_current := user_context_current s\<rparr>"
    have cur: "0 \<le> blocking_context_current s" "0 \<le> user_context_current s" using b u by (auto simp: stack_ok_def)
    have "push_kernel_state bc uc s = Inr ?v" using True by (simp add: push_kernel_state_def pb pu)
    moreover have "blocking_stack ?v = bc # blocking_stack s" "user_stack ?v = uc # user_stack s"
      using live_push [OF b, of bc] live_push [OF u, of uc] True [unfolded lb]
      by (simp_all add: blocking_stack_def user_stack_def)
    moreover have "pop_kernel_state ?v = Inr ?w"
      using cur by (simp add: pop_kernel_state_def pop_blocking_state_run pop_user_state_run)
    moreover have "blocking_stack ?w = blocking_stack s" "user_stack ?w = user_stack s"
      using cur by (simp_all add: blocking_stack_def user_stack_def live_def take_update_cancel nat_add_distrib)
    moreover have "but_user (but_blocking ?w) = but_user (but_blocking s)"
      by (simp add: but_user_def but_blocking_def)
    ultimately show ?thesis using True by blast
  next
    case False
    then show ?thesis by (auto simp: push_kernel_state_def pb pu)
  qed
qed

theorem kernel_state_round_trip_witness:
  "\<exists>(s :: mod_state) t u. init_common loading = Inr s \<and> push_kernel_state BLOCKING_YES USER_NO s = Inr t \<and>
     blocking_stack t = [BLOCKING_YES, BLOCKING_UNDEFINED] \<and> user_stack t = [USER_NO, USER_UNDEFINED] \<and>
     pop_kernel_state t = Inr u \<and> blocking_stack u = [BLOCKING_UNDEFINED] \<and> user_stack u = [USER_UNDEFINED]"
proof -
  obtain s :: mod_state where s: "init_common loading = Inr s" "loaded s" "tf_inv s" by (rule started)
  have b: "blocking_ok s" "user_ok s" using s(3) by (simp_all add: tf_inv_def core_inv_def)
  show ?thesis
    using s(1) kernel_state_round_trip [OF b, of BLOCKING_YES USER_NO] loadedD(4,5) [OF s(2)]
    by (auto simp: MAX_NESTING_def)
qed

section \<open>Call states and buses\<close>

text \<open>C24. Any sequence of values written to a call state field is let through exactly when each step is
  one of the protocol (begin, succeed, fail, reset), and then the field holds the last value.\<close>

theorem call_states_follow_protocol:
  fixes r :: "('a test_state_scheme, call_state) ref"
  assumes put: "\<And>s v. fst r (snd r v s) = v"
  shows "((\<exists>t. block (map (set_call_state r) cs) s = Inr t) \<longleftrightarrow> successively call_step (fst r s # cs)) \<and>
    (\<forall>t. block (map (set_call_state r) cs) s = Inr t \<longrightarrow> fst r t = last (fst r s # cs))"
proof (induction cs arbitrary: s)
  case Nil
  then show ?case by simp
next
  case (Cons c cs)
  show ?case
  proof (cases "call_step (fst r s) c")
    case True
    have "set_call_state r c s = Inr (snd r c s)" by (rule set_call_state_ok [OF True])
    then show ?thesis using Cons.IH [of "snd r c s"] True by (simp add: put)
  next
    case False
    then have "set_call_state r c s \<noteq> Inr t" for t by (simp add: set_call_state_Inr)
    then obtain e where "set_call_state r c s = Inl e" by (cases "set_call_state r c s") auto
    then show ?thesis using False by simp
  qed
qed

theorem call_states_follow_protocol_witness:
  "\<exists>(s :: mod_state) t e. init_common loading = Inr s \<and>
     block (map (set_call_state (dot usb_r registered_f)) [IN_PROGRESS, CALLED_FAILED, IN_PROGRESS, CALLED_OK]) s = Inr t \<and>
     registered (usb_driver_state t) = CALLED_OK \<and>
     block (map (set_call_state (dot usb_r registered_f)) [IN_PROGRESS, IN_PROGRESS]) s = Inl e"
proof -
  obtain s :: mod_state where s: "init_common loading = Inr s" "loaded s" by (rule started)
  let ?r = "dot usb_r registered_f :: (mod_state, call_state) ref"
  have put: "fst ?r (snd ?r v s) = v" for v and s :: mod_state by simp
  have n: "fst ?r s = NOT_CALLED" using loadedD(10) [OF s(2)] by (simp add: zero_driver_state_def)
  note p = call_states_follow_protocol [OF put, where s = s]
  have "successively call_step [NOT_CALLED, IN_PROGRESS, CALLED_FAILED, IN_PROGRESS, CALLED_OK]"
    by (simp add: call_step_simps)
  with p [of "[IN_PROGRESS, CALLED_FAILED, IN_PROGRESS, CALLED_OK]"] obtain t
    where t: "block (map (set_call_state ?r) [IN_PROGRESS, CALLED_FAILED, IN_PROGRESS, CALLED_OK]) s = Inr t"
      "fst ?r t = CALLED_OK" unfolding n by (auto simp del: block.simps ref_defs)
  have "\<not> successively call_step [NOT_CALLED, IN_PROGRESS, IN_PROGRESS]" by (simp add: call_step_simps)
  with p [of "[IN_PROGRESS, IN_PROGRESS]"] obtain e
    where "block (map (set_call_state ?r) [IN_PROGRESS, IN_PROGRESS]) s = Inl e"
    unfolding n by (cases "block (map (set_call_state ?r) [IN_PROGRESS, IN_PROGRESS]) s") (auto simp del: block.simps ref_defs)
  with s(1) t show ?thesis by (auto simp del: block.simps)
qed

text \<open>C25. The bus flags are a set: \<open>get_driver_bus\<close> gives the mask of its members, setting a type adds it and
  is refused when it is there, removing takes it out and is refused when it is not.\<close>

theorem bus_flags_are_a_set:
  assumes ok: "flags_ok s" and t: "t \<in> set all_buses"
  shows "(\<exists>m. get_driver_bus s = Inr m \<and> (\<forall>b \<in> set all_buses. m AND b \<noteq> 0 \<longleftrightarrow> b \<in> bus_set s)) \<and>
    ((\<exists>u. set_driver_bus t s = Inr u) \<longleftrightarrow> t \<notin> bus_set s) \<and>
    (\<forall>u. set_driver_bus t s = Inr u \<longrightarrow> flags_ok u \<and> bus_set u = insert t (bus_set s)) \<and>
    ((\<exists>u. remove_driver_bus t s = Inr u) \<longleftrightarrow> t \<in> bus_set s) \<and>
    (\<forall>u. remove_driver_bus t s = Inr u \<longrightarrow> flags_ok u \<and> bus_set u = bus_set s - {t})"
proof -
  have f: "flag_of s b = 0 \<or> flag_of s b = 1" for b using ok by (simp add: flags_ok_iff)
  have set_u: "flags_ok u \<and> bus_set u = insert t (bus_set s)" if "set_driver_bus t s = Inr u" for u
  proof
    note g = set_driver_bus_flags(3) [OF that]
    show "flags_ok u" unfolding flags_ok_iff g using f by simp
    show "bus_set u = insert t (bus_set s)" unfolding bus_set_def g by auto
  qed
  have rem_u: "flags_ok u \<and> bus_set u = bus_set s - {t}" if "remove_driver_bus t s = Inr u" for u
  proof
    note g = remove_driver_bus_flags(3) [OF that]
    show "flags_ok u" unfolding flags_ok_iff g using f by simp
    show "bus_set u = bus_set s - {t}" unfolding bus_set_def g by auto
  qed
  have "(\<exists>u. set_driver_bus t s = Inr u) \<longleftrightarrow> t \<notin> bus_set s"
  proof
    assume "\<exists>u. set_driver_bus t s = Inr u"
    then obtain u where "set_driver_bus t s = Inr u" ..
    from set_driver_bus_flags(2) [OF this] show "t \<notin> bus_set s" by (simp add: bus_set_def)
  next
    assume "t \<notin> bus_set s"
    with f [of t] have "flag_of s t = 0" by (simp add: bus_set_def)
    then show "\<exists>u. set_driver_bus t s = Inr u" by (rule set_driver_bus_Inr(2) [OF t])
  qed
  moreover have "(\<exists>u. remove_driver_bus t s = Inr u) \<longleftrightarrow> t \<in> bus_set s"
  proof
    assume "\<exists>u. remove_driver_bus t s = Inr u"
    then obtain u where "remove_driver_bus t s = Inr u" ..
    from remove_driver_bus_flags(2) [OF this] show "t \<in> bus_set s" using t by (simp add: bus_set_def)
  next
    assume "t \<in> bus_set s"
    with f [of t] have "flag_of s t = 1" by (simp add: bus_set_def)
    then show "\<exists>u. remove_driver_bus t s = Inr u" by (rule remove_driver_bus_Inr(2) [OF t])
  qed
  ultimately show ?thesis using get_driver_bus_Inr [OF ok] set_u rem_u by (intro conjI allI impI) simp_all
qed

theorem bus_flags_are_a_set_witness:
  "\<exists>(s :: mod_state) t. init_common loading = Inr s \<and> set_driver_bus DRIVER_USB s = Inr t \<and> bus_set t = {DRIVER_USB} \<and>
     (\<nexists>u. remove_driver_bus DRIVER_PCI s = Inr u)"
proof -
  obtain s :: mod_state where s: "init_common loading = Inr s" "loaded s" "tf_inv s" by (rule started)
  have ok: "flags_ok s" using s(3) by (simp add: tf_inv_def core_inv_def)
  have m: "DRIVER_USB \<in> set all_buses" "DRIVER_PCI \<in> set all_buses" by (simp_all add: all_buses_def)
  show ?thesis using s(1) bus_flags_are_a_set [OF ok m(1)] bus_flags_are_a_set [OF ok m(2)] loadedD(3) [OF s(2)] by auto
qed

end
