(* ===== verification/Lock_Progress.thy ===== *)
theory Lock_Progress
  imports Check_Safety
begin

text \<open>
  When a lock call is accepted. \<open>Checks_Locks\<close> shows that an accepted call is a step of the discipline;
  here a step of the discipline is accepted, as long as the stack of contexts has room and a sleeping
  lock is not taken where blocking is forbidden. The locale \<open>live_lock_calls\<close> extends \<open>lock_calls\<close> by
  these two laws and concludes which sequences of calls pass.
\<close>

section \<open>The effect on a known lock\<close>

definition origin_fits :: "u32 \<Rightarrow> lock_type \<Rightarrow> bool" where
  "origin_fits org lt \<longleftrightarrow> (case lock_context lt of
       None \<Rightarrow> True
     | Some bc \<Rightarrow> if bc = BLOCKING_YES then org AND ORIGIN_MUTEX \<noteq> 0 \<or> org AND ORIGIN_RWSEM \<noteq> 0
         else org AND ORIGIN_SPIN_LOCK \<noteq> 0 \<or> org AND ORIGIN_RWLOCK \<noteq> 0)"

lemma verify_lock_state_ok: "lock_state v = lock_vector h \<Longrightarrow> verify_lock_state v s = Inr s"
  using lock_vector_set [of h] by (simp add: verify_lock_state_Inr filter_lock_vector)

lemma lock_acquired_free:
  assumes "lock_state v = lock_vector None"
  shows "lock_acquired key v org lt s =
    block [objs_poke key (v\<lparr>lock_state := lock_vector (Some lt)\<rparr>), lock_kernel_state org lt 1] s"
proof -
  have "lock_state (bump lt 1 v) = lock_vector (Some lt)" by (simp add: bump_take [OF assms] lock_vector_take)
  moreover from this have "bump lt 1 v = v\<lparr>lock_state := lock_vector (Some lt)\<rparr>" by (subst bump_value) simp
  ultimately show ?thesis
    by (simp add: lock_acquired_def Let_def verify_lock_state_ok [where h = "Some lt"] lock_vector_nth split: sum.split)
qed

lemma lock_released_held:
  assumes v: "lock_state v = lock_vector (Some lt)" and lt: "lt \<noteq> GENERIC_LOCK"
  shows "lock_released key v org lt s =
    block [objs_poke key (v\<lparr>lock_state := lock_vector None\<rparr>), lock_kernel_state org lt (-1)] s"
proof -
  have g: "\<not> lock_state v ! lock_index GENERIC_LOCK = 1" unfolding v lock_vector_nth using lt by simp
  have "lock_state (bump lt (-1) v) = lock_vector None" by (simp add: bump_drop [OF v] lock_vector_drop)
  moreover from this have "bump lt (-1) v = v\<lparr>lock_state := lock_vector None\<rparr>" by (subst bump_value) simp
  ultimately show ?thesis using lt g
    by (simp add: lock_released_def Let_def verify_lock_state_ok [where h = None] lock_vector_nth del: lock_index.simps
        split: sum.split)
qed

lemma lock_kernel_state_push:
  assumes "lt \<noteq> LOCK_UNDEFINED" and "lock_context lt = Some bc" and "origin_fits org lt"
    and "bc = BLOCKING_YES \<Longrightarrow> kernel_blocking_state s \<noteq> BLOCKING_NO"
  shows "lock_kernel_state org lt 1 s = push_blocking_state bc s"
  using assms by (cases lt; cases "kernel_blocking_state s") (auto simp: lock_kernel_state_def origin_fits_def split: sum.split)

lemma lock_kernel_state_pop:
  assumes "lt \<noteq> LOCK_UNDEFINED" and "lock_context lt = Some bc" and "origin_fits org lt"
  shows "lock_kernel_state org lt (-1) s = pop_blocking_state s"
  using assms by (cases lt) (auto simp: lock_kernel_state_def origin_fits_def split: sum.split)

lemma kernel_blocking_state_hd: "blocking_ok s \<Longrightarrow> kernel_blocking_state s = hd (blocking_stack s)"
  by (simp add: kernel_blocking_state_def blocking_ok_def blocking_stack_def hd_live)

lemma kernel_blocking_state_objs [simp]: "kernel_blocking_state (s\<lparr>objs := h\<rparr>) = kernel_blocking_state s"
  by (simp add: kernel_blocking_state_def)

lemma generic_lock_take_ok:
  assumes ok: "tracker_ok s" "blocking_ok s" and v: "tracked s (objs_key lock) = Some v" "lock_state v = lock_vector None"
    and lock: "lock > 0x1000" and lt: "lt \<noteq> LOCK_UNDEFINED" "lock_context lt = Some bc" "origin_fits org lt"
    and room: "length (blocking_stack s) < MAX_NESTING"
    and may: "bc = BLOCKING_YES \<Longrightarrow> hd (blocking_stack s) \<noteq> BLOCKING_NO"
  shows "\<exists>t. generic_lock_state fn 1 lock org lt 1 s = Inr t"
proof -
  have vok: "value_ok (v\<lparr>lock_state := lock_vector (Some lt)\<rparr>)" by (auto simp: value_ok_def)
  have some: "tracked s (objs_key lock) \<noteq> None" using v by simp
  from objs_poke_spec [OF ok(1) some vok] obtain u
    where u: "objs_poke (objs_key lock) (v\<lparr>lock_state := lock_vector (Some lt)\<rparr>) s = Inr u" "u = s\<lparr>objs := objs u\<rparr>"
    by blast
  have b: "blocking_ok u" "length (blocking_stack u) < MAX_NESTING" "kernel_blocking_state u = hd (blocking_stack s)"
    by (subst u(2), simp add: ok room kernel_blocking_state_hd)+
  have "lock_kernel_state org lt 1 u = push_blocking_state bc u"
    using may by (intro lock_kernel_state_push lt) (simp add: b(3))
  moreover obtain t where "push_blocking_state bc u = Inr t" using blocking.push_room [OF b(1,2)] by blast
  ultimately show ?thesis using lock
    by (simp add: generic_lock_state_def numeral_2_eq_2 reading_def objs_search_tracked [OF ok(1)] v(1)
        lock_acquired_free [OF v(2)] u(1))
qed

lemma generic_lock_drop_ok:
  assumes ok: "tracker_ok s" "blocking_ok s" and v: "tracked s (objs_key lock) = Some v" "lock_state v = lock_vector (Some lt)"
    and lock: "lock > 0x1000" and lt: "lt \<noteq> LOCK_UNDEFINED" "lock_context lt = Some bc" "origin_fits org lt"
    and room: "2 \<le> length (blocking_stack s)"
  shows "\<exists>t. generic_lock_state fn 0 lock org lt (-1) s = Inr t"
proof -
  have g: "lt \<noteq> GENERIC_LOCK" using lt(2) by auto
  have vok: "value_ok (v\<lparr>lock_state := lock_vector None\<rparr>)" by (auto simp: value_ok_def)
  have some: "tracked s (objs_key lock) \<noteq> None" using v by simp
  from objs_poke_spec [OF ok(1) some vok] obtain u
    where u: "objs_poke (objs_key lock) (v\<lparr>lock_state := lock_vector None\<rparr>) s = Inr u" "u = s\<lparr>objs := objs u\<rparr>"
    by blast
  have b: "blocking_ok u" "2 \<le> length (blocking_stack u)" by (subst u(2), simp add: ok room)+
  obtain t where "pop_blocking_state u = Inr t" using blocking.pop_some [OF b] by blast
  then show ?thesis using lock
    by (simp add: generic_lock_state_def numeral_2_eq_2 reading_def objs_search_tracked [OF ok(1)] v(1)
        lock_released_held [OF v(2) g] u(1) lock_kernel_state_pop [OF lt])
qed

section \<open>Runs of lock calls\<close>

locale live_lock_calls = lock_calls inv status ctx acq rel lt
  for inv :: "'s \<Rightarrow> bool" and status ctx and acq rel :: "'s check" and lt +
  fixes bc :: blocking
  assumes pushes: "lock_context lt = Some bc"
    and nonempty: "inv s \<Longrightarrow> ctx s \<noteq> []"
    and acquire_ok: "inv s \<Longrightarrow> status s = Some None \<Longrightarrow> length (ctx s) < MAX_NESTING \<Longrightarrow>
      (bc = BLOCKING_YES \<Longrightarrow> hd (ctx s) \<noteq> BLOCKING_NO) \<Longrightarrow> \<exists>r t. acq s = Inr (r, t)"
    and release_ok: "inv s \<Longrightarrow> status s = Some (Some lt) \<Longrightarrow> 2 \<le> length (ctx s) \<Longrightarrow> \<exists>r t. rel s = Inr (r, t)"
begin

definition at_op :: "blocking list \<Rightarrow> lock_op \<Rightarrow> 's \<Rightarrow> bool" where
  "at_op c p s \<longleftrightarrow> inv s \<and> (case p of
       Release \<Rightarrow> status s = Some None \<and> ctx s = c
     | Acquire \<Rightarrow> status s = Some (Some lt) \<and> ctx s = bc # c)"

lemma step_at:
  assumes "at_op c p s" and "c \<noteq> []" and "length c < MAX_NESTING" and "bc = BLOCKING_YES \<Longrightarrow> hd c \<noteq> BLOCKING_NO"
  shows "if p = q then \<exists>e. lock_calls_act acq rel q s = Inl e else \<exists>t. lock_calls_act acq rel q s = Inr t \<and> at_op c q t"
proof -
  have lt: "lt \<noteq> GENERIC_LOCK" using pushes by auto
  show ?thesis
  proof (cases p; cases q)
    assume pq: "p = Release" "q = Acquire"
    then have s: "inv s" "status s = Some None" "ctx s = c" using assms(1) by (simp_all add: at_op_def)
    obtain r t where "acq s = Inr (r, t)" using acquire_ok [OF s(1,2)] s(3) assms by auto
    then show ?thesis using acquire_effect [OF s(1,2)] s pq pushes by (auto simp: at_op_def ignore_result_def)
  next
    assume pq: "p = Acquire" "q = Release"
    then have s: "inv s" "status s = Some (Some lt)" "ctx s = bc # c" using assms(1) by (simp_all add: at_op_def)
    obtain r t where "rel s = Inr (r, t)" using release_ok [OF s(1,2)] s(3) assms by (auto simp: neq_Nil_conv)
    then show ?thesis using release_effect [OF s(1,2)] s pq pushes by (auto simp: at_op_def ignore_result_def)
  next
    assume pq: "p = Acquire" "q = Acquire"
    then have s: "inv s" "status s = Some (Some lt)" using assms(1) by (simp_all add: at_op_def)
    show ?thesis using step_refines [OF s, of q] pq by (cases "lock_calls_act acq rel q s") auto
  next
    assume pq: "p = Release" "q = Release"
    then have s: "inv s" "status s = Some None" using assms(1) by (simp_all add: at_op_def)
    show ?thesis using step_refines [OF s, of q] pq by (cases "lock_calls_act acq rel q s") auto
  qed
qed

lemma alternates:
  assumes "c \<noteq> []" and "length c < MAX_NESTING" and "bc = BLOCKING_YES \<Longrightarrow> hd c \<noteq> BLOCKING_NO"
  shows "at_op c p s \<Longrightarrow>
    ((\<exists>t. block (map (lock_calls_act acq rel) ps) s = Inr t) \<longleftrightarrow> successively (\<noteq>) (p # ps)) \<and>
    (\<forall>t. block (map (lock_calls_act acq rel) ps) s = Inr t \<longrightarrow> at_op c (last (p # ps)) t)"
proof (induction ps arbitrary: p s)
  case Nil
  then show ?case by simp
next
  case (Cons q ps)
  note step = step_at [OF Cons.prems assms, of q]
  show ?case
  proof (cases "p = q")
    case True
    with step show ?thesis by auto
  next
    case False
    with step obtain t where t: "lock_calls_act acq rel q s = Inr t" "at_op c q t" by auto
    then show ?thesis using Cons.IH [OF t(2)] False by simp
  qed
qed

end

section \<open>The check routines\<close>

definition lock_calls_inv :: "ulong \<Rightarrow> ulong \<Rightarrow> 'a test_state_scheme \<Rightarrow> bool" where
  "lock_calls_inv lockp lock s \<longleftrightarrow> tf_inv s \<and> lockp > 0x1000 \<and> lock > 0x1000"

lemma lock_calls_invD:
  assumes "lock_calls_inv lockp lock s"
  shows "lock_inv s" and "tf_inv s" and "blocking_stack s \<noteq> []"
proof -
  show "tf_inv s" using assms by (simp add: lock_calls_inv_def)
  then show i: "lock_inv s" by (simp add: tf_inv_def core_inv_def lock_inv_def)
  show "blocking_stack s \<noteq> []" using blocking.view_bounds [of s] i by (auto simp: lock_inv_def)
qed

lemma lock_status_state:
  assumes "tracker_ok s" and "lock_status lock s = Some h"
  obtains v where "tracked s (objs_key lock) = Some v" and "lock_state v = lock_vector h"
proof -
  from assms(2) obtain v where v: "tracked s (objs_key lock) = Some v" "lock_holder v = h"
    by (auto simp: lock_status_def)
  then obtain g where "lock_state v = lock_vector g"
    using tracked_value_ok [OF assms(1)] by (auto simp: value_ok_def)
  with v that show thesis by (simp add: lock_holder_vector)
qed

lemma lock_routine_inv:
  assumes "lock_calls_inv lockp lock s" and "lock_status lock s = Some h"
    and "check_routine 0 (block [tfassert P m, generic_lock_state fn pp lock org lt d]) s = Inr (r, t)"
  shows "lock_calls_inv lockp lock t"
proof -
  have "tracked s (objs_key lock) \<noteq> None" using assms(2) by (auto simp: lock_status_def)
  then have "pp = 0 \<or> tracked s (objs_key lock) \<noteq> None" by simp
  from lock_body_safe [OF lock_calls_invD(2) [OF assms(1)] this, of P m fn org lt d] assms(1,3)
  show ?thesis by (simp add: ignore_result_def lock_calls_inv_def)
qed

lemma acquire_live:
  assumes inv: "lock_calls_inv lockp lock s" and st: "lock_status lock s = Some None"
    and lt: "lt \<noteq> LOCK_UNDEFINED" "lock_context lt = Some bc" "origin_fits org lt"
    and room: "length (blocking_stack s) < MAX_NESTING" and may: "bc = BLOCKING_YES \<Longrightarrow> hd (blocking_stack s) \<noteq> BLOCKING_NO"
  shows "\<exists>r t. check_routine 0 (block [tfassert (\<lambda>_. lockp > 0x1000) m, generic_lock_state fn 1 lock org lt 1]) s = Inr (r, t)"
proof -
  let ?s = "s\<lparr>global_lock := True, global_lock_acquired := 1\<rparr>"
  have p: "lockp > 0x1000" "lock > 0x1000" and u: "unlocked s" using inv by (simp_all add: lock_calls_inv_def tf_inv_def)
  have c: "in_check ?s" by (rule in_check_acquire [OF lock_calls_invD(2) [OF inv]])
  have ok: "tracker_ok ?s" "blocking_ok ?s" using in_checkD [OF c] by simp_all
  have st': "lock_status lock ?s = Some None" using st by simp
  obtain v where v: "tracked ?s (objs_key lock) = Some v" "lock_state v = lock_vector None"
    by (rule lock_status_state [OF ok(1) st'])
  from generic_lock_take_ok [OF ok v p(2) lt] room may obtain t
    where t: "generic_lock_state fn 1 lock org lt 1 ?s = Inr t" by auto
  have "tracked ?s (objs_key lock) \<noteq> None" using v by simp
  with generic_lock_state_post [OF c this, of fn 1 org lt 1] t have "in_check t" by simp
  then have "global_lock_acquired t = 1" by (simp add: in_check_def locked_def)
  with t p u show ?thesis by (simp add: check_routine_run tfassert_def release_locked)
qed

lemma release_live:
  assumes inv: "lock_calls_inv lockp lock s" and st: "lock_status lock s = Some (Some lt)"
    and lt: "lt \<noteq> LOCK_UNDEFINED" "lock_context lt = Some bc" "origin_fits org lt"
    and room: "2 \<le> length (blocking_stack s)"
  shows "\<exists>r t. check_routine 0 (block [tfassert (\<lambda>_. lockp > 0x1000) m, generic_lock_state fn 0 lock org lt (-1)]) s = Inr (r, t)"
proof -
  let ?s = "s\<lparr>global_lock := True, global_lock_acquired := 1\<rparr>"
  have p: "lockp > 0x1000" "lock > 0x1000" and u: "unlocked s" using inv by (simp_all add: lock_calls_inv_def tf_inv_def)
  have c: "in_check ?s" by (rule in_check_acquire [OF lock_calls_invD(2) [OF inv]])
  have ok: "tracker_ok ?s" "blocking_ok ?s" using in_checkD [OF c] by simp_all
  have st': "lock_status lock ?s = Some (Some lt)" using st by simp
  obtain v where v: "tracked ?s (objs_key lock) = Some v" "lock_state v = lock_vector (Some lt)"
    by (rule lock_status_state [OF ok(1) st'])
  from generic_lock_drop_ok [OF ok v p(2) lt] room obtain t
    where t: "generic_lock_state fn 0 lock org lt (-1) ?s = Inr t" by auto
  from safe_Inr [OF safe_generic_lock_state_pre c t] have "in_check t" .
  then have "global_lock_acquired t = 1" by (simp add: in_check_def locked_def)
  with t p u show ?thesis by (simp add: check_routine_run tfassert_def release_locked)
qed

lemma acquire_routine_inv:
  assumes "lock_calls_inv lockp lock s" and "lock_status lock s = Some h"
    and "check_routine 0 (block [tfassert P m, generic_lock_state fn 1 lock org lt 1]) s = Inr (r, t)"
  shows "lock_calls_inv lockp lock t \<and> (\<exists>h' c. lock_step lt (h, blocking_stack s) Acquire = Some (h', c) \<and>
    lock_status lock t = Some h' \<and> blocking_stack t = c)"
  using lock_routine_inv [OF assms] acquire_routine [OF lock_calls_invD(1) assms(2,3)] assms(1) by blast

lemma release_routine_inv:
  assumes "lock_calls_inv lockp lock s" and "lock_status lock s = Some h"
    and "check_routine 0 (block [tfassert P m, generic_lock_state fn 0 lock org lt (-1)]) s = Inr (r, t)"
  shows "lock_calls_inv lockp lock t \<and> (\<exists>h' c. lock_step lt (h, blocking_stack s) Release = Some (h', c) \<and>
    lock_status lock t = Some h' \<and> blocking_stack t = c)"
  using lock_routine_inv [OF assms] release_routine [OF lock_calls_invD(1) assms(2,3)] assms(1) by blast

lemmas origins = ORIGIN_SPIN_LOCK_def ORIGIN_MUTEX_def ORIGIN_RWLOCK_def ORIGIN_RWSEM_def

lemma origin_fits_types:
  "origin_fits ORIGIN_SPIN_LOCK SPIN_LOCK" "origin_fits ORIGIN_SPIN_LOCK SPIN_LOCK_BH" "origin_fits ORIGIN_SPIN_LOCK SPIN_LOCK_IRQSAVE"
  "origin_fits ORIGIN_SPIN_LOCK SPIN_LOCK_IRQ" "origin_fits ORIGIN_MUTEX MUTEX" "origin_fits ORIGIN_RWLOCK RWLOCK"
  by (simp_all add: origin_fits_def origins)

lemma live_lock_routines:
  assumes lt: "lt \<noteq> LOCK_UNDEFINED" "lock_context lt = Some bc" "origin_fits org lt"
  shows "live_lock_calls (lock_calls_inv lockp lock) (lock_status lock) blocking_stack
    (check_routine 0 (block [tfassert (\<lambda>_. lockp > 0x1000) m, generic_lock_state fn 1 lock org lt 1]))
    (check_routine 0 (block [tfassert (\<lambda>_. lockp > 0x1000) m, generic_lock_state fn 0 lock org lt (-1)])) lt bc"
proof (unfold_locales, goal_cases)
  case (1 s h r t)
  then show ?case by (rule acquire_routine_inv)
next
  case (2 s h r t)
  then show ?case by (rule release_routine_inv)
next
  case 3
  show ?case by (rule lt(2))
next
  case (4 s)
  then show ?case by (rule lock_calls_invD(3))
next
  case (5 s)
  from acquire_live [OF 5(1,2) lt 5(3,4)] show ?case by simp
next
  case (6 s)
  from release_live [OF 6(1,2) lt 6(3)] show ?case .
qed

interpretation live_spin: live_lock_calls "lock_calls_inv lockp lock" "lock_status lock" blocking_stack
  "u1_raw_spin_lock_MJRcheck fn 1 lockp lock" "u1_raw_spin_unlock_MJRcheck fn 0 lockp lock" SPIN_LOCK BLOCKING_NO for fn lockp lock
  unfolding u1_raw_spin_lock_MJRcheck_def u1_raw_spin_unlock_MJRcheck_def by (rule live_lock_routines) (simp_all add: origin_fits_types)

interpretation live_spin_bh: live_lock_calls "lock_calls_inv lockp lock" "lock_status lock" blocking_stack
  "u1_raw_spin_lock_bh_MJRcheck fn 1 lockp lock" "u1_raw_spin_unlock_bh_MJRcheck fn 0 lockp lock" SPIN_LOCK_BH BLOCKING_NO for fn lockp lock
  unfolding u1_raw_spin_lock_bh_MJRcheck_def u1_raw_spin_unlock_bh_MJRcheck_def by (rule live_lock_routines) (simp_all add: origin_fits_types)

interpretation live_spin_irqsave: live_lock_calls "lock_calls_inv lockp lock" "lock_status lock" blocking_stack
  "u1_raw_spin_lock_irqsave_MJRcheck fn 1 lockp lock" "u1_raw_spin_unlock_irqrestore_MJRcheck fn 0 lockp lock" SPIN_LOCK_IRQSAVE BLOCKING_NO for fn lockp lock
  unfolding u1_raw_spin_lock_irqsave_MJRcheck_def u1_raw_spin_unlock_irqrestore_MJRcheck_def by (rule live_lock_routines) (simp_all add: origin_fits_types)

interpretation live_spin_irq: live_lock_calls "lock_calls_inv lockp lock" "lock_status lock" blocking_stack
  "u1_raw_spin_lock_irq_MJRcheck fn 1 lockp lock" "u1_raw_spin_unlock_irq_MJRcheck fn 0 lockp lock" SPIN_LOCK_IRQ BLOCKING_NO for fn lockp lock
  unfolding u1_raw_spin_lock_irq_MJRcheck_def u1_raw_spin_unlock_irq_MJRcheck_def by (rule live_lock_routines) (simp_all add: origin_fits_types)

interpretation live_mutex: live_lock_calls "lock_calls_inv lockp lock" "lock_status lock" blocking_stack
  "mutex_lock_nested_MJRcheck fn 1 lockp lock" "mutex_unlock_MJRcheck fn 0 lockp lock" MUTEX BLOCKING_YES for fn lockp lock
  unfolding mutex_lock_nested_MJRcheck_def mutex_unlock_MJRcheck_def by (rule live_lock_routines) (simp_all add: origin_fits_types)

interpretation live_read_lock: live_lock_calls "lock_calls_inv lockp lock" "lock_status lock" blocking_stack
  "u1_read_lock_MJRcheck fn 1 lockp lock" "u1_read_unlock_MJRcheck fn 0 lockp lock" RWLOCK BLOCKING_NO for fn lockp lock
  unfolding u1_read_lock_MJRcheck_def u1_read_unlock_MJRcheck_def by (rule live_lock_routines) (simp_all add: origin_fits_types)

interpretation live_write_lock: live_lock_calls "lock_calls_inv lockp lock" "lock_status lock" blocking_stack
  "u1_write_lock_irqsave_MJRcheck fn 1 lockp lock" "u1_write_unlock_irqrestore_MJRcheck fn 0 lockp lock" RWLOCK BLOCKING_NO for fn lockp lock
  unfolding u1_write_lock_irqsave_MJRcheck_def u1_write_unlock_irqrestore_MJRcheck_def by (rule live_lock_routines) (simp_all add: origin_fits_types)

section \<open>Registering a lock\<close>

lemma generic_lock_allocator_ok:
  assumes mem: "mem_ok s" and new: "tracked s (objs_key lock) = None" and nz: "lock \<noteq> 0" and fn: "fn_name_ok fn"
  shows "\<exists>t. generic_lock_allocator fn 0 lock org s = Inr t"
proof -
  let ?s2 = "s\<lparr>kmalloc_calls := Suc (Suc (kmalloc_calls s))\<rparr>" and ?v = "new_value fn org (-1) 0"
  have ok: "tracker_ok s" and k: "\<forall>n. kmalloc_ok s n" using mem by (simp_all add: mem_ok_def)
  have ok1: "tracker_ok (s\<lparr>kmalloc_calls := Suc (kmalloc_calls s)\<rparr>)" using ok by simp
  have m2: "mem_ok ?s2" "tracked ?s2 (objs_key lock) = None" "object (objs_key lock) \<noteq> 0" "\<not> insane_size (obj_size ?v)"
    using mem new nz by (simp_all add: mem_ok_def new_value_def insane_size_def)
  from objs_insert_ok [OF m2] obtain u where u: "objs_insert (objs_key lock) ?v ?s2 = Inr u" ..
  have ok2: "tracker_ok ?s2" using ok by simp
  note ins = objs_insert_Inr [OF ok2 m2(3) value_ok_new u]
  show ?thesis using new nz fn k u
    by (simp add: generic_lock_allocator_def with_result_def objs_key_ptr_run reading_def objs_search_tracked [OF ok1]
        objs_value_run objs_search_tracked [OF ins(2)] ins(3))
qed

lemma lock_status_new: "lock_holder (new_value fn org sz n) = None"
  by (rule lock_holder_vector) (simp add: new_value_def lock_vector_def)

lemma lock_init_routine:
  assumes inv: "tf_inv s" and mem: "mem_ok s" and new: "tracked s (objs_key lock) = None" and nz: "lock \<noteq> 0"
    and fn: "fn_name_ok fn"
  shows "\<exists>t. check_routine 0 (generic_lock_allocator fn 0 lock org) s = Inr (0, t) \<and> tf_inv t \<and>
    tracked t = (tracked s)(objs_key lock \<mapsto> new_value fn org (-1) 0) \<and> lock_status lock t = Some None \<and>
    blocking_stack t = blocking_stack s \<and> user_stack t = user_stack s"
proof -
  let ?in = "s\<lparr>global_lock := True, global_lock_acquired := 1\<rparr>"
  have c: "in_check ?in" by (rule in_check_acquire [OF inv])
  note ok = in_checkD(3) [OF c]
  have m: "mem_ok ?in" "tracked ?in (objs_key lock) = None"
    using mem new ok by (simp_all add: mem_ok_def tracked_def)
  obtain a where a: "generic_lock_allocator fn 0 lock org ?in = Inr a"
    using generic_lock_allocator_ok [OF m nz fn] by blast
  note g = generic_lock_allocator_Inr [OF ok a]
  have tr: "tracked a = (tracked s)(objs_key lock \<mapsto> new_value fn org (-1) 0)" using g(4) m(2) new by (simp add: tracked_def)
  have b: "blocking_stack a = blocking_stack s" "user_stack a = user_stack s"
    using arg_cong [OF g(3), of blocking_stack] arg_cong [OF g(3), of user_stack]
    by (simp_all add: but_objs_def blocking_stack_def user_stack_def)
  have la: "in_check a" using safe_Inr [OF safe_generic_lock_allocator c a] .
  then have "global_lock_acquired a = 1" by (simp add: in_check_def locked_def)
  then have "check_routine 0 (generic_lock_allocator fn 0 lock org) s = Inr (0, a\<lparr>global_lock := False, global_lock_acquired := 0\<rparr>)"
    using inv a by (simp add: check_routine_Inr tf_inv_def)
  moreover have "lock_status lock a = Some None" by (simp add: lock_status_def tr lock_status_new)
  ultimately show ?thesis using tf_inv_release [OF la] tr b by (simp add: tracked_def user_stack_def)
qed

end
