(* ===== verification/Routine_Calls.thy ===== *)
theory Routine_Calls
  imports Module_Init Lock_Progress
begin

text \<open>
  Running one check routine between two calls, when the global lock is free: what an allocation and a
  release leave behind, and which failures end the path.
\<close>

section \<open>Running a routine\<close>

lemma lock_frames [simp]:
  "tracked (s\<lparr>global_lock := b, global_lock_acquired := n\<rparr>) = tracked s"
  "tracker_ok (s\<lparr>global_lock := b, global_lock_acquired := n\<rparr>) = tracker_ok s"
  "mem_ok (s\<lparr>global_lock := b, global_lock_acquired := n\<rparr>) = mem_ok s"
  "kernel_blocking_state (s\<lparr>global_lock := b, global_lock_acquired := n\<rparr>) = kernel_blocking_state s"
  "DISABLED ns (s\<lparr>global_lock := b, global_lock_acquired := n\<rparr>) = DISABLED ns s"
  by (simp_all add: tracked_def tracker_ok_def mem_ok_def kernel_blocking_state_def DISABLED_def)

lemma tf_fail_locked: "global_lock_acquired s = 1 \<Longrightarrow> objs s \<noteq> None \<Longrightarrow> tf_fail msg s = Inl (Killed 0 1 msg)"
  by (auto simp: tf_fail_def tf_fail_no_detail_def)

lemma routine_runs:
  assumes "unlocked s" and "body (s\<lparr>global_lock := True, global_lock_acquired := 1\<rparr>) = Inr u"
    and "global_lock_acquired u = 1"
  shows "check_routine r body s = Inr (r, u\<lparr>global_lock := False, global_lock_acquired := 0\<rparr>)"
  using assms by (simp add: check_routine_Inr)

lemma routine_ends:
  "unlocked s \<Longrightarrow> body (s\<lparr>global_lock := True, global_lock_acquired := 1\<rparr>) = Inl e \<Longrightarrow> check_routine r body s = Inl e"
  by (simp add: check_routine_run)

lemma killed_in_check: "tf_inv s \<Longrightarrow> body = tf_fail msg \<Longrightarrow> check_routine r body s = Inl (Killed 0 1 msg)"
  by (rule routine_ends) (simp_all add: tf_inv_def in_check_acquire [unfolded tf_inv_def] in_check_fail)

section \<open>Allocation and release\<close>

lemma alloc_routine:
  assumes inv: "tf_inv s" and mem: "mem_ok s" and new: "tracked s (objs_key p) = None"
    and p: "\<not> IS_ERR_VALUE s p" "p \<noteq> 0" and sz: "\<not> insane_size sz" and fn: "fn_name_ok fn" and org: "org \<noteq> 0"
  shows "\<exists>t. check_routine 0 (generic_allocator fn 1 p sz org) s = Inr (0, t) \<and> tf_inv t \<and>
    tracked t = (tracked s)(objs_key p \<mapsto> new_value fn org sz 1)"
proof -
  let ?in = "s\<lparr>global_lock := True, global_lock_acquired := 1\<rparr>"
  have ok: "tracker_ok ?in" "mem_ok ?in" using mem by (simp_all add: mem_ok_def)
  obtain a where a: "generic_allocator fn 1 p sz org ?in = Inr a"
    using generic_allocator_ok [OF ok(2), of p sz fn org] new p sz fn org by auto
  have la: "in_check a" using safe_Inr [OF safe_generic_allocator in_check_acquire [OF inv] a] .
  then have "global_lock_acquired a = 1" by (simp add: in_check_def locked_def)
  then show ?thesis
    using routine_runs [of s "generic_allocator fn 1 p sz org" a 0, OF _ a] inv tf_inv_release [OF la] generic_allocator_Inr(2) [OF ok(1) a] p
    by (simp add: tf_inv_def [of s])
qed

text \<open>A release ends the path, or takes the record out.\<close>

lemma free_routine:
  assumes inv: "tf_inv s"
  shows "case tracked s (objs_key p) of
      None \<Rightarrow> check_routine 0 (generic_free 0 p org) s = Inl (Killed 0 1 ''Freeing something that we never allocated'')
    | Some v \<Rightarrow> if origin v AND org = 0 then check_routine 0 (generic_free 0 p org) s = Inl (Killed 0 1 ''Object origin'')
        else \<exists>t. check_routine 0 (generic_free 0 p org) s = Inr (0, t) \<and> tf_inv t \<and>
          tracked t = (tracked s)(objs_key p := None)"
proof -
  let ?in = "s\<lparr>global_lock := True, global_lock_acquired := 1\<rparr>"
  have free: "unlocked s" and ok: "tracker_ok ?in" using inv by (simp_all add: tf_inv_def core_inv_def)
  obtain a where a: "tracker_ok a" "tracked a = (tracked s)(objs_key p := None)" "a = ?in\<lparr>objs := objs a\<rparr>"
    "generic_free 0 p org ?in =
      (case tracked s (objs_key p) of
         None \<Rightarrow> tf_fail ''Freeing something that we never allocated'' a
       | Some v \<Rightarrow> if origin v AND org = 0 then tf_fail ''Object origin'' a else Inr a)"
    using generic_free_run [OF ok, of p org] by auto
  have l: "global_lock_acquired a = 1" by (subst a(3)) simp
  have killed: "tf_fail msg a = Inl (Killed 0 1 msg)" for msg
    using a(1) l by (auto simp: tf_fail_def tf_fail_no_detail_def tracker_ok_def)
  show ?thesis
  proof (cases "\<exists>v. tracked s (objs_key p) = Some v \<and> origin v AND org \<noteq> 0")
    case True
    then have r: "generic_free 0 p org ?in = Inr a" using a(4) by auto
    have "in_check a" using safe_Inr [OF safe_generic_free in_check_acquire [OF inv] r] .
    with True a(2) show ?thesis using routine_runs [of s "generic_free 0 p org" a 0, OF free r l] by (auto dest: tf_inv_release)
  next
    case False
    then show ?thesis using a(4) free killed by (auto simp: routine_ends split: option.split)
  qed
qed

lemma kfree_routine: "p \<noteq> 0 \<Longrightarrow> kfree_MJRcheck 0 (Some p) = check_routine 0 (generic_free 0 p ORIGIN_KMALLOC)"
  by (simp add: kfree_MJRcheck_def)

lemma vfree_routine: "p \<noteq> 0 \<Longrightarrow> vfree_MJRcheck 0 (Some p) = check_routine 0 (generic_free 0 p ORIGIN_VMALLOC)"
  by (simp add: vfree_MJRcheck_def)

lemma kmalloc_routine: "u2_kmalloc_MJRcheck fn 1 p sz flgs = check_routine 0 (generic_allocator fn 1 p sz ORIGIN_KMALLOC)"
  by (simp add: u2_kmalloc_MJRcheck_def)

end
