(* ===== verification/Tracker_Properties.thy ===== *)
theory Tracker_Properties
  imports Routine_Calls
begin

text \<open>
  Properties of the object tracker and of the checks that rest on it: allocation and release, memory
  flags, locks and capabilities.
\<close>

section \<open>Allocation and release\<close>

text \<open>C2. Any sequence of allocations and releases the tracker is told of is accepted exactly when every
  step is legal on a map from live addresses to their records, and then the table holds that map: no
  address is recorded twice, and none is released twice or by another allocator's release.\<close>

theorem tracker_refines_map:
  assumes "mem_ok s"
  shows "case alloc_run (IS_ERR_VALUE s) (tracked s) ps of
      Some m \<Rightarrow> \<exists>t. block (map (mem_act (\<lambda>fn. generic_allocator fn 1) (generic_free 0)) ps) s = Inr t \<and> mem_ok t \<and> tracked t = m
    | None \<Rightarrow> \<exists>e. block (map (mem_act (\<lambda>fn. generic_allocator fn 1) (generic_free 0)) ps) s = Inl e"
  using objs.run_some [OF assms] objs.run_none [OF assms]
  by (cases "alloc_run (IS_ERR_VALUE s) (tracked s) ps") simp_all

theorem tracker_refines_map_witness:
  "\<exists>(s :: mod_state) t e. init_common loading = Inr s \<and>
     block (map (mem_act (\<lambda>fn. generic_allocator fn 1) (generic_free 0))
       [Alloc ''kmalloc'' 0x2000 64 ORIGIN_KMALLOC, Alloc ''vmalloc'' 0 64 ORIGIN_VMALLOC,
        Alloc ''vmalloc'' 0x3000 4096 ORIGIN_VMALLOC, Free 0x2000 ORIGIN_KMALLOC]) s = Inr t \<and>
     tracked t = [objs_key 0x3000 \<mapsto> new_value ''vmalloc'' ORIGIN_VMALLOC 4096 1] \<and>
     block (map (mem_act (\<lambda>fn. generic_allocator fn 1) (generic_free 0))
       [Alloc ''kmalloc'' 0x2000 64 ORIGIN_KMALLOC, Free 0x2000 ORIGIN_VMALLOC]) s = Inl e"
proof -
  obtain s :: mod_state where s: "init_common loading = Inr s" "loaded s" "mem_ok s"
    and err: "IS_ERR_VALUE s = (\<lambda>v. v \<ge> -4095)" by (rule started)
  note m = loadedD(2) [OF s(2)]
  show ?thesis
    using s(1) tracker_refines_map [OF s(3), of "[Alloc ''kmalloc'' 0x2000 64 ORIGIN_KMALLOC, Alloc ''vmalloc'' 0 64 ORIGIN_VMALLOC,
        Alloc ''vmalloc'' 0x3000 4096 ORIGIN_VMALLOC, Free 0x2000 ORIGIN_KMALLOC]"]
      tracker_refines_map [OF s(3), of "[Alloc ''kmalloc'' 0x2000 64 ORIGIN_KMALLOC, Free 0x2000 ORIGIN_VMALLOC]"]
    by (auto simp: m err objs_key_def insane_size_def fn_name_ok_def new_value_def ORIGIN_KMALLOC_def ORIGIN_VMALLOC_def
        simp del: block.simps split: option.splits)
qed

text \<open>C10. A block from \<open>kmalloc\<close> is recorded with its size and origin and marked new, \<open>vfree\<close> of it is
  killed, \<open>kfree\<close> of it is accepted and leaves the record as it was before, and a second \<open>kfree\<close> is killed.\<close>

theorem kmalloc_kfree_round_trip:
  assumes inv: "tf_inv s" and mem: "mem_ok s" and new: "tracked s (objs_key p) = None"
    and p: "\<not> IS_ERR_VALUE s p" "p \<noteq> 0" and sz: "\<not> insane_size sz" and fn: "fn_name_ok fn"
  shows "\<exists>t u. u2_kmalloc_MJRcheck fn 1 p sz flgs s = Inr (0, t) \<and>
    tracked t = (tracked s)(objs_key p \<mapsto> new_value fn ORIGIN_KMALLOC sz 1) \<and>
    vfree_MJRcheck 0 (Some p) t = Inl (Killed 0 1 ''Object origin'') \<and>
    kfree_MJRcheck 0 (Some p) t = Inr (0, u) \<and> tracked u = tracked s \<and>
    kfree_MJRcheck 0 (Some p) u = Inl (Killed 0 1 ''Freeing something that we never allocated'')"
proof -
  have org: "ORIGIN_KMALLOC \<noteq> 0" "ORIGIN_KMALLOC AND ORIGIN_KMALLOC \<noteq> 0" "ORIGIN_KMALLOC AND ORIGIN_VMALLOC = 0"
    by (simp_all add: ORIGIN_KMALLOC_def ORIGIN_VMALLOC_def)
  from alloc_routine [OF inv mem new p sz fn org(1)] obtain t
    where t: "u2_kmalloc_MJRcheck fn 1 p sz flgs s = Inr (0, t)" "tf_inv t"
      "tracked t = (tracked s)(objs_key p \<mapsto> new_value fn ORIGIN_KMALLOC sz 1)"
    unfolding kmalloc_routine by blast
  have rec: "tracked t (objs_key p) = Some (new_value fn ORIGIN_KMALLOC sz 1)" by (simp add: t(3))
  from free_routine [OF t(2), of p ORIGIN_KMALLOC] rec org obtain u
    where u: "kfree_MJRcheck 0 (Some p) t = Inr (0, u)" "tf_inv u" "tracked u = tracked s"
    using new by (auto simp: kfree_routine [OF p(2)] new_value_def t(3) fun_upd_idem)
  have "vfree_MJRcheck 0 (Some p) t = Inl (Killed 0 1 ''Object origin'')"
    using free_routine [OF t(2), of p ORIGIN_VMALLOC] rec org by (simp add: vfree_routine [OF p(2)] new_value_def)
  moreover have "kfree_MJRcheck 0 (Some p) u = Inl (Killed 0 1 ''Freeing something that we never allocated'')"
    using free_routine [OF u(2), of p ORIGIN_KMALLOC] new by (simp add: kfree_routine [OF p(2)] u(3))
  ultimately show ?thesis using t u by blast
qed

theorem kmalloc_kfree_round_trip_witness:
  "\<exists>(s :: mod_state) t u. init_common loading = Inr s \<and> u2_kmalloc_MJRcheck ''kmalloc'' 1 0x2000 64 0xD0 s = Inr (0, t) \<and>
     kfree_MJRcheck 0 (Some 0x2000) t = Inr (0, u) \<and> tracked u = Map.empty"
proof -
  obtain s :: mod_state where s: "init_common loading = Inr s" "loaded s" "mem_ok s" "tf_inv s"
    and err: "IS_ERR_VALUE s = (\<lambda>v. v \<ge> -4095)" by (rule started)
  show ?thesis
    using s(1) kmalloc_kfree_round_trip [OF s(4,3), where p = "0x2000" and sz = 64 and fn = "''kmalloc''" and flgs = "0xD0"]
    by (auto simp: loadedD(2) [OF s(2)] err insane_size_def fn_name_ok_def)
qed

section \<open>Ageing\<close>

text \<open>Objects are marked new until the outermost call into the driver ends. The flag \<open>objs_dirty\<close> is
  faithful when a clear flag means that nothing is marked.\<close>

definition dirty_ok :: "'a test_state_scheme \<Rightarrow> bool" where
  "dirty_ok s \<longleftrightarrow> (objs_dirty s = 0 \<longrightarrow> (\<forall>v \<in> ran (tracked s). new_object v = 0))"

text \<open>C23. Skipping the walk over the table when the flag is clear is sound: \<open>reset_new_objects\<close> always
  leaves what the walk would leave, every object marked old and nothing else changed, and the tracker's
  operations keep the flag faithful.\<close>

theorem reset_new_objects_ages_all:
  assumes ok: "tracker_ok s" and dirty: "dirty_ok s"
  shows "(\<exists>t. reset_new_objects s = Inr t \<and> tracked t = (\<lambda>k. map_option aged (tracked s k)) \<and>
      t = s\<lparr>objs := objs t, objs_dirty := 0\<rparr> \<and> dirty_ok t) \<and>
    (\<forall>fn p sz org t. generic_allocator fn 1 p sz org s = Inr t \<longrightarrow> dirty_ok t) \<and>
    (\<forall>p org t. generic_free 0 p org s = Inr t \<longrightarrow> dirty_ok t)"
proof (intro conjI allI impI)
  from reset_new_objects_run [OF ok] obtain t
    where t: "reset_new_objects s = Inr t" "objs_dirty t = 0" "t = s\<lparr>objs := objs t, objs_dirty := 0\<rparr>"
      "tracked t = (if objs_dirty s = 0 then tracked s else (\<lambda>k. map_option aged (tracked s k)))" by blast
  have same: "map_option aged (tracked s k) = tracked s k" if "objs_dirty s = 0" for k
    using dirty that by (cases "tracked s k") (auto simp: dirty_ok_def aged_def ran_def)
  have tr: "tracked t = (\<lambda>k. map_option aged (tracked s k))" using t(4) same by (auto simp: fun_eq_iff)
  have "new_object v = 0" if "v \<in> ran (tracked t)" for v
    using that by (auto simp: tr ran_def aged_def)
  with t(1,3) tr show "\<exists>t. reset_new_objects s = Inr t \<and> tracked t = (\<lambda>k. map_option aged (tracked s k)) \<and>
      t = s\<lparr>objs := objs t, objs_dirty := 0\<rparr> \<and> dirty_ok t" by (auto simp: dirty_ok_def)
next
  fix fn p sz org t assume a: "generic_allocator fn 1 p sz org s = Inr t"
  show "dirty_ok t"
  proof (cases "IS_ERR_VALUE s p \<or> p = 0")
    case True
    then show ?thesis using generic_allocator_Inr(2) [OF ok a] dirty by simp
  next
    case False
    then obtain n h where "t = s\<lparr>kmalloc_calls := n, objs := h, objs_dirty := 1\<rparr>"
      using generic_allocator_Inr(2) [OF ok a] by auto
    then show ?thesis by (simp add: dirty_ok_def)
  qed
next
  fix p org t assume a: "generic_free 0 p org s = Inr t"
  note f = generic_free_Inr [OF ok a]
  obtain h where h: "t = s\<lparr>objs := h\<rparr>" using f(3) by blast
  have "ran (tracked t) \<subseteq> ran (tracked s)" by (auto simp: f(2) ran_def split: if_splits)
  then show "dirty_ok t" using dirty by (auto simp: dirty_ok_def h)
qed

theorem reset_new_objects_ages_all_witness:
  "\<exists>(s :: mod_state) t u. init_common loading = Inr s \<and>
     u2_kmalloc_MJRcheck ''kmalloc'' 1 0x2000 64 0xD0 s = Inr (0, t) \<and>
     tracked t = [objs_key 0x2000 \<mapsto> new_value ''kmalloc'' ORIGIN_KMALLOC 64 1] \<and>
     reset_new_objects t = Inr u \<and> tracked u = [objs_key 0x2000 \<mapsto> new_value ''kmalloc'' ORIGIN_KMALLOC 64 0]"
proof -
  obtain s :: mod_state where s: "init_common loading = Inr s" "loaded s" "mem_ok s" "tf_inv s"
    and err: "IS_ERR_VALUE s = (\<lambda>v. v \<ge> -4095)" by (rule started)
  have m: "tracked s = Map.empty" by (rule loadedD(2) [OF s(2)])
  have ok: "tracker_ok s" "dirty_ok s" using s(3) by (simp_all add: mem_ok_def dirty_ok_def m)
  have "tracked s (objs_key 0x2000) = None" "\<not> IS_ERR_VALUE s 0x2000" "\<not> insane_size 64" "fn_name_ok ''kmalloc''" "ORIGIN_KMALLOC \<noteq> 0"
    by (simp_all add: m err insane_size_def fn_name_ok_def ORIGIN_KMALLOC_def)
  from alloc_routine [OF s(4,3) this(1,2) _ this(3-5)] obtain t
    where t: "u2_kmalloc_MJRcheck ''kmalloc'' 1 0x2000 64 0xD0 s = Inr (0, t)" "tf_inv t"
      "tracked t = [objs_key 0x2000 \<mapsto> new_value ''kmalloc'' ORIGIN_KMALLOC 64 1]"
    unfolding kmalloc_routine by (auto simp: m)
  from t(1) obtain u where u: "t = u\<lparr>global_lock := False, global_lock_acquired := 0\<rparr>"
    "generic_allocator ''kmalloc'' 1 0x2000 64 ORIGIN_KMALLOC (s\<lparr>global_lock := True, global_lock_acquired := 1\<rparr>) = Inr u"
    by (auto simp: kmalloc_routine check_routine_Inr)
  let ?s = "s\<lparr>global_lock := True, global_lock_acquired := 1\<rparr>"
  have "tracker_ok ?s" "dirty_ok ?s" using ok by (simp_all add: dirty_ok_def)
  from reset_new_objects_ages_all [OF this] u(2) have "dirty_ok u" by blast
  then have d: "dirty_ok t" by (simp add: u(1) dirty_ok_def)
  have "tracker_ok t" using t(2) by (simp add: tf_inv_def core_inv_def)
  from reset_new_objects_ages_all [OF this d] obtain v
    where "reset_new_objects t = Inr v" "tracked v = (\<lambda>k. map_option aged (tracked t k))" by blast
  with s(1) t show ?thesis by (auto simp: fun_eq_iff aged_def new_value_def)
qed

section \<open>Memory flags\<close>

text \<open>C29. Before \<open>kmalloc\<close>, sleeping flags are accepted exactly where the kernel context allows blocking or
  is unknown, atomic flags exactly where it forbids blocking or is unknown; other flags always are, and
  an accepted call changes nothing.\<close>

theorem kmalloc_flags_fit_context:
  assumes inv: "tf_inv s" and drv: "driver_name s \<noteq> ''HOSTAP''" "driver_name s \<noteq> ''USB_AUDIO''"
    and dif: "GFP_ATOMIC s \<noteq> GFP_KERNEL s"
  shows "(if flgs = GFP_KERNEL s \<and> hd (blocking_stack s) = BLOCKING_NO \<or>
             flgs = GFP_ATOMIC s \<and> hd (blocking_stack s) = BLOCKING_YES
          then \<exists>msg. u2_kmalloc_MJRcheck fn 0 p sz flgs s = Inl (Killed 0 1 msg)
          else u2_kmalloc_MJRcheck fn 0 p sz flgs s = Inr (0, s))"
proof -
  let ?in = "s\<lparr>global_lock := True, global_lock_acquired := 1\<rparr>"
  have c: "in_check ?in" by (rule in_check_acquire [OF inv])
  have u: "unlocked s" and b: "blocking_ok s" using inv by (simp_all add: tf_inv_def core_inv_def)
  have k: "kernel_blocking_state s = hd (blocking_stack s)" by (rule kernel_blocking_state_hd [OF b])
  have restored: "?in\<lparr>global_lock := False, global_lock_acquired := 0\<rparr> = s" using u by (simp add: unlocked_def)
  have run: "u2_kmalloc_MJRcheck fn 0 p sz flgs s = check_routine 0 (gfp_test flgs) s" by (simp add: u2_kmalloc_MJRcheck_def)
  have d: "\<not> DISABLED [''HOSTAP''] s" "\<not> DISABLED [''USB_AUDIO'', ''HOSTAP''] s" using drv by (simp_all add: DISABLED_def)
  let ?bad = "flgs = GFP_KERNEL s \<and> hd (blocking_stack s) = BLOCKING_NO \<or>
             flgs = GFP_ATOMIC s \<and> hd (blocking_stack s) = BLOCKING_YES"
  have g: "gfp_test flgs ?in = (if ?bad then gfp_test flgs ?in else Inr ?in)" "?bad \<Longrightarrow> \<exists>msg. gfp_test flgs ?in = Inl (Killed 0 1 msg)"
    using d dif k in_check_fail [OF c] by (cases "hd (blocking_stack s)"; auto simp: gfp_test_def mem_flags_test_def tfassert_def)+
  show ?thesis
  proof (cases ?bad)
    case True
    with g(2) show ?thesis unfolding run using routine_ends [OF u] by fastforce
  next
    case False
    with g(1) have r: "gfp_test flgs ?in = Inr ?in" by argo
    have "check_routine 0 (gfp_test flgs) s = Inr (0, ?in\<lparr>global_lock := False, global_lock_acquired := 0\<rparr>)"
      using routine_runs [of s "gfp_test flgs" ?in 0, OF u r] by simp
    then show ?thesis unfolding run restored if_not_P [OF False] .
  qed
qed

theorem kmalloc_flags_fit_context_witness:
  "\<exists>(s :: mod_state) t. init_common loading = Inr s \<and> u2_kmalloc_MJRcheck ''kmalloc'' 0 0 64 0xD0 s = Inr (0, s) \<and>
     push_blocking_state BLOCKING_NO s = Inr t \<and> (\<exists>msg. u2_kmalloc_MJRcheck ''kmalloc'' 0 0 64 0xD0 t = Inl (Killed 0 1 msg)) \<and>
     u2_kmalloc_MJRcheck ''kmalloc'' 0 0 64 0x20 t = Inr (0, t)"
proof -
  obtain s :: mod_state where s: "init_common loading = Inr s" "loaded s" "tf_inv s" "driver_name s = ''8139TOO''"
    and g: "GFP_KERNEL s = 0xD0" "GFP_ATOMIC s = 0x20" by (rule started)
  note st = loadedD(4) [OF s(2)]
  have b: "blocking_ok s" using s(3) by (simp add: tf_inv_def core_inv_def)
  from blocking.push_room [OF b, of BLOCKING_NO] obtain t
    where t: "push_blocking_state BLOCKING_NO s = Inr t" "blocking_ok t" "blocking_stack t = [BLOCKING_NO, BLOCKING_UNDEFINED]"
    by (auto simp: st MAX_NESTING_def)
  obtain n xs where n: "t = s\<lparr>blocking_context_current := n, blocking_context := xs\<rparr>"
    using t(1) b by (auto simp: push_blocking_state_run blocking_ok_def split: if_splits)
  have i: "tf_inv t" using s(3) t(2) unfolding n by (simp add: tf_inv_def core_inv_def user_ok_def tracker_ok_def flags_ok_def
      all_buses_def flag_of_simps class_ok_def unlocked_def)
  have e: "driver_name t = ''8139TOO''" "GFP_KERNEL t = 0xD0" "GFP_ATOMIC t = 0x20" using s(4) g by (simp_all add: n)
  show ?thesis
    using s(1) t(1) kmalloc_flags_fit_context [OF s(3), where fn = "''kmalloc''" and p = 0 and sz = 64 and flgs = "0xD0"]
      kmalloc_flags_fit_context [OF i, where fn = "''kmalloc''" and p = 0 and sz = 64 and flgs = "0xD0"]
      kmalloc_flags_fit_context [OF i, where fn = "''kmalloc''" and p = 0 and sz = 64 and flgs = "0x20"]
    by (auto simp: s(4) g e st t(3))
qed

section \<open>Locks\<close>

text \<open>C9. A sequence of calls of \<open>spin_lock\<close> and \<open>spin_unlock\<close> on a free lock passes exactly when they
  alternate, starting with a lock call; while the lock is held the context on top of the stack forbids
  blocking, and after the unlock the stack is what it was.\<close>

theorem spin_calls_alternate:
  assumes inv: "tf_inv s" and p: "lockp > 0x1000" "lock > 0x1000" and st: "lock_status lock s = Some None"
    and room: "length (blocking_stack s) < MAX_NESTING"
  shows "((\<exists>t. block (map (lock_calls_act (u1_raw_spin_lock_MJRcheck fn 1 lockp lock) (u1_raw_spin_unlock_MJRcheck fn 0 lockp lock)) ps) s = Inr t)
      \<longleftrightarrow> successively (\<noteq>) (Release # ps)) \<and>
    (\<forall>t. block (map (lock_calls_act (u1_raw_spin_lock_MJRcheck fn 1 lockp lock) (u1_raw_spin_unlock_MJRcheck fn 0 lockp lock)) ps) s = Inr t \<longrightarrow>
      tf_inv t \<and> (if last (Release # ps) = Acquire
        then lock_status lock t = Some (Some SPIN_LOCK) \<and> blocking_stack t = BLOCKING_NO # blocking_stack s
        else lock_status lock t = Some None \<and> blocking_stack t = blocking_stack s))"
proof -
  have i: "lock_calls_inv lockp lock s" using inv p by (simp add: lock_calls_inv_def)
  have at: "live_spin.at_op lockp lock (blocking_stack s) Release s" using i st by (simp add: live_spin.at_op_def)
  have n: "blocking_stack s \<noteq> []" "BLOCKING_NO = BLOCKING_YES \<Longrightarrow> hd (blocking_stack s) \<noteq> BLOCKING_NO"
    using lock_calls_invD(3) [OF i] by simp_all
  note r = live_spin.alternates [OF n(1) room n(2) at, of fn ps]
  have "tf_inv t \<and> (if last (Release # ps) = Acquire
        then lock_status lock t = Some (Some SPIN_LOCK) \<and> blocking_stack t = BLOCKING_NO # blocking_stack s
        else lock_status lock t = Some None \<and> blocking_stack t = blocking_stack s)"
    if "live_spin.at_op lockp lock (blocking_stack s) (last (Release # ps)) t" for t
    using that by (cases "last (Release # ps)") (simp_all add: live_spin.at_op_def lock_calls_inv_def del: last.simps)
  with r show ?thesis by blast
qed

theorem spin_calls_alternate_witness:
  "\<exists>(s :: mod_state) t u v. init_common loading = Inr s \<and>
     u2_raw_spin_lock_init_MJRcheck ''spin_lock_init'' 0 0x2000 s = Inr (0, t) \<and>
     block (map (lock_calls_act (u1_raw_spin_lock_MJRcheck ''l'' 1 0x3000 0x2000) (u1_raw_spin_unlock_MJRcheck ''l'' 0 0x3000 0x2000))
       [Acquire, Release, Acquire]) t = Inr u \<and> hd (blocking_stack u) = BLOCKING_NO \<and>
     block (map (lock_calls_act (u1_raw_spin_lock_MJRcheck ''l'' 1 0x3000 0x2000) (u1_raw_spin_unlock_MJRcheck ''l'' 0 0x3000 0x2000))
       [Acquire, Acquire]) t = Inl v"
proof -
  obtain s :: mod_state where s: "init_common loading = Inr s" "loaded s" "mem_ok s" "tf_inv s" by (rule started)
  have new: "tracked s (objs_key 0x2000) = None" by (simp add: loadedD(2) [OF s(2)])
  have fn: "fn_name_ok ''spin_lock_init''" by (simp add: fn_name_ok_def)
  from lock_init_routine [OF s(4,3) new _ fn] obtain t
    where t: "u2_raw_spin_lock_init_MJRcheck ''spin_lock_init'' 0 0x2000 s = Inr (0, t)" "tf_inv t"
      "lock_status 0x2000 t = Some None" "blocking_stack t = [BLOCKING_UNDEFINED]"
    unfolding u2_raw_spin_lock_init_MJRcheck_def using loadedD(4) [OF s(2)] by force
  have room: "length (blocking_stack t) < MAX_NESTING" by (simp add: t(4) MAX_NESTING_def)
  have a: "(0x1000 :: ulong) < 0x3000" "(0x1000 :: ulong) < 0x2000" by simp_all
  note r = spin_calls_alternate [OF t(2) a t(3) room, of "''l''"]
  obtain u where u: "block (map (lock_calls_act (u1_raw_spin_lock_MJRcheck ''l'' 1 0x3000 0x2000) (u1_raw_spin_unlock_MJRcheck ''l'' 0 0x3000 0x2000))
       [Acquire, Release, Acquire]) t = Inr u" "hd (blocking_stack u) = BLOCKING_NO"
    using r [of "[Acquire, Release, Acquire]"] by (auto simp del: block.simps)
  obtain v where v: "block (map (lock_calls_act (u1_raw_spin_lock_MJRcheck ''l'' 1 0x3000 0x2000) (u1_raw_spin_unlock_MJRcheck ''l'' 0 0x3000 0x2000))
       [Acquire, Acquire]) t = Inl v"
    using r [of "[Acquire, Acquire]"]
    by (cases "block (map (lock_calls_act (u1_raw_spin_lock_MJRcheck ''l'' 1 0x3000 0x2000) (u1_raw_spin_unlock_MJRcheck ''l'' 0 0x3000 0x2000))
       [Acquire, Acquire]) t") (auto simp del: block.simps)
  from s(1) t(1) u v show ?thesis by blast
qed

text \<open>C28. A free mutex is taken exactly where the context does not forbid blocking, a held one never; so no
  mutex at all can be taken after a spin lock was.\<close>

theorem mutex_needs_blocking_context:
  assumes inv: "tf_inv s" and p: "lockp > 0x1000" "lock > 0x1000" and st: "lock_status lock s = Some h"
    and room: "length (blocking_stack s) < MAX_NESTING"
  shows "((\<exists>t. mutex_lock_nested_MJRcheck fn 1 lockp lock s = Inr (0, t)) \<longleftrightarrow>
      h = None \<and> hd (blocking_stack s) \<noteq> BLOCKING_NO) \<and>
    (\<forall>ap a g t. lock_status a s = Some g \<longrightarrow> u1_raw_spin_lock_MJRcheck fn 1 ap a s = Inr (0, t) \<longrightarrow>
      lock_status lock t \<noteq> None \<longrightarrow> (\<exists>e. mutex_lock_nested_MJRcheck fn 1 lockp lock t = Inl e))"
proof -
  have no: "g = None \<and> hd (blocking_stack t) \<noteq> BLOCKING_NO"
    if i: "tf_inv t" and g: "lock_status lock t = Some g" and run: "mutex_lock_nested_MJRcheck fn 1 lockp lock t = Inr (r, u)" for t g r u
  proof -
    let ?t = "t\<lparr>global_lock := True, global_lock_acquired := 1\<rparr>"
    have ok: "tracker_ok ?t" "blocking_ok ?t" using in_checkD [OF in_check_acquire [OF i]] by simp_all
    have "lock_status lock ?t = Some g" using g by simp
    with ok(1) obtain v where v: "tracked ?t (objs_key lock) = Some v" "lock_state v = lock_vector g"
      by (rule lock_status_state)
    from run obtain w where w: "generic_lock_state fn 1 lock ORIGIN_MUTEX MUTEX 1 ?t = Inr w"
      by (auto simp: mutex_lock_nested_MJRcheck_def check_routine_Inr block_Cons_Inr simp del: block.simps(2))
    note take = generic_lock_take [OF ok(1) v w]
    from take(3) obtain x where x: "lock_kernel_state ORIGIN_MUTEX MUTEX 1 x = Inr w"
      "objs_poke (objs_key lock) (v\<lparr>lock_state := lock_vector (Some MUTEX)\<rparr>) ?t = Inr x" by blast
    then obtain h where h: "x = ?t\<lparr>objs := h\<rparr>" by (auto simp: objs_poke_def split: option.splits)
    have "kernel_blocking_state x \<noteq> BLOCKING_NO" using x(1) by (auto simp: lock_kernel_state_def split: if_splits)
    then show ?thesis using take(2) kernel_blocking_state_hd [OF ok(2)] by (simp add: h)
  qed
  have i: "lock_calls_inv lockp lock s" using inv p by (simp add: lock_calls_inv_def)
  have yes: "\<exists>t. mutex_lock_nested_MJRcheck fn 1 lockp lock s = Inr (0, t)" if "h = None" "hd (blocking_stack s) \<noteq> BLOCKING_NO"
  proof -
    from live_mutex.acquire_ok [OF i _ room] st that obtain r t where run: "mutex_lock_nested_MJRcheck fn 1 lockp lock s = Inr (r, t)" by blast
    then have "r = 0" by (simp add: mutex_lock_nested_MJRcheck_def check_routine_Inr)
    with run show ?thesis by blast
  qed
  have spin: "\<exists>e. mutex_lock_nested_MJRcheck fn 1 lockp lock t = Inl e"
    if g: "lock_status a s = Some g" and run: "u1_raw_spin_lock_MJRcheck fn 1 ap a s = Inr (0, t)" and m: "lock_status lock t \<noteq> None" for ap a g t
  proof -
    have "lock_inv s" by (rule lock_calls_invD(1) [OF i])
    from spin.acquire_effect [OF this g run] have "hd (blocking_stack t) = BLOCKING_NO" by (auto split: if_splits) (metis list.sel(1))
    moreover have "(1 :: int) = 0 \<or> tracked s (objs_key a) \<noteq> None" using g by (auto simp: lock_status_def)
    from lock_body_safe [OF inv this, of "\<lambda>_. ap > 0x1000" "''Incorrect lock provided''" fn ORIGIN_SPIN_LOCK SPIN_LOCK 1] run
    have "tf_inv t" by (simp add: u1_raw_spin_lock_MJRcheck_def ignore_result_def)
    ultimately show ?thesis using no [of t] m by (cases "mutex_lock_nested_MJRcheck fn 1 lockp lock t") auto
  qed
  show ?thesis using yes no [OF inv st] spin by blast
qed

theorem mutex_needs_blocking_context_witness:
  "\<exists>(s :: mod_state) t u. init_common loading = Inr s \<and> u2_mutex_init_MJRcheck ''mutex_init'' 0 0x2000 s = Inr (0, t) \<and>
     mutex_lock_nested_MJRcheck ''l'' 1 0x3000 0x2000 t = Inr (0, u)"
proof -
  obtain s :: mod_state where s: "init_common loading = Inr s" "loaded s" "mem_ok s" "tf_inv s" by (rule started)
  have new: "tracked s (objs_key 0x2000) = None" by (simp add: loadedD(2) [OF s(2)])
  have fn: "fn_name_ok ''mutex_init''" by (simp add: fn_name_ok_def)
  from lock_init_routine [OF s(4,3) new _ fn] obtain t
    where t: "u2_mutex_init_MJRcheck ''mutex_init'' 0 0x2000 s = Inr (0, t)" "tf_inv t"
      "lock_status 0x2000 t = Some None" "blocking_stack t = [BLOCKING_UNDEFINED]"
    unfolding u2_mutex_init_MJRcheck_def using loadedD(4) [OF s(2)] by force
  have room: "length (blocking_stack t) < MAX_NESTING" by (simp add: t(4) MAX_NESTING_def)
  have a: "(0x1000 :: ulong) < 0x3000" "(0x1000 :: ulong) < 0x2000" by simp_all
  from mutex_needs_blocking_context [OF t(2) a t(3) room, of "''l''"] s(1) t show ?thesis by auto
qed

lemma verify_all_locks_released_run:
  assumes inv: "in_check s"
  shows "verify_all_locks_released s =
    (if \<forall>lock. lock_status lock s = None \<or> lock_status lock s = Some None then Inr s
     else Inl (Killed 0 1 ''Lock currently held''))"
proof -
  have ok: "tracker_ok s" by (rule in_checkD(3) [OF inv])
  then obtain h where h: "objs s = Some h" "table_ok h" "ht_inv h" "tracked s = ht_map h" by (rule tracker_okE)
  have keep: "hash_check_lock s k v = Inr w \<Longrightarrow> w = v" for k v w
    by (auto simp: hash_check_lock_def assert_value_def map_sum_def split: sum.splits)
  have killed: "hash_check_lock s k v = Inl e \<Longrightarrow> e = Killed 0 1 ''Lock currently held''" for k v e
    using in_check_fail [OF inv] by (auto simp: hash_check_lock_def assert_value_def tfassert_def split: if_splits)
  have pass: "hash_check_lock s k v = Inr v \<longleftrightarrow> lock_holder v = None" if "tracked s k = Some v" for k v
  proof -
    have "value_ok v" by (rule tracked_value_ok [OF ok that])
    then obtain g where g: "lock_state v = lock_vector g" by (auto simp: value_ok_def)
    have "list_all (\<lambda>x. x = 0) (lock_vector g) \<longleftrightarrow> g = None"
      by (cases g; cases "the g") (simp_all add: lock_vector_def NUM_LOCK_TYPES_def numeral_eq_Suc)
    then show ?thesis using in_check_fail [OF inv]
      by (simp add: hash_check_lock_def assert_value_def tfassert_def g lock_holder_vector [OF g])
  qed
  have key: "(\<forall>lock. lock_status lock s = None \<or> lock_status lock s = Some None) \<longleftrightarrow> (\<forall>k v. tracked s k = Some v \<longrightarrow> lock_holder v = None)"
    by (auto simp: lock_status_def) (metis hkey.cases objs_key_def option.distinct(1) option.inject)
  show ?thesis
  proof (cases "\<forall>k v. tracked s k = Some v \<longrightarrow> lock_holder v = None")
    case True
    then have "hashtable_enumerate h (Some (hash_check_lock s)) = Inr h"
      using pass h(4) by (intro hashtable_enumerate_passes [OF h(3)] keep) auto
    moreover have "s\<lparr>objs := Some h\<rparr> = s" by (simp add: h(1) [symmetric])
    ultimately show ?thesis unfolding key if_P [OF True] by (simp add: verify_all_locks_released_def objs_enumerate_def h(1))
  next
    case False
    have "\<exists>e. hashtable_enumerate h (Some (hash_check_lock s)) = Inl e"
    proof (cases "hashtable_enumerate h (Some (hash_check_lock s))")
      case (Inr g)
      from False obtain k v where kv: "tracked s k = Some v" "lock_holder v \<noteq> None" by blast
      then have "ht_map h k = Some v" by (simp add: h(4))
      from hashtable_enumerate_check(2) [of "hash_check_lock s", OF _ Inr this] keep
      have "hash_check_lock s k v = Inr v" by blast
      with pass kv show ?thesis by simp
    qed blast
    then obtain e where e: "hashtable_enumerate h (Some (hash_check_lock s)) = Inl e" ..
    then obtain k v where "hash_check_lock s k v = Inl e"
      by (auto simp: hashtable_enumerate_def split: sum.splits dest!: enum_table_error)
    with e show ?thesis unfolding key if_not_P [OF False] by (simp add: verify_all_locks_released_def objs_enumerate_def h(1) killed)
  qed
qed

text \<open>A function of the driver that was entered with its context returns: the routines after it pop both stacks.\<close>

lemma contexts_left:
  assumes inv: "tf_inv s"
  shows "0 < blocking_context_current s \<longleftrightarrow> 2 \<le> length (blocking_stack s)"
    and "0 < user_context_current s \<longleftrightarrow> 2 \<le> length (user_stack s)"
proof -
  have ok: "stack_ok (blocking_context_current s) (blocking_context s)" "stack_ok (user_context_current s) (user_context s)"
    using inv by (simp_all add: tf_inv_def core_inv_def blocking_ok_def user_ok_def)
  show "0 < blocking_context_current s \<longleftrightarrow> 2 \<le> length (blocking_stack s)"
    using length_live [OF ok(1)] ok(1) by (auto simp: blocking_stack_def stack_ok_def)
  show "0 < user_context_current s \<longleftrightarrow> 2 \<le> length (user_stack s)"
    using length_live [OF ok(2)] ok(2) by (auto simp: user_stack_def stack_ok_def)
qed

lemma context_frames [simp]:
  "lock_status lock (s\<lparr>blocking_context_current := b\<rparr>) = lock_status lock s"
  "lock_status lock (s\<lparr>user_context_current := b\<rparr>) = lock_status lock s"
  "lock_status lock (s\<lparr>global_lock := g\<rparr>) = lock_status lock s"
  "lock_status lock (s\<lparr>global_lock_acquired := n\<rparr>) = lock_status lock s"
  "some_registered (s\<lparr>blocking_context_current := b\<rparr>) = some_registered s"
  "some_registered (s\<lparr>user_context_current := b\<rparr>) = some_registered s"
  "some_registered (s\<lparr>global_lock := g\<rparr>) = some_registered s"
  "some_registered (s\<lparr>global_lock_acquired := n\<rparr>) = some_registered s"
  "DISABLED ns (s\<lparr>blocking_context_current := b\<rparr>) = DISABLED ns s"
  "DISABLED ns (s\<lparr>user_context_current := b\<rparr>) = DISABLED ns s"
  by (simp_all add: lock_status_def tracked_def some_registered_def DISABLED_def)

lemma cleanup_module_returns:
  assumes inv: "tf_inv s"
  shows "(\<exists>t. cleanup_module_MJRcheck 1 s = Inr (0, t) \<and> (\<forall>lock. lock_status lock t = lock_status lock s)) \<longleftrightarrow>
    2 \<le> length (blocking_stack s) \<and> 2 \<le> length (user_stack s)"
proof -
  have u: "unlocked s" and o: "objs s \<noteq> None" using inv by (auto simp: tf_inv_def core_inv_def tracker_ok_def)
  show ?thesis unfolding contexts_left [OF inv, symmetric] using u o
    by (auto simp: cleanup_module_MJRcheck_def check_routine_run pop_blocking_state_run pop_user_state_run release_global_lock_def
        tf_fail_locked tfassert_def unlocked_def)
qed

lemma init_module_returns:
  assumes inv: "tf_inv s"
  shows "(\<exists>t. init_module_MJRcheck 1 r s = Inr (0, t) \<and> (\<forall>lock. lock_status lock t = lock_status lock s)) \<longleftrightarrow>
    2 \<le> length (blocking_stack s) \<and> 2 \<le> length (user_stack s) \<and> (DISABLED [''DOR''] s \<or> (r = 0 \<longleftrightarrow> some_registered s))"
proof -
  have u: "unlocked s" and o: "objs s \<noteq> None" using inv by (auto simp: tf_inv_def core_inv_def tracker_ok_def)
  show ?thesis unfolding contexts_left [OF inv, symmetric] using u o
    by (auto simp: init_module_MJRcheck_def check_routine_run pop_blocking_state_run pop_user_state_run release_global_lock_def
        tf_fail_locked tfassert_def unlocked_def)
qed

text \<open>C27. \<open>verify_all_locks_released\<close>, called with the global lock held, would let a path go on exactly when no lock
  the tracker knows is held, and change nothing then, and end it otherwise. But no code of the framework calls it, and the
  checks that run when the driver's \<open>init_module\<close> and \<open>cleanup_module\<close> return do not look at the locks:
  whether they pass depends only on the contexts they pop, and for \<open>init_module\<close> on what the driver has
  registered, and every lock stays as it was. So a driver that is loaded or unloaded with a lock held is not reported.\<close>

theorem locks_released_iff_none_held:
  assumes inv: "tf_inv s" and acq: "acquire_global_lock s = Inr a"
  shows "verify_all_locks_released a =
      (if \<forall>lock. lock_status lock s = None \<or> lock_status lock s = Some None then Inr a
       else Inl (Killed 0 1 ''Lock currently held'')) \<and>
    ((\<exists>t. cleanup_module_MJRcheck 1 s = Inr (0, t) \<and> (\<forall>lock. lock_status lock t = lock_status lock s)) \<longleftrightarrow>
      2 \<le> length (blocking_stack s) \<and> 2 \<le> length (user_stack s)) \<and>
    ((\<exists>t. init_module_MJRcheck 1 r s = Inr (0, t) \<and> (\<forall>lock. lock_status lock t = lock_status lock s)) \<longleftrightarrow>
      2 \<le> length (blocking_stack s) \<and> 2 \<le> length (user_stack s) \<and> (DISABLED [''DOR''] s \<or> (r = 0 \<longleftrightarrow> some_registered s)))"
proof -
  have a: "a = s\<lparr>global_lock := True, global_lock_acquired := 1\<rparr>" using acq by (simp add: acquire_Inr)
  show ?thesis
    using verify_all_locks_released_run [OF in_check_acquire [OF inv]] cleanup_module_returns [OF inv] init_module_returns [OF inv, of r]
    by (simp add: a)
qed

lemma lock_kernel_state_user: "lock_kernel_state org lt d s = Inr t \<Longrightarrow> user_stack t = user_stack s"
  by (auto simp: lock_kernel_state_def push_blocking_state_def pop_blocking_state_def user_stack_def split: if_splits option.splits)

lemma mutex_taken:
  assumes inv: "tf_inv s" and p: "lockp > 0x1000" "lock > 0x1000" and st: "lock_status lock s = Some h"
    and run: "mutex_lock_nested_MJRcheck fn 1 lockp lock s = Inr (r, t)"
  shows "tf_inv t" and "lock_status lock t = Some (Some MUTEX)" and "blocking_stack t = BLOCKING_YES # blocking_stack s"
    and "user_stack t = user_stack s"
proof -
  let ?s = "s\<lparr>global_lock := True, global_lock_acquired := 1\<rparr>"
  have i: "lock_calls_inv lockp lock s" using inv p by (simp add: lock_calls_inv_def)
  note e = live_mutex.acquire_effect [OF i st run]
  then show "tf_inv t" by (simp add: lock_calls_inv_def)
  show "lock_status lock t = Some (Some MUTEX)" "blocking_stack t = BLOCKING_YES # blocking_stack s"
    using e by (auto split: if_splits)
  have ok: "tracker_ok ?s" using in_checkD [OF in_check_acquire [OF inv]] by simp
  have "lock_status lock ?s = Some h" using st by simp
  with ok obtain v where v: "tracked ?s (objs_key lock) = Some v" "lock_state v = lock_vector h" by (rule lock_status_state)
  from run obtain w where w: "generic_lock_state fn 1 lock ORIGIN_MUTEX MUTEX 1 ?s = Inr w" and t: "user_stack t = user_stack w"
    by (auto simp: mutex_lock_nested_MJRcheck_def check_routine_Inr block_Cons_Inr user_stack_def simp del: block.simps(2))
  from generic_lock_take(3) [OF ok v w] obtain x where x: "lock_kernel_state ORIGIN_MUTEX MUTEX 1 x = Inr w"
    "objs_poke (objs_key lock) (v\<lparr>lock_state := lock_vector (Some MUTEX)\<rparr>) ?s = Inr x" by blast
  from x(2) have "user_stack x = user_stack s" by (auto simp: objs_poke_def user_stack_def split: option.splits)
  with lock_kernel_state_user [OF x(1)] t show "user_stack t = user_stack s" by simp
qed

lemma cleanup_module_enters:
  fixes s :: "'a irq_state_scheme"
  assumes inv: "tf_inv s" and room: "length (blocking_stack s) < MAX_NESTING" "length (user_stack s) < MAX_NESTING"
  shows "\<exists>t. cleanup_module_MJRcheck 0 s = Inr (0, t) \<and> tf_inv t \<and> 2 \<le> length (blocking_stack t) \<and> 2 \<le> length (user_stack t) \<and>
    (\<forall>lock. lock_status lock t = lock_status lock s)"
proof -
  have u: "unlocked s" using inv by (simp add: tf_inv_def)
  have b: "stack_ok (blocking_context_current s) (blocking_context s)" and n: "stack_ok (user_context_current s) (user_context s)"
    using inv by (simp_all add: tf_inv_def core_inv_def blocking_ok_def user_ok_def)
  have fits: "blocking_context_current s + 1 < int MAX_NESTING" "user_context_current s + 1 < int MAX_NESTING"
    using room length_live [OF b] length_live [OF n] b n by (auto simp: blocking_stack_def user_stack_def stack_ok_def)
  let ?t = "s\<lparr>blocking_context_current := blocking_context_current s + 1,
      blocking_context := (blocking_context s)[nat (blocking_context_current s + 1) := BLOCKING_YES],
      user_context_current := user_context_current s + 1,
      user_context := (user_context s)[nat (user_context_current s + 1) := USER_NO]\<rparr>"
  have run: "cleanup_module_MJRcheck 0 s = Inr (0, ?t)"
    using u fits b n by (simp add: cleanup_module_MJRcheck_def check_routine_run push_blocking_state_run push_user_state_run
        release_global_lock_def unlocked_def)
  have r: "plain_routine (ignore_result (cleanup_module_MJRcheck 0 :: ('a irq_state_scheme) check))" by (rule plain_routine.intros)
  have t: "tf_inv ?t" using safeD [OF plain_routine_keeps [OF r] inv] run by (simp add: ignore_result_def)
  have "0 \<le> blocking_context_current s" "0 \<le> user_context_current s" using b n by (simp_all add: stack_ok_def)
  then have "2 \<le> length (blocking_stack ?t)" "2 \<le> length (user_stack ?t)" unfolding contexts_left [OF t, symmetric] by simp_all
  moreover have "\<forall>lock. lock_status lock ?t = lock_status lock s" by (simp add: lock_status_def tracked_def)
  ultimately show ?thesis using run t by blast
qed

text \<open>A driver takes a mutex of its own and is unloaded without releasing it.\<close>

theorem locks_released_iff_none_held_witness:
  "\<exists>(s :: mod_state) t u v a w. init_common loading = Inr s \<and> u2_mutex_init_MJRcheck ''mutex_init'' 0 0x2000 s = Inr (0, t) \<and>
     mutex_lock_nested_MJRcheck ''l'' 1 0x3000 0x2000 t = Inr (0, u) \<and> cleanup_module_MJRcheck 0 u = Inr (0, v) \<and>
     cleanup_module_MJRcheck 1 v = Inr (0, w) \<and> lock_status 0x2000 w = Some (Some MUTEX) \<and>
     acquire_global_lock v = Inr a \<and> verify_all_locks_released a = Inl (Killed 0 1 ''Lock currently held'')"
proof -
  obtain s :: mod_state where s: "init_common loading = Inr s" "loaded s" "mem_ok s" "tf_inv s" by (rule started)
  have new: "tracked s (objs_key 0x2000) = None" by (simp add: loadedD(2) [OF s(2)])
  have fn: "fn_name_ok ''mutex_init''" by (simp add: fn_name_ok_def)
  from lock_init_routine [OF s(4,3) new _ fn] obtain t
    where t: "u2_mutex_init_MJRcheck ''mutex_init'' 0 0x2000 s = Inr (0, t)" "tf_inv t"
      "lock_status 0x2000 t = Some None" "blocking_stack t = [BLOCKING_UNDEFINED]" "user_stack t = [USER_UNDEFINED]"
    unfolding u2_mutex_init_MJRcheck_def using loadedD(4,5) [OF s(2)] by force
  have a: "(0x1000 :: ulong) < 0x3000" "(0x1000 :: ulong) < 0x2000" by simp_all
  then have i: "lock_calls_inv 0x3000 0x2000 t" using t(2) by (simp add: lock_calls_inv_def)
  have "length (blocking_stack t) < MAX_NESTING" "hd (blocking_stack t) \<noteq> BLOCKING_NO" by (simp_all add: t(4) MAX_NESTING_def)
  then obtain r u where "mutex_lock_nested_MJRcheck ''l'' 1 0x3000 0x2000 t = Inr (r, u)"
    using live_mutex.acquire_ok [OF i t(3), of "''l''"] by blast
  then have u: "mutex_lock_nested_MJRcheck ''l'' 1 0x3000 0x2000 t = Inr (0, u)"
    by (simp add: mutex_lock_nested_MJRcheck_def check_routine_Inr)
  note m = mutex_taken [OF t(2) a t(3) u]
  from cleanup_module_enters [OF m(1)] m(3,4) t(4,5) obtain v
    where v: "cleanup_module_MJRcheck 0 u = Inr (0, v)" "tf_inv v" "2 \<le> length (blocking_stack v)" "2 \<le> length (user_stack v)"
      "lock_status 0x2000 v = Some (Some MUTEX)" by (auto simp: MAX_NESTING_def m(2))
  have "unlocked v" using v(2) by (simp add: tf_inv_def)
  from acquire_unlocked [OF this] obtain b where b: "acquire_global_lock v = Inr b" by blast
  note c = locks_released_iff_none_held [OF v(2) b]
  from c v(3,4) obtain w where "cleanup_module_MJRcheck 1 v = Inr (0, w)" "lock_status 0x2000 w = Some (Some MUTEX)"
    using v(5) by metis
  moreover have "\<not> (\<forall>lock. lock_status lock v = None \<or> lock_status lock v = Some None)" using v(5) by (metis option.distinct(1) option.inject)
  then have "verify_all_locks_released b = Inl (Killed 0 1 ''Lock currently held'')" using c by (simp only: if_False)
  ultimately show ?thesis using s(1) t(1) u v(1) b by blast
qed

text \<open>C30. \<open>generic_lock_state\<close> calls itself for a lock it does not know. The recursion ends, after two calls
  at most, unless it starts after the kernel function on a lock the tracker does not know: then it never does.\<close>

theorem lock_recursion_ends_iff_known:
  assumes inv: "in_check s" and d: "add_this = -1 \<or> add_this = 1"
  shows "((\<exists>n. generic_lock_state_fuel n fn prepost lock org lt add_this s \<noteq> Inl Stack_Overflow) \<longleftrightarrow>
      prepost \<noteq> 1 \<or> tracked s (objs_key lock) \<noteq> None) \<and>
    (prepost \<noteq> 1 \<or> tracked s (objs_key lock) \<noteq> None \<longrightarrow>
      (\<forall>n \<ge> 2. generic_lock_state_fuel n fn prepost lock org lt add_this s = generic_lock_state fn prepost lock org lt add_this s))"
proof -
  have ok: "tracker_ok s" by (rule in_checkD(3) [OF inv])
  have fuel: "generic_lock_state_fuel n fn prepost lock org lt add_this s = generic_lock_state fn prepost lock org lt add_this s"
    if n: "2 \<le> n" and known: "prepost \<noteq> 1 \<or> tracked s (objs_key lock) \<noteq> None" for n
  proof -
    obtain m where m: "n = Suc (Suc m)" using n le_Suc_ex [of 2 n] by auto
    show ?thesis
    proof (cases "tracked s (objs_key lock)")
      case (Some v)
      then show ?thesis unfolding m generic_lock_state_def numeral_2_eq_2
        by (intro generic_lock_state_known [OF ok]) simp
    next
      case None
      show ?thesis
      proof (cases "prepost = 0")
        case True
        show ?thesis unfolding True by (rule generic_lock_state_fuel_enough [OF ok n])
      next
        case False
        with known None have "generic_lock_allocator fn prepost lock org s = Inl (Killed 0 1 ''0'')"
          using in_check_fail [OF inv] by (simp add: generic_lock_allocator_def)
        then show ?thesis
          by (simp only: m generic_lock_state_def numeral_2_eq_2 generic_lock_state_unknown [OF ok None]) simp
      qed
    qed
  qed
  have ends: "generic_lock_state fn prepost lock org lt add_this s \<noteq> Inl Stack_Overflow"
    if known: "prepost \<noteq> 1 \<or> tracked s (objs_key lock) \<noteq> None"
  proof -
    have "case generic_lock_state fn prepost lock org lt add_this s of Inl e \<Rightarrow> ends_well e | Inr t \<Rightarrow> in_check t"
    proof (cases "tracked s (objs_key lock)")
      case (Some v)
      then have "tracked s (objs_key lock) \<noteq> None" by simp
      then show ?thesis by (rule generic_lock_state_post [OF inv])
    next
      case None
      show ?thesis
      proof (cases "prepost = 0")
        case True
        show ?thesis unfolding True by (rule safeD [OF safe_generic_lock_state_pre inv])
      next
        case False
        with known None have "generic_lock_allocator fn prepost lock org s = Inl (Killed 0 1 ''0'')"
          using in_check_fail [OF inv] by (simp add: generic_lock_allocator_def)
        then show ?thesis using d
          by (simp add: generic_lock_state_def numeral_2_eq_2 generic_lock_state_unknown [OF ok None] del: generic_lock_state_fuel.simps)
      qed
    qed
    then show ?thesis by auto
  qed
  show ?thesis using fuel ends generic_lock_state_diverges [OF ok _ d] by (metis order_refl)
qed

theorem lock_recursion_ends_iff_known_witness:
  "\<exists>(s :: mod_state) t. init_common loading = Inr s \<and> acquire_global_lock s = Inr t \<and>
     (\<forall>n. generic_lock_state_fuel n ''spin_trylock'' 1 0x2000 ORIGIN_SPIN_LOCK GENERIC_LOCK 1 t = Inl Stack_Overflow)"
proof -
  obtain s :: mod_state where s: "init_common loading = Inr s" "loaded s" "tf_inv s" by (rule started)
  let ?t = "s\<lparr>global_lock := True, global_lock_acquired := 1\<rparr>"
  have a: "acquire_global_lock s = Inr ?t" using s(3) by (simp add: tf_inv_def acquire_unlocked)
  have "tracked ?t (objs_key 0x2000) = None" by (simp add: loadedD(2) [OF s(2)])
  with lock_recursion_ends_iff_known [OF in_check_acquire [OF s(3)], where add_this = 1 and prepost = 1 and lock = "0x2000" and
      fn = "''spin_trylock''" and org = ORIGIN_SPIN_LOCK and lt = GENERIC_LOCK]
  have "\<forall>n. generic_lock_state_fuel n ''spin_trylock'' 1 0x2000 ORIGIN_SPIN_LOCK GENERIC_LOCK 1 ?t = Inl Stack_Overflow"
    by (simp del: generic_lock_state_fuel.simps)
  with s(1) a show ?thesis by blast
qed

section \<open>Capabilities\<close>

text \<open>C35. The call state of \<open>capable\<close> never leaves its initial value: the check after the kernel's
  \<open>capable\<close> always kills the path, and so an ioctl handler passes exactly when its command is not in
  the table of commands that need a capability.\<close>

theorem capability_is_never_recorded:
  assumes inv: "in_check s" and drv: "\<not> DISABLED [''8139TOO'', ''TG3'', ''ECONET''] s"
  shows "(\<exists>msg. call_capable 1 retval cap s = Inl (Killed 0 1 msg)) \<and>
    (\<exists>t. call_capable 0 retval cap s = Inr t \<and> ioctl_capable_retval t = NOT_CALLED) \<and>
    (ioctl_called_capable 1 r cmd s = Inr s \<longleftrightarrow> cmd \<notin> set (ioctl_req_cmd s) \<or> CAP_NET_ADMIN s = -1) \<and>
    (ioctl_called_capable 1 r cmd s \<noteq> Inr s \<longrightarrow> ioctl_called_capable 1 r cmd s = Inl (Killed 0 1 ''Capable not called''))"
proof -
  have n: "ioctl_capable_retval s = NOT_CALLED" by (rule in_checkD(6) [OF inv])
  have f: "tf_fail msg s = Inl (Killed 0 1 msg)" for msg by (rule in_check_fail [OF inv])
  have f': "tf_fail msg (s\<lparr>ioctl_capable_param := k\<rparr>) = Inl (Killed 0 1 msg)" for msg k
    by (rule in_check_fail) (simp add: inv)
  have g: "capable_given_cmd cmd s = (if cmd \<in> set (ioctl_req_cmd s) then CAP_NET_ADMIN s else -1)"
    by (simp add: capable_given_cmd_def ioctl_req_cmd_def ioctl_req_capable_param_def MAX_IOCTL_CHECKS_def numeral_eq_Suc)
  have i: "ioctl_called_capable 1 r cmd s = (if capable_given_cmd cmd s = -1 then Inr s else Inl (Killed 0 1 ''Capable not called''))"
    using drv by (simp add: ioctl_called_capable_def n f)
  show ?thesis unfolding i g by (auto simp: call_capable_def set_call_state_def tfassert_def n f')
qed

theorem capability_is_never_recorded_witness:
  "\<exists>(s :: mod_state) t. init_common loading = Inr s \<and> acquire_global_lock (s\<lparr>driver_name := ''E1000''\<rparr>) = Inr t \<and>
     (\<exists>msg. call_capable 1 True 12 t = Inl (Killed 0 1 msg))"
proof -
  obtain s :: mod_state where s: "init_common loading = Inr s" "loaded s" "tf_inv s" by (rule started)
  let ?s = "s\<lparr>driver_name := ''E1000''\<rparr>"
  let ?t = "?s\<lparr>global_lock := True, global_lock_acquired := 1\<rparr>"
  have i: "tf_inv ?s" using s(3) by (simp add: tf_inv_def core_inv_def blocking_ok_def user_ok_def tracker_ok_def flags_ok_def
      all_buses_def flag_of_simps class_ok_def unlocked_def)
  have a: "acquire_global_lock ?s = Inr ?t" using i by (simp add: tf_inv_def acquire_unlocked)
  have "\<not> DISABLED [''8139TOO'', ''TG3'', ''ECONET''] ?t" by (simp add: DISABLED_def)
  from capability_is_never_recorded [OF in_check_acquire [OF i] this, of True 12] s(1) a show ?thesis by blast
qed

end
