(* ===== verification/Irq_Runs.thy ===== *)
theory Irq_Runs
  imports Irq
begin

text \<open>
  Sequences of calls on the interrupt table. What the table promises is stated over the multiset of
  the interrupt numbers requested and not yet freed.
\<close>

definition requested_lines :: "'a irq_state_scheme \<Rightarrow> u32 multiset" where
  "requested_lines s = image_mset number (filter_mset (\<lambda>q. allocated q = 1) (mset (sym_irq s)))"

datatype irq_op = Request u32 ulong ulong string ulong | Free_Line u32 ulong | Enable_Line u32 | Disable_Line u32

fun irq_act :: "irq_op \<Rightarrow> ('a irq_state_scheme) act" where
  "irq_act (Request n hdl flgs name dev) = ignore_result (request_threaded_irq_MJRcheck 1 0 (Some n) hdl flgs (Some name) dev)"
| "irq_act (Free_Line n dev) = ignore_result (free_irq_MJRcheck 0 n dev)"
| "irq_act (Enable_Line n) = ignore_result (enable_irq_MJRcheck 1 n)"
| "irq_act (Disable_Line n) = ignore_result (disable_irq_MJRcheck 1 n)"

fun irq_step :: "u32 multiset \<Rightarrow> irq_op \<Rightarrow> u32 multiset option" where
  "irq_step M (Request n hdl flgs name dev) = (if size M < MAX_IRQS then Some (add_mset n M) else None)"
| "irq_step M (Free_Line n dev) = (if n \<in># M then Some (M - {#n#}) else None)"
| "irq_step M (Enable_Line n) = (if n \<in># M then Some M else None)"
| "irq_step M (Disable_Line n) = (if n \<in># M then Some M else None)"

fun irq_run :: "u32 multiset \<Rightarrow> irq_op list \<Rightarrow> u32 multiset option" where
  "irq_run M [] = Some M"
| "irq_run M (p # ps) = (case irq_step M p of None \<Rightarrow> None | Some N \<Rightarrow> irq_run N ps)"

lemma slot_update:
  assumes "i < length xs"
  shows "image_mset f (filter_mset P (mset (xs[i := x]))) + (if P (xs ! i) then {#f (xs ! i)#} else {#}) =
    image_mset f (filter_mset P (mset xs)) + (if P x then {#f x#} else {#})"
proof -
  obtain R where R: "mset xs = add_mset (xs ! i) R" using assms by (metis insert_DiffM nth_mem_mset)
  then have "mset (xs[i := x]) = add_mset x R" using assms by (simp add: mset_update)
  with R show ?thesis by simp
qed

lemma slot_requested: "i < length (sym_irq s) \<Longrightarrow> allocated (sym_irq s ! i) = 1 \<Longrightarrow> number (sym_irq s ! i) \<in># requested_lines s"
  by (auto simp: requested_lines_def in_image_mset)

lemma size_requested_filter: "size (requested_lines s) = length (filter (\<lambda>q. allocated q = 1) (sym_irq s))"
  by (simp add: requested_lines_def mset_filter [symmetric] del: mset_filter)

lemma size_requested: "irq_ok s \<Longrightarrow> int (size (requested_lines s)) = sym_num_requests s"
  by (simp add: size_requested_filter irq_ok_def)

lemma requested_full:
  assumes ok: "irq_ok s" and i: "i < MAX_IRQS" "allocated (sym_irq s ! i) \<noteq> 1"
  shows "size (requested_lines s) < MAX_IRQS"
proof -
  have len: "length (sym_irq s) = MAX_IRQS" using ok by (simp add: irq_ok_def)
  have "sym_irq s ! i \<in> set (sym_irq s)" using i(1) len by simp
  from length_filter_less [OF this, of "\<lambda>q. allocated q = 1"] i(2)
  have "length (filter (\<lambda>q. allocated q = 1) (sym_irq s)) < length (sym_irq s)" by blast
  then show ?thesis by (simp add: size_requested_filter len)
qed

lemma request_step:
  assumes ok: "irq_ok s" and run: "request_threaded_irq_MJRcheck 1 0 (Some n) hdl flgs (Some name) dev s = Inr (r, t)"
  shows "irq_ok t \<and> irq_step (requested_lines s) (Request n hdl flgs name dev) = Some (requested_lines t)"
proof -
  have len: "length (sym_irq s) = MAX_IRQS" using ok by (simp add: irq_ok_def)
  note r = request_irq_Inr [OF ok run]
  let ?x = "\<lparr>allocated = 1, number = n, handler = hdl, parameter = dev, flags = flgs, irq_name = name, irq_enabled = 1\<rparr>"
  from r(3) obtain i where i: "i < MAX_IRQS" "allocated (sym_irq s ! i) = 0" and t: "sym_irq t = (sym_irq s)[i := ?x]" by auto
  have "requested_lines t = add_mset n (requested_lines s)"
    using slot_update [of i "sym_irq s" number "\<lambda>q. allocated q = 1" ?x] i by (simp add: requested_lines_def t len)
  then show ?thesis using r(1) requested_full [OF ok i(1)] i(2) by simp
qed

lemma free_step:
  assumes ok: "irq_ok s" and run: "free_irq_MJRcheck 0 n dev s = Inr (r, t)"
  shows "irq_ok t \<and> irq_step (requested_lines s) (Free_Line n dev) = Some (requested_lines t)"
proof -
  have len: "length (sym_irq s) = MAX_IRQS" using ok by (simp add: irq_ok_def)
  note r = free_irq_Inr [OF ok run]
  from r(3) obtain i where i: "i < MAX_IRQS" "allocated (sym_irq s ! i) = 1" "number (sym_irq s ! i) = n"
    and t: "sym_irq t = (sym_irq s)[i := free_slot]" by blast
  have eq: "add_mset n (requested_lines t) = requested_lines s"
    using slot_update [of i "sym_irq s" number "\<lambda>q. allocated q = 1" free_slot] i
    by (simp add: requested_lines_def t len free_slot_def)
  then show ?thesis using r(1) by (simp flip: eq)
qed

text \<open>Enabling and disabling change the flag of one slot.\<close>

lemma set_enabled_step:
  assumes ok: "irq_ok s" and e: "e = 0 \<or> e = 1" and i: "i < MAX_IRQS" "allocated (sym_irq s ! i) = 1" "number (sym_irq s ! i) = n"
    and t: "sym_irq t = (sym_irq s)[i := (sym_irq s ! i)\<lparr>irq_enabled := e\<rparr>]" "sym_num_requests t = sym_num_requests s"
  shows "irq_ok t \<and> n \<in># requested_lines s \<and> requested_lines t = requested_lines s"
proof -
  have len: "length (sym_irq s) = MAX_IRQS" using ok by (simp add: irq_ok_def)
  have "requested_lines t = requested_lines s"
    using slot_update [of i "sym_irq s" number "\<lambda>q. allocated q = 1" "(sym_irq s ! i)\<lparr>irq_enabled := e\<rparr>"] i
    by (simp add: requested_lines_def t len)
  moreover have "n \<in># requested_lines s" using slot_requested [of i s] i len by simp
  moreover have "sym_num_requests t = int (length (filter (\<lambda>q. allocated q = 1) (sym_irq t)))"
    using size_requested [OF ok] calculation(1) by (simp add: t(2) flip: size_requested_filter)
  moreover have "\<forall>q \<in> set (sym_irq t). (allocated q = 0 \<or> allocated q = 1) \<and> (irq_enabled q = 0 \<or> irq_enabled q = 1)"
    using ok e i(1) len nth_mem [of i "sym_irq s"]
    by (auto simp: irq_ok_def t(1) dest!: set_update_subset_insert [THEN subsetD])
  ultimately show ?thesis by (simp add: irq_ok_def t(1) len)
qed

lemma toggle_step:
  assumes ok: "irq_ok s" and e: "e = 0 \<or> e = 1"
    and run: "check_routine 0 (with_state (\<lambda>s. let i = first_index (\<lambda>q. allocated q = 1 \<and> number q = n) (sym_irq s) in block
        [if i < length (sym_irq s) then block
          [tfassert (\<lambda>s. irq_enabled (sym_irq s ! i) = old) m1, set_enabled i e]
         else skip,
         tfassert (\<lambda>s. i < MAX_IRQS) m2])) s = Inr (r, t)"
  shows "irq_ok t \<and> n \<in># requested_lines s \<and> requested_lines t = requested_lines s"
proof -
  let ?i = "first_index (\<lambda>q. allocated q = 1 \<and> number q = n) (sym_irq s)"
  have len: "length (sym_irq s) = MAX_IRQS" using ok by (simp add: irq_ok_def)
  have i: "?i < MAX_IRQS" and t: "sym_irq t = (sym_irq s)[?i := (sym_irq s ! ?i)\<lparr>irq_enabled := e\<rparr>]" "sym_num_requests t = sym_num_requests s"
    using run by (auto simp: check_routine_Inr Let_def len set_enabled_def split: if_splits)
  have "allocated (sym_irq s ! ?i) = 1 \<and> number (sym_irq s ! ?i) = n"
    using first_index_hit [of "\<lambda>q. allocated q = 1 \<and> number q = n" "sym_irq s"] i by (simp add: len)
  with set_enabled_step [OF ok e i _ _ t] show ?thesis by blast
qed

lemma enable_step:
  assumes "irq_ok s" and "enable_irq_MJRcheck 1 n s = Inr (r, t)"
  shows "irq_ok t \<and> irq_step (requested_lines s) (Enable_Line n) = Some (requested_lines t)"
  using toggle_step [of s 1 n] assms by (simp add: enable_irq_MJRcheck_def)

lemma disable_step:
  assumes "irq_ok s" and "disable_irq_MJRcheck 1 n s = Inr (r, t)"
  shows "irq_ok t \<and> irq_step (requested_lines s) (Disable_Line n) = Some (requested_lines t)"
  using toggle_step [of s 0 n] assms by (simp add: disable_irq_MJRcheck_def disable_interrupt_def)

lemma irq_act_step:
  assumes ok: "irq_ok s" and run: "irq_act p s = Inr t"
  shows "irq_ok t \<and> irq_step (requested_lines s) p = Some (requested_lines t)"
proof -
  have r: "\<exists>r. c s = Inr (r, t)" if "ignore_result c s = Inr t" for c :: "('a irq_state_scheme) check"
    using that by (cases "c s") (auto simp: ignore_result_def)
  from run show ?thesis
    by (cases p) (auto dest!: r request_step [OF ok] free_step [OF ok] enable_step [OF ok] disable_step [OF ok] simp del: irq_step.simps)
qed

lemma irq_run_refines:
  "irq_ok s \<Longrightarrow> block (map irq_act ps) s = Inr t \<Longrightarrow> irq_ok t \<and> irq_run (requested_lines s) ps = Some (requested_lines t)"
proof (induction ps arbitrary: s)
  case Nil
  then show ?case by simp
next
  case (Cons p ps)
  from Cons.prems(2) obtain u where u: "irq_act p s = Inr u" and r: "block (map irq_act ps) u = Inr t"
    by (auto simp: block_Cons_Inr simp del: block.simps(2))
  from irq_act_step [OF Cons.prems(1) u] Cons.IH [OF _ r] show ?case by simp
qed

lemma routine_safe_Inr: "routine_safe c \<Longrightarrow> tf_inv s \<Longrightarrow> c s = Inr (r, t) \<Longrightarrow> tf_inv t"
  by (force simp: routine_safe_def)

text \<open>A request passes when there is room.\<close>

lemma request_irq_ok:
  assumes inv: "tf_inv s" and ok: "irq_ok s" and room: "size (requested_lines s) < MAX_IRQS"
    and lines: "sym_irq_lines s \<noteq> None" and name: "length name \<le> 127"
  shows "\<exists>t. request_threaded_irq_MJRcheck 1 0 (Some n) hdl flgs (Some name) dev s = Inr (0, t) \<and> tf_inv t"
proof -
  let ?i = "first_index (\<lambda>q. allocated q \<noteq> 1) (sym_irq s)"
  have len: "length (sym_irq s) = MAX_IRQS" using ok by (simp add: irq_ok_def)
  have u: "unlocked s" using inv by (simp add: tf_inv_def)
  have i: "?i < MAX_IRQS"
  proof (rule ccontr)
    assume "\<not> ?i < MAX_IRQS"
    then have "\<forall>q \<in> set (sym_irq s). allocated q = 1"
      using first_index_none [of "\<lambda>q. allocated q \<noteq> 1" "sym_irq s"] first_index_le [of "\<lambda>q. allocated q \<noteq> 1" "sym_irq s"] len by auto
    then have "filter (\<lambda>q. allocated q = 1) (sym_irq s) = sym_irq s" by simp
    then show False using room by (simp add: size_requested_filter len)
  qed
  have "allocated (sym_irq s ! ?i) \<noteq> 1" using first_index_hit [of "\<lambda>q. allocated q \<noteq> 1" "sym_irq s"] i by (simp add: len)
  then have "allocated (sym_irq s ! ?i) = 0" using ok i len by (metis irq_ok_def nth_mem)
  then have "\<exists>t. request_threaded_irq_MJRcheck 1 0 (Some n) hdl flgs (Some name) dev s = Inr (0, t)"
    using i name lines
    by (auto simp: request_threaded_irq_MJRcheck_def check_routine_run [OF u] Let_def len deref_def tfassert_def release_locked)
  then obtain t where t: "request_threaded_irq_MJRcheck 1 0 (Some n) hdl flgs (Some name) dev s = Inr (0, t)" ..
  with routine_safe_Inr [OF request_threaded_irq_safe inv t] show ?thesis by blast
qed

end
