(* ===== verification/Driver_Properties.thy ===== *)
theory Driver_Properties
  imports Routine_Calls Irq_Runs
begin

text \<open>
  Properties of what a driver goes through: registration on a bus, interrupts, the border between the
  kernel and the driver, and what some routines report against correct drivers.
\<close>

section \<open>Registration\<close>

definition put_usb :: "call_state \<Rightarrow> int \<Rightarrow> 'a test_state_scheme \<Rightarrow> 'a test_state_scheme" where
  "put_usb c f s = s\<lparr>usb_driver_state := (usb_driver_state s)\<lparr>registered := c, bus_flag := f\<rparr>\<rparr>"

lemma usb_bus_member: "flags_ok s \<Longrightarrow> DRIVER_USB \<in> bus_set s \<longleftrightarrow> bus_flag (usb_driver_state s) \<noteq> 0"
  by (auto simp: bus_set_def all_buses_def flag_of_simps flags_ok_def)

lemma put_usb_simps [simp]:
  "registered (usb_driver_state (put_usb c f s)) = c" "bus_flag (usb_driver_state (put_usb c f s)) = f"
  "put_usb c f (put_usb d g s) = put_usb c f s" "unlocked (put_usb c f s) = unlocked s"
  by (simp_all add: put_usb_def unlocked_def)

lemma put_usb_same: "registered (usb_driver_state s) = c \<Longrightarrow> bus_flag (usb_driver_state s) = f \<Longrightarrow> put_usb c f s = s"
  by (simp add: put_usb_def)

lemma put_usb_lock: "put_usb c f (s\<lparr>global_lock := b, global_lock_acquired := n\<rparr>) =
    (put_usb c f s)\<lparr>global_lock := b, global_lock_acquired := n\<rparr>"
  by (simp add: put_usb_def)

lemma tf_inv_put_usb: "tf_inv s \<Longrightarrow> f = 0 \<or> f = 1 \<Longrightarrow> tf_inv (put_usb c f s)"
  by (auto simp: put_usb_def tf_inv_def core_inv_def blocking_ok_def user_ok_def tracker_ok_def flags_ok_def
      all_buses_def flag_of_simps class_ok_def unlocked_def)

lemma usb_register_pre:
  assumes inv: "tf_inv s"
  shows "usb_register_driver_MJRcheck 0 rv s =
    (if registered (usb_driver_state s) \<noteq> NOT_CALLED then Inl (Killed 0 1 ''registered == NOT_CALLED'')
     else if bus_flag (usb_driver_state s) \<noteq> 0 then Inl (Killed 0 1 ''DRIVER_USB already defined'')
     else Inr (0, put_usb IN_PROGRESS 1 s))"
proof -
  let ?in = "s\<lparr>global_lock := True, global_lock_acquired := 1\<rparr>"
  have u: "unlocked s" using inv by (simp add: tf_inv_def)
  have f: "tf_fail msg ?in = Inl (Killed 0 1 msg)" for msg by (rule in_check_fail [OF in_check_acquire [OF inv]])
  have f': "tf_fail msg (?in\<lparr>usb_driver_state := (usb_driver_state s)\<lparr>registered := c\<rparr>\<rparr>) = Inl (Killed 0 1 msg)" for msg c
    by (rule in_check_fail) (simp add: in_check_acquire [OF inv])
  show ?thesis using u
    by (auto simp: usb_register_driver_MJRcheck_def check_routine_run set_call_state_def tfassert_def set_driver_bus_eqs
        flag_of_simps f f' release_global_lock_def put_usb_def unlocked_def)
qed

lemma usb_register_post:
  assumes u: "unlocked s" and c: "registered (usb_driver_state s) = IN_PROGRESS"
  shows "usb_register_driver_MJRcheck 1 rv s =
    Inr (0, put_usb (if rv = 0 then CALLED_OK else CALLED_FAILED) (bus_flag (usb_driver_state s)) s)"
  using assms by (auto simp: usb_register_driver_MJRcheck_def check_routine_run set_call_state_def tfassert_def
      release_global_lock_def put_usb_def unlocked_def)

lemma usb_deregister_pre:
  assumes inv: "tf_inv s" and flag: "bus_flag (usb_driver_state s) = 1"
  shows "usb_deregister_MJRcheck 0 s =
    (if registered (usb_driver_state s) \<noteq> CALLED_OK then Inl (Killed 0 1 ''registered == CALLED_OK'')
     else Inr (0, put_usb IN_PROGRESS 1 s))"
proof -
  let ?in = "s\<lparr>global_lock := True, global_lock_acquired := 1\<rparr>"
  have u: "unlocked s" using inv by (simp add: tf_inv_def)
  have c: "in_check ?in" by (rule in_check_acquire [OF inv])
  have ok: "flags_ok ?in" by (rule in_checkD(4) [OF c])
  from get_driver_bus_Inr [OF ok] obtain m where m: "get_driver_bus ?in = Inr m"
    and b: "\<forall>t \<in> set all_buses. m AND t \<noteq> 0 \<longleftrightarrow> t \<in> bus_set ?in" by blast
  have "DRIVER_USB \<in> bus_set ?in" using flag by (simp add: usb_bus_member [OF ok])
  with b have "m AND DRIVER_USB \<noteq> 0" by (simp add: all_buses_def)
  then show ?thesis using u flag
    by (auto simp: usb_deregister_MJRcheck_def check_routine_run reading_def m set_call_state_def tfassert_def
        in_check_fail [OF c] release_global_lock_def put_usb_def unlocked_def)
qed

lemma usb_deregister_post:
  assumes u: "unlocked s" and c: "registered (usb_driver_state s) = IN_PROGRESS" and flag: "bus_flag (usb_driver_state s) = 1"
  shows "usb_deregister_MJRcheck 1 s = Inr (0, put_usb NOT_CALLED 0 s)"
  using assms by (auto simp: usb_deregister_MJRcheck_def check_routine_run set_call_state_def tfassert_def
      remove_driver_bus_eqs flag_of_simps release_global_lock_def put_usb_def unlocked_def)

text \<open>C34. Registering a USB driver and unregistering it again gives back exactly the state before, and
  between the two the driver is known on the USB bus and registered.\<close>

theorem usb_registration_round_trip:
  assumes inv: "tf_inv s" and new: "registered (usb_driver_state s) = NOT_CALLED" "DRIVER_USB \<notin> bus_set s"
  shows "\<exists>a b c. usb_register_driver_MJRcheck 0 r s = Inr (0, a) \<and> usb_register_driver_MJRcheck 1 0 a = Inr (0, b) \<and>
    registered (usb_driver_state b) = CALLED_OK \<and> bus_set b = insert DRIVER_USB (bus_set s) \<and>
    usb_deregister_MJRcheck 0 b = Inr (0, c) \<and> usb_deregister_MJRcheck 1 c = Inr (0, s)"
proof -
  have u: "unlocked s" and ok: "flags_ok s" using inv by (simp_all add: tf_inv_def core_inv_def)
  have f: "bus_flag (usb_driver_state s) = 0" using new(2) by (simp add: usb_bus_member [OF ok])
  note a = usb_register_pre [OF inv, of r]
  have b: "usb_register_driver_MJRcheck 1 0 (put_usb IN_PROGRESS 1 s) = Inr (0, put_usb CALLED_OK 1 s)"
    using usb_register_post [of "put_usb IN_PROGRESS 1 s" 0] u by simp
  have c: "usb_deregister_MJRcheck 0 (put_usb CALLED_OK 1 s) = Inr (0, put_usb IN_PROGRESS 1 s)"
    using usb_deregister_pre [OF tf_inv_put_usb [OF inv], of 1 CALLED_OK] by simp
  have d: "usb_deregister_MJRcheck 1 (put_usb IN_PROGRESS 1 s) = Inr (0, s)"
    using usb_deregister_post [of "put_usb IN_PROGRESS 1 s"] u new(1) f by (simp add: put_usb_same)
  have "flag_of (put_usb CALLED_OK 1 s) t = ((flag_of s)(DRIVER_USB := 1)) t" for t
    by (simp add: put_usb_def flag_of_def bus_flag_defs)
  then have "bus_set (put_usb CALLED_OK 1 s) = insert DRIVER_USB (bus_set s)"
    by (auto simp: bus_set_def all_buses_def)
  with a b c d new(1) f show ?thesis by simp
qed

theorem usb_registration_round_trip_witness:
  "\<exists>(s :: mod_state) a b c. init_common loading = Inr s \<and> usb_register_driver_MJRcheck 0 0 s = Inr (0, a) \<and>
     usb_register_driver_MJRcheck 1 0 a = Inr (0, b) \<and> bus_set b = {DRIVER_USB} \<and>
     usb_deregister_MJRcheck 0 b = Inr (0, c) \<and> usb_deregister_MJRcheck 1 c = Inr (0, s)"
proof -
  obtain s :: mod_state where s: "init_common loading = Inr s" "loaded s" "tf_inv s" by (rule started)
  have new: "registered (usb_driver_state s) = NOT_CALLED" "DRIVER_USB \<notin> bus_set s"
    by (simp_all add: loadedD(3,10) [OF s(2)] zero_driver_state_def)
  from usb_registration_round_trip [OF s(3) new, of 0] s(1) show ?thesis by (auto simp: loadedD(3) [OF s(2)])
qed

text \<open>When the kernel refuses a USB driver, the attempt is final: the bus flag stays set, a second
  attempt is killed and so is unregistering.\<close>

theorem usb_failed_registration_is_final:
  assumes inv: "tf_inv s" and new: "registered (usb_driver_state s) = NOT_CALLED" "DRIVER_USB \<notin> bus_set s" and r: "r \<noteq> 0"
  shows "\<exists>a b. usb_register_driver_MJRcheck 0 r s = Inr (0, a) \<and> usb_register_driver_MJRcheck 1 r a = Inr (0, b) \<and>
    DRIVER_USB \<in> bus_set b \<and> usb_register_driver_MJRcheck 0 r b = Inl (Killed 0 1 ''registered == NOT_CALLED'') \<and>
    usb_deregister_MJRcheck 0 b = Inl (Killed 0 1 ''registered == CALLED_OK'')"
proof -
  have u: "unlocked s" and ok: "flags_ok s" using inv by (simp_all add: tf_inv_def core_inv_def)
  have f: "bus_flag (usb_driver_state s) = 0" using new(2) by (simp add: usb_bus_member [OF ok])
  let ?b = "put_usb CALLED_FAILED 1 s"
  have i: "tf_inv ?b" by (rule tf_inv_put_usb [OF inv]) simp
  then have "flags_ok ?b" by (simp add: tf_inv_def core_inv_def)
  then have m: "DRIVER_USB \<in> bus_set ?b" by (simp add: usb_bus_member)
  have b: "usb_register_driver_MJRcheck 1 r (put_usb IN_PROGRESS 1 s) = Inr (0, ?b)"
    using usb_register_post [of "put_usb IN_PROGRESS 1 s" r] u r by simp
  show ?thesis
    using usb_register_pre [OF inv, of r] b m usb_register_pre [OF i, of r] usb_deregister_pre [OF i] new(1) f by simp
qed

section \<open>Interrupts\<close>

text \<open>C11. Whatever sequence of requests, frees, enables and disables of interrupt lines passes the checks
  is one a multiset of at most 16 requested lines allows: a line is freed, enabled or disabled only while
  it is requested, the count of requests is the size of the multiset, and the table stays well formed.\<close>

theorem irq_calls_refine_multiset:
  assumes ok: "irq_ok s" and run: "block (map irq_act ps) s = Inr t"
  shows "irq_run (requested_lines s) ps = Some (requested_lines t) \<and> irq_ok t \<and>
    sym_num_requests t = int (size (requested_lines t)) \<and> size (requested_lines t) \<le> MAX_IRQS \<and>
    (is_irq_allocated t = 1 \<longleftrightarrow> requested_lines t \<noteq> {#})"
proof -
  note r = irq_run_refines [OF ok run]
  then have t: "irq_ok t" "irq_run (requested_lines s) ps = Some (requested_lines t)" by simp_all
  have "size (requested_lines t) \<le> MAX_IRQS"
    using t(1) by (simp add: size_requested_filter irq_ok_def) (metis length_filter_le)
  moreover have n: "sym_num_requests t = int (size (requested_lines t))" by (rule size_requested [OF t(1), symmetric])
  moreover have "is_irq_allocated t = 1 \<longleftrightarrow> requested_lines t \<noteq> {#}"
    by (simp add: is_irq_allocated_def n nonempty_has_size)
  ultimately show ?thesis using t by simp
qed

theorem irq_calls_refine_multiset_witness:
  "\<exists>(s :: mod_state) t. init_common loading = Inr s \<and>
     block (map irq_act [Request 9 0xC1000000 0 ''eth0'' 0x5000]) s = Inr t \<and> requested_lines t = {#9#} \<and> is_irq_allocated t = 1"
proof -
  obtain s :: mod_state where s: "init_common loading = Inr s" "loaded s" "tf_inv s" by (rule started)
  have ok: "irq_ok s" "sym_irq_lines s \<noteq> None" using loadedD(6,14) [OF s(2)] by simp_all
  have "sym_num_requests s = 0" using s(2) by (simp add: loaded_def)
  with size_requested [OF ok(1)] have e: "requested_lines s = {#}" by simp
  have room: "size (requested_lines s) < MAX_IRQS" by (simp add: e MAX_IRQS_def)
  have name: "length ''eth0'' \<le> 127" by simp
  from request_irq_ok [OF s(3) ok(1) room ok(2) name, of 9 "0xC1000000" 0 "0x5000"] obtain t
    where "request_threaded_irq_MJRcheck 1 0 (Some 9) 0xC1000000 0 (Some ''eth0'') 0x5000 s = Inr (0, t)" by blast
  then have run: "block (map irq_act [Request 9 0xC1000000 0 ''eth0'' 0x5000]) s = Inr t" by (simp add: ignore_result_def)
  from irq_calls_refine_multiset [OF ok(1) run] s(1) run show ?thesis by (auto simp: e MAX_IRQS_def)
qed

text \<open>A handler that leaves one mark in the log.\<close>

definition marking :: "s2e_event \<Rightarrow> ('a irq_state_scheme) isr" where
  "marking e h n p = s2e e"

lemma MAX_INTERRUPTS_frames [simp]:
  "MAX_INTERRUPTS_PER_LINE (s\<lparr>sym_irq_lines := l\<rparr>) = MAX_INTERRUPTS_PER_LINE s"
  "MAX_INTERRUPTS_PER_LINE (s\<lparr>s2e_log := l'\<rparr>) = MAX_INTERRUPTS_PER_LINE s"
  by (simp_all add: MAX_INTERRUPTS_PER_LINE_def DISABLED_def)

lemma call_handler_marking:
  assumes a: "allocated (sym_irq s ! i) = 1" "irq_enabled (sym_irq s ! i) = 1" and f: "sym_irq_lines s = Some f"
    and c: "f line = c" "c \<le> 100"
  shows "call_handler (marking e) line i s = Inr (if c + 1 \<le> MAX_INTERRUPTS_PER_LINE s
      then s\<lparr>sym_irq_lines := Some (f(line := c + 1)), s2e_log := s2e_log s @ [e]\<rparr>
      else if c = 100 then s\<lparr>sym_irq_lines := Some (f(line := MAX_INTERRUPTS_PER_LINE s - 1))\<rparr>
      else s\<lparr>sym_irq_lines := Some (f(line := c + 1))\<rparr>)"
proof -
  let ?u = "s\<lparr>sym_irq_lines := Some (f(line := c + 1))\<rparr>"
  have l: "line_count line s = c" "line_count line ?u = c + 1"
    using f c by (simp_all add: line_count_def)
  have u: "set_line_count line (c + 1) s = Inr ?u" by (simp add: set_line_count_def f)
  have h: "call_handler (marking e) line i s = (if c + 1 \<le> MAX_INTERRUPTS_PER_LINE s then s2e e ?u
      else if c + 1 > 100 then set_line_count line (MAX_INTERRUPTS_PER_LINE s - 1) ?u else Inr ?u)"
    using a by (simp add: call_handler_def l u marking_def del: s2e_apply)
  have w: "c + 1 > 100 \<longleftrightarrow> c = 100"
    using c(2) by (auto simp: word_less_nat_alt word_le_nat_alt unat_word_ariths(1) word_unat_eq_iff)
  have r: "set_line_count line x ?u = Inr (s\<lparr>sym_irq_lines := Some (f(line := x))\<rparr>)" for x
    by (simp add: set_line_count_def)
  show ?thesis unfolding h w r by simp
qed

text \<open>\<open>marked f line c k s\<close>: the counter of the line is \<open>c\<close>, and the handlers have left \<open>k\<close> marks.\<close>

definition marked :: "s2e_event \<Rightarrow> (nat \<Rightarrow> u8) \<Rightarrow> nat \<Rightarrow> u8 \<Rightarrow> nat \<Rightarrow> 'a irq_state_scheme \<Rightarrow> 'a irq_state_scheme" where
  "marked e f line c k s = s\<lparr>sym_irq_lines := Some (f(line := c)), s2e_log := s2e_log s @ replicate k e\<rparr>"

lemma call_handler_marked:
  assumes a: "allocated (sym_irq s ! i) = 1" "irq_enabled (sym_irq s ! i) = 1" and c: "c \<le> 100"
  shows "call_handler (marking e) line i (marked e f line c k s) =
    Inr (if c + 1 \<le> MAX_INTERRUPTS_PER_LINE s then marked e f line (c + 1) (Suc k) s
      else if c = 100 then marked e f line (MAX_INTERRUPTS_PER_LINE s - 1) k s else marked e f line (c + 1) k s)"
proof -
  have "replicate k e @ [e] = replicate (Suc k) e" by (simp add: replicate_append_same)
  then show ?thesis using call_handler_marking [of "marked e f line c k s" i "f(line := c)" line c e] a c
    by (simp add: marked_def)
qed

lemma passes_marked:
  assumes a: "allocated (sym_irq s ! i) = 1" "irq_enabled (sym_irq s ! i) = 1"
  shows "c + n \<le> 100 \<Longrightarrow> block (replicate n (call_handler (marking e) line i)) (marked e f line (of_nat c) k s) =
    Inr (marked e f line (of_nat (c + n)) (k + (min (c + n) (unat (MAX_INTERRUPTS_PER_LINE s)) - min c (unat (MAX_INTERRUPTS_PER_LINE s)))) s)"
proof (induction n arbitrary: c k)
  case 0
  then show ?case by simp
next
  case (Suc n)
  have c: "(of_nat c :: u8) \<le> 100" "(of_nat c :: u8) \<noteq> 100" "unat (of_nat c + 1 :: u8) = Suc c"
    using Suc.prems by (simp_all add: word_le_nat_alt word_unat_eq_iff unat_of_nat unat_word_ariths(1) take_bit_nat_eq_self)
  have le: "of_nat c + 1 \<le> MAX_INTERRUPTS_PER_LINE s \<longleftrightarrow> Suc c \<le> unat (MAX_INTERRUPTS_PER_LINE s)"
    by (simp add: word_le_nat_alt c(3))
  have s: "of_nat c + 1 = (of_nat (Suc c) :: u8)" by simp
  have step: "call_handler (marking e) line i (marked e f line (of_nat c) k s) =
      Inr (marked e f line (of_nat (Suc c)) (if Suc c \<le> unat (MAX_INTERRUPTS_PER_LINE s) then Suc k else k) s)"
    unfolding call_handler_marked [OF a c(1)] le using c(2) by (simp only: s if_False split: if_split) simp
  have "Suc c + n \<le> 100" using Suc.prems by simp
  note IH = Suc.IH [OF this]
  have "k + (min (c + Suc n) m - min c m) = (if Suc c \<le> m then Suc k else k) + (min (Suc c + n) m - min (Suc c) m)" for m
    by (simp add: min_def) arith
  then show ?case by (simp only: replicate_Suc block.simps step sum.case IH add_Suc add_Suc_right)
qed

lemma pass_wraps:
  assumes a: "allocated (sym_irq s ! i) = 1" "irq_enabled (sym_irq s ! i) = 1"
  shows "call_handler (marking e) line i (marked e f line 100 k s) = Inr (marked e f line (MAX_INTERRUPTS_PER_LINE s - 1) k s)"
  using MAX_INTERRUPTS_cases [of s] by (auto simp: call_handler_marked [OF a order_refl] word_le_nat_alt)

lemma block_snoc: "block as s = Inr t \<Longrightarrow> a t = Inr u \<Longrightarrow> block (as @ [a]) s = Inr u"
  by (simp add: block_append)

lemma block_add: "block (replicate m a) s = Inr t \<Longrightarrow> block (replicate (m + n) a) s = block (replicate n a) t"
  by (simp add: replicate_add block_append)

text \<open>One period: from the counter the line is put back to, one call and a long silence.\<close>

lemma period_marked:
  assumes a: "allocated (sym_irq s ! i) = 1" "irq_enabled (sym_irq s ! i) = 1"
  shows "block (replicate (102 - unat (MAX_INTERRUPTS_PER_LINE s)) (call_handler (marking e) line i))
      (marked e f line (MAX_INTERRUPTS_PER_LINE s - 1) k s) = Inr (marked e f line (MAX_INTERRUPTS_PER_LINE s - 1) (Suc k) s)"
proof -
  let ?m = "MAX_INTERRUPTS_PER_LINE s" and ?h = "call_handler (marking e) line i"
  have "block (replicate (101 - unat ?m) ?h) (marked e f line (?m - 1) k s) = Inr (marked e f line 100 (Suc k) s)"
    using MAX_INTERRUPTS_cases [of s] passes_marked [OF a, of 0 100 e line f k] passes_marked [OF a, of 4 96 e line f k] by auto
  moreover have "102 - unat ?m = Suc (101 - unat ?m)" using MAX_INTERRUPTS_cases [of s] by auto
  moreover note pass_wraps [OF a, of e line f "Suc k"]
  ultimately show ?thesis using block_snoc [of "replicate (101 - unat ?m) ?h" _ "marked e f line 100 (Suc k) s" ?h] by (simp only: replicate_Suc replicate_append_same [symmetric])
qed

text \<open>C32. One source line calls the handler of an enabled interrupt for its first 5 passes (1 for two drivers),
  then stays silent up to pass 101, which puts the counter back to one below the limit without a call. From
  there on every 97 passes (101 for the two drivers) start with one call and put the counter back again, so
  that the limit is not a total.\<close>

theorem handler_calls_per_line:
  fixes s :: "'a irq_state_scheme"
  assumes a: "allocated (sym_irq s ! i) = 1" "irq_enabled (sym_irq s ! i) = 1" and f: "sym_irq_lines s = Some f" "f line = 0"
  shows "(\<forall>n \<le> 100. \<exists>t. block (replicate n (call_handler (marking e) line i)) s = Inr t \<and> line_count line t = of_nat n \<and>
      s2e_log t = s2e_log s @ replicate (min n (unat (MAX_INTERRUPTS_PER_LINE s))) e) \<and>
    (\<forall>k. \<exists>t. block (replicate (101 + k * (102 - unat (MAX_INTERRUPTS_PER_LINE s))) (call_handler (marking e) line i)) s = Inr t \<and>
      line_count line t = MAX_INTERRUPTS_PER_LINE s - 1 \<and>
      s2e_log t = s2e_log s @ replicate (unat (MAX_INTERRUPTS_PER_LINE s) + k) e) \<and>
    (\<exists>t. block (replicate 102 (call_handler (marking e) line i)) s = Inr t \<and>
      s2e_log t = s2e_log s @ replicate (unat (MAX_INTERRUPTS_PER_LINE s) + 1) e)"
proof (intro conjI allI impI)
  let ?m = "MAX_INTERRUPTS_PER_LINE s" and ?h = "call_handler (marking e) line i :: ('a irq_state_scheme) act"
  have start: "marked e f line 0 0 s = s" using f by (simp add: marked_def fun_upd_idem)
  have count: "line_count line (marked e f line c k s) = c" "s2e_log (marked e f line c k s) = s2e_log s @ replicate k e" for c k
    by (simp_all add: marked_def line_count_def)
  have first: "block (replicate n ?h) s = Inr (marked e f line (of_nat n) (min n (unat ?m)) s)" if "n \<le> 100" for n
    using passes_marked [OF a, of 0 n e line f 0] that by (simp add: start)
  have small: "min 100 (unat ?m) = unat ?m" using MAX_INTERRUPTS_cases [of s] by auto
  show "\<exists>t. block (replicate n ?h) s = Inr t \<and> line_count line t = of_nat n \<and> s2e_log t = s2e_log s @ replicate (min n (unat ?m)) e"
    if "n \<le> 100" for n using first [OF that] by (auto simp: count)
  have reset: "block (replicate (100 + 1) ?h) s = Inr (marked e f line (?m - 1) (unat ?m) s)"
    unfolding replicate_add using block_snoc [OF first [OF order_refl]] pass_wraps [OF a] by (simp add: small)
  have "block (replicate (101 + k * (102 - unat ?m)) ?h) s = Inr (marked e f line (?m - 1) (unat ?m + k) s)" for k
  proof (induction k)
    case 0
    then show ?case using reset by simp
  next
    case (Suc k)
    have "101 + Suc k * p = (101 + k * p) + p" for p :: nat by simp
    then show ?case by (simp only: block_add [OF Suc] period_marked [OF a] add_Suc_right)
  qed
  then show "\<exists>t. block (replicate (101 + k * (102 - unat ?m)) ?h) s = Inr t \<and> line_count line t = ?m - 1 \<and>
      s2e_log t = s2e_log s @ replicate (unat ?m + k) e" for k
    by (simp add: count)
  have lim: "?m - 1 \<le> 100" "?m - 1 + 1 \<le> ?m" using MAX_INTERRUPTS_cases [of s] by (auto simp: word_le_nat_alt)
  have "block (replicate (101 + 1) ?h) s = ?h (marked e f line (?m - 1) (unat ?m) s)"
    using block_add [OF reset, of 1] by (simp split: sum.split)
  then have "block (replicate 102 ?h) s = Inr (marked e f line ?m (unat ?m + 1) s)"
    using call_handler_marked [OF a lim(1), of e line f "unat ?m"] by simp
  then show "\<exists>t. block (replicate 102 ?h) s = Inr t \<and> s2e_log t = s2e_log s @ replicate (unat ?m + 1) e"
    by (simp add: count)
qed

theorem handler_calls_per_line_witness:
  "\<exists>t u. block (replicate 101 (call_handler (marking (S2E_prioritize 0)) 7 0))
      (loading\<lparr>sym_irq := [free_slot\<lparr>allocated := 1, irq_enabled := 1\<rparr>], sym_irq_lines := Some (\<lambda>_. 0)\<rparr>) = Inr t \<and>
    s2e_log t = replicate 5 (S2E_prioritize 0) \<and> line_count 7 t = 4 \<and>
    block (replicate (101 + 10 * 97) (call_handler (marking (S2E_prioritize 0)) 7 0))
      (loading\<lparr>sym_irq := [free_slot\<lparr>allocated := 1, irq_enabled := 1\<rparr>], sym_irq_lines := Some (\<lambda>_. 0)\<rparr>) = Inr u \<and>
    s2e_log u = replicate 15 (S2E_prioritize 0)"
proof -
  let ?s = "loading\<lparr>sym_irq := [free_slot\<lparr>allocated := 1, irq_enabled := 1\<rparr>], sym_irq_lines := Some (\<lambda>_. 0)\<rparr>"
  have a: "allocated (sym_irq ?s ! 0) = 1" "irq_enabled (sym_irq ?s ! 0) = 1" and f: "sym_irq_lines ?s = Some (\<lambda>_. 0)" by simp_all
  have m: "MAX_INTERRUPTS_PER_LINE ?s = 5" "s2e_log ?s = []" by (simp_all add: MAX_INTERRUPTS_PER_LINE_def DISABLED_def loading_def)
  note period = spec [OF conjunct1 [OF conjunct2 [OF handler_calls_per_line [OF a f refl, where e = "S2E_prioritize 0" and line = 7]]]]
  show ?thesis using period [of 0] period [of 10] unfolding m by auto
qed

section \<open>The border between kernel and driver\<close>

text \<open>C4. Whatever sequence of entries into the driver and exits from it runs through, nested calls into
  the kernel included, the names on the driver call stack are those an abstract stack of at most 30 names,
  none too long for the dump of the stack, allows: who leaves was there. Between two of them the framework's
  invariant holds and its lock is free.\<close>

theorem crossings_follow_frames:
  assumes isr: "isr_ok isr" and reg: "\<And>fs. preserves (ee_free fs) regs"
    and s: "ee_free fs s" and run: "block (map (crossing_act isr regs is_symbolic) cs) s = Inr t"
  shows "\<exists>fs'. frames_run cs fs = Some fs' \<and> frames t = fs' \<and> driver_call_stack t = int (length fs') \<and>
    length fs' \<le> driver_call_stack_max - 2 \<and> tf_inv t"
proof -
  from crossings_lead [OF isr reg s run] obtain fs' where f: "frames_run cs fs = Some fs'" "ee_free fs' t" by blast
  then have t: "frames_ok t" "frames t = fs'" "tf_inv t" by (simp_all add: ee_free_def ee_at_def)
  with frames_okD(1,2) [OF t(1)] f(1) show ?thesis by (simp add: driver_call_stack_max_def)
qed

lemma gen_enter_outermost:
  assumes s: "ee_free [] s" and short: "length (stack_entry 0 fn) < call_stack_buffer_size" and fn: "fn \<noteq> g_sym_starting_fn s" and first: "first_time_in_driver s \<noteq> 1"
  shows "\<exists>t. gen_enter_driver isr regs fn line PREPOSTFN rv r s = Inr (1, t)"
proof -
  have inv: "tf_inv s" and ok: "frames_ok s" "frames s = []" "call_stack_buffer1 s" "call_stack_buffer2 s"
    using s by (simp_all add: ee_free_def ee_at_def)
  have u: "unlocked s" using inv by (simp add: tf_inv_def)
  let ?a = "s\<lparr>global_lock := True, global_lock_acquired := 1\<rparr>"
  let ?b = "?a\<lparr>s2e_log := s2e_log s @ [S2E_success_path (int line) fn 0]\<rparr>"
  have d: "driver_call_stack s = 0" using frames_okD(1) [OF ok(1)] ok(2) by simp
  have b: "in_check ?b" using in_check_acquire [OF inv] by simp
  have at: "ee_at [] ?b" using s ee_at_frame [of ?b s "[]"] by (simp add: ee_free_def)
  then have f: "frames_ok ?b" "call_stack_buffer1 ?b" "call_stack_buffer2 ?b" "frames ?b = []" by (simp_all add: ee_at_def)
  have v: "verify_invariants fn (int line) 1 PREPOSTFN ?b =
      s2e (S2E_driver_call_stack (int line) 1) (put_frames [fn] ?b)"
    using verify_invariants_run [OF f(1) b f(2,3), where add = 1 and wt = PREPOSTFN and fn = fn and line = "int line"] f(4)
    by (simp add: frame_step_def pushes_def driver_call_stack_max_def short)
  show ?thesis using fn first u d v
    by (simp add: gen_enter_driver_def call_depth_def acquire_unlocked verify_retval_def tfassert_def
        handle_max_coverage_def put_frames_def release_locked)
qed

lemma short_name: "length (stack_entry 0 ''probe'') < call_stack_buffer_size"
  by (simp add: stack_entry_def call_stack_buffer_size_def show_nat.simps)

theorem crossings_follow_frames_witness:
  "\<exists>(s :: mod_state) t fn. init_common loading = Inr s \<and>
     block (map (crossing_act (\<lambda>_ _ _. skip) skip (\<lambda>_. False)) [Enter PREPOSTFN fn 10 0 0]) (s\<lparr>first_time_in_driver := 0\<rparr>) = Inr t \<and>
     frames t = [fn]"
proof -
  obtain s :: mod_state where s: "init_common loading = Inr s" "loaded s" and g: "g_sym_starting_fn s = []" by (rule started)
  let ?s = "s\<lparr>first_time_in_driver := 0\<rparr>" and ?fn = "''probe''"
  have f: "ee_free [] ?s" using loadedD(1) [OF s(2)] by (simp add: ee_free_def)
  have i: "isr_ok (\<lambda>_ _ _. skip)" by (simp add: isr_ok_def preserves_skip)
  have "?fn \<noteq> g_sym_starting_fn ?s" "first_time_in_driver ?s \<noteq> 1" using g by simp_all
  from gen_enter_outermost [OF f short_name this, of "\<lambda>_ _ _. skip" skip 10 0 0] obtain t
    where "gen_enter_driver (\<lambda>_ _ _. skip) skip ?fn 10 PREPOSTFN 0 0 ?s = Inr (1, t)" by blast
  then have run: "block (map (crossing_act (\<lambda>_ _ _. skip) skip (\<lambda>_. False)) [Enter PREPOSTFN ?fn 10 0 0]) ?s = Inr t"
    by (simp add: ignore_result_def)
  from crossings_follow_frames [OF i preserves_skip f run] have "frames t = [?fn]"
    by (auto simp: frame_step_def pushes_def driver_call_stack_max_def short_name)
  with s(1) run show ?thesis by blast
qed

section \<open>Reports against correct drivers\<close>

text \<open>C38. A driver whose load fails after it has taken its platform registration back is reported all the
  same: unregistering clears the bus but leaves the driver marked registered, and the check at the end of
  a failed load ends the path, unless the build switches that check off.\<close>

theorem platform_undo_is_reported:
  assumes inv: "tf_inv s" and reg: "registered (platform_driver_state s) = CALLED_OK" and bus: "DRIVER_PLATFORM \<in> bus_set s"
    and r: "r \<noteq> 0" and build: "\<not> DISABLED [''DOR''] s"
  shows "\<exists>t msg. platform_driver_unregister_MJRcheck 0 s = Inr (0, s) \<and>
    platform_driver_unregister_MJRcheck 1 s = Inr (0, t) \<and> DRIVER_PLATFORM \<notin> bus_set t \<and>
    registered (platform_driver_state t) = CALLED_OK \<and> init_module_MJRcheck 1 r t = Inl (Killed 0 1 msg)"
proof -
  let ?t = "s\<lparr>platform_driver_state := (platform_driver_state s)\<lparr>bus_flag := 0\<rparr>\<rparr>"
  have u: "unlocked s" using inv by (simp add: tf_inv_def)
  have f: "bus_flag (platform_driver_state s) = 1" using bus by (simp add: bus_set_def flag_of_simps)
  have pre: "platform_driver_unregister_MJRcheck 0 s = Inr (0, s)"
    using u by (simp add: platform_driver_unregister_MJRcheck_def check_routine_run release_global_lock_def unlocked_def)
  have post: "platform_driver_unregister_MJRcheck 1 s = Inr (0, ?t)"
    using u f by (simp add: platform_driver_unregister_MJRcheck_def check_routine_run remove_driver_bus_eqs flag_of_simps
        release_global_lock_def unlocked_def)
  have inv': "tf_inv ?t" using inv by (simp add: tf_inv_def core_inv_def blocking_ok_def user_ok_def tracker_ok_def flags_ok_def
      all_buses_def flag_of_simps class_ok_def unlocked_def)
  have "DRIVER_PLATFORM \<notin> bus_set ?t" by (simp add: bus_set_def flag_of_simps)
  moreover have "\<exists>msg. init_module_MJRcheck 1 r ?t = Inl (Killed 0 1 msg)"
  proof -
    have o: "objs s \<noteq> None" using inv by (auto simp: tf_inv_def core_inv_def tracker_ok_def)
    have d: "DISABLED ns (x\<lparr>blocking_context_current := c\<rparr>) = DISABLED ns x" "DISABLED ns (x\<lparr>user_context_current := c\<rparr>) = DISABLED ns x"
      "DISABLED ns (x\<lparr>platform_driver_state := p\<rparr>) = DISABLED ns x" for ns p c and x :: "'a test_state_scheme"
      by (simp_all add: DISABLED_def)
    show ?thesis using u r build o reg
      by (auto simp: init_module_MJRcheck_def check_routine_run unlocked_def pop_blocking_state_run pop_user_state_run
          tf_fail_locked d tfassert_def some_registered_def)
  qed
  ultimately show ?thesis using pre post reg by auto
qed

theorem platform_undo_is_reported_witness:
  "\<exists>(s :: mod_state) a b t msg. init_common loading = Inr s \<and> platform_driver_register_MJRcheck 0 0 s = Inr (0, a) \<and>
     platform_driver_register_MJRcheck 1 0 a = Inr (0, b) \<and> platform_driver_unregister_MJRcheck 1 b = Inr (0, t) \<and>
     init_module_MJRcheck 1 (-12) t = Inl (Killed 0 1 msg)"
proof -
  obtain s :: mod_state where s: "init_common loading = Inr s" "loaded s" "tf_inv s" and n: "driver_name s = ''8139TOO''"
    by (rule started)
  have u: "unlocked s" using s(3) by (simp add: tf_inv_def)
  have "platform_driver_state s = zero_driver_state" by (rule loadedD(15) [OF s(2)])
  then have z: "registered (platform_driver_state s) = NOT_CALLED" "bus_flag (platform_driver_state s) = 0"
    by (simp_all add: zero_driver_state_def)
  let ?a = "s\<lparr>platform_driver_state := (platform_driver_state s)\<lparr>registered := IN_PROGRESS\<rparr>\<rparr>"
  let ?b = "s\<lparr>platform_driver_state := (platform_driver_state s)\<lparr>registered := CALLED_OK, bus_flag := 1\<rparr>\<rparr>"
  have a: "platform_driver_register_MJRcheck 0 0 s = Inr (0, ?a)" and b: "platform_driver_register_MJRcheck 1 0 ?a = Inr (0, ?b)"
    using u z by (simp_all add: platform_driver_register_MJRcheck_def check_routine_run set_call_state_def tfassert_def
        set_driver_bus_eqs flag_of_simps release_global_lock_def unlocked_def)
  have i: "tf_inv ?b" using s(3) by (simp add: tf_inv_def core_inv_def blocking_ok_def user_ok_def tracker_ok_def flags_ok_def
      all_buses_def flag_of_simps class_ok_def unlocked_def)
  have "DRIVER_PLATFORM \<in> bus_set ?b" "\<not> DISABLED [''DOR''] ?b" "registered (platform_driver_state ?b) = CALLED_OK"
    by (simp_all add: bus_set_def flag_of_simps DISABLED_def n)
  from platform_undo_is_reported [OF i this(3,1) _ this(2), of "-12"] s(1) a b show ?thesis by auto
qed

text \<open>A PCI device may be enabled again after a failed attempt, and succeed; but when the second attempt
  fails as well, the check that runs after it ends the path, since it may not disable what is disabled.\<close>

theorem pci_enable_retry_is_killed:
  assumes inv: "tf_inv s" and new: "enabled (pci_driver_state s) = DEVICE_STATE_UNDEFINED" and r: "r \<noteq> 0" "r' \<noteq> 0"
  shows "\<exists>t u. pci_enable_device_MJRcheck 0 r s = Inr (0, s) \<and> pci_enable_device_MJRcheck 1 r s = Inr (0, t) \<and>
    enabled (pci_driver_state t) = DEVICE_STATE_DISABLED \<and> pci_enable_device_MJRcheck 0 r' t = Inr (0, t) \<and>
    pci_enable_device_MJRcheck 1 r' t = Inl (Killed 0 1 ''Device enabled/disabled incorrectly'') \<and>
    pci_enable_device_MJRcheck 1 0 t = Inr (0, u) \<and> enabled (pci_driver_state u) = DEVICE_STATE_ENABLED"
proof -
  have u: "unlocked s" using inv by (simp add: tf_inv_def)
  have o: "objs s \<noteq> None" using inv by (auto simp: tf_inv_def core_inv_def tracker_ok_def)
  show ?thesis using u new r o
    by (simp add: pci_enable_device_MJRcheck_def check_routine_run tfassert_def set_device_state_def tf_fail_locked
        release_global_lock_def unlocked_def)
qed

text \<open>A driver cannot map a socket buffer for DMA: the check before \<open>skb_dma_map\<close> ends every path, the
  check after it records nothing, and so unmapping a buffer is reported as a release of something never
  allocated.\<close>

theorem skb_dma_map_is_fatal:
  assumes inv: "tf_inv s"
  shows "skb_dma_map_MJRcheck fn 0 skb s = Inl (Killed 0 1 ''0'') \<and> skb_dma_map_MJRcheck fn 1 skb s = Inr (0, s) \<and>
    (tracked s (objs_key (skb_ptr skb)) = None \<longrightarrow>
      skb_dma_unmap_MJRcheck 0 skb s = Inl (Killed 0 1 ''Freeing something that we never allocated''))"
proof (intro conjI impI)
  have u: "unlocked s" using inv by (simp add: tf_inv_def)
  have o: "objs s \<noteq> None" using inv by (auto simp: tf_inv_def core_inv_def tracker_ok_def)
  show "skb_dma_map_MJRcheck fn 0 skb s = Inl (Killed 0 1 ''0'')" "skb_dma_map_MJRcheck fn 1 skb s = Inr (0, s)"
    using u o by (simp_all add: skb_dma_map_MJRcheck_def check_routine_run tf_fail_locked release_global_lock_def unlocked_def)
  show "skb_dma_unmap_MJRcheck 0 skb s = Inl (Killed 0 1 ''Freeing something that we never allocated'')"
    if "tracked s (objs_key (skb_ptr skb)) = None"
    using free_routine [OF inv, of "skb_ptr skb" ORIGIN_SKB_DMA_MAP] that by (simp add: skb_dma_unmap_MJRcheck_def)
qed

end
