(* ===== verification/Module_Properties.thy ===== *)
theory Module_Properties
  imports Routine_Calls
begin

text \<open>
  Properties that span the module: loading and unloading, what every run of check routines keeps, the
  life of a registered function, the recursion of a failing assertion, the verdict on a path, and the
  dispatch of test cases.
\<close>

section \<open>Loading and unloading\<close>

text \<open>C17. With memory for its tables, loading brings every component up: empty tables, no registered bus,
  no interrupt, one undefined context, a free lock. The hypervisor has heard of the functions of interest
  in order. Unloading from there gives every table and buffer back and frees the lock.\<close>

theorem load_then_unload:
  fixes s :: "'a mod_state_scheme"
  assumes un: "unloaded s" and mem: "\<forall>n. kmalloc_ok s n" and tp: "trackperf_ok s"
  shows "\<exists>t u. init_common s = Inr t \<and> tf_inv t \<and> frames t = [] \<and> tracked t = Map.empty \<and> purposes t = Map.empty \<and>
    bus_set t = {} \<and> sym_num_requests t = 0 \<and> blocking_stack t = [BLOCKING_UNDEFINED] \<and>
    user_stack t = [USER_UNDEFINED] \<and> s2e_log t = s2e_log s @ load_events s \<and>
    cleanup_common t = Inr u \<and> objs u = None \<and> ft_objs u = None \<and> sym_irq_lines u = None \<and>
    \<not> call_stack_buffer1 u \<and> \<not> call_stack_buffer2 u \<and> unlocked u"
proof -
  from init_common_run [OF un mem tp] obtain t
    where t: "init_common s = Inr t" "loaded t" "s2e_log t = s2e_log s @ load_events s" by blast
  then have f: "tf_inv t" "frames t = []" by (simp_all add: loaded_def ee_free_def ee_at_def)
  then have l: "unlocked t" "tracker_ok t" by (simp_all add: tf_inv_def core_inv_def)
  have i: "length (sym_irq t) = MAX_IRQS" using loadedD(6) [OF t(2)] by (simp add: irq_ok_def)
  from cleanup_common_run [OF l loadedD(8,13) [OF t(2)] i loadedD(14) [OF t(2)]] obtain u
    where u: "cleanup_common t = Inr u" "objs u = None" "ft_objs u = None" "sym_irq_lines u = None"
      "\<not> call_stack_buffer1 u" "\<not> call_stack_buffer2 u" "unlocked u" by blast
  have n: "sym_num_requests t = 0" using t(2) by (simp add: loaded_def)
  show ?thesis
    by (rule exI [of _ t], rule exI [of _ u])
      (use t f u n loadedD(2,3,4,5,9) [OF t(2)] in simp)
qed

theorem load_then_unload_witness:
  "\<exists>t u. init_common loading = Inr t \<and> tracked t = Map.empty \<and> cleanup_common t = Inr u \<and> objs u = None"
  using load_then_unload [OF loading_unloaded(1-3)] by blast

section \<open>Runs of check routines\<close>

text \<open>C5. Whatever check routines the driver's calls lead to, in whatever order and with whatever arguments,
  the framework's invariant holds after every one: the lock is free, the context stacks are inside their
  arrays, the table of objects is well formed, the flags of buses and classes are consistent.\<close>

theorem check_runs_keep_invariant:
  assumes un: "unloaded s0" and mem: "\<forall>n. kmalloc_ok s0 n" and tp: "trackperf_ok s0"
    and load: "init_common s0 = Inr s" and run: "check_step\<^sup>*\<^sup>* s t"
  shows "tf_inv t \<and> unlocked t \<and> blocking_context_current t \<in> {0..<int MAX_NESTING} \<and>
    user_context_current t \<in> {0..<int MAX_NESTING} \<and> objs t \<noteq> None"
proof -
  from init_common_run [OF un mem tp] load have "loaded s" by auto
  then have "tf_inv s" by (simp add: loaded_def ee_free_def)
  from reachable_keeps [OF run this] show ?thesis
    by (auto simp: tf_inv_def core_inv_def blocking_ok_def user_ok_def stack_ok_def tracker_ok_def)
qed

theorem check_runs_keep_invariant_witness:
  "\<exists>(s :: mod_state) t. init_common loading = Inr s \<and> check_step\<^sup>*\<^sup>* s t \<and> tracked t \<noteq> Map.empty \<and> tf_inv t"
proof -
  obtain s :: mod_state where s: "init_common loading = Inr s" "loaded s" "mem_ok s" "tf_inv s"
    and err: "IS_ERR_VALUE s = (\<lambda>v. v \<ge> -4095)" by (rule started)
  have "tracked s (objs_key 0x2000) = None" by (simp add: loadedD(2) [OF s(2)])
  moreover have "\<not> IS_ERR_VALUE s 0x2000" "\<not> insane_size 64" "fn_name_ok ''kmalloc''" "ORIGIN_KMALLOC \<noteq> 0"
    by (simp_all add: err insane_size_def fn_name_ok_def ORIGIN_KMALLOC_def)
  ultimately obtain t where t: "u2_kmalloc_MJRcheck ''kmalloc'' 1 0x2000 64 0xD0 s = Inr (0, t)"
    "tracked t = (tracked s)(objs_key 0x2000 \<mapsto> new_value ''kmalloc'' ORIGIN_KMALLOC 64 1)"
    using alloc_routine [OF s(4,3), of "0x2000" 64 "''kmalloc''" ORIGIN_KMALLOC] by (auto simp: kmalloc_routine)
  have k: "routine (ignore_result (u2_kmalloc_MJRcheck ''kmalloc'' 1 0x2000 64 0xD0) :: mod_state act)"
    by (rule routine_intros)
  have "check_step s t" by (rule step_routine [OF k]) (simp add: ignore_result_def t)
  then have r: "check_step\<^sup>*\<^sup>* s t" by blast
  have "tracked t \<noteq> Map.empty" by (auto simp: t(2) fun_eq_iff)
  with s(1) r check_runs_keep_invariant [OF loading_unloaded(1-3) s(1) r] show ?thesis by blast
qed

lemma ends_well_cases: "ends_well e \<Longrightarrow> e \<noteq> Deadlock \<and> e \<noteq> Stack_Overflow"
  by (cases e) simp_all

text \<open>C6. No check routine hangs: called while the lock is free, it either ends the path with a verdict or a
  fault of the driver's argument, or returns with the lock free again. The lock routines need, after the
  kernel's call, a lock the tracker knows.\<close>

theorem check_routines_never_hang:
  assumes s: "tf_inv s"
  shows "(\<forall>a. routine a \<longrightarrow>
      (case a s of Inl e \<Rightarrow> e \<noteq> Deadlock \<and> e \<noteq> Stack_Overflow | Inr t \<Rightarrow> unlocked t)) \<and>
    (\<forall>pp lock a. lock_routine pp lock a \<longrightarrow> pp = 0 \<or> tracked s (objs_key lock) \<noteq> None \<longrightarrow>
      (case a s of Inl e \<Rightarrow> e \<noteq> Deadlock \<and> e \<noteq> Stack_Overflow | Inr t \<Rightarrow> unlocked t))"
proof (intro conjI allI impI)
  have w: "case r of Inl e \<Rightarrow> e \<noteq> Deadlock \<and> e \<noteq> Stack_Overflow | Inr t \<Rightarrow> unlocked t"
    if "case r of Inl e \<Rightarrow> ends_well e | Inr t \<Rightarrow> tf_inv t" for r :: "tf_error + 'a irq_state_scheme"
    using that by (cases r) (simp_all add: ends_well_cases tf_inv_def)
  show "case a s of Inl e \<Rightarrow> e \<noteq> Deadlock \<and> e \<noteq> Stack_Overflow | Inr t \<Rightarrow> unlocked t" if "routine a" for a
    by (rule w [OF safeD [OF routine_keeps [OF that] s]])
  show "case a s of Inl e \<Rightarrow> e \<noteq> Deadlock \<and> e \<noteq> Stack_Overflow | Inr t \<Rightarrow> unlocked t"
    if "lock_routine pp lock a" "pp = 0 \<or> tracked s (objs_key lock) \<noteq> None" for pp lock a
    by (rule w [OF lock_routine_keeps [OF that(1) s that(2)]])
qed

theorem check_routines_never_hang_witness:
  "\<exists>s :: mod_state. init_common loading = Inr s \<and>
     (case ignore_result (kfree_MJRcheck 0 (Some 0x2000)) s of
        Inl e \<Rightarrow> e \<noteq> Deadlock \<and> e \<noteq> Stack_Overflow | Inr t \<Rightarrow> unlocked t)"
proof -
  obtain s :: mod_state where s: "init_common loading = Inr s" "tf_inv s" by (rule started)
  have "routine (ignore_result (kfree_MJRcheck 0 (Some 0x2000)) :: mod_state act)" by (rule routine_intros)
  with check_routines_never_hang [OF s(2)] s(1) show ?thesis by blast
qed

section \<open>The life of a registered function\<close>

text \<open>C15. A function that is registered and then given a purpose is found under the name of its purpose: the
  look-up yields the check routine of that name, or the default one when the kernel has no such symbol,
  and changes nothing. The other functions keep their entries.\<close>

theorem registered_function_is_found:
  fixes s :: "'a ft_state_scheme"
  assumes ok: "ft_ok s" and u: "unlocked s" and new: "purposes s dfn = None" "dfn \<noteq> 0" and mem: "\<forall>n. kmalloc_ok s n"
    and p: "kernel_address p" and str: "s1 \<noteq> []" "s2 \<noteq> []" and w: "numbered wrapper_type"
    and small: "length (s1 @ ''_'' @ s2 @ ''_MJRcheck'') \<le> 127"
  shows "\<exists>t v. gen_register_one wfn dfn wstr dstr s = Inr t \<and> gen_convert_fn p dfn s1 s2 t = Inr v \<and>
    gen_lookup_MJRcheck symbol_lookup default_check wrapper_type dfn v =
      Inr (let f = symbol_lookup (s1 @ ''_'' @ s2 @ ''_MJRcheck'') in if f = 0 then default_check else f, v) \<and>
    (\<forall>fn. fn \<noteq> dfn \<longrightarrow> purposes v fn = purposes s fn)"
proof -
  from gen_register_one_run [OF ok new mem, of wfn wstr dstr] obtain m h
    where t: "gen_register_one wfn dfn wstr dstr s = Inr (s\<lparr>kmalloc_calls := m, ft_objs := Some h\<rparr>)"
      "ft_ok (s\<lparr>kmalloc_calls := m, ft_objs := Some h\<rparr>)"
      "purposes (s\<lparr>kmalloc_calls := m, ft_objs := Some h\<rparr>) = (purposes s)(dfn \<mapsto> no_purpose dfn wfn dstr wstr)"
    by (auto simp: Let_def)
  let ?t = "s\<lparr>kmalloc_calls := m, ft_objs := Some h\<rparr>"
  let ?v = "with_purpose s1 s2 (no_purpose dfn wfn dstr wstr)"
  have ut: "unlocked ?t" using u by (simp add: unlocked_def)
  from gen_convert_fn_run [OF t(2) ut, of p dfn s1 s2] p t(3) obtain g
    where v: "gen_convert_fn p dfn s1 s2 ?t = Inr (?t\<lparr>ft_objs := g\<rparr>)" "ft_ok (?t\<lparr>ft_objs := g\<rparr>)"
      "purposes (?t\<lparr>ft_objs := g\<rparr>) = (purposes s)(dfn \<mapsto> ?v)"
    by (auto simp: Let_def)
  have n: "check_name ?v = s1 @ ''_'' @ s2 @ ''_MJRcheck''" and b: "str1 ?v = [] \<longleftrightarrow> str2 ?v = []"
    using str by (simp_all add: check_name_def with_purpose_def)
  have uv: "unlocked (?t\<lparr>ft_objs := g\<rparr>)" and pv: "purposes (?t\<lparr>ft_objs := g\<rparr>) dfn = Some ?v"
    using u v(3) by (simp_all add: unlocked_def)
  have "length (check_name ?v) \<le> 127" using small by (simp only: n)
  from gen_lookup_MJRcheck_run [OF v(2) uv pv w b this, of symbol_lookup default_check]
  show ?thesis using t(1) v(1,3)
    by (intro exI [of _ ?t] exI [of _ "?t\<lparr>ft_objs := g\<rparr>"]) (simp add: n Let_def)
qed

theorem registered_function_is_found_witness:
  "\<exists>(s :: mod_state) t v. init_common loading = Inr s \<and> gen_register_one 0xD0000000 0xC1000000 ''w'' ''f'' s = Inr t \<and>
     gen_convert_fn 0xC2000000 0xC1000000 ''net_device_ops'' ''ndo_open'' t = Inr v \<and>
     gen_lookup_MJRcheck (\<lambda>n. if n = ''net_device_ops_ndo_open_MJRcheck'' then 7 else 0) 9 ''1'' 0xC1000000 v = Inr (7, v)"
proof -
  obtain s :: mod_state where s: "init_common loading = Inr s" "loaded s" "mem_ok s" "tf_inv s" by (rule started)
  have a: "unlocked s" "purposes s 0xC1000000 = None" "\<forall>n. kmalloc_ok s n"
    using s(3,4) by (simp_all add: tf_inv_def loadedD(9) [OF s(2)] mem_ok_def)
  have "kernel_address 0xC2000000" "numbered ''1''" by (simp_all add: kernel_address_def numbered_def)
  from registered_function_is_found [OF loadedD(8) [OF s(2)] a(1,2) _ a(3) this(1) _ _ this(2),
      where ?s1.0 = "''net_device_ops''" and ?s2.0 = "''ndo_open''" and wfn = "0xD0000000" and wstr = "''w''" and dstr = "''f''"
        and symbol_lookup = "\<lambda>n. if n = ''net_device_ops_ndo_open_MJRcheck'' then 7 else 0" and default_check = 9] s(1)
  show ?thesis by auto
qed

text \<open>C36. Registering a function a second time never comes back: the assertion fails, reporting it needs the
  global lock, nobody holds it, and the report of that failure fails in the same way. The kernel stack
  overflows; no state and no verdict results.\<close>

theorem registering_twice_overflows:
  fixes s :: "'a ft_state_scheme"
  assumes ok: "ft_ok s" and old: "purposes s dfn \<noteq> None" and mem: "\<forall>n. kmalloc_ok s n" and inv: "tf_inv s"
  shows "gen_register_one wfn dfn wstr dstr s = Inl Stack_Overflow"
proof (rule gen_register_one_twice [OF ok old mem])
  show "unlocked s" "objs s \<noteq> None" using inv by (auto simp: tf_inv_def core_inv_def tracker_ok_def)
qed

theorem registering_twice_overflows_witness:
  "\<exists>(s :: mod_state) t. init_common loading = Inr s \<and> gen_register_one 0xD0000000 0xC1000000 ''w'' ''f'' s = Inr t \<and>
     gen_register_one 0xD0000000 0xC1000000 ''w'' ''f'' t = Inl Stack_Overflow"
proof -
  obtain s :: mod_state where s: "init_common loading = Inr s" "loaded s" "mem_ok s" "tf_inv s" by (rule started)
  have a: "purposes s 0xC1000000 = None" "\<forall>n. kmalloc_ok s n" "(0xC1000000 :: ulong) \<noteq> 0"
    using s(3) by (simp_all add: loadedD(9) [OF s(2)] mem_ok_def)
  from gen_register_one_run [OF loadedD(8) [OF s(2)] a(1,3,2), of "0xD0000000" "''w''" "''f''"] obtain m h
    where t: "gen_register_one 0xD0000000 0xC1000000 ''w'' ''f'' s = Inr (s\<lparr>kmalloc_calls := m, ft_objs := Some h\<rparr>)"
      "ft_ok (s\<lparr>kmalloc_calls := m, ft_objs := Some h\<rparr>)"
      "purposes (s\<lparr>kmalloc_calls := m, ft_objs := Some h\<rparr>) 0xC1000000 \<noteq> None"
    by (auto simp: Let_def)
  have "\<forall>n. kmalloc_ok (s\<lparr>kmalloc_calls := m, ft_objs := Some h\<rparr>) n" using a(2) by simp
  moreover have "tf_inv (s\<lparr>kmalloc_calls := m, ft_objs := Some h\<rparr>)"
    using s(4) by (simp add: tf_inv_def core_inv_def blocking_ok_def user_ok_def tracker_ok_def flags_ok_def
        all_buses_def flag_of_simps class_ok_def unlocked_def)
  ultimately have "gen_register_one 0xD0000000 0xC1000000 ''w'' ''f'' (s\<lparr>kmalloc_calls := m, ft_objs := Some h\<rparr>) = Inl Stack_Overflow"
    by (rule registering_twice_overflows [OF t(2,3)])
  with s(1) t(1) show ?thesis by blast
qed

section \<open>Failing assertions\<close>

lemma driver_dump_stack_cases:
  "driver_dump_stack s =
    (if global_lock_acquired s = 1 then dump_text s else if objs s = None then Inl Null_Deref else Inl Stack_Overflow)"
  by (simp add: driver_dump_stack_def assert_global_lock_def tfassert_def tf_fail_def tf_fail_no_detail_def)

lemma dump_text_Inr:
  "(\<exists>txt. dump_text s = Inr txt) \<longleftrightarrow> call_stack_buffer1 s \<and> call_stack_buffer2 s \<and>
     (\<forall>i < length (driver_call_stack_str s). \<forall>name. driver_call_stack_str s ! i = Some name \<longrightarrow>
        length (name @ '':'' @ show_nat i @ '' -> '') < call_stack_buffer_size)"
  using dump_entries_Inr [of 0 "driver_call_stack_str s" "[]"] by (auto simp: dump_text_def stack_entry_def)

lemma dump_text_fits: "dump_text s = Inr txt \<Longrightarrow> length txt < call_stack_buffer_size"
  by (auto simp: dump_text_def call_stack_buffer_size_def dest: dump_entries_fits split: if_splits)

lemma dump_text_ends: "dump_text s \<noteq> Inl Stack_Overflow"
  by (simp add: dump_text_def dump_entries_ends)

text \<open>C31. The dump of the call stack that a failing assertion prints comes to an end, however large the kernel
  stack, exactly where the global lock is held or the tracker has no table: without the lock the check that would
  end the path asks for the dump again and never gets to end it, unless printing the table fails first. Where
  it ends, a single call settles the result, the one of \<open>driver_dump_stack\<close>: it is a text exactly when the lock is
  held, both buffers exist and every name in progress fits the second one with its index; then the text
  fits the first one, terminator included. Otherwise the dump crashes, on a missing table or buffer or by writing a
  name over the end of its buffer.\<close>

theorem dump_ends_iff_locked:
  "((\<exists>n. dump_stack_fuel n s \<noteq> Still_Running) \<longleftrightarrow> global_lock_acquired s = 1 \<or> objs s = None) \<and>
   dump_stack_fuel (Suc n) s = (case driver_dump_stack s of
      Inr txt \<Rightarrow> Text txt | Inl e \<Rightarrow> if e = Stack_Overflow then Still_Running else Crash e) \<and>
   ((\<exists>txt. driver_dump_stack s = Inr txt) \<longleftrightarrow>
      global_lock_acquired s = 1 \<and> call_stack_buffer1 s \<and> call_stack_buffer2 s \<and>
      (\<forall>i < length (driver_call_stack_str s). \<forall>name. driver_call_stack_str s ! i = Some name \<longrightarrow>
        length (name @ '':'' @ show_nat i @ '' -> '') < call_stack_buffer_size)) \<and>
   (\<forall>txt. driver_dump_stack s = Inr txt \<longrightarrow> length txt < call_stack_buffer_size)"
proof (intro conjI)
  have locked: "dump_stack_fuel (Suc 0) s \<noteq> Still_Running" if "global_lock_acquired s = 1 \<or> objs s = None"
    using that by (auto split: sum.split)
  show "(\<exists>n. dump_stack_fuel n s \<noteq> Still_Running) \<longleftrightarrow> global_lock_acquired s = 1 \<or> objs s = None"
    using locked dump_stack_unlocked [of s] by blast
  show "dump_stack_fuel (Suc n) s = (case driver_dump_stack s of
      Inr txt \<Rightarrow> Text txt | Inl e \<Rightarrow> if e = Stack_Overflow then Still_Running else Crash e)"
    using dump_text_ends [of s] dump_stack_unlocked [of s n] by (auto simp: driver_dump_stack_cases split: sum.split)
  show "(\<exists>txt. driver_dump_stack s = Inr txt) \<longleftrightarrow>
      global_lock_acquired s = 1 \<and> call_stack_buffer1 s \<and> call_stack_buffer2 s \<and>
      (\<forall>i < length (driver_call_stack_str s). \<forall>name. driver_call_stack_str s ! i = Some name \<longrightarrow>
        length (name @ '':'' @ show_nat i @ '' -> '') < call_stack_buffer_size)"
    using dump_text_Inr [of s] by (auto simp: driver_dump_stack_cases)
  show "\<forall>txt. driver_dump_stack s = Inr txt \<longrightarrow> length txt < call_stack_buffer_size"
    using dump_text_fits [of s] by (auto simp: driver_dump_stack_cases split: if_splits)
qed

lemma digit_zero: "digit 0 = CHR ''0''"
  by code_simp

text \<open>A loaded framework, inside a check of a driver that runs its function \<open>probe\<close>: the dump is its name; without
  the lock it never ends; with a name as long as the buffer it crashes.\<close>

theorem dump_ends_iff_locked_witness:
  "\<exists>(s :: mod_state) long. in_check s \<and> dump_stack_fuel 1 s = Text ''probe:0 -> '' \<and>
     (\<forall>n. dump_stack_fuel n (s\<lparr>global_lock_acquired := 0\<rparr>) = Still_Running) \<and>
     dump_stack_fuel 1 (s\<lparr>driver_call_stack_str := [Some long]\<rparr>) = Crash Out_Of_Bounds"
proof -
  obtain s :: mod_state where s: "init_common loading = Inr s" "loaded s" "tf_inv s" by (rule started)
  let ?s = "s\<lparr>global_lock := True, global_lock_acquired := 1,
    driver_call_stack_str := Some ''probe'' # replicate 31 None\<rparr>"
  let ?u = "?s\<lparr>global_lock_acquired := 0\<rparr>" and ?l = "?s\<lparr>driver_call_stack_str := [Some (replicate call_stack_buffer_size CHR ''x'')]\<rparr>"
  have b: "call_stack_buffer1 s" "call_stack_buffer2 s" using loadedD(1) [OF s(2)] by (simp_all add: ee_free_def ee_at_def)
  have i: "in_check ?s" using in_check_acquire [OF s(3)]
    by (simp add: in_check_def core_inv_def blocking_ok_def user_ok_def tracker_ok_def flags_ok_def
        all_buses_def flag_of_simps class_ok_def locked_def)
  have none: "dump_entries i (replicate n None) buf = Inr buf" for i n buf by (induction n arbitrary: i) simp_all
  have "driver_dump_stack ?s = Inr ''probe:0 -> ''"
    using b by (simp add: driver_dump_stack_cases dump_text_def stack_entry_def none strlcat_def call_stack_buffer_size_def
        show_nat.simps digit_zero)
  then have 1: "dump_stack_fuel 1 ?s = Text ''probe:0 -> ''" using dump_ends_iff_locked [of ?s 0] by simp
  have "objs s \<noteq> None" using s(3) by (auto simp: tf_inv_def core_inv_def tracker_ok_def)
  then have 2: "\<forall>n. dump_stack_fuel n ?u = Still_Running" using dump_ends_iff_locked [THEN conjunct1, of ?u] by (simp del: not_None_eq)
  have "driver_dump_stack ?l = Inl Out_Of_Bounds"
    using b by (simp add: driver_dump_stack_cases dump_text_def stack_entry_def)
  then have 3: "dump_stack_fuel 1 ?l = Crash Out_Of_Bounds" using dump_ends_iff_locked [of ?l 0] by simp
  show ?thesis by (intro exI [of _ ?s] exI [of _ "replicate call_stack_buffer_size CHR ''x''"] conjI) (use i 1 2 3 in simp_all)
qed

section \<open>Verdicts\<close>

text \<open>C16. At the end of the outermost driver function a path goes on exactly when the function has no return
  value (\<open>rv = 0\<close>), or its value, taken as 0 when an annotation is set, is no error code and one of two holds:
  \<open>g_sym_retval\<close> is 0, whether or not the path is marked bad, or \<open>g_sym_retval\<close> is 2 and the path is not marked
  bad. With \<open>g_sym_retval\<close> at 1, symbolic return values in use, every path with a value is ended here, a good one
  too, to keep the number of states down. Where the path goes on, the annotation is used up if there was a value, and is
  left as it was if there was none.\<close>

theorem outermost_exit_verdict:
  assumes inv: "in_check s" and outer: "driver_call_stack s = 0"
  shows "((\<exists>t. verify_retval line PREPOSTFN EXIT rv r s = Inr t) \<longleftrightarrow>
      rv = 0 \<or> (\<not> IS_ERR_VALUE s (if g_symdrive_annotations s = 0 then r else 0) \<and>
        (g_sym_retval s = 0 \<or> g_sym_retval s = 2 \<and> bad_path s = 0))) \<and>
    (\<forall>t. verify_retval line PREPOSTFN EXIT rv r s = Inr t \<longrightarrow>
      g_symdrive_annotations t = (if rv = 0 then g_symdrive_annotations s else 0))"
proof
  show "(\<exists>t. verify_retval line PREPOSTFN EXIT rv r s = Inr t) \<longleftrightarrow>
      rv = 0 \<or> (\<not> IS_ERR_VALUE s (if g_symdrive_annotations s = 0 then r else 0) \<and>
        (g_sym_retval s = 0 \<or> g_sym_retval s = 2 \<and> bad_path s = 0))"
    by (rule verify_retval_exit [OF assms])
  show "\<forall>t. verify_retval line PREPOSTFN EXIT rv r s = Inr t \<longrightarrow>
      g_symdrive_annotations t = (if rv = 0 then g_symdrive_annotations s else 0)"
    using outer by (auto simp: verify_retval_def verify_symretval_def Let_def tfassert_def split: if_splits)
qed

theorem outermost_exit_verdict_witness:
  "\<exists>s :: mod_state. in_check s \<and> (\<exists>t. verify_retval 10 PREPOSTFN EXIT 1 0 s = Inr t) \<and>
     \<not> (\<exists>t. verify_retval 10 PREPOSTFN EXIT 1 (-12) s = Inr t) \<and>
     (\<exists>t. verify_retval 10 PREPOSTFN EXIT 1 (-12) (s\<lparr>g_symdrive_annotations := 1\<rparr>) = Inr t)"
proof -
  obtain s :: mod_state where s: "init_common loading = Inr s" "loaded s" "tf_inv s"
    and e: "IS_ERR_VALUE s = (\<lambda>v. v \<ge> -4095)" and g: "g_sym_retval s = 0" by (rule started)
  let ?s = "s\<lparr>global_lock := True, global_lock_acquired := 1, g_symdrive_annotations := 0\<rparr>"
  have "ee_free [] s" by (rule loadedD(1) [OF s(2)])
  then have f: "frames_ok s" "frames s = []" by (simp_all add: ee_free_def ee_at_def)
  have d: "driver_call_stack s = 0" using frames_okD(1) [OF f(1)] f(2) by simp
  have i: "in_check ?s" using in_check_acquire [OF s(3)] by simp
  then have j: "in_check (?s\<lparr>g_symdrive_annotations := 1\<rparr>)" by simp
  show ?thesis
    using i outermost_exit_verdict [OF i, of 10 1 0] outermost_exit_verdict [OF i, of 10 1 "-12"]
      outermost_exit_verdict [OF j, of 10 1 "-12"] d
    by (intro exI [of _ ?s]) (simp add: e g)
qed

text \<open>C22. A symbolic return value splits the path in two: the value the function really returned goes on
  unmarked, an error code goes on marked bad, and every other value is ended. The lock is free afterwards.
  A result of one or two bytes has no error code, so only the returned value goes on.\<close>

theorem symbolic_result_splits_path:
  assumes inv: "tf_inv s" and sym: "g_sym_retval s \<noteq> 0" and n: "n \<in> {1, 2, 4, 8}"
    and err: "\<And>v. is_err v \<Longrightarrow> v \<ge> 2 ^ 16"
  shows "((\<exists>x t. gen_make_symbolic_int is_err fn line symv orig n s = Inr (x, t)) \<longleftrightarrow>
      low_bytes n symv = low_bytes n orig \<or> n > 2 \<and> is_err (low_bytes n symv)) \<and>
    (\<forall>x t. gen_make_symbolic_int is_err fn line symv orig n s = Inr (x, t) \<longrightarrow>
      x = (g_sym_retval s, symv) \<and> unlocked t \<and>
      bad_path t = (if low_bytes n symv = low_bytes n orig then bad_path s else 1))"
proof -
  have "\<not> is_err (low_bytes n symv)" if "n \<le> 2"
    using err [of "low_bytes n symv"] low_bytes_small [of n symv] n that by (auto simp: not_le [symmetric])
  with gen_make_symbolic_int_run [OF inv sym n, of is_err fn line symv orig] show ?thesis
    by (metis not_le)
qed

theorem symbolic_result_splits_path_witness:
  "\<exists>s :: mod_state. tf_inv s \<and>
     (\<exists>x t. gen_make_symbolic_int (\<lambda>v. v \<ge> 0xFFFFF001) ''f'' 10 0xFFFFFFF4 0 4 s = Inr (x, t) \<and> bad_path t = 1) \<and>
     \<not> (\<exists>x t. gen_make_symbolic_int (\<lambda>v. v \<ge> 0xFFFFF001) ''f'' 10 0xFFF4 0 2 s = Inr (x, t))"
proof -
  obtain s :: mod_state where s: "init_common loading = Inr s" "tf_inv s" by (rule started)
  let ?s = "s\<lparr>g_sym_retval := 1\<rparr>"
  have i: "tf_inv ?s" using s(2) by (simp add: tf_inv_def core_inv_def blocking_ok_def user_ok_def tracker_ok_def flags_ok_def
        all_buses_def flag_of_simps class_ok_def unlocked_def)
  have e: "v \<ge> 2 ^ 16" if "v \<ge> 0xFFFFF001" for v :: "64 word" using order_trans [OF _ that] by simp
  have low: "low_bytes 4 0xFFFFFFF4 = 0xFFFFFFF4" "low_bytes 2 0xFFF4 = 0xFFF4" "low_bytes n 0 = 0" for n
    by (simp_all add: low_bytes_def)
  have "g_sym_retval ?s \<noteq> 0" "(4 :: int) \<in> {1, 2, 4, 8}" "(2 :: int) \<in> {1, 2, 4, 8}" by simp_all
  from symbolic_result_splits_path [OF i this(1,2), of "\<lambda>v. v \<ge> 0xFFFFF001" "''f''" 10 "0xFFFFFFF4" 0, OF e]
    symbolic_result_splits_path [OF i this(1,3), of "\<lambda>v. v \<ge> 0xFFFFF001" "''f''" 10 "0xFFF4" 0, OF e]
  show ?thesis using i by (intro exI [of _ ?s]) (auto simp: low)
qed

text \<open>C37. The dispatcher of test cases never returns to its caller. With the tables of \<open>initialize_ep\<close> the
  test cases 1 to 42 run the entry of their number with device interrupts off and then end the path as
  passed, unless the entry ended it before; 43 to 45, which the enumeration allows, call a null pointer.\<close>

theorem test_cases_end_the_path:
  assumes init: "initialize_ep s0 = Inr (r, s)" and id: "1 \<le> i" "i < TEST_CASE_ETHTOOL_END"
  shows "(\<forall>category j t. ep_test drv x category j s \<noteq> Inr t) \<and>
    ep_test drv x TEST_ETHTOOL i s =
      (if i \<le> 42 then (case run_ep_fn drv (ethtool_fn_array s ! nat i)
          (s\<lparr>s2e_log := s2e_log s @ [S2E_favor_successful 0 0], device_irq_disabled := 1\<rparr>) of
           Inl e \<Rightarrow> Inl e | Inr _ \<Rightarrow> Inl (Killed 1 0 ''Victory - test case(s) complete''))
       else Inl Null_Deref)"
proof -
  have l: "length (ethtool_fn_array s) = 43" using init by (auto simp: initialize_ep_def)
  have "ep_test drv x TEST_ETHTOOL i s =
      (if i \<le> 42 then (case run_ep_fn drv (ethtool_fn_array s ! nat i)
          (s\<lparr>s2e_log := s2e_log s @ [S2E_favor_successful 0 0], device_irq_disabled := 1\<rparr>) of
           Inl e \<Rightarrow> Inl e | Inr _ \<Rightarrow> Inl (Killed 1 0 ''Victory - test case(s) complete''))
       else Inl Null_Deref)" using id
    by (simp add: ep_test_def ep_test_generic_def TEST_CASE_ETHTOOL_BEGIN_def TEST_CASE_ETHTOOL_END_def
        call_fn_array_def load_at_def l set_device_interrupts_def nat_less_iff split: sum.split)
  then show ?thesis by (simp add: ep_test_ends)
qed

theorem test_cases_end_the_path_witness:
  "\<exists>s :: mod_state. initialize_ep loading = Inr (0, s) \<and> ethtool_fn_array s ! 11 = Fn_ethtool_get_link \<and>
     ep_test \<lparr>ethtool_ops = id, ethtool_op = \<lambda>_ _. None, pci_op = \<lambda>_ _. None, i2c_op = \<lambda>_ _. None\<rparr> 0 TEST_ETHTOOL 44 s
       = Inl Null_Deref"
proof -
  obtain s :: mod_state where s: "initialize_ep loading = Inr (0, s)" "ethtool_fn_array s ! 11 = Fn_ethtool_get_link"
    by (simp add: initialize_ep_def)
  have "TEST_CASE_ETHTOOL_END = 46" by (simp add: TEST_CASE_ETHTOOL_END_def)
  with test_cases_end_the_path [OF s(1), of 44] s show ?thesis by simp
qed

end
