(* ===== verification/Hash_Iterator.thy ===== *)
theory Hash_Iterator
  imports Hashtable
begin

text \<open>
  The iterator of the hash table, \<open>hashtable/hashtable_itr.c\<close> and \<open>hashtable_itr.h\<close>. A node of a
  chain is known by its key, which is unique in a table. The pointer \<open>e\<close> of the iterator is the list
  that starts at the node it points to, \<open>NULL\<close> the empty one: a node that has been taken out of the
  table keeps its \<open>next\<close>. The pointer \<open>parent\<close> is the key of the node it points to.

  \<open>itr_rest\<close> is what an iterator has still to visit, \<open>itr_ok\<close> says that it points into its table.
\<close>

section \<open>Operations\<close>

record ('k, 'v) hashtable_itr =
  itr_e :: "('k, 'v) entry list"
  itr_parent :: "'k option"
  itr_index :: nat

text \<open>The scan for the next chain that is not empty, from index \<open>j\<close> on.\<close>

definition next_chain :: "('k, 'v) hashtable \<Rightarrow> nat \<Rightarrow> nat" where
  "next_chain h j = j + first_index (\<lambda>c. c \<noteq> []) (drop j (take (unat (tablelength h)) (table h)))"

definition hashtable_iterator :: "bool \<Rightarrow> ('k, 'v) hashtable \<Rightarrow> ('k, 'v) hashtable_itr option" where
  "hashtable_iterator ok h =
     (if \<not> ok then None
      else
        let n = unat (tablelength h); i = next_chain h 0;
            itr = \<lparr>itr_e = [], itr_parent = None, itr_index = n\<rparr> in
        Some (if entrycount h = 0 then itr
          else if i < n then itr\<lparr>itr_e := table h ! i, itr_index := i\<rparr>
          else itr))"

definition hashtable_iterator_key :: "('k, 'v) hashtable_itr \<Rightarrow> tf_error + 'k" where
  "hashtable_iterator_key i = (case itr_e i of [] \<Rightarrow> Inl Null_Deref | f # _ \<Rightarrow> Inr (ent_k f))"

definition hashtable_iterator_value :: "('k, 'v) hashtable_itr \<Rightarrow> tf_error + 'v" where
  "hashtable_iterator_value i = (case itr_e i of [] \<Rightarrow> Inl Null_Deref | f # _ \<Rightarrow> Inr (ent_v f))"

definition hashtable_iterator_advance ::
  "('k, 'v) hashtable \<Rightarrow> ('k, 'v) hashtable_itr \<Rightarrow> int \<times> ('k, 'v) hashtable_itr" where
  "hashtable_iterator_advance h itr =
     (case itr_e itr of
        [] \<Rightarrow> (0, itr)
      | f # next_e \<Rightarrow>
          if next_e \<noteq> [] then (-1, itr\<lparr>itr_parent := Some (ent_k f), itr_e := next_e\<rparr>)
          else
            let n = unat (tablelength h); j = Suc (itr_index itr);
                itr = itr\<lparr>itr_parent := None, itr_index := j\<rparr> in
            if n \<le> j then (0, itr\<lparr>itr_e := []\<rparr>)
            else
              let j = next_chain h j in
              if j \<ge> n then (0, itr\<lparr>itr_index := n, itr_e := []\<rparr>)
              else (-1, itr\<lparr>itr_index := j, itr_e := table h ! j\<rparr>))"

text \<open>The write \<open>parent->next = next\<close>, on the chain the parent is in.\<close>

fun link_after :: "'k \<Rightarrow> ('k, 'v) entry list \<Rightarrow> ('k, 'v) entry list \<Rightarrow> ('k, 'v) entry list" where
  "link_after p next_e [] = []"
| "link_after p next_e (f # fs) = (if ent_k f = p then f # next_e else f # link_after p next_e fs)"

text \<open>
  Removal reads \<open>next\<close> of the node it has taken out, which is the same as in the table before; so do
  the chains behind it, which \<open>hashtable_iterator_advance\<close> scans.
\<close>

definition hashtable_iterator_remove ::
  "('k, 'v) hashtable \<Rightarrow> ('k, 'v) hashtable_itr \<Rightarrow>
   tf_error + int \<times> ('k, 'v) hashtable_itr \<times> ('k, 'v) hashtable \<times> ('k, 'v) freed list" where
  "hashtable_iterator_remove h itr =
     (case itr_e itr of
        [] \<Rightarrow> Inl Null_Deref
      | f # next_e \<Rightarrow>
          let c = table h ! itr_index itr;
              c' = (case itr_parent itr of None \<Rightarrow> next_e | Some p \<Rightarrow> link_after p next_e c);
              g = h\<lparr>table := (table h)[itr_index itr := c'], entrycount := entrycount h - 1\<rparr>;
              (ret, itr') = hashtable_iterator_advance g itr
          in Inr (ret,
               if itr_parent itr' = Some (ent_k f) then itr'\<lparr>itr_parent := itr_parent itr\<rparr> else itr',
               g, [Free_Key (ent_k f), Free_Entry (ent_k f)]))"

fun locate ::
  "(('k, 'v) entry \<Rightarrow> bool) \<Rightarrow> 'k option \<Rightarrow> ('k, 'v) entry list \<Rightarrow> ('k option \<times> ('k, 'v) entry list) option" where
  "locate p parent [] = None"
| "locate p parent (f # fs) = (if p f then Some (parent, f # fs) else locate p (Some (ent_k f)) fs)"

definition hashtable_iterator_search ::
  "('k, 'v) hashtable \<Rightarrow> ('k, 'v) hashtable_itr \<Rightarrow> 'k \<Rightarrow> int \<times> ('k, 'v) hashtable_itr" where
  "hashtable_iterator_search h itr k =
     (case locate (entry_matches h (hash h k) k) None (table h ! key_index h k) of
        None \<Rightarrow> (0, itr)
      | Some (parent, es) \<Rightarrow> (-1, itr\<lparr>itr_index := key_index h k, itr_e := es, itr_parent := parent\<rparr>))"

section \<open>What is left to visit\<close>

definition itr_rest :: "('k, 'v) hashtable \<Rightarrow> ('k, 'v) hashtable_itr \<Rightarrow> ('k, 'v) entry list" where
  "itr_rest h i = itr_e i @ concat (drop (Suc (itr_index i)) (table h))"

definition last_key :: "('k, 'v) entry list \<Rightarrow> 'k option" where
  "last_key es = (if es = [] then None else Some (ent_k (last es)))"

definition itr_ok :: "('k, 'v) hashtable \<Rightarrow> ('k, 'v) hashtable_itr \<Rightarrow> bool" where
  "itr_ok h i \<longleftrightarrow>
     (if itr_e i = [] then itr_index i = length (table h) \<and> itr_parent i = None
      else itr_index i < length (table h) \<and>
        (\<exists>as. table h ! itr_index i = as @ itr_e i \<and> itr_parent i = last_key as))"

lemma first_index_concat:
  "concat (drop (first_index (\<lambda>c. c \<noteq> []) cs) cs) = concat cs"
  by (induction cs) auto

lemma next_chain_scan:
  assumes "placed h" and "j \<le> length (table h)"
  shows "next_chain h j \<le> length (table h)"
    and "concat (drop (next_chain h j) (table h)) = concat (drop j (table h))"
    and "next_chain h j < length (table h) \<Longrightarrow> table h ! next_chain h j \<noteq> []"
proof -
  have len: "unat (tablelength h) = length (table h)" using assms(1) by (simp add: placed_def)
  let ?i = "first_index (\<lambda>c. c \<noteq> []) (drop j (table h))"
  have n: "next_chain h j = j + ?i" by (simp add: next_chain_def len)
  have le: "?i \<le> length (table h) - j" using first_index_le [of _ "drop j (table h)"] by simp
  show "next_chain h j \<le> length (table h)" using le assms(2) by (simp add: n)
  show "concat (drop (next_chain h j) (table h)) = concat (drop j (table h))"
    using first_index_concat [of "drop j (table h)"] by (simp add: n add.commute)
  show "table h ! next_chain h j \<noteq> []" if "next_chain h j < length (table h)"
    using first_index_hit [of "\<lambda>c. c \<noteq> []" "drop j (table h)"] that assms(2) by (simp add: n)
qed

lemma itr_at_chain:
  assumes "placed h" and "j \<le> length (table h)" and "i = next_chain h j"
  shows "i < length (table h) \<Longrightarrow> itr_ok h \<lparr>itr_e = table h ! i, itr_parent = None, itr_index = i\<rparr> \<and>
      itr_rest h \<lparr>itr_e = table h ! i, itr_parent = None, itr_index = i\<rparr> = concat (drop j (table h))"
    and "\<not> i < length (table h) \<Longrightarrow> concat (drop j (table h)) = []"
proof -
  note s = next_chain_scan [OF assms(1,2), folded assms(3)]
  show "itr_ok h \<lparr>itr_e = table h ! i, itr_parent = None, itr_index = i\<rparr> \<and>
      itr_rest h \<lparr>itr_e = table h ! i, itr_parent = None, itr_index = i\<rparr> = concat (drop j (table h))"
    if "i < length (table h)"
    using s(3) [OF that] s(2) that by (auto simp: itr_ok_def itr_rest_def last_key_def Cons_nth_drop_Suc [symmetric])
  show "concat (drop j (table h)) = []" if "\<not> i < length (table h)"
    using s(2) that by (simp add: not_less)
qed

text \<open>A fresh iterator has everything before it.\<close>

lemma hashtable_iterator_spec:
  assumes inv: "ht_inv h" and it: "hashtable_iterator ok h = Some i"
  shows "itr_ok h i" and "itr_rest h i = all_entries h"
proof -
  have pl: "placed h" using inv by (simp add: ht_inv_def)
  have len: "unat (tablelength h) = length (table h)" using pl by (simp add: placed_def)
  have z: "all_entries h = []" if "entrycount h = 0" using inv that by (simp add: ht_inv_def)
  have c: "itr_ok h i \<and> itr_rest h i = all_entries h"
    using it itr_at_chain [OF pl _ refl, of 0] z
    by (auto simp: hashtable_iterator_def Let_def len itr_ok_def itr_rest_def all_entries_def split: if_splits)
  then show "itr_ok h i" "itr_rest h i = all_entries h" by simp_all
qed

text \<open>Advancing drops the entry it stands on and says whether something is left.\<close>

lemma hashtable_iterator_advance_spec:
  assumes pl: "placed h" and ok: "itr_ok h i" and adv: "hashtable_iterator_advance h i = (r, i')"
  shows "itr_ok h i'" and "itr_rest h i' = tl (itr_rest h i)" and "r = (if itr_rest h i' = [] then 0 else -1)"
proof -
  have len: "unat (tablelength h) = length (table h)" using pl by (simp add: placed_def)
  have "itr_ok h i' \<and> itr_rest h i' = tl (itr_rest h i) \<and> r = (if itr_rest h i' = [] then 0 else -1)"
  proof (cases "itr_e i")
    case Nil
    then show ?thesis using ok adv by (auto simp: hashtable_iterator_advance_def itr_ok_def itr_rest_def)
  next
    case (Cons f es)
    then obtain as where c: "table h ! itr_index i = as @ f # es" "itr_parent i = last_key as" "itr_index i < length (table h)"
      using ok by (auto simp: itr_ok_def)
    show ?thesis
    proof (cases "es = []")
      case False
      have "table h ! itr_index i = (as @ [f]) @ es" by (simp add: c(1))
      then have "\<exists>bs. table h ! itr_index i = bs @ es \<and> Some (ent_k f) = last_key bs"
        by (intro exI [of _ "as @ [f]"]) (simp add: last_key_def)
      with False Cons adv c(3) show ?thesis
        by (auto simp: hashtable_iterator_advance_def itr_ok_def itr_rest_def)
    next
      case True
      let ?j = "Suc (itr_index i)"
      have le: "?j \<le> length (table h)" using c(3) by simp
      note n = next_chain_scan(1) [OF pl le]
      show ?thesis
      proof (cases "next_chain h ?j < length (table h)")
        case True
        then have "?j < length (table h)" using le n by (auto simp: next_chain_def)
        with True \<open>es = []\<close> Cons adv itr_at_chain(1) [OF pl le refl True] next_chain_scan(3) [OF pl le True] show ?thesis
          by (auto simp: hashtable_iterator_advance_def Let_def len itr_rest_def itr_ok_def split: if_splits)
      next
        case False
        with \<open>es = []\<close> Cons adv itr_at_chain(2) [OF pl le refl False] n le show ?thesis
          by (auto simp: hashtable_iterator_advance_def Let_def len itr_rest_def itr_ok_def split: if_splits)
      qed
    qed
  qed
  then show "itr_ok h i'" "itr_rest h i' = tl (itr_rest h i)" "r = (if itr_rest h i' = [] then 0 else -1)" by simp_all
qed

section \<open>Removal\<close>

lemma chain_remove_at:
  "p f \<Longrightarrow> \<forall>x \<in> set as. \<not> p x \<Longrightarrow> chain_remove p (as @ f # es) = Some (ent_v f, as @ es)"
  by (induction as) auto

lemma link_after_last:
  "distinct (map ent_k (as @ f # es)) \<Longrightarrow> as \<noteq> [] \<Longrightarrow> link_after (ent_k (last as)) es (as @ f # es) = as @ es"
  by (induction as) auto

lemma advance_behind:
  assumes "g = h\<lparr>table := (table h)[itr_index i := c], entrycount := n\<rparr>" and "itr_e i \<noteq> []"
  shows "hashtable_iterator_advance g i = hashtable_iterator_advance h i"
proof -
  have d: "drop j (take m ((table h)[itr_index i := c])) = drop j (take m (table h))" if "itr_index i < j" for j m
    using that by (simp add: drop_take drop_update_cancel)
  then have "next_chain g (Suc (itr_index i)) = next_chain h (Suc (itr_index i))"
    using assms(1) by (simp add: next_chain_def)
  moreover have "Suc (itr_index i) \<le> next_chain h (Suc (itr_index i))" by (simp add: next_chain_def)
  ultimately show ?thesis using assms
    by (auto simp: hashtable_iterator_advance_def Let_def split: list.split)
qed

lemma chain_of_entry:
  assumes inv: "ht_inv h" and i: "n < length (table h)" and c: "table h ! n = as @ f # es"
  shows "key_index h (ent_k f) = n" and "entry_matches h (hash h (ent_k f)) (ent_k f) f"
    and "\<forall>x \<in> set as. \<not> entry_matches h (hash h (ent_k f)) (ent_k f) x" and "distinct (map ent_k (as @ f # es))"
proof -
  have pl: "placed h" and eq: "eqfn h = (\<lambda>a b. a = b)" and d: "distinct (map ent_k (all_entries h))"
    using inv by (simp_all add: ht_inv_def)
  have f: "f \<in> set (table h ! n)" by (simp add: c)
  then show k: "key_index h (ent_k f) = n" using pl i by (simp add: placed_def)
  show "entry_matches h (hash h (ent_k f)) (ent_k f) f"
    using matches_iff [OF pl eq, of f "ent_k f"] f k by simp
  have "table h = take n (table h) @ (table h ! n) # drop (Suc n) (table h)" using i by (rule id_take_nth_drop)
  then have "all_entries h = concat (take n (table h)) @ (as @ f # es) @ concat (drop (Suc n) (table h))"
    unfolding all_entries_def c by (metis concat.simps(2) concat_append)
  then show dd: "distinct (map ent_k (as @ f # es))" using d by (metis distinct_append map_append)
  show "\<forall>x \<in> set as. \<not> entry_matches h (hash h (ent_k f)) (ent_k f) x"
  proof
    fix x assume x: "x \<in> set as"
    then have "x \<in> set (table h ! key_index h (ent_k f))" by (simp add: c k)
    moreover have "ent_k x \<noteq> ent_k f" using dd x by (auto simp: image_iff)
    ultimately show "\<not> entry_matches h (hash h (ent_k f)) (ent_k f) x" by (simp add: matches_iff [OF pl eq])
  qed
qed

text \<open>
  Removing through the iterator leaves the table \<open>hashtable_remove\<close> leaves, and an iterator that has
  the rest before it.
\<close>

lemma hashtable_iterator_remove_spec:
  assumes inv: "ht_inv h" and ok: "itr_ok h i" and e: "itr_e i = f # es"
  shows "\<exists>r i'. hashtable_iterator_remove h i = Inr (r, i', snd (hashtable_remove h (ent_k f)), [Free_Key (ent_k f), Free_Entry (ent_k f)]) \<and>
    itr_ok (snd (hashtable_remove h (ent_k f))) i' \<and> itr_rest (snd (hashtable_remove h (ent_k f))) i' = tl (itr_rest h i) \<and>
    r = (if tl (itr_rest h i) = [] then 0 else -1)"
proof -
  have pl: "placed h" using inv by (simp add: ht_inv_def)
  from ok e obtain as where c: "table h ! itr_index i = as @ f # es" "itr_parent i = last_key as" "itr_index i < length (table h)"
    by (auto simp: itr_ok_def)
  note m = chain_of_entry [OF inv c(3,1)]
  let ?g = "h\<lparr>table := (table h)[itr_index i := as @ es], entrycount := entrycount h - 1\<rparr>"
  have g: "snd (hashtable_remove h (ent_k f)) = ?g"
    using chain_remove_at [of "entry_matches h (hash h (ent_k f)) (ent_k f)" f as es, OF m(2,3)]
    by (simp add: hashtable_remove_def m(1) c(1))
  have c': "(case itr_parent i of None \<Rightarrow> es | Some p \<Rightarrow> link_after p es (table h ! itr_index i)) = as @ es"
    using link_after_last [OF m(4)] by (auto simp: c(1,2) last_key_def)
  obtain r j where a: "hashtable_iterator_advance h i = (r, j)" by (cases "hashtable_iterator_advance h i")
  then have a': "hashtable_iterator_advance ?g i = (r, j)" using advance_behind [where g = ?g and h = h and i = i and c = "as @ es" and n = "entrycount h - 1"] e by simp
  note sp = hashtable_iterator_advance_spec [OF pl ok a]
  let ?i = "if itr_parent j = Some (ent_k f) then j\<lparr>itr_parent := itr_parent i\<rparr> else j"
  have run: "hashtable_iterator_remove h i = Inr (r, ?i, ?g, [Free_Key (ent_k f), Free_Entry (ent_k f)])"
    by (simp add: hashtable_iterator_remove_def e Let_def c' a')
  have "itr_ok ?g ?i \<and> itr_rest ?g ?i = tl (itr_rest h i)"
  proof (cases "es = []")
    case False
    then have j: "j = i\<lparr>itr_parent := Some (ent_k f), itr_e := es\<rparr>" using a e by (simp add: hashtable_iterator_advance_def)
    then show ?thesis using False c e sp(2) by (auto simp: itr_ok_def itr_rest_def drop_update_cancel)
  next
    case True
    have j: "itr_parent j = None" "itr_index i < itr_index j"
      using a e True c(3) pl by (auto simp: hashtable_iterator_advance_def Let_def next_chain_def placed_def split: if_splits)
    then have "drop (Suc (itr_index j)) (table ?g) = drop (Suc (itr_index j)) (table h)" by (simp add: drop_update_cancel)
    moreover have "table ?g ! itr_index j = table h ! itr_index j" using j(2) by simp
    ultimately show ?thesis using sp(1,2) j(1) by (auto simp: itr_ok_def itr_rest_def)
  qed
  with run sp(2,3) show ?thesis unfolding g by (intro exI [of _ r] exI [of _ ?i]) simp
qed

lemma hashtable_iterator_remove_end: "itr_e i = [] \<Longrightarrow> hashtable_iterator_remove h i = Inl Null_Deref"
  by (simp add: hashtable_iterator_remove_def)

section \<open>Search\<close>

lemma locate_Some:
  "locate p (last_key xs) cs = Some (q, es) \<Longrightarrow> \<exists>as f fs. cs = as @ es \<and> q = last_key (xs @ as) \<and> es = f # fs \<and> p f"
proof (induction cs arbitrary: xs)
  case Nil
  then show ?case by simp
next
  case (Cons c cs)
  show ?case
  proof (cases "p c")
    case True
    with Cons.prems show ?thesis by (intro exI [of _ "[]"]) auto
  next
    case False
    have "last_key (xs @ [c]) = Some (ent_k c)" by (simp add: last_key_def)
    with False Cons.prems Cons.IH [of "xs @ [c]"] obtain as f fs
      where "cs = as @ es" "q = last_key ((xs @ [c]) @ as)" "es = f # fs" "p f" by auto
    then show ?thesis by (intro exI [of _ "c # as"]) auto
  qed
qed

lemma locate_None: "locate p q cs = None \<longleftrightarrow> (\<forall>f \<in> set cs. \<not> p f)"
  by (induction cs arbitrary: q) auto

lemma hashtable_iterator_search_spec:
  assumes inv: "ht_inv h"
  shows "case ht_map h k of
      None \<Rightarrow> hashtable_iterator_search h i k = (0, i)
    | Some v \<Rightarrow> \<exists>i'. hashtable_iterator_search h i k = (-1, i') \<and> itr_ok h i' \<and>
        hashtable_iterator_key i' = Inr k \<and> hashtable_iterator_value i' = Inr v"
proof -
  have pl: "placed h" and eq: "eqfn h = (\<lambda>a b. a = b)" and d: "distinct (map ent_k (all_entries h))"
    using inv by (simp_all add: ht_inv_def)
  let ?p = "entry_matches h (hash h k) k" and ?c = "table h ! key_index h k"
  show ?thesis
  proof (cases "locate ?p None ?c")
    case None
    then have "hashtable_search h k = None" by (simp add: locate_None hashtable_search_def chain_search_None)
    then have "ht_map h k = None" by (simp add: hashtable_search_eq [OF pl eq d])
    with None show ?thesis by (simp add: hashtable_iterator_search_def)
  next
    case (Some r)
    then obtain q es where r: "locate ?p None ?c = Some (q, es)" by (cases r) auto
    then obtain as f fs where l: "?c = as @ es" "q = last_key as" "es = f # fs" "?p f"
      using locate_Some [of ?p "[]" ?c q es] by (auto simp: last_key_def)
    have f: "f \<in> set ?c" by (simp add: l)
    then have k: "ent_k f = k" using l(4) by (simp add: matches_iff [OF pl eq])
    have "f \<in> set (all_entries h)" by (rule placed_chain_subset [OF pl f])
    then have "ht_map h k = Some (ent_v f)" using k by (auto simp: ht_map_Some_iff [OF d])
    moreover have "itr_ok h (i\<lparr>itr_index := key_index h k, itr_e := es, itr_parent := q\<rparr>)"
      using l key_index_less [OF pl] by (auto simp: itr_ok_def)
    ultimately show ?thesis using k l(3)
      by (auto simp: hashtable_iterator_search_def r hashtable_iterator_key_def hashtable_iterator_value_def)
  qed
qed

section \<open>Loops over the table\<close>

text \<open>
  \<open>do { visit } while (hashtable_iterator_advance (itr))\<close> and the loop that removes what it visits; \<open>n\<close>
  bounds the passes.
\<close>

fun visit_all :: "nat \<Rightarrow> ('k, 'v) hashtable \<Rightarrow> ('k, 'v) hashtable_itr \<Rightarrow> (tf_error + ('k \<times> 'v) list) option" where
  "visit_all 0 h i = None"
| "visit_all (Suc n) h i =
     (case (hashtable_iterator_key i, hashtable_iterator_value i) of
        (Inr k, Inr v) \<Rightarrow>
          (case hashtable_iterator_advance h i of (r, i') \<Rightarrow>
             if r = 0 then Some (Inr [(k, v)])
             else map_option (map_sum id ((#) (k, v))) (visit_all n h i'))
      | (Inl e, _) \<Rightarrow> Some (Inl e)
      | (_, Inl e) \<Rightarrow> Some (Inl e))"

fun drain :: "nat \<Rightarrow> ('k, 'v) hashtable \<Rightarrow> ('k, 'v) hashtable_itr \<Rightarrow> (tf_error + ('k, 'v) freed list \<times> ('k, 'v) hashtable) option" where
  "drain 0 h i = None"
| "drain (Suc n) h i =
     (case hashtable_iterator_remove h i of
        Inl e \<Rightarrow> Some (Inl e)
      | Inr (r, i', h', fr) \<Rightarrow>
          if r = 0 then Some (Inr (fr, h'))
          else map_option (map_sum id (map_prod ((@) fr) id)) (drain n h' i'))"

lemma itr_rest_head: "itr_rest h i = f # fs \<Longrightarrow> itr_ok h i \<Longrightarrow> \<exists>es. itr_e i = f # es"
  by (cases "itr_e i") (auto simp: itr_rest_def itr_ok_def)

lemma visit_all_spec:
  assumes pl: "placed h"
  shows "itr_ok h i \<Longrightarrow> itr_rest h i \<noteq> [] \<Longrightarrow> length (itr_rest h i) \<le> n \<Longrightarrow>
    visit_all n h i = Some (Inr (map (\<lambda>e. (ent_k e, ent_v e)) (itr_rest h i)))"
proof (induction n arbitrary: i)
  case 0
  then show ?case by simp
next
  case (Suc n)
  then obtain f fs where r: "itr_rest h i = f # fs" by (cases "itr_rest h i") auto
  from itr_rest_head [OF this Suc.prems(1)] obtain es where e: "itr_e i = f # es" by blast
  obtain q j where a: "hashtable_iterator_advance h i = (q, j)" by (cases "hashtable_iterator_advance h i")
  note sp = hashtable_iterator_advance_spec [OF pl Suc.prems(1) a]
  show ?case using Suc.IH [OF sp(1)] Suc.prems(3) sp(2,3)
    by (auto simp: r e a hashtable_iterator_key_def hashtable_iterator_value_def)
qed

lemma drain_spec:
  "ht_inv h \<Longrightarrow> itr_ok h i \<Longrightarrow> itr_rest h i \<noteq> [] \<Longrightarrow> length (itr_rest h i) \<le> n \<Longrightarrow>
   \<exists>g. drain n h i = Some (Inr (concat (map (\<lambda>e. [Free_Key (ent_k e), Free_Entry (ent_k e)]) (itr_rest h i)), g)) \<and>
     ht_inv g \<and> ht_map g = ht_map h |` (- ent_k ` set (itr_rest h i))"
proof (induction n arbitrary: h i)
  case 0
  then show ?case by simp
next
  case (Suc n)
  then obtain f fs where r: "itr_rest h i = f # fs" by (cases "itr_rest h i") auto
  from itr_rest_head [OF this Suc.prems(2)] obtain es where e: "itr_e i = f # es" by blast
  let ?g = "snd (hashtable_remove h (ent_k f))"
  from hashtable_iterator_remove_spec [OF Suc.prems(1,2) e] obtain q j
    where rm: "hashtable_iterator_remove h i = Inr (q, j, ?g, [Free_Key (ent_k f), Free_Entry (ent_k f)])"
      "itr_ok ?g j" "itr_rest ?g j = fs" "q = (if fs = [] then 0 else -1)" by (auto simp: r)
  note g = hashtable_remove_spec [OF Suc.prems(1), of "ent_k f"]
  show ?case
  proof (cases "fs = []")
    case True
    then show ?thesis using rm g by (auto simp: r restrict_map_def fun_eq_iff)
  next
    case False
    from Suc.IH [OF g(2) rm(2)] rm(3) False Suc.prems(4) r obtain t
      where t: "drain n ?g j = Some (Inr (concat (map (\<lambda>e. [Free_Key (ent_k e), Free_Entry (ent_k e)]) fs), t))"
        "ht_inv t" "ht_map t = ht_map ?g |` (- ent_k ` set fs)" by auto
    moreover have "ht_map ?g |` (- ent_k ` set fs) = ht_map h |` (- ent_k ` set (f # fs))"
      by (auto simp: g(3) restrict_map_def fun_eq_iff)
    ultimately show ?thesis using rm False by (simp add: r)
  qed
qed

end
