(* ===== verification/Iterator_Properties.thy ===== *)
theory Iterator_Properties
  imports Hash_Iterator
begin

text \<open>Properties of the iterator of the hash table: what it visits, and where it may stand.\<close>

section \<open>Loops over the table\<close>

lemma itr_rest_keys:
  assumes "ht_inv h"
  shows "map_of (map (\<lambda>e. (ent_k e, ent_v e)) (all_entries h)) = ht_map h"
    and "length (all_entries h) = unat (hashtable_count h)" and "distinct (map ent_k (all_entries h))"
    and "ent_k ` set (all_entries h) = dom (ht_map h)"
  using assms by (simp_all add: ht_inv_def hashtable_count_def dom_ht_map) (simp add: ht_map_def)

text \<open>C20. A loop over an iterator fresh from \<open>hashtable_iterator\<close> visits every entry of the table exactly
  once and ends after as many passes as the table has entries. A loop that removes what it visits frees each
  key and each entry once, in the same order, and leaves an empty, well-formed table.\<close>

theorem iterator_visits_every_entry_once:
  assumes inv: "ht_inv h" and it: "hashtable_iterator True h = Some i" and some: "hashtable_count h \<noteq> 0"
  shows "\<exists>kvs g. visit_all (unat (hashtable_count h)) h i = Some (Inr kvs) \<and>
    length kvs = unat (hashtable_count h) \<and> distinct (map fst kvs) \<and> map_of kvs = ht_map h \<and>
    drain (unat (hashtable_count h)) h i =
      Some (Inr (concat (map (\<lambda>(k, v). [Free_Key k, Free_Entry k]) kvs), g)) \<and>
    ht_inv g \<and> ht_map g = Map.empty"
proof -
  note ok = hashtable_iterator_spec [OF inv it]
  note all = itr_rest_keys [OF inv]
  have pl: "placed h" using inv by (simp add: ht_inv_def)
  have ne: "itr_rest h i \<noteq> []" and le: "length (itr_rest h i) \<le> unat (hashtable_count h)"
    using some all(2) by (auto simp: ok(2) unat_eq_0)
  let ?kvs = "map (\<lambda>e. (ent_k e, ent_v e)) (all_entries h)"
  have "visit_all (unat (hashtable_count h)) h i = Some (Inr ?kvs)"
    using visit_all_spec [OF pl ok(1) ne le] by (simp add: ok(2))
  moreover from drain_spec [OF inv ok(1) ne le] obtain g
    where "drain (unat (hashtable_count h)) h i =
        Some (Inr (concat (map (\<lambda>e. [Free_Key (ent_k e), Free_Entry (ent_k e)]) (all_entries h)), g))"
      "ht_inv g" "ht_map g = Map.empty"
    by (auto simp: ok(2) all(4) restrict_map_def fun_eq_iff domIff)
  ultimately show ?thesis using all
    by (intro exI [of _ ?kvs] exI [of _ g]) (simp add: comp_def)
qed

theorem iterator_visits_every_entry_once_witness:
  "\<exists>(h :: (u32, string) hashtable) i kvs. create_hashtable True True 16 id (=) = Some h \<and>
     hashtable_iterator True (snd (hashtable_insert True True h 1 ''a'')) = Some i \<and>
     visit_all 1 (snd (hashtable_insert True True h 1 ''a'')) i = Some (Inr [(1, ''a'')])"
proof -
  have "create_hashtable True True 16 (id :: u32 \<Rightarrow> u32) (=) \<noteq> (None :: (u32, string) hashtable option)"
    by (simp add: create_hashtable_def primes_def prime_table_length_def)
  then obtain h :: "(u32, string) hashtable" where h: "create_hashtable True True 16 id (=) = Some h" by blast
  note hs = create_hashtable_spec [OF h]
  let ?g = "snd (hashtable_insert True True h 1 ''a'')"
  have r: "unat (hashtable_count h) + 1 < 2 ^ 32" using hs(3) by (simp add: hashtable_count_def)
  have n: "ht_map h 1 = None" by (simp add: hs(2))
  note p = ht.put_ok [OF hs(1) n r, of True "''a''"]
  have g: "ht_inv ?g" "ht_map ?g = [1 \<mapsto> ''a'']" using p by (auto simp: hs(2))
  have c: "unat (hashtable_count ?g) = 1" using ht_inv_count [OF g(1)] by (simp add: g(2))
  then have nz: "hashtable_count ?g \<noteq> 0" by auto
  obtain i where i: "hashtable_iterator True ?g = Some i" by (simp add: hashtable_iterator_def Let_def)
  from iterator_visits_every_entry_once [OF g(1) i nz] obtain kvs
    where k: "visit_all 1 ?g i = Some (Inr kvs)" "length kvs = 1" "map_of kvs = [1 \<mapsto> ''a'']"
    by (auto simp: c g(2))
  from k(2) obtain x where "kvs = [x]" by (cases kvs) auto
  moreover then have "x = (1, ''a'')" using k(3) by (cases x) (auto simp: fun_eq_iff split: if_splits)
  ultimately show ?thesis using h i k(1) by blast
qed

section \<open>Where an iterator stands\<close>

text \<open>C21. An iterator that points into its table keeps doing so: advancing, removing and searching leave it
  at an entry of the table, or at the end when they return zero; reading the key at the end dereferences a
  null pointer. Removing through it has the effect of removing its key, and the table stays well formed.\<close>

theorem iterator_stays_in_table:
  assumes inv: "ht_inv h" and ok: "itr_ok h i"
  shows "(case hashtable_iterator_advance h i of (r, i') \<Rightarrow>
      itr_ok h i' \<and> (r = 0 \<longleftrightarrow> hashtable_iterator_key i' = Inl Null_Deref)) \<and>
    (case hashtable_iterator_remove h i of
       Inl e \<Rightarrow> e = Null_Deref \<and> hashtable_iterator_key i = Inl Null_Deref
     | Inr (r, i', g, fr) \<Rightarrow> \<exists>k. hashtable_iterator_key i = Inr k \<and> g = snd (hashtable_remove h k) \<and> ht_inv g \<and>
         ht_map g = (ht_map h)(k := None) \<and> itr_ok g i' \<and> (r = 0 \<longleftrightarrow> hashtable_iterator_key i' = Inl Null_Deref)) \<and>
    (\<forall>k. case hashtable_iterator_search h i k of (r, i') \<Rightarrow>
       itr_ok h i' \<and> (if ht_map h k = None then r = 0 \<and> i' = i else r = -1 \<and> hashtable_iterator_key i' = Inr k))"
proof (intro conjI allI)
  have pl: "placed h" using inv by (simp add: ht_inv_def)
  have e: "hashtable_iterator_key j = Inl Null_Deref \<longleftrightarrow> itr_rest g j = []" if "itr_ok g j" for g :: "('a, 'b) hashtable" and j
    using that by (auto simp: hashtable_iterator_key_def itr_rest_def itr_ok_def split: list.split)
  obtain r j where a: "hashtable_iterator_advance h i = (r, j)" by (cases "hashtable_iterator_advance h i")
  from hashtable_iterator_advance_spec [OF pl ok a] show "case hashtable_iterator_advance h i of (r, i') \<Rightarrow>
      itr_ok h i' \<and> (r = 0 \<longleftrightarrow> hashtable_iterator_key i' = Inl Null_Deref)"
    by (simp add: a e)
  show "case hashtable_iterator_remove h i of
       Inl e \<Rightarrow> e = Null_Deref \<and> hashtable_iterator_key i = Inl Null_Deref
     | Inr (r, i', g, fr) \<Rightarrow> \<exists>k. hashtable_iterator_key i = Inr k \<and> g = snd (hashtable_remove h k) \<and> ht_inv g \<and>
         ht_map g = (ht_map h)(k := None) \<and> itr_ok g i' \<and> (r = 0 \<longleftrightarrow> hashtable_iterator_key i' = Inl Null_Deref)"
  proof (cases "itr_e i")
    case Nil
    then show ?thesis by (simp add: hashtable_iterator_remove_end hashtable_iterator_key_def)
  next
    case (Cons f es)
    from hashtable_iterator_remove_spec [OF inv ok this] hashtable_remove_spec [OF inv, of "ent_k f"] show ?thesis
      by (auto simp: hashtable_iterator_key_def [of i] Cons e)
  qed
  fix k
  show "case hashtable_iterator_search h i k of (r, i') \<Rightarrow>
       itr_ok h i' \<and> (if ht_map h k = None then r = 0 \<and> i' = i else r = -1 \<and> hashtable_iterator_key i' = Inr k)"
    using hashtable_iterator_search_spec [OF inv, where k = k and i = i] ok by (auto split: option.splits)
qed

theorem iterator_stays_in_table_witness:
  "\<exists>(h :: (u32, string) hashtable) i. create_hashtable True True 16 id (=) = Some h \<and> hashtable_iterator True h = Some i \<and>
     itr_ok h i \<and> fst (hashtable_iterator_search h i 7) = 0"
proof -
  have "create_hashtable True True 16 (id :: u32 \<Rightarrow> u32) (=) \<noteq> (None :: (u32, string) hashtable option)"
    by (simp add: create_hashtable_def primes_def prime_table_length_def)
  then obtain h :: "(u32, string) hashtable" where h: "create_hashtable True True 16 id (=) = Some h" by blast
  note hs = create_hashtable_spec [OF h]
  obtain i where i: "hashtable_iterator True h = Some i" by (simp add: hashtable_iterator_def Let_def)
  note ok = hashtable_iterator_spec(1) [OF hs(1) i]
  have "case hashtable_iterator_search h i 7 of (r, i') \<Rightarrow> itr_ok h i' \<and>
      (if ht_map h 7 = None then r = 0 \<and> i' = i else r = -1 \<and> hashtable_iterator_key i' = Inr 7)"
    by (rule iterator_stays_in_table [OF hs(1) ok, THEN conjunct2, THEN conjunct2, THEN spec])
  then have "fst (hashtable_iterator_search h i 7) = 0" by (simp add: hs(2) split: prod.splits)
  with h i ok show ?thesis by blast
qed

end
