(* ===== verification/Hypervisor.thy ===== *)
theory Hypervisor
  imports Framework_State
begin

text \<open>
  \<open>s2e.h\<close> and \<open>s2e_wrappers.c\<close>: the instructions by which the guest talks to the S2E hypervisor. Each is
  an opcode the processor does not have, ten bytes long, with its arguments in registers; strings and
  buffers are passed by address. The machine is the memory of the guest, the addresses it has read in order
  to have them paged in, and the instructions it has executed. What the hypervisor does at an instruction,
  the value it leaves in \<open>eax\<close> and the memory it changes, or that it ends the path, is a parameter.
\<close>

section \<open>The machine\<close>

datatype reg = EAX | EBX | ECX | EDX | ESI

record hypercall =
  code :: "u8 list"
  regs :: "reg \<Rightarrow> ulong option"

type_synonym memory = "ulong \<Rightarrow> u8"

record machine =
  memory :: memory
  paged :: "ulong list"
  issued :: "hypercall list"

datatype hv_end = Path_Ended machine | Runs_Forever

type_synonym 'a hv_prog = "machine \<Rightarrow> hv_end + ('a \<times> machine)"
type_synonym hypervisor = "hypercall \<Rightarrow> memory \<Rightarrow> (ulong \<times> memory) option"

fun after :: "unit hv_prog list \<Rightarrow> 'a hv_prog \<Rightarrow> 'a hv_prog" where
  "after [] k m = k m"
| "after (p # ps) k m = (case p m of Inl e \<Rightarrow> Inl e | Inr (u, m') \<Rightarrow> after ps k m')"

definition opcode :: "u8 \<Rightarrow> u8 \<Rightarrow> u8 list" where
  "opcode a b = [0x0F, 0x3F, 0x00, a, b, 0x00, 0x00, 0x00, 0x00, 0x00]"

definition asm :: "hypervisor \<Rightarrow> u8 list \<Rightarrow> (reg \<Rightarrow> ulong option) \<Rightarrow> ulong hv_prog" where
  "asm hv c r = (\<lambda>m.
     let m' = m\<lparr>issued := issued m @ [\<lparr>code = c, regs = r\<rparr>]\<rparr> in
     case hv \<lparr>code = c, regs = r\<rparr> (memory m) of
       None \<Rightarrow> Inl (Path_Ended m')
     | Some (eax, mem) \<Rightarrow> Inr (eax, m'\<lparr>memory := mem\<rparr>))"

definition void_asm :: "hypervisor \<Rightarrow> u8 list \<Rightarrow> (reg \<Rightarrow> ulong option) \<Rightarrow> unit hv_prog" where
  "void_asm hv c r = (\<lambda>m. map_sum id (\<lambda>(eax, m'). ((), m')) (asm hv c r m))"

text \<open>\<open>pushl ebx; movl r, ebx\<close> before the instruction, \<open>popl ebx\<close> after it.\<close>

definition ebx_from :: "reg \<Rightarrow> (reg \<Rightarrow> ulong option) \<Rightarrow> reg \<Rightarrow> ulong option" where
  "ebx_from r f = f(EBX := f r)"

section \<open>Paging in\<close>

text \<open>The addresses a loop over a string reads; it runs on until there is a zero byte.\<close>

partial_function (option) scan :: "memory \<Rightarrow> ulong \<Rightarrow> ulong list option" where
  "scan mem p = (if mem p = 0 then Some [p] else Option.bind (scan mem (p + 1)) (\<lambda>ps. Some (p # ps)))"

definition u2_s2e_touch_string :: "ulong \<Rightarrow> unit hv_prog" where
  "u2_s2e_touch_string s = (\<lambda>m.
     case scan (memory m) s of
       None \<Rightarrow> Inl Runs_Forever
     | Some ps \<Rightarrow> Inr ((), m\<lparr>paged := paged m @ ps\<rparr>))"

text \<open>The loop reads \<open>*b\<close> as often as the buffer has bytes, and never advances \<open>b\<close>.\<close>

definition u2_s2e_touch_buffer :: "ulong \<Rightarrow> ulong \<Rightarrow> unit hv_prog" where
  "u2_s2e_touch_buffer buffer sz = (\<lambda>m. Inr ((), m\<lparr>paged := paged m @ replicate (unat sz) buffer\<rparr>))"

section \<open>The instructions\<close>

definition s2e_version :: "hypervisor \<Rightarrow> ulong hv_prog" where
  "s2e_version hv =
     asm hv (opcode 0x00 0x00) [EAX \<mapsto> 0]"

definition s2e_message :: "hypervisor \<Rightarrow> ulong \<Rightarrow> unit hv_prog" where
  "s2e_message hv message =
     after [u2_s2e_touch_string message]
       (void_asm hv (opcode 0x10 0x00) [EAX \<mapsto> message])"

definition s2e_warning :: "hypervisor \<Rightarrow> ulong \<Rightarrow> unit hv_prog" where
  "s2e_warning hv message =
     after [u2_s2e_touch_string message]
       (void_asm hv (opcode 0x10 0x01) [EAX \<mapsto> message])"

definition s2e_print_expression :: "hypervisor \<Rightarrow> ulong \<Rightarrow> ulong \<Rightarrow> unit hv_prog" where
  "s2e_print_expression hv name expression =
     after [u2_s2e_touch_string name]
       (void_asm hv (opcode 0x07 0x01) [EAX \<mapsto> expression, ECX \<mapsto> name])"

definition s2e_enable_forking :: "hypervisor \<Rightarrow> unit hv_prog" where
  "s2e_enable_forking hv =
     void_asm hv (opcode 0x09 0x00) Map.empty"

definition s2e_disable_forking :: "hypervisor \<Rightarrow> unit hv_prog" where
  "s2e_disable_forking hv =
     void_asm hv (opcode 0x0A 0x00) Map.empty"

definition s2e_yield :: "hypervisor \<Rightarrow> unit hv_prog" where
  "s2e_yield hv =
     void_asm hv (opcode 0x0F 0x00) Map.empty"

definition s2e_get_path_id :: "hypervisor \<Rightarrow> ulong hv_prog" where
  "s2e_get_path_id hv =
     asm hv (opcode 0x05 0x00) Map.empty"

definition s2e_make_symbolic :: "hypervisor \<Rightarrow> ulong \<Rightarrow> ulong \<Rightarrow> ulong \<Rightarrow> unit hv_prog" where
  "s2e_make_symbolic hv buf sz name =
     after [u2_s2e_touch_string name, u2_s2e_touch_buffer buf sz]
       (void_asm hv (opcode 0x03 0x00) (ebx_from EDX [EAX \<mapsto> buf, EDX \<mapsto> sz, ECX \<mapsto> name]))"

definition s2e_make_dma_symbolic :: "hypervisor \<Rightarrow> ulong \<Rightarrow> ulong \<Rightarrow> ulong \<Rightarrow> unit hv_prog" where
  "s2e_make_dma_symbolic hv buf sz name =
     void_asm hv (opcode 0xB1 0x00) [EAX \<mapsto> buf, EBX \<mapsto> sz, ECX \<mapsto> name]"

definition s2e_free_dma_symbolic :: "hypervisor \<Rightarrow> ulong \<Rightarrow> ulong \<Rightarrow> ulong \<Rightarrow> unit hv_prog" where
  "s2e_free_dma_symbolic hv buf sz name =
     void_asm hv (opcode 0xB2 0x00) [EAX \<mapsto> buf, EBX \<mapsto> sz, ECX \<mapsto> name]"

definition s2e_prioritize :: "hypervisor \<Rightarrow> ulong \<Rightarrow> unit hv_prog" where
  "s2e_prioritize hv line =
     void_asm hv (opcode 0xB3 0x00) [EAX \<mapsto> line]"

definition s2e_deprioritize :: "hypervisor \<Rightarrow> ulong \<Rightarrow> unit hv_prog" where
  "s2e_deprioritize hv line =
     void_asm hv (opcode 0xB4 0x00) [EAX \<mapsto> line]"

definition s2e_loop_before :: "hypervisor \<Rightarrow> ulong \<Rightarrow> ulong \<Rightarrow> unit hv_prog" where
  "s2e_loop_before hv line call_id =
     void_asm hv (opcode 0xB5 0x00) [EAX \<mapsto> line, EBX \<mapsto> call_id]"

definition s2e_loop_body :: "hypervisor \<Rightarrow> ulong \<Rightarrow> ulong \<Rightarrow> unit hv_prog" where
  "s2e_loop_body hv line call_id =
     void_asm hv (opcode 0xB6 0x00) [EAX \<mapsto> line, EBX \<mapsto> call_id]"

definition s2e_loop_after :: "hypervisor \<Rightarrow> ulong \<Rightarrow> ulong \<Rightarrow> unit hv_prog" where
  "s2e_loop_after hv line call_id =
     void_asm hv (opcode 0xB7 0x00) [EAX \<mapsto> line, EBX \<mapsto> call_id]"

definition s2e_concretize_kill :: "hypervisor \<Rightarrow> ulong \<Rightarrow> unit hv_prog" where
  "s2e_concretize_kill hv line =
     void_asm hv (opcode 0xB8 0x00) [EAX \<mapsto> line]"

definition s2e_concretize_all :: "hypervisor \<Rightarrow> ulong \<Rightarrow> unit hv_prog" where
  "s2e_concretize_all hv line =
     void_asm hv (opcode 0xB9 0x00) [EAX \<mapsto> line]"

definition s2e_kill_all_others :: "hypervisor \<Rightarrow> ulong \<Rightarrow> unit hv_prog" where
  "s2e_kill_all_others hv line =
     void_asm hv (opcode 0xBA 0x00) [EAX \<mapsto> line]"

definition s2e_driver_call_stack :: "hypervisor \<Rightarrow> ulong \<Rightarrow> ulong \<Rightarrow> unit hv_prog" where
  "s2e_driver_call_stack hv line depth =
     void_asm hv (opcode 0xBB 0x00) [EAX \<mapsto> line, EBX \<mapsto> depth]"

definition s2e_favor_successful :: "hypervisor \<Rightarrow> ulong \<Rightarrow> ulong \<Rightarrow> unit hv_prog" where
  "s2e_favor_successful hv line successful =
     void_asm hv (opcode 0xBC 0x00) [EAX \<mapsto> line, EBX \<mapsto> successful]"

definition s2e_reset_priorities :: "hypervisor \<Rightarrow> ulong \<Rightarrow> unit hv_prog" where
  "s2e_reset_priorities hv line =
     void_asm hv (opcode 0xBE 0x00) [EAX \<mapsto> line]"

definition s2e_enable_tracing :: "hypervisor \<Rightarrow> ulong \<Rightarrow> unit hv_prog" where
  "s2e_enable_tracing hv line =
     void_asm hv (opcode 0xC0 0x00) [EAX \<mapsto> line]"

definition s2e_disable_tracing :: "hypervisor \<Rightarrow> ulong \<Rightarrow> unit hv_prog" where
  "s2e_disable_tracing hv line =
     void_asm hv (opcode 0xC1 0x00) [EAX \<mapsto> line]"

definition s2e_enter_function :: "hypervisor \<Rightarrow> ulong \<Rightarrow> ulong \<Rightarrow> ulong \<Rightarrow> unit hv_prog" where
  "s2e_enter_function hv line message wrapper_type =
     void_asm hv (opcode 0xC2 0x00) [EAX \<mapsto> line, EBX \<mapsto> message, ECX \<mapsto> wrapper_type]"

definition s2e_exit_function :: "hypervisor \<Rightarrow> ulong \<Rightarrow> ulong \<Rightarrow> ulong \<Rightarrow> unit hv_prog" where
  "s2e_exit_function hv line message wrapper_type =
     void_asm hv (opcode 0xC3 0x00) [EAX \<mapsto> line, EBX \<mapsto> message, ECX \<mapsto> wrapper_type]"

definition s2e_is_symbolic_symdrive :: "hypervisor \<Rightarrow> ulong \<Rightarrow> ulong \<Rightarrow> ulong hv_prog" where
  "s2e_is_symbolic_symdrive hv line expr =
     asm hv (opcode 0xC4 0x00) [EAX \<mapsto> line, EBX \<mapsto> expr]"

definition s2e_success_path :: "hypervisor \<Rightarrow> ulong \<Rightarrow> ulong \<Rightarrow> ulong \<Rightarrow> unit hv_prog" where
  "s2e_success_path hv line fn success =
     void_asm hv (opcode 0xC5 0x00) [EAX \<mapsto> line, EBX \<mapsto> fn, ECX \<mapsto> success]"

definition s2e_enter_block :: "hypervisor \<Rightarrow> ulong \<Rightarrow> ulong \<Rightarrow> ulong \<Rightarrow> ulong \<Rightarrow> unit hv_prog" where
  "s2e_enter_block hv line fn total_blocks cur_block =
     void_asm hv (opcode 0xC6 0x00) [EAX \<mapsto> line, EBX \<mapsto> fn, ECX \<mapsto> total_blocks, EDX \<mapsto> cur_block]"

definition s2e_primary_fn :: "hypervisor \<Rightarrow> ulong \<Rightarrow> ulong \<Rightarrow> unit hv_prog" where
  "s2e_primary_fn hv line fn =
     void_asm hv (opcode 0xC7 0x00) [EAX \<mapsto> line, EBX \<mapsto> fn]"

definition s2e_enable_trackperf :: "hypervisor \<Rightarrow> ulong \<Rightarrow> ulong \<Rightarrow> unit hv_prog" where
  "s2e_enable_trackperf hv line flags =
     void_asm hv (opcode 0xC8 0x00) [EAX \<mapsto> line, EBX \<mapsto> flags]"

definition s2e_disable_trackperf :: "hypervisor \<Rightarrow> ulong \<Rightarrow> ulong \<Rightarrow> unit hv_prog" where
  "s2e_disable_trackperf hv line flags =
     void_asm hv (opcode 0xC9 0x00) [EAX \<mapsto> line, EBX \<mapsto> flags]"

definition s2e_trackperf_fn :: "hypervisor \<Rightarrow> ulong \<Rightarrow> ulong \<Rightarrow> ulong \<Rightarrow> unit hv_prog" where
  "s2e_trackperf_fn hv line fn flags =
     void_asm hv (opcode 0xCA 0x00) [EAX \<mapsto> line, EBX \<mapsto> fn, ECX \<mapsto> flags]"

definition s2e_io_region :: "hypervisor \<Rightarrow> ulong \<Rightarrow> ulong \<Rightarrow> ulong \<Rightarrow> ulong \<Rightarrow> unit hv_prog" where
  "s2e_io_region hv line flags address sz =
     void_asm hv (opcode 0xCB 0x00) [EAX \<mapsto> line, EBX \<mapsto> flags, ECX \<mapsto> address, EDX \<mapsto> sz]"

definition s2e_make_concolic :: "hypervisor \<Rightarrow> ulong \<Rightarrow> ulong \<Rightarrow> ulong \<Rightarrow> unit hv_prog" where
  "s2e_make_concolic hv buf sz name =
     after [u2_s2e_touch_string name, u2_s2e_touch_buffer buf sz]
       (void_asm hv (opcode 0x11 0x00) (ebx_from EDX [EAX \<mapsto> buf, EDX \<mapsto> sz, ECX \<mapsto> name]))"

definition s2e_is_symbolic :: "hypervisor \<Rightarrow> ulong \<Rightarrow> ulong hv_prog" where
  "s2e_is_symbolic hv ptr =
     after [u2_s2e_touch_buffer ptr 1]
       (asm hv (opcode 0x04 0x00) [EAX \<mapsto> 0, ECX \<mapsto> ptr])"

definition s2e_concretize :: "hypervisor \<Rightarrow> ulong \<Rightarrow> ulong \<Rightarrow> unit hv_prog" where
  "s2e_concretize hv buf sz =
     after [u2_s2e_touch_buffer buf sz]
       (void_asm hv (opcode 0x20 0x00) (ebx_from EDX [EAX \<mapsto> buf, EDX \<mapsto> sz]))"

definition s2e_get_example :: "hypervisor \<Rightarrow> ulong \<Rightarrow> ulong \<Rightarrow> unit hv_prog" where
  "s2e_get_example hv buf sz =
     after [u2_s2e_touch_buffer buf sz]
       (void_asm hv (opcode 0x21 0x00) (ebx_from EDX [EAX \<mapsto> buf, EDX \<mapsto> sz]))"

definition s2e_kill_state :: "hypervisor \<Rightarrow> ulong \<Rightarrow> ulong \<Rightarrow> ulong \<Rightarrow> unit hv_prog" where
  "s2e_kill_state hv kill_all status message =
     void_asm hv (opcode 0x06 0x00) [EAX \<mapsto> kill_all, EDX \<mapsto> status, ECX \<mapsto> message]"

definition s2e_disable_timer_interrupt :: "hypervisor \<Rightarrow> unit hv_prog" where
  "s2e_disable_timer_interrupt hv =
     void_asm hv (opcode 0x50 0x01) Map.empty"

definition s2e_enable_timer_interrupt :: "hypervisor \<Rightarrow> unit hv_prog" where
  "s2e_enable_timer_interrupt hv =
     void_asm hv (opcode 0x50 0x00) Map.empty"

definition s2e_disable_all_apic_interrupts :: "hypervisor \<Rightarrow> unit hv_prog" where
  "s2e_disable_all_apic_interrupts hv =
     void_asm hv (opcode 0x51 0x01) Map.empty"

definition s2e_enable_all_apic_interrupts :: "hypervisor \<Rightarrow> unit hv_prog" where
  "s2e_enable_all_apic_interrupts hv =
     void_asm hv (opcode 0x51 0x00) Map.empty"

definition s2e_get_ram_object_bits :: "hypervisor \<Rightarrow> ulong hv_prog" where
  "s2e_get_ram_object_bits hv =
     asm hv (opcode 0x52 0x00) [EAX \<mapsto> 0]"

definition s2e_merge_point :: "hypervisor \<Rightarrow> unit hv_prog" where
  "s2e_merge_point hv =
     void_asm hv (opcode 0x70 0x00) Map.empty"

definition s2e_open :: "hypervisor \<Rightarrow> ulong \<Rightarrow> ulong hv_prog" where
  "s2e_open hv fname =
     after [u2_s2e_touch_string fname]
       (asm hv (opcode 0xEE 0x00) [EAX \<mapsto> -1, EBX \<mapsto> fname, ECX \<mapsto> 0])"

definition s2e_close :: "hypervisor \<Rightarrow> ulong \<Rightarrow> ulong hv_prog" where
  "s2e_close hv fd =
     asm hv (opcode 0xEE 0x01) [EAX \<mapsto> -1, EBX \<mapsto> fd]"

definition s2e_read :: "hypervisor \<Rightarrow> ulong \<Rightarrow> ulong \<Rightarrow> ulong \<Rightarrow> ulong hv_prog" where
  "s2e_read hv fd buf cnt =
     after [u2_s2e_touch_buffer buf cnt]
       (asm hv (opcode 0xEE 0x02) (ebx_from ESI [EAX \<mapsto> -1, ESI \<mapsto> fd, ECX \<mapsto> buf, EDX \<mapsto> cnt]))"

definition s2e_rawmon_loadmodule :: "hypervisor \<Rightarrow> ulong \<Rightarrow> ulong \<Rightarrow> ulong \<Rightarrow> unit hv_prog" where
  "s2e_rawmon_loadmodule hv name loadbase sz =
     after [u2_s2e_touch_string name]
       (void_asm hv (opcode 0xAA 0x00) (ebx_from EDX [EAX \<mapsto> name, EDX \<mapsto> loadbase, ECX \<mapsto> sz]))"

definition s2e_codeselector_select_module :: "hypervisor \<Rightarrow> ulong \<Rightarrow> unit hv_prog" where
  "s2e_codeselector_select_module hv moduleId =
     after [u2_s2e_touch_string moduleId]
       (void_asm hv (opcode 0xAE 0x02) [ECX \<mapsto> moduleId])"

definition s2e_moduleexec_add_module :: "hypervisor \<Rightarrow> ulong \<Rightarrow> ulong \<Rightarrow> ulong \<Rightarrow> unit hv_prog" where
  "s2e_moduleexec_add_module hv moduleId moduleName kernelMode =
     after [u2_s2e_touch_string moduleId, u2_s2e_touch_string moduleName]
       (void_asm hv (opcode 0xAF 0x00) [ECX \<mapsto> moduleId, EAX \<mapsto> moduleName, EDX \<mapsto> kernelMode])"

text \<open>The flags of \<open>s2e_io_region\<close>.\<close>

definition SYMDRIVE_IO_MAP :: ulong where "SYMDRIVE_IO_MAP = 0x1"
definition SYMDRIVE_IO_UNMAP :: ulong where "SYMDRIVE_IO_UNMAP = 0x2"
definition SYMDRIVE_PORT_MAP :: ulong where "SYMDRIVE_PORT_MAP = 0x3"
definition SYMDRIVE_PORT_UNMAP :: ulong where "SYMDRIVE_PORT_UNMAP = 0x4"

text \<open>A word in memory, low byte first, as the compiler stores a local variable.\<close>

definition store_u32 :: "ulong \<Rightarrow> ulong \<Rightarrow> unit hv_prog" where
  "store_u32 p v = (\<lambda>m. Inr ((), m\<lparr>memory := (memory m)(p := ucast v, p + 1 := ucast (drop_bit 8 v),
     p + 2 := ucast (drop_bit 16 v), p + 3 := ucast (drop_bit 24 v))\<rparr>))"

definition load_u32 :: "memory \<Rightarrow> ulong \<Rightarrow> ulong" where
  "load_u32 mem p = ucast (mem p) OR push_bit 8 (ucast (mem (p + 1))) OR
     push_bit 16 (ucast (mem (p + 2))) OR push_bit 24 (ucast (mem (p + 3)))"

definition value_of :: "ulong \<Rightarrow> ulong hv_prog" where
  "value_of p = (\<lambda>m. Inr (load_u32 (memory m) p, m))"

text \<open>The local variable \<open>buf\<close> is at an address the compiler chooses, and so are string literals.\<close>

definition s2e_get_example_uint :: "hypervisor \<Rightarrow> ulong \<Rightarrow> ulong \<Rightarrow> ulong hv_prog" where
  "s2e_get_example_uint hv buf_at val =
     after [store_u32 buf_at val, void_asm hv (opcode 0x21 0x00) (ebx_from EDX [EAX \<mapsto> buf_at, EDX \<mapsto> 4])]
       (value_of buf_at)"

definition u1_s2e_assert :: "hypervisor \<Rightarrow> ulong \<Rightarrow> ulong \<Rightarrow> unit hv_prog" where
  "u1_s2e_assert hv b expression =
     (if b = 0 then s2e_kill_state hv 1 0 expression else (\<lambda>m. Inr ((), m)))"

definition s2e_range ::
  "hypervisor \<Rightarrow> (string \<Rightarrow> ulong) \<Rightarrow> ulong \<Rightarrow> ulong \<Rightarrow> ulong \<Rightarrow> ulong \<Rightarrow> ulong hv_prog" where
  "s2e_range hv place x_at start stop name =
     after
      [store_u32 x_at (-1),
       if sint start \<ge> sint stop then s2e_kill_state hv 1 1 (place ''s2e_range: invalid range'')
       else (\<lambda>m. Inr ((), m))]
      (if start + 1 = stop then (\<lambda>m. Inr (start, m))
       else
         after
          [s2e_make_symbolic hv x_at 4 name,
           \<lambda>m. let x = load_u32 (memory m) x_at in
             if start = 0 then
               if x \<ge> stop then s2e_kill_state hv 1 0 (place ''s2e_range creating a constraint...'') m else Inr ((), m)
             else if sint x < sint start \<or> sint x \<ge> sint stop then
               s2e_kill_state hv 1 0 (place ''s2e_range creating a constraint...'') m
             else Inr ((), m)]
          (value_of x_at))"

section \<open>The wrappers\<close>

text \<open>\<open>s2e_wrappers.c\<close>: the functions the module exports, one for each inline function.\<close>

definition s2e_version_wrapper :: "hypervisor \<Rightarrow> ulong hv_prog" where
  "s2e_version_wrapper hv = s2e_version hv"

definition s2e_message_wrapper :: "hypervisor \<Rightarrow> ulong \<Rightarrow> unit hv_prog" where
  "s2e_message_wrapper hv message = s2e_message hv message"

definition s2e_warning_wrapper :: "hypervisor \<Rightarrow> ulong \<Rightarrow> unit hv_prog" where
  "s2e_warning_wrapper hv message = s2e_warning hv message"

definition s2e_print_expression_wrapper :: "hypervisor \<Rightarrow> ulong \<Rightarrow> ulong \<Rightarrow> unit hv_prog" where
  "s2e_print_expression_wrapper hv name expression = s2e_print_expression hv name expression"

definition s2e_enable_forking_wrapper :: "hypervisor \<Rightarrow> unit hv_prog" where
  "s2e_enable_forking_wrapper hv = s2e_enable_forking hv"

definition s2e_disable_forking_wrapper :: "hypervisor \<Rightarrow> unit hv_prog" where
  "s2e_disable_forking_wrapper hv = s2e_disable_forking hv"

definition s2e_get_path_id_wrapper :: "hypervisor \<Rightarrow> ulong hv_prog" where
  "s2e_get_path_id_wrapper hv = s2e_get_path_id hv"

definition s2e_make_symbolic_wrapper :: "hypervisor \<Rightarrow> ulong \<Rightarrow> ulong \<Rightarrow> ulong \<Rightarrow> unit hv_prog" where
  "s2e_make_symbolic_wrapper hv buf sz name = s2e_make_symbolic hv buf sz name"

definition s2e_make_dma_symbolic_wrapper :: "hypervisor \<Rightarrow> ulong \<Rightarrow> ulong \<Rightarrow> ulong \<Rightarrow> unit hv_prog" where
  "s2e_make_dma_symbolic_wrapper hv buf sz name = s2e_make_dma_symbolic hv buf sz name"

definition s2e_free_dma_symbolic_wrapper :: "hypervisor \<Rightarrow> ulong \<Rightarrow> ulong \<Rightarrow> ulong \<Rightarrow> unit hv_prog" where
  "s2e_free_dma_symbolic_wrapper hv buf sz name = s2e_free_dma_symbolic hv buf sz name"

definition s2e_prioritize_wrapper :: "hypervisor \<Rightarrow> ulong \<Rightarrow> unit hv_prog" where
  "s2e_prioritize_wrapper hv line = s2e_prioritize hv line"

definition s2e_deprioritize_wrapper :: "hypervisor \<Rightarrow> ulong \<Rightarrow> unit hv_prog" where
  "s2e_deprioritize_wrapper hv line = s2e_deprioritize hv line"

definition s2e_loop_before_wrapper :: "hypervisor \<Rightarrow> ulong \<Rightarrow> ulong \<Rightarrow> unit hv_prog" where
  "s2e_loop_before_wrapper hv line call_id = s2e_loop_before hv line call_id"

definition s2e_loop_body_wrapper :: "hypervisor \<Rightarrow> ulong \<Rightarrow> ulong \<Rightarrow> unit hv_prog" where
  "s2e_loop_body_wrapper hv line call_id = s2e_loop_body hv line call_id"

definition s2e_loop_after_wrapper :: "hypervisor \<Rightarrow> ulong \<Rightarrow> ulong \<Rightarrow> unit hv_prog" where
  "s2e_loop_after_wrapper hv line call_id = s2e_loop_after hv line call_id"

definition s2e_concretize_kill_wrapper :: "hypervisor \<Rightarrow> ulong \<Rightarrow> unit hv_prog" where
  "s2e_concretize_kill_wrapper hv line = s2e_concretize_kill hv line"

definition s2e_concretize_all_wrapper :: "hypervisor \<Rightarrow> ulong \<Rightarrow> unit hv_prog" where
  "s2e_concretize_all_wrapper hv line = s2e_concretize_all hv line"

definition s2e_kill_all_others_wrapper :: "hypervisor \<Rightarrow> ulong \<Rightarrow> unit hv_prog" where
  "s2e_kill_all_others_wrapper hv line = s2e_kill_all_others hv line"

definition s2e_driver_call_stack_wrapper :: "hypervisor \<Rightarrow> ulong \<Rightarrow> ulong \<Rightarrow> unit hv_prog" where
  "s2e_driver_call_stack_wrapper hv line depth = s2e_driver_call_stack hv line depth"

definition s2e_favor_successful_wrapper :: "hypervisor \<Rightarrow> ulong \<Rightarrow> ulong \<Rightarrow> unit hv_prog" where
  "s2e_favor_successful_wrapper hv line successful = s2e_favor_successful hv line successful"

definition s2e_reset_priorities_wrapper :: "hypervisor \<Rightarrow> ulong \<Rightarrow> unit hv_prog" where
  "s2e_reset_priorities_wrapper hv line = s2e_reset_priorities hv line"

definition s2e_enable_tracing_wrapper :: "hypervisor \<Rightarrow> ulong \<Rightarrow> unit hv_prog" where
  "s2e_enable_tracing_wrapper hv line = s2e_enable_tracing hv line"

definition s2e_disable_tracing_wrapper :: "hypervisor \<Rightarrow> ulong \<Rightarrow> unit hv_prog" where
  "s2e_disable_tracing_wrapper hv line = s2e_disable_tracing hv line"

definition s2e_enter_function_wrapper :: "hypervisor \<Rightarrow> ulong \<Rightarrow> ulong \<Rightarrow> ulong \<Rightarrow> unit hv_prog" where
  "s2e_enter_function_wrapper hv line message wrapper_type = s2e_enter_function hv line message wrapper_type"

definition s2e_exit_function_wrapper :: "hypervisor \<Rightarrow> ulong \<Rightarrow> ulong \<Rightarrow> ulong \<Rightarrow> unit hv_prog" where
  "s2e_exit_function_wrapper hv line message wrapper_type = s2e_exit_function hv line message wrapper_type"

definition s2e_is_symbolic_symdrive_wrapper :: "hypervisor \<Rightarrow> ulong \<Rightarrow> ulong \<Rightarrow> ulong hv_prog" where
  "s2e_is_symbolic_symdrive_wrapper hv line expr = s2e_is_symbolic_symdrive hv line expr"

definition s2e_success_path_wrapper :: "hypervisor \<Rightarrow> ulong \<Rightarrow> ulong \<Rightarrow> ulong \<Rightarrow> unit hv_prog" where
  "s2e_success_path_wrapper hv line fn success = s2e_success_path hv line fn success"

definition s2e_enter_block_wrapper :: "hypervisor \<Rightarrow> ulong \<Rightarrow> ulong \<Rightarrow> ulong \<Rightarrow> ulong \<Rightarrow> unit hv_prog" where
  "s2e_enter_block_wrapper hv line fn total_blocks cur_block = s2e_enter_block hv line fn total_blocks cur_block"

definition s2e_primary_fn_wrapper :: "hypervisor \<Rightarrow> ulong \<Rightarrow> ulong \<Rightarrow> unit hv_prog" where
  "s2e_primary_fn_wrapper hv line fn = s2e_primary_fn hv line fn"

definition s2e_enable_trackperf_wrapper :: "hypervisor \<Rightarrow> ulong \<Rightarrow> ulong \<Rightarrow> unit hv_prog" where
  "s2e_enable_trackperf_wrapper hv line flags = s2e_enable_trackperf hv line flags"

definition s2e_disable_trackperf_wrapper :: "hypervisor \<Rightarrow> ulong \<Rightarrow> ulong \<Rightarrow> unit hv_prog" where
  "s2e_disable_trackperf_wrapper hv line flags = s2e_disable_trackperf hv line flags"

definition s2e_trackperf_fn_wrapper :: "hypervisor \<Rightarrow> ulong \<Rightarrow> ulong \<Rightarrow> ulong \<Rightarrow> unit hv_prog" where
  "s2e_trackperf_fn_wrapper hv line fn flags = s2e_trackperf_fn hv line fn flags"

definition s2e_concretize_wrapper :: "hypervisor \<Rightarrow> ulong \<Rightarrow> ulong \<Rightarrow> unit hv_prog" where
  "s2e_concretize_wrapper hv buf sz = s2e_concretize hv buf sz"

definition s2e_get_example_wrapper :: "hypervisor \<Rightarrow> ulong \<Rightarrow> ulong \<Rightarrow> unit hv_prog" where
  "s2e_get_example_wrapper hv buf sz = s2e_get_example hv buf sz"

definition s2e_kill_state_wrapper :: "hypervisor \<Rightarrow> ulong \<Rightarrow> ulong \<Rightarrow> ulong \<Rightarrow> unit hv_prog" where
  "s2e_kill_state_wrapper hv kill_all status message = s2e_kill_state hv kill_all status message"

definition s2e_disable_timer_interrupt_wrapper :: "hypervisor \<Rightarrow> unit hv_prog" where
  "s2e_disable_timer_interrupt_wrapper hv = s2e_disable_timer_interrupt hv"

definition s2e_enable_timer_interrupt_wrapper :: "hypervisor \<Rightarrow> unit hv_prog" where
  "s2e_enable_timer_interrupt_wrapper hv = s2e_enable_timer_interrupt hv"

definition s2e_disable_all_apic_interrupts_wrapper :: "hypervisor \<Rightarrow> unit hv_prog" where
  "s2e_disable_all_apic_interrupts_wrapper hv = s2e_disable_all_apic_interrupts hv"

definition s2e_enable_all_apic_interrupts_wrapper :: "hypervisor \<Rightarrow> unit hv_prog" where
  "s2e_enable_all_apic_interrupts_wrapper hv = s2e_enable_all_apic_interrupts hv"

definition s2e_get_ram_object_bits_wrapper :: "hypervisor \<Rightarrow> ulong hv_prog" where
  "s2e_get_ram_object_bits_wrapper hv = s2e_get_ram_object_bits hv"

definition s2e_merge_point_wrapper :: "hypervisor \<Rightarrow> unit hv_prog" where
  "s2e_merge_point_wrapper hv = s2e_merge_point hv"

definition s2e_open_wrapper :: "hypervisor \<Rightarrow> ulong \<Rightarrow> ulong hv_prog" where
  "s2e_open_wrapper hv fname = s2e_open hv fname"

definition s2e_close_wrapper :: "hypervisor \<Rightarrow> ulong \<Rightarrow> ulong hv_prog" where
  "s2e_close_wrapper hv fd = s2e_close hv fd"

definition s2e_read_wrapper :: "hypervisor \<Rightarrow> ulong \<Rightarrow> ulong \<Rightarrow> ulong \<Rightarrow> ulong hv_prog" where
  "s2e_read_wrapper hv fd buf cnt = s2e_read hv fd buf cnt"

definition s2e_rawmon_loadmodule_wrapper :: "hypervisor \<Rightarrow> ulong \<Rightarrow> ulong \<Rightarrow> ulong \<Rightarrow> unit hv_prog" where
  "s2e_rawmon_loadmodule_wrapper hv name loadbase sz = s2e_rawmon_loadmodule hv name loadbase sz"

definition s2e_get_example_uint_wrapper :: "hypervisor \<Rightarrow> ulong \<Rightarrow> ulong \<Rightarrow> ulong hv_prog" where
  "s2e_get_example_uint_wrapper hv buf_at val = s2e_get_example_uint hv buf_at val"

definition u1_s2e_assert_wrapper :: "hypervisor \<Rightarrow> ulong \<Rightarrow> ulong \<Rightarrow> unit hv_prog" where
  "u1_s2e_assert_wrapper hv b expression = u1_s2e_assert hv b expression"

section \<open>Strings in memory\<close>

primrec literal :: "memory \<Rightarrow> ulong \<Rightarrow> string \<Rightarrow> bool" where
  "literal mem p [] \<longleftrightarrow> mem p = 0"
| "literal mem p (c # cs) \<longleftrightarrow> mem p = of_char c \<and> c \<noteq> CHR 0x00 \<and> literal mem (p + 1) cs"

definition string_at :: "memory \<Rightarrow> ulong \<Rightarrow> string option" where
  "string_at mem p = map_option (\<lambda>ps. map (\<lambda>a. char_of (unat (mem a))) (butlast ps)) (scan mem p)"

lemma of_char_word: "unat (of_char c :: u8) = of_char c"
proof -
  have "(of_char c :: u8) = of_nat (of_char c)" by (simp add: of_nat_of_char)
  then show ?thesis using nat_of_char_less_256 [of c] by (simp add: unat_of_nat)
qed

lemma of_char_word_0: "(of_char c :: u8) = 0 \<longleftrightarrow> c = CHR 0x00"
proof -
  have "(of_char c :: u8) = 0 \<longleftrightarrow> (of_char c :: nat) = of_char (CHR 0x00)"
    by (simp add: of_char_word flip: unat_eq_0)
  then show ?thesis by (simp only: of_char_eq_iff)
qed

lemma scan_ends: "mem (p + of_nat n) = 0 \<Longrightarrow> scan mem p \<noteq> None"
proof (induction n arbitrary: p)
  case 0
  then show ?case by (subst scan.simps) simp
next
  case (Suc n)
  have "p + 1 + of_nat n = p + of_nat (Suc n)" by simp
  with Suc.IH [of "p + 1"] Suc.prems show ?case by (subst scan.simps) (auto simp del: of_nat_Suc)
qed

lemma scan_reads:
  assumes "scan mem p = Some ps"
  shows "mem (last ps) = 0 \<and> (\<exists>n. ps = map (\<lambda>i. p + of_nat i) [0..<Suc n])"
proof (rule scan.raw_induct [where P = "\<lambda>mem p ps. mem (last ps) = 0 \<and> (\<exists>n. ps = map (\<lambda>i. p + of_nat i) [0..<Suc n])",
    OF _ assms])
  fix f :: "memory \<Rightarrow> ulong \<Rightarrow> ulong list option" and mem p ps
  assume IH: "\<And>mem p ps. f mem p = Some ps \<Longrightarrow> mem (last ps) = 0 \<and> (\<exists>n. ps = map (\<lambda>i. p + of_nat i) [0..<Suc n])"
    and r: "(if mem p = 0 then Some [p] else Option.bind (f mem (p + 1)) (\<lambda>ps. Some (p # ps))) = Some ps"
  show "mem (last ps) = 0 \<and> (\<exists>n. ps = map (\<lambda>i. p + of_nat i) [0..<Suc n])"
  proof (cases "mem p = 0")
    case True
    with r show ?thesis by (auto intro!: exI [of _ 0])
  next
    case False
    with r obtain qs where q: "f mem (p + 1) = Some qs" "ps = p # qs" by (auto simp: bind_eq_Some_conv)
    from IH [OF q(1)] obtain n where n: "mem (last qs) = 0" "qs = map (\<lambda>i. p + 1 + of_nat i) [0..<Suc n]" by blast
    then have "ps = map (\<lambda>i. p + of_nat i) (0 # map Suc [0..<Suc n])"
      by (simp add: q(2) comp_def algebra_simps)
    then have "ps = map (\<lambda>i. p + of_nat i) [0..<Suc (Suc n)]" by (simp only: map_Suc_upt upt_conv_Cons [symmetric])
    moreover have "mem (last ps) = 0" using n by (simp add: q(2))
    ultimately show ?thesis by blast
  qed
qed

lemma scan_total_iff: "scan mem p \<noteq> None \<longleftrightarrow> (\<exists>n. mem (p + of_nat n) = 0)"
proof
  assume "scan mem p \<noteq> None"
  then obtain ps where ps: "scan mem p = Some ps" by auto
  from scan_reads [OF ps] obtain n where "mem (last ps) = 0" "ps = map (\<lambda>i. p + of_nat i) [0..<Suc n]" by blast
  then show "\<exists>n. mem (p + of_nat n) = 0" by (intro exI [of _ n]) simp
qed (auto dest: scan_ends)

lemma string_at_literal: "literal mem p s \<Longrightarrow> string_at mem p = Some s"
proof (induction s arbitrary: p)
  case Nil
  then show ?case by (simp add: string_at_def scan.simps [of mem p])
next
  case (Cons c s)
  then have "string_at mem (p + 1) = Some s" by simp
  then obtain ps where ps: "scan mem (p + 1) = Some ps" "s = map (\<lambda>a. char_of (unat (mem a))) (butlast ps)"
    by (auto simp: string_at_def)
  from scan_reads [OF ps(1)] have "ps \<noteq> []" by auto
  with Cons.prems ps show ?case
    by (simp add: string_at_def scan.simps [of mem p] of_char_word_0 of_char_word)
qed

lemma literal_scan: "literal mem p s \<Longrightarrow> scan mem p \<noteq> None"
  using string_at_literal [of mem p s] by (auto simp: string_at_def)

end
