(* ===== verification/Hypervisor_Properties.thy ===== *)
theory Hypervisor_Properties
  imports Hypervisor
begin

text \<open>
  What reaches the hypervisor. The components of the framework record the instructions they execute as a
  list of events; \<open>perform\<close> is the call of \<open>s2e.h\<close> behind an event, and \<open>observed\<close> reads an event back
  from the opcode, the registers and the memory. \<open>s2e_range\<close> is the one routine with a result.
\<close>

section \<open>Events as instructions\<close>

text \<open>String literals and local variables are where the compiler puts them; some calls pass \<open>__LINE__\<close>.\<close>

fun perform ::
  "hypervisor \<Rightarrow> (string \<Rightarrow> ulong) \<Rightarrow> (string \<Rightarrow> ulong) \<Rightarrow> (string \<Rightarrow> ulong) \<Rightarrow> ulong \<Rightarrow> s2e_event \<Rightarrow> unit hv_prog" where
  "perform hv place local size_of line (S2E_concretize_kill x) = s2e_concretize_kill hv (word_of_int x)"
| "perform hv place local size_of line S2E_enable_all_apic_interrupts = s2e_enable_all_apic_interrupts hv"
| "perform hv place local size_of line S2E_disable_all_apic_interrupts = s2e_disable_all_apic_interrupts hv"
| "perform hv place local size_of line (S2E_io_map x y) = s2e_io_region hv line SYMDRIVE_IO_MAP x y"
| "perform hv place local size_of line (S2E_io_unmap x) = s2e_io_region hv line SYMDRIVE_IO_UNMAP x 0"
| "perform hv place local size_of line (S2E_port_map x y) = s2e_io_region hv line SYMDRIVE_PORT_MAP x y"
| "perform hv place local size_of line (S2E_port_unmap x) = s2e_io_region hv line SYMDRIVE_PORT_UNMAP x 0"
| "perform hv place local size_of line (S2E_make_symbolic x y z) = s2e_make_symbolic hv x y (place z)"
| "perform hv place local size_of line (S2E_make_symbolic_local x y) = s2e_make_symbolic hv (local x) (size_of x) (place y)"
| "perform hv place local size_of line (S2E_make_dma_symbolic x y z) = s2e_make_dma_symbolic hv x y (place z)"
| "perform hv place local size_of line (S2E_free_dma_symbolic x y z) = s2e_free_dma_symbolic hv x y (place z)"
| "perform hv place local size_of line (S2E_prioritize x) = s2e_prioritize hv (word_of_int x)"
| "perform hv place local size_of line (S2E_deprioritize x) = s2e_deprioritize hv (word_of_int x)"
| "perform hv place local size_of line (S2E_kill_all_others x) = s2e_kill_all_others hv (word_of_int x)"
| "perform hv place local size_of line (S2E_favor_successful x y) = s2e_favor_successful hv (word_of_int x) (word_of_int y)"
| "perform hv place local size_of line (S2E_success_path x y z) = s2e_success_path hv (word_of_int x) (place y) (word_of_int z)"
| "perform hv place local size_of line (S2E_enter_function x y z) = s2e_enter_function hv (word_of_int x) (place y) (word_of_int z)"
| "perform hv place local size_of line (S2E_exit_function x y z) = s2e_exit_function hv (word_of_int x) (place y) (word_of_int z)"
| "perform hv place local size_of line (S2E_driver_call_stack x y) = s2e_driver_call_stack hv (word_of_int x) (word_of_int y)"
| "perform hv place local size_of line (S2E_enable_trackperf x) = s2e_enable_trackperf hv line (word_of_int x)"
| "perform hv place local size_of line (S2E_disable_trackperf x) = s2e_disable_trackperf hv line (word_of_int x)"
| "perform hv place local size_of line (S2E_enable_tracing x) = s2e_enable_tracing hv (word_of_int x)"
| "perform hv place local size_of line (S2E_disable_tracing x) = s2e_disable_tracing hv (word_of_int x)"
| "perform hv place local size_of line (S2E_primary_fn x y) = s2e_primary_fn hv (word_of_int x) (place y)"
| "perform hv place local size_of line (S2E_trackperf_fn x y z) = s2e_trackperf_fn hv (word_of_int x) (place y) (word_of_int z)"

fun event_ints :: "s2e_event \<Rightarrow> int list" where
  "event_ints (S2E_concretize_kill x) = [x]"
| "event_ints S2E_enable_all_apic_interrupts = []"
| "event_ints S2E_disable_all_apic_interrupts = []"
| "event_ints (S2E_io_map x y) = []"
| "event_ints (S2E_io_unmap x) = []"
| "event_ints (S2E_port_map x y) = []"
| "event_ints (S2E_port_unmap x) = []"
| "event_ints (S2E_make_symbolic x y z) = []"
| "event_ints (S2E_make_symbolic_local x y) = []"
| "event_ints (S2E_make_dma_symbolic x y z) = []"
| "event_ints (S2E_free_dma_symbolic x y z) = []"
| "event_ints (S2E_prioritize x) = [x]"
| "event_ints (S2E_deprioritize x) = [x]"
| "event_ints (S2E_kill_all_others x) = [x]"
| "event_ints (S2E_favor_successful x y) = [x, y]"
| "event_ints (S2E_success_path x y z) = [x, z]"
| "event_ints (S2E_enter_function x y z) = [x, z]"
| "event_ints (S2E_exit_function x y z) = [x, z]"
| "event_ints (S2E_driver_call_stack x y) = [x, y]"
| "event_ints (S2E_enable_trackperf x) = [x]"
| "event_ints (S2E_disable_trackperf x) = [x]"
| "event_ints (S2E_enable_tracing x) = [x]"
| "event_ints (S2E_disable_tracing x) = [x]"
| "event_ints (S2E_primary_fn x y) = [x]"
| "event_ints (S2E_trackperf_fn x y z) = [x, z]"

fun event_strings :: "s2e_event \<Rightarrow> string list" where
  "event_strings (S2E_concretize_kill x) = []"
| "event_strings S2E_enable_all_apic_interrupts = []"
| "event_strings S2E_disable_all_apic_interrupts = []"
| "event_strings (S2E_io_map x y) = []"
| "event_strings (S2E_io_unmap x) = []"
| "event_strings (S2E_port_map x y) = []"
| "event_strings (S2E_port_unmap x) = []"
| "event_strings (S2E_make_symbolic x y z) = [z]"
| "event_strings (S2E_make_symbolic_local x y) = [y]"
| "event_strings (S2E_make_dma_symbolic x y z) = [z]"
| "event_strings (S2E_free_dma_symbolic x y z) = [z]"
| "event_strings (S2E_prioritize x) = []"
| "event_strings (S2E_deprioritize x) = []"
| "event_strings (S2E_kill_all_others x) = []"
| "event_strings (S2E_favor_successful x y) = []"
| "event_strings (S2E_success_path x y z) = [y]"
| "event_strings (S2E_enter_function x y z) = [y]"
| "event_strings (S2E_exit_function x y z) = [y]"
| "event_strings (S2E_driver_call_stack x y) = []"
| "event_strings (S2E_enable_trackperf x) = []"
| "event_strings (S2E_disable_trackperf x) = []"
| "event_strings (S2E_enable_tracing x) = []"
| "event_strings (S2E_disable_tracing x) = []"
| "event_strings (S2E_primary_fn x y) = [y]"
| "event_strings (S2E_trackperf_fn x y z) = [y]"

text \<open>A local variable is known to the hypervisor by its address and size only.\<close>

fun seen_as :: "(string \<Rightarrow> ulong) \<Rightarrow> (string \<Rightarrow> ulong) \<Rightarrow> s2e_event \<Rightarrow> s2e_event" where
  "seen_as local size_of (S2E_make_symbolic_local x y) = S2E_make_symbolic (local x) (size_of x) y"
| "seen_as local size_of e = e"

text \<open>The opcodes and the registers of each instruction, as \<open>s2e.h\<close> lists them.\<close>

definition region :: "ulong \<Rightarrow> ulong \<Rightarrow> ulong \<Rightarrow> s2e_event option" where
  "region flags address sz =
     map_of [(0x1, S2E_io_map address sz), (0x2, S2E_io_unmap address),
             (0x3, S2E_port_map address sz), (0x4, S2E_port_unmap address)] flags"

definition instructions :: "((u8 \<times> u8) \<times> ((reg \<Rightarrow> ulong) \<Rightarrow> (ulong \<Rightarrow> string option) \<Rightarrow> s2e_event option)) list" where
  "instructions =
    [((0xB8, 0), \<lambda>r str. Some (S2E_concretize_kill (sint (r EAX)))),
     ((0x51, 0), \<lambda>r str. Some S2E_enable_all_apic_interrupts),
     ((0x51, 1), \<lambda>r str. Some S2E_disable_all_apic_interrupts),
     ((0xCB, 0), \<lambda>r str. region (r EBX) (r ECX) (r EDX)),
     ((0x03, 0), \<lambda>r str. map_option (S2E_make_symbolic (r EAX) (r EBX)) (str (r ECX))),
     ((0xB1, 0), \<lambda>r str. map_option (S2E_make_dma_symbolic (r EAX) (r EBX)) (str (r ECX))),
     ((0xB2, 0), \<lambda>r str. map_option (S2E_free_dma_symbolic (r EAX) (r EBX)) (str (r ECX))),
     ((0xB3, 0), \<lambda>r str. Some (S2E_prioritize (sint (r EAX)))),
     ((0xB4, 0), \<lambda>r str. Some (S2E_deprioritize (sint (r EAX)))),
     ((0xBA, 0), \<lambda>r str. Some (S2E_kill_all_others (sint (r EAX)))),
     ((0xBC, 0), \<lambda>r str. Some (S2E_favor_successful (sint (r EAX)) (sint (r EBX)))),
     ((0xC5, 0), \<lambda>r str. map_option (\<lambda>s. S2E_success_path (sint (r EAX)) s (sint (r ECX))) (str (r EBX))),
     ((0xC2, 0), \<lambda>r str. map_option (\<lambda>s. S2E_enter_function (sint (r EAX)) s (sint (r ECX))) (str (r EBX))),
     ((0xC3, 0), \<lambda>r str. map_option (\<lambda>s. S2E_exit_function (sint (r EAX)) s (sint (r ECX))) (str (r EBX))),
     ((0xBB, 0), \<lambda>r str. Some (S2E_driver_call_stack (sint (r EAX)) (sint (r EBX)))),
     ((0xC8, 0), \<lambda>r str. Some (S2E_enable_trackperf (sint (r EBX)))),
     ((0xC9, 0), \<lambda>r str. Some (S2E_disable_trackperf (sint (r EBX)))),
     ((0xC0, 0), \<lambda>r str. Some (S2E_enable_tracing (sint (r EAX)))),
     ((0xC1, 0), \<lambda>r str. Some (S2E_disable_tracing (sint (r EAX)))),
     ((0xC7, 0), \<lambda>r str. map_option (S2E_primary_fn (sint (r EAX))) (str (r EBX))),
     ((0xCA, 0), \<lambda>r str. map_option (\<lambda>s. S2E_trackperf_fn (sint (r EAX)) s (sint (r ECX))) (str (r EBX)))]"

definition observed :: "memory \<Rightarrow> hypercall \<Rightarrow> s2e_event option" where
  "observed mem c =
     (if code c = opcode (code c ! 3) (code c ! 4) then
        Option.bind (map_of instructions (code c ! 3, code c ! 4))
          (\<lambda>decode. decode (\<lambda>r. the (regs c r)) (string_at mem))
      else None)"

lemmas call_defs = s2e_concretize_kill_def s2e_enable_all_apic_interrupts_def s2e_disable_all_apic_interrupts_def
  s2e_io_region_def s2e_make_symbolic_def s2e_make_dma_symbolic_def s2e_free_dma_symbolic_def s2e_prioritize_def
  s2e_deprioritize_def s2e_kill_all_others_def s2e_favor_successful_def s2e_success_path_def s2e_enter_function_def
  s2e_exit_function_def s2e_driver_call_stack_def s2e_enable_trackperf_def s2e_disable_trackperf_def
  s2e_enable_tracing_def s2e_disable_tracing_def s2e_primary_fn_def s2e_trackperf_fn_def
  SYMDRIVE_IO_MAP_def SYMDRIVE_IO_UNMAP_def SYMDRIVE_PORT_MAP_def SYMDRIVE_PORT_UNMAP_def

text \<open>The shape of every call: addresses are read, then one instruction is executed.\<close>

definition calls :: "hypervisor \<Rightarrow> hypercall \<Rightarrow> machine \<Rightarrow> unit hv_prog \<Rightarrow> bool" where
  "calls hv c m p \<longleftrightarrow> (\<exists>ps. p m = void_asm hv (code c) (regs c) (m\<lparr>paged := ps\<rparr>))"

lemma calls_plain: "calls hv \<lparr>code = c, regs = r\<rparr> m (void_asm hv c r)"
  unfolding calls_def by (rule exI [of _ "paged m"]) simp

lemma calls_after_touch:
  assumes "literal (memory m) name s"
  shows "calls hv \<lparr>code = c, regs = r\<rparr> m
    (after [u2_s2e_touch_string name, u2_s2e_touch_buffer buf sz] (void_asm hv c r))"
  using literal_scan [OF assms] by (auto simp: calls_def u2_s2e_touch_string_def u2_s2e_touch_buffer_def)

lemma sint_fits: "- (2 ^ 31) \<le> x \<Longrightarrow> x < 2 ^ 31 \<Longrightarrow> sint (word_of_int x :: ulong) = x"
  by (simp add: sint_sbintrunc' signed_take_bit_int_eq_self)

lemmas decode_defs = observed_def instructions_def region_def opcode_def ebx_from_def sint_fits string_at_literal

lemma calls_observed:
  assumes "calls hv c m p" "code c \<noteq> opcode 0x06 0"
    and "\<And>mem. (\<forall>s \<in> set ss. literal mem (place s) s) \<Longrightarrow> observed mem c = Some e"
  shows "\<exists>c. calls hv c m p \<and> code c \<noteq> opcode 0x06 0 \<and>
    (\<forall>mem. (\<forall>s \<in> set ss. literal mem (place s) s) \<longrightarrow> observed mem c = Some e)"
  using assms by blast

lemma perform_calls:
  assumes "\<forall>s \<in> set (event_strings e). literal (memory m) (place s) s"
    and "\<forall>i \<in> set (event_ints e). - (2 ^ 31) \<le> i \<and> i < 2 ^ 31"
  shows "\<exists>c. calls hv c m (perform hv place local size_of line e) \<and> code c \<noteq> opcode 0x06 0 \<and>
    (\<forall>mem. (\<forall>s \<in> set (event_strings e). literal mem (place s) s) \<longrightarrow>
      observed mem c = Some (seen_as local size_of e))"
  using assms
  apply (cases e)
  apply (simp_all only: perform.simps call_defs)
  apply (rule calls_observed, rule calls_plain, simp add: opcode_def, simp add: decode_defs;fail |
      rule calls_observed, rule calls_after_touch, force, simp add: opcode_def, simp add: decode_defs;fail)+
  done

text \<open>A sequence of calls, as the framework makes them one after the other; a hypervisor that answers 0.\<close>

definition idle_hv :: hypervisor where
  "idle_hv c mem = (if code c = opcode 0x06 0 then None else Some (0, mem))"

definition nothing :: "unit hv_prog" where
  "nothing m = Inr ((), m)"

lemma calls_returns:
  assumes "calls hv c m p" and "hv c (memory m) = Some (eax, mem)"
  obtains m' where "p m = Inr ((), m')" "issued m' = issued m @ [c]" "memory m' = mem"
  using assms by (cases c) (auto simp: calls_def void_asm_def asm_def)

text \<open>C19. The event log of the framework is what the hypervisor gets. On a path that goes on, with the string
  literals in \<open>ss\<close> left alone, the calls behind any list of events execute one instruction each, in order,
  and from opcode, registers and memory the hypervisor reads exactly the event logged: numbers, strings and
  flags come back as they were passed, and a local variable as its address and size.\<close>

theorem log_reaches_hypervisor:
  assumes goes_on: "\<And>c mem. code c \<noteq> opcode 0x06 0 \<Longrightarrow> \<exists>eax mem'. hv c mem = Some (eax, mem') \<and>
      (\<forall>s \<in> ss. literal mem (place s) s \<longrightarrow> literal mem' (place s) s)"
    and strings: "\<forall>e \<in> set es. set (event_strings e) \<subseteq> ss" "\<forall>s \<in> ss. literal (memory m) (place s) s"
    and ints: "\<forall>e \<in> set es. \<forall>i \<in> set (event_ints e). - (2 ^ 31) \<le> i \<and> i < 2 ^ 31"
  shows "\<exists>m' cs. after (map (perform hv place local size_of line) es) nothing m = Inr ((), m') \<and>
    issued m' = issued m @ cs \<and>
    (\<forall>mem. (\<forall>s \<in> ss. literal mem (place s) s) \<longrightarrow> map (observed mem) cs = map (Some \<circ> seen_as local size_of) es)"
  using strings ints
proof (induction es arbitrary: m)
  case Nil
  then show ?case by (simp add: nothing_def)
next
  case (Cons e es)
  let ?p = "perform hv place local size_of line"
  from Cons.prems have "\<forall>s \<in> set (event_strings e). literal (memory m) (place s) s" by auto
  from perform_calls [OF this, where hv = hv and local = local and size_of = size_of and line = line] Cons.prems(3)
  obtain c where c: "calls hv c m (?p e)" "code c \<noteq> opcode 0x06 0"
    and o: "\<And>mem. (\<forall>s \<in> ss. literal mem (place s) s) \<Longrightarrow> observed mem c = Some (seen_as local size_of e)"
    using Cons.prems(1) by (auto simp: subset_eq)
  from goes_on [OF c(2), of "memory m"] obtain eax mem where h: "hv c (memory m) = Some (eax, mem)"
    and k: "\<forall>s \<in> ss. literal mem (place s) s" using Cons.prems(2) by blast
  from calls_returns [OF c(1) h] obtain m1 where m1: "?p e m = Inr ((), m1)"
    "issued m1 = issued m @ [c]" "memory m1 = mem" by blast
  from Cons.IH [of m1] Cons.prems k obtain m' cs where r: "after (map ?p es) nothing m1 = Inr ((), m')"
      "issued m' = issued m1 @ cs"
      "\<And>mem. (\<forall>s \<in> ss. literal mem (place s) s) \<Longrightarrow> map (observed mem) cs = map (Some \<circ> seen_as local size_of) es"
    by (auto simp: m1(3))
  show ?case
    using m1 r o by (intro exI [of _ m'] exI [of _ "c # cs"]) simp
qed

theorem log_reaches_hypervisor_witness:
  "\<exists>m' cs. after (map (perform idle_hv (\<lambda>_. 0x1000) (\<lambda>_. 0) (\<lambda>_. 4) 12)
       [S2E_success_path 7 ''f'' (-1), S2E_concretize_kill 9]) nothing
       \<lparr>memory = (\<lambda>_. 0)(0x1000 := 102), paged = [], issued = []\<rparr> = Inr ((), m') \<and> issued m' = cs \<and>
     map (observed ((\<lambda>_. 0)(0x1000 := 102))) cs = [Some (S2E_success_path 7 ''f'' (-1)), Some (S2E_concretize_kill 9)]"
proof -
  let ?mem = "(\<lambda>_. 0)(0x1000 := 102) :: memory"
  let ?m = "\<lparr>memory = ?mem, paged = [], issued = []\<rparr>"
  let ?es = "[S2E_success_path 7 ''f'' (-1), S2E_concretize_kill 9]"
  have lit: "\<forall>s \<in> {''f''}. literal ?mem ((\<lambda>_. 0x1000) s) s" by (simp add: of_char_def)
  have "code c \<noteq> opcode 0x06 0 \<Longrightarrow> \<exists>eax mem'. idle_hv c x = Some (eax, mem') \<and>
      (\<forall>s \<in> {''f''}. literal x ((\<lambda>_. 0x1000) s) s \<longrightarrow> literal mem' ((\<lambda>_. 0x1000) s) s)" for c x
    by (simp add: idle_hv_def)
  from log_reaches_hypervisor [where ss = "{''f''}" and hv = idle_hv and place = "\<lambda>_. 0x1000" and es = ?es and m = ?m
      and local = "\<lambda>_. 0" and size_of = "\<lambda>_. 4" and line = 12, OF this] lit
  obtain m' cs where r: "after (map (perform idle_hv (\<lambda>_. 0x1000) (\<lambda>_. 0) (\<lambda>_. 4) 12) ?es) nothing ?m = Inr ((), m')"
      "issued m' = issued ?m @ cs"
      "\<And>mem. (\<forall>s \<in> {''f''}. literal mem ((\<lambda>_. 0x1000) s) s) \<Longrightarrow>
        map (observed mem) cs = map (Some \<circ> seen_as (\<lambda>_. 0) (\<lambda>_. 4)) ?es"
    by (auto simp: of_char_def)
  show ?thesis
    using r(1,2) r(3) [OF lit] by (intro exI [of _ m'] exI [of _ cs]) simp
qed

section \<open>Ranges\<close>

definition ends_at_kill :: "hypervisor \<Rightarrow> bool" where
  "ends_at_kill hv \<longleftrightarrow> (\<forall>c mem. code c = opcode 0x06 0 \<longrightarrow> hv c mem = None)"

lemma s2e_kill_state_ends: "ends_at_kill hv \<Longrightarrow> \<exists>m'. s2e_kill_state hv a b c m = Inl (Path_Ended m')"
  by (simp add: ends_at_kill_def s2e_kill_state_def void_asm_def asm_def)

text \<open>The two's complement reading of a word.\<close>

lemma sint_two: "sint (w :: ulong) = (if uint w < 2 ^ 31 then uint w else uint w - 2 ^ 32)"
proof -
  have u: "0 \<le> uint w" "uint w < 2 ^ 32" using uint_lt2p [of w] by simp_all
  have "sint w = (uint w + 2 ^ 31) mod 2 ^ 32 - 2 ^ 31"
    by (simp add: sint_uint signed_take_bit_eq_take_bit_shift take_bit_eq_mod)
  also have "(uint w + 2 ^ 31) mod 2 ^ 32 = (if uint w < 2 ^ 31 then uint w + 2 ^ 31 else uint w - 2 ^ 31)"
    using u mod_pos_pos_trivial [of "uint w - 2 ^ 31" "2 ^ 32"] minus_mod_self2 [of "uint w + 2 ^ 31" "2 ^ 32"]
    by (auto simp: mod_pos_pos_trivial)
  finally show ?thesis by auto
qed

lemma bytes_of_word:
  "ucast (ucast v :: u8) OR push_bit 8 (ucast (ucast (drop_bit 8 v) :: u8)) OR
     push_bit 16 (ucast (ucast (drop_bit 16 v) :: u8)) OR push_bit 24 (ucast (ucast (drop_bit 24 v) :: u8)) = (v :: ulong)"
proof (rule bit_word_eqI)
  fix n assume "n < LENGTH(32)"
  then consider "n < 8" | "8 \<le> n" "n < 16" | "16 \<le> n" "n < 24" | "24 \<le> n" "n < 32" by force
  then show "bit (ucast (ucast v :: u8) OR push_bit 8 (ucast (ucast (drop_bit 8 v) :: u8)) OR
     push_bit 16 (ucast (ucast (drop_bit 16 v) :: u8)) OR push_bit 24 (ucast (ucast (drop_bit 24 v) :: u8)) :: ulong) n = bit v n"
    by cases (simp_all add: bit_simps, linarith+)
qed

lemma load_store: 
  "load_u32 (mem(p := ucast v, p + 1 := ucast (drop_bit 8 v), p + 2 := ucast (drop_bit 16 v),
     p + 3 := ucast (drop_bit 24 v))) p = v"
proof -
  have "p \<noteq> p + 1" "p \<noteq> p + 2" "p \<noteq> p + 3" "p + 1 \<noteq> p + 2" "p + 1 \<noteq> p + 3" "p + 2 \<noteq> p + 3" by simp_all
  then show ?thesis
    by (simp add: load_u32_def) (rule bytes_of_word)
qed

lemma s2e_kill_state_never_returns [simp]: "ends_at_kill hv \<Longrightarrow> s2e_kill_state hv a b c m \<noteq> Inr r"
  by (simp add: ends_at_kill_def s2e_kill_state_def void_asm_def asm_def)

lemma unsigned_below: "x < stop \<Longrightarrow> 0 < sint stop \<Longrightarrow> 0 \<le> sint x \<and> sint x < sint (stop :: ulong)"
  using uint_lt2p [of stop] by (auto simp: sint_two word_less_def split: if_splits)

lemma below_unsigned: "0 \<le> sint x \<Longrightarrow> sint x < sint stop \<Longrightarrow> x < (stop :: ulong)"
  using uint_lt2p [of x] uint_lt2p [of stop] by (auto simp: sint_two word_less_def split: if_splits)

lemma sint_between: "start + 1 = (stop :: ulong) \<Longrightarrow> sint start \<le> sint r \<Longrightarrow> sint r < sint stop \<Longrightarrow> r = start"
proof -
  assume s: "start + 1 = stop" and r: "sint start \<le> sint r" "sint r < sint stop"
  have "sint stop = sint start + 1"
    using s r sint_lt [of stop] sint_ge [of start]
    by (auto simp: sint_word_ariths signed_take_bit_int_eq_self)
  with r show "r = start" by (intro signed_word_eqI) simp
qed

text \<open>A hypervisor that writes \<open>v\<close> to \<open>p\<close> whenever it is called.\<close>

definition hv_writes :: "ulong \<Rightarrow> ulong \<Rightarrow> hypervisor" where
  "hv_writes p v c mem = (if code c = opcode 0x06 0 then None else
     Some (0, mem(p := ucast v, p + 1 := ucast (drop_bit 8 v), p + 2 := ucast (drop_bit 16 v), p + 3 := ucast (drop_bit 24 v))))"

lemma hv_writes_ends: "ends_at_kill (hv_writes p v)"
  by (simp add: ends_at_kill_def hv_writes_def)

lemma make_symbolic_writes:
  assumes "scan (memory m) name \<noteq> None"
  obtains m' where "s2e_make_symbolic (hv_writes p v) p sz name m = Inr ((), m')" "load_u32 (memory m') p = v"
  using assms by (auto simp: s2e_make_symbolic_def u2_s2e_touch_string_def u2_s2e_touch_buffer_def void_asm_def asm_def
      hv_writes_def load_store opcode_def Let_def)

text \<open>C33. \<open>s2e_range\<close> returns a value of \<open>[start, stop)\<close> and no other, whatever the hypervisor puts into the
  variable, and every value of the interval is returned for some hypervisor; an empty interval ends the path.
  The comparisons are signed, except that for \<open>start = 0\<close> one unsigned comparison does for both.\<close>

theorem s2e_range_values:
  assumes name: "memory m (name + of_nat n) = 0" "name + of_nat n \<notin> {x_at, x_at + 1, x_at + 2, x_at + 3}"
  shows "{r. \<exists>hv m'. ends_at_kill hv \<and> s2e_range hv place x_at start stop name m = Inr (r, m')} =
    {r. sint start \<le> sint r \<and> sint r < sint stop}"
proof (intro set_eqI iffI; clarsimp)
  fix r hv m'
  assume k: "ends_at_kill hv" and r: "s2e_range hv place x_at start stop name m = Inr (r, m')"
  from k r have "sint start < sint stop"
    by (auto simp: s2e_range_def store_u32_def split: if_splits sum.splits)
  with k r show "sint start \<le> sint r \<and> sint r < sint stop"
    by (auto simp: s2e_range_def store_u32_def value_of_def Let_def not_le dest: unsigned_below split: if_splits sum.splits)
next
  fix r :: ulong
  assume r: "sint start \<le> sint r" "sint r < sint stop"
  let ?hv = "hv_writes x_at r"
  let ?m = "m\<lparr>memory := (memory m)(x_at := ucast (-1 :: ulong), x_at + 1 := ucast (drop_bit 8 (-1 :: ulong)),
    x_at + 2 := ucast (drop_bit 16 (-1 :: ulong)), x_at + 3 := ucast (drop_bit 24 (-1 :: ulong)))\<rparr>"
  have "scan (memory ?m) name \<noteq> None" using name by (intro scan_ends [of _ _ n]) simp
  from make_symbolic_writes [OF this, of x_at r 4] obtain m'
    where m': "s2e_make_symbolic ?hv x_at 4 name ?m = Inr ((), m')" "load_u32 (memory m') x_at = r" by blast
  have "\<exists>m'. s2e_range ?hv place x_at start stop name m = Inr (r, m')"
  proof (cases "start + 1 = stop")
    case True
    from sint_between [OF this r] True r show ?thesis by (simp add: s2e_range_def store_u32_def)
  next
    case False
    with r m' below_unsigned [of r stop] show ?thesis
      by (auto simp: s2e_range_def store_u32_def value_of_def Let_def simp del: drop_bit_minus_one)
  qed
  then show "\<exists>hv. ends_at_kill hv \<and> (\<exists>m'. s2e_range hv place x_at start stop name m = Inr (r, m'))"
    using hv_writes_ends by blast
qed

theorem s2e_range_values_witness:
  "{r. \<exists>hv m'. ends_at_kill hv \<and> s2e_range hv (\<lambda>_. 0x2000) 0x1000 (-1) 3 0x3000
      \<lparr>memory = (\<lambda>_. 0), paged = [], issued = []\<rparr> = Inr (r, m')} = {r. -1 \<le> sint r \<and> sint r < 3}"
  using s2e_range_values [where m = "\<lparr>memory = (\<lambda>_. 0), paged = [], issued = []\<rparr>" and name = "0x3000" and n = "0"
      and x_at = "0x1000" and place = "\<lambda>_. 0x2000" and start = "-1" and stop = "3"] by simp

section \<open>Paging in\<close>

text \<open>
  What the code reads before it passes an address: \<open>s2e_message\<close> all of the string, and so it does not
  return when no zero byte follows; \<open>s2e_make_symbolic\<close> all of the name but one byte of the buffer, however
  long it is; \<open>s2e_enter_function\<close> and \<open>s2e_kill_state\<close> nothing of their strings.
\<close>

definition read_ahead :: "hv_end + 'a \<times> machine \<Rightarrow> ulong set option" where
  "read_ahead r = (case r of Inl (Path_Ended m) \<Rightarrow> Some (set (paged m)) | Inl Runs_Forever \<Rightarrow> None
     | Inr (v, m) \<Rightarrow> Some (set (paged m)))"

theorem paged_in_before_call:
  assumes "paged m = []"
  shows "read_ahead (s2e_message hv message m) = map_option set (scan (memory m) message)"
    and "read_ahead (s2e_message hv message m) = None \<longleftrightarrow> (\<forall>n. memory m (message + of_nat n) \<noteq> 0)"
    and "scan (memory m) name = Some ps \<Longrightarrow> sz \<noteq> 0 \<Longrightarrow>
      read_ahead (s2e_make_symbolic hv buf sz name m) = Some (set ps \<union> {buf})"
    and "read_ahead (s2e_enter_function hv line message wt m) = Some {}"
    and "read_ahead (s2e_kill_state hv kill_all status message m) = Some {}"
  using assms scan_total_iff [of "memory m" message]
  by (auto simp: read_ahead_def s2e_message_def s2e_make_symbolic_def s2e_enter_function_def s2e_kill_state_def
      u2_s2e_touch_string_def u2_s2e_touch_buffer_def void_asm_def asm_def Let_def unat_eq_0
      split: option.splits sum.splits prod.splits)

end
