(* ===== verification/Checks_Spin.thy ===== *)
theory Checks_Spin
  imports Check_Safety
begin

text \<open>
  The checks of spin locks as \<open>misc_checks/main.c\<close> compiles them for older kernels, with \<open>ENABLE_SPIN_LOCK\<close>
  defined: the functions \<open>_spin_lock\<close>, \<open>spin_lock\<close> and their variants beside \<open>_raw_spin_lock\<close>. Each behaves
  as the raw one, so that what is proved of those holds for them: they are steps of a run of checks.
\<close>

section \<open>Routines\<close>

definition u2_spin_lock_init_MJRcheck :: "string \<Rightarrow> int \<Rightarrow> ulong \<Rightarrow> ('a test_state_scheme) check" where
  "u2_spin_lock_init_MJRcheck fn prepost lock = check_routine 0 (generic_lock_allocator fn prepost lock ORIGIN_SPIN_LOCK)"

definition spin_lock_init_MJRcheck :: "string \<Rightarrow> int \<Rightarrow> ulong \<Rightarrow> ('a test_state_scheme) check" where
  "spin_lock_init_MJRcheck fn prepost lock = check_routine 0 (generic_lock_allocator fn prepost lock ORIGIN_SPIN_LOCK)"

definition u1_spin_lock_MJRcheck :: "string \<Rightarrow> int \<Rightarrow> ulong \<Rightarrow> ulong \<Rightarrow> ('a test_state_scheme) check" where
  "u1_spin_lock_MJRcheck fn prepost lockp lock = check_routine 0 (block
    [tfassert (\<lambda>_. lockp > 0x1000) ''Incorrect lock provided'',
     generic_lock_state fn prepost lock ORIGIN_SPIN_LOCK SPIN_LOCK 1])"

definition spin_lock_MJRcheck :: "string \<Rightarrow> int \<Rightarrow> ulong \<Rightarrow> ulong \<Rightarrow> ('a test_state_scheme) check" where
  "spin_lock_MJRcheck fn prepost lockp lock = check_routine 0 (block
    [tfassert (\<lambda>_. lockp > 0x1000) ''Incorrect lock provided'',
     generic_lock_state fn prepost lock ORIGIN_SPIN_LOCK SPIN_LOCK 1])"

definition u1_spin_lock_bh_MJRcheck :: "string \<Rightarrow> int \<Rightarrow> ulong \<Rightarrow> ulong \<Rightarrow> ('a test_state_scheme) check" where
  "u1_spin_lock_bh_MJRcheck fn prepost lockp lock = check_routine 0 (block
    [tfassert (\<lambda>_. lockp > 0x1000) ''Incorrect lock provided'',
     generic_lock_state fn prepost lock ORIGIN_SPIN_LOCK SPIN_LOCK_BH 1])"

definition spin_lock_bh_MJRcheck :: "string \<Rightarrow> int \<Rightarrow> ulong \<Rightarrow> ulong \<Rightarrow> ('a test_state_scheme) check" where
  "spin_lock_bh_MJRcheck fn prepost lockp lock = check_routine 0 (block
    [tfassert (\<lambda>_. lockp > 0x1000) ''Incorrect lock provided'',
     generic_lock_state fn prepost lock ORIGIN_SPIN_LOCK SPIN_LOCK_BH 1])"

definition u1_spin_lock_irqsave_MJRcheck :: "string \<Rightarrow> int \<Rightarrow> ulong \<Rightarrow> ulong \<Rightarrow> ('a test_state_scheme) check" where
  "u1_spin_lock_irqsave_MJRcheck fn prepost lockp lock = check_routine 0 (block
    [tfassert (\<lambda>_. lockp > 0x1000) ''Incorrect lock provided'',
     generic_lock_state fn prepost lock ORIGIN_SPIN_LOCK SPIN_LOCK_IRQSAVE 1])"

definition spin_lock_irqsave_MJRcheck :: "string \<Rightarrow> int \<Rightarrow> ulong \<Rightarrow> ulong \<Rightarrow> ('a test_state_scheme) check" where
  "spin_lock_irqsave_MJRcheck fn prepost lockp lock = check_routine 0 (block
    [tfassert (\<lambda>_. lockp > 0x1000) ''Incorrect lock provided'',
     generic_lock_state fn prepost lock ORIGIN_SPIN_LOCK SPIN_LOCK_IRQSAVE 1])"

definition u1_spin_lock_irq_MJRcheck :: "string \<Rightarrow> int \<Rightarrow> ulong \<Rightarrow> ulong \<Rightarrow> ('a test_state_scheme) check" where
  "u1_spin_lock_irq_MJRcheck fn prepost lockp lock = check_routine 0 (block
    [tfassert (\<lambda>_. lockp > 0x1000) ''Incorrect lock provided'',
     generic_lock_state fn prepost lock ORIGIN_SPIN_LOCK SPIN_LOCK_IRQ 1])"

definition spin_lock_irq_MJRcheck :: "string \<Rightarrow> int \<Rightarrow> ulong \<Rightarrow> ulong \<Rightarrow> ('a test_state_scheme) check" where
  "spin_lock_irq_MJRcheck fn prepost lockp lock = check_routine 0 (block
    [tfassert (\<lambda>_. lockp > 0x1000) ''Incorrect lock provided'',
     generic_lock_state fn prepost lock ORIGIN_SPIN_LOCK SPIN_LOCK_IRQ 1])"

definition u1_spin_unlock_MJRcheck :: "string \<Rightarrow> int \<Rightarrow> ulong \<Rightarrow> ulong \<Rightarrow> ('a test_state_scheme) check" where
  "u1_spin_unlock_MJRcheck fn prepost lockp lock = check_routine 0 (block
    [tfassert (\<lambda>_. lockp > 0x1000) ''Incorrect lock provided'',
     generic_lock_state fn prepost lock ORIGIN_SPIN_LOCK SPIN_LOCK (-1)])"

definition spin_unlock_MJRcheck :: "string \<Rightarrow> int \<Rightarrow> ulong \<Rightarrow> ulong \<Rightarrow> ('a test_state_scheme) check" where
  "spin_unlock_MJRcheck fn prepost lockp lock = check_routine 0 (block
    [tfassert (\<lambda>_. lockp > 0x1000) ''Incorrect lock provided'',
     generic_lock_state fn prepost lock ORIGIN_SPIN_LOCK SPIN_LOCK (-1)])"

definition u1_spin_unlock_bh_MJRcheck :: "string \<Rightarrow> int \<Rightarrow> ulong \<Rightarrow> ulong \<Rightarrow> ('a test_state_scheme) check" where
  "u1_spin_unlock_bh_MJRcheck fn prepost lockp lock = check_routine 0 (block
    [tfassert (\<lambda>_. lockp > 0x1000) ''Incorrect lock provided'',
     generic_lock_state fn prepost lock ORIGIN_SPIN_LOCK SPIN_LOCK_BH (-1)])"

definition spin_unlock_bh_MJRcheck :: "string \<Rightarrow> int \<Rightarrow> ulong \<Rightarrow> ulong \<Rightarrow> ('a test_state_scheme) check" where
  "spin_unlock_bh_MJRcheck fn prepost lockp lock = check_routine 0 (block
    [tfassert (\<lambda>_. lockp > 0x1000) ''Incorrect lock provided'',
     generic_lock_state fn prepost lock ORIGIN_SPIN_LOCK SPIN_LOCK_BH (-1)])"

definition u1_spin_unlock_irqrestore_MJRcheck :: "string \<Rightarrow> int \<Rightarrow> ulong \<Rightarrow> ulong \<Rightarrow> ('a test_state_scheme) check" where
  "u1_spin_unlock_irqrestore_MJRcheck fn prepost lockp lock = check_routine 0 (block
    [tfassert (\<lambda>_. lockp > 0x1000) ''Incorrect lock provided'',
     generic_lock_state fn prepost lock ORIGIN_SPIN_LOCK SPIN_LOCK_IRQSAVE (-1)])"

definition spin_unlock_irqrestore_MJRcheck :: "string \<Rightarrow> int \<Rightarrow> ulong \<Rightarrow> ulong \<Rightarrow> ('a test_state_scheme) check" where
  "spin_unlock_irqrestore_MJRcheck fn prepost lockp lock = check_routine 0 (block
    [tfassert (\<lambda>_. lockp > 0x1000) ''Incorrect lock provided'',
     generic_lock_state fn prepost lock ORIGIN_SPIN_LOCK SPIN_LOCK_IRQSAVE (-1)])"

definition u1_spin_unlock_irq_MJRcheck :: "string \<Rightarrow> int \<Rightarrow> ulong \<Rightarrow> ulong \<Rightarrow> ('a test_state_scheme) check" where
  "u1_spin_unlock_irq_MJRcheck fn prepost lockp lock = check_routine 0 (block
    [tfassert (\<lambda>_. lockp > 0x1000) ''Incorrect lock provided'',
     generic_lock_state fn prepost lock ORIGIN_SPIN_LOCK SPIN_LOCK_IRQ (-1)])"

definition spin_unlock_irq_MJRcheck :: "string \<Rightarrow> int \<Rightarrow> ulong \<Rightarrow> ulong \<Rightarrow> ('a test_state_scheme) check" where
  "spin_unlock_irq_MJRcheck fn prepost lockp lock = check_routine 0 (block
    [tfassert (\<lambda>_. lockp > 0x1000) ''Incorrect lock provided'',
     generic_lock_state fn prepost lock ORIGIN_SPIN_LOCK SPIN_LOCK_IRQ (-1)])"

definition u1_spin_trylock_MJRcheck :: "string \<Rightarrow> int \<Rightarrow> int \<Rightarrow> ulong \<Rightarrow> ulong \<Rightarrow> ('a test_state_scheme) check" where
  "u1_spin_trylock_MJRcheck fn prepost retval lockp lock = check_routine 0 (block
    [tfassert (\<lambda>_. lockp > 0x1000) ''Incorrect lock provided'',
     if prepost = 1 \<and> retval \<noteq> 0 then generic_lock_state fn prepost lock ORIGIN_SPIN_LOCK GENERIC_LOCK 1
     else skip])"

lemmas spin_defs =
  u2_spin_lock_init_MJRcheck_def spin_lock_init_MJRcheck_def u1_spin_lock_MJRcheck_def
  spin_lock_MJRcheck_def u1_spin_lock_bh_MJRcheck_def spin_lock_bh_MJRcheck_def
  u1_spin_lock_irqsave_MJRcheck_def spin_lock_irqsave_MJRcheck_def u1_spin_lock_irq_MJRcheck_def
  spin_lock_irq_MJRcheck_def u1_spin_unlock_MJRcheck_def spin_unlock_MJRcheck_def
  u1_spin_unlock_bh_MJRcheck_def spin_unlock_bh_MJRcheck_def u1_spin_unlock_irqrestore_MJRcheck_def
  spin_unlock_irqrestore_MJRcheck_def u1_spin_unlock_irq_MJRcheck_def spin_unlock_irq_MJRcheck_def
  u1_spin_trylock_MJRcheck_def u1_raw_spin_lock_MJRcheck_def u1_raw_spin_lock_bh_MJRcheck_def
  u1_raw_spin_lock_irq_MJRcheck_def u1_raw_spin_lock_irqsave_MJRcheck_def u1_raw_spin_trylock_MJRcheck_def
  u1_raw_spin_unlock_MJRcheck_def u1_raw_spin_unlock_bh_MJRcheck_def u1_raw_spin_unlock_irq_MJRcheck_def
  u1_raw_spin_unlock_irqrestore_MJRcheck_def u2_raw_spin_lock_init_MJRcheck_def

section \<open>The same as the raw ones\<close>

lemma spin_is_raw:
  "u2_spin_lock_init_MJRcheck = u2_raw_spin_lock_init_MJRcheck"
  "spin_lock_init_MJRcheck = u2_raw_spin_lock_init_MJRcheck"
  "u1_spin_lock_MJRcheck = u1_raw_spin_lock_MJRcheck"
  "spin_lock_MJRcheck = u1_raw_spin_lock_MJRcheck"
  "u1_spin_lock_bh_MJRcheck = u1_raw_spin_lock_bh_MJRcheck"
  "spin_lock_bh_MJRcheck = u1_raw_spin_lock_bh_MJRcheck"
  "u1_spin_lock_irqsave_MJRcheck = u1_raw_spin_lock_irqsave_MJRcheck"
  "spin_lock_irqsave_MJRcheck = u1_raw_spin_lock_irqsave_MJRcheck"
  "u1_spin_lock_irq_MJRcheck = u1_raw_spin_lock_irq_MJRcheck"
  "spin_lock_irq_MJRcheck = u1_raw_spin_lock_irq_MJRcheck"
  "u1_spin_unlock_MJRcheck = u1_raw_spin_unlock_MJRcheck"
  "spin_unlock_MJRcheck = u1_raw_spin_unlock_MJRcheck"
  "u1_spin_unlock_bh_MJRcheck = u1_raw_spin_unlock_bh_MJRcheck"
  "spin_unlock_bh_MJRcheck = u1_raw_spin_unlock_bh_MJRcheck"
  "u1_spin_unlock_irqrestore_MJRcheck = u1_raw_spin_unlock_irqrestore_MJRcheck"
  "spin_unlock_irqrestore_MJRcheck = u1_raw_spin_unlock_irqrestore_MJRcheck"
  "u1_spin_unlock_irq_MJRcheck = u1_raw_spin_unlock_irq_MJRcheck"
  "spin_unlock_irq_MJRcheck = u1_raw_spin_unlock_irq_MJRcheck"
  "u1_spin_trylock_MJRcheck = u1_raw_spin_trylock_MJRcheck"
  by ((rule ext)+, simp only: spin_defs)+

text \<open>So a run of checks may contain them, and keeps the invariant.\<close>

lemma spin_lock_routines:
  "lock_routine pp lock (ignore_result (u1_spin_lock_MJRcheck fn pp lockp lock))"
  "lock_routine pp lock (ignore_result (spin_lock_MJRcheck fn pp lockp lock))"
  "lock_routine pp lock (ignore_result (u1_spin_lock_bh_MJRcheck fn pp lockp lock))"
  "lock_routine pp lock (ignore_result (spin_lock_bh_MJRcheck fn pp lockp lock))"
  "lock_routine pp lock (ignore_result (u1_spin_lock_irqsave_MJRcheck fn pp lockp lock))"
  "lock_routine pp lock (ignore_result (spin_lock_irqsave_MJRcheck fn pp lockp lock))"
  "lock_routine pp lock (ignore_result (u1_spin_lock_irq_MJRcheck fn pp lockp lock))"
  "lock_routine pp lock (ignore_result (spin_lock_irq_MJRcheck fn pp lockp lock))"
  "lock_routine pp lock (ignore_result (u1_spin_unlock_MJRcheck fn pp lockp lock))"
  "lock_routine pp lock (ignore_result (spin_unlock_MJRcheck fn pp lockp lock))"
  "lock_routine pp lock (ignore_result (u1_spin_unlock_bh_MJRcheck fn pp lockp lock))"
  "lock_routine pp lock (ignore_result (spin_unlock_bh_MJRcheck fn pp lockp lock))"
  "lock_routine pp lock (ignore_result (u1_spin_unlock_irqrestore_MJRcheck fn pp lockp lock))"
  "lock_routine pp lock (ignore_result (spin_unlock_irqrestore_MJRcheck fn pp lockp lock))"
  "lock_routine pp lock (ignore_result (u1_spin_unlock_irq_MJRcheck fn pp lockp lock))"
  "lock_routine pp lock (ignore_result (spin_unlock_irq_MJRcheck fn pp lockp lock))"
  "lock_routine pp lock (ignore_result (u1_spin_trylock_MJRcheck fn pp retval lockp lock))"
  by (simp_all only: spin_is_raw lock_routine.intros)

lemma spin_init_routines:
  "routine (ignore_result (u2_spin_lock_init_MJRcheck fn pp x))"
  "routine (ignore_result (spin_lock_init_MJRcheck fn pp x))"
  by (simp_all only: spin_is_raw routine_intros)

end
