(* ===== verification/Symbolic_Devices.thy ===== *)
theory Symbolic_Devices
  imports Module_Init
begin

text \<open>
  The devices the framework makes up: \<open>bus_generic_pci.c\<close> takes the symbolic PCI device the hypervisor
  offers, and \<open>bus_platform.c\<close>, \<open>bus_i2c.c\<close> and \<open>bus_spi.c\<close> present it to the kernel as a platform
  device, as chips on an I2C adapter, or as an SPI slave. With them the loading and unloading of the module
  under Linux, the rest of \<open>init_module.c\<close> and the registration of \<open>testing_ep_control.c\<close>. The functions of
  the kernel's driver core are parameters, gathered in \<open>linux_core\<close>; those that call back are given the
  function to call. Pointers are addresses, zero for \<open>NULL\<close>. The callbacks the framework hands to the
  kernel (\<open>symspi_*\<close>, the I2C algorithm) are separate definitions; the tests of type sizes, which the
  compiler decides, are left out.
\<close>

section \<open>Data\<close>

definition PCI_MAX_RESOURCES :: nat where "PCI_MAX_RESOURCES = 6"
definition MAX_CHIPS :: nat where "MAX_CHIPS = 8"
definition IORESOURCE_MEM :: ulong where "IORESOURCE_MEM = 0x00000200"
definition IORESOURCE_IRQ :: ulong where "IORESOURCE_IRQ = 0x00000400"

type_synonym u16 = "16 word"

record resource =
  res_start :: ulong
  res_end :: ulong
  res_name :: "string option"
  res_flags :: ulong

record platform_device =
  plat_name :: string
  plat_id :: int
  num_resources :: int
  plat_resource :: "resource list"

record i2c_board_info =
  i2c_type :: string
  i2c_addr :: u16
  i2c_irq :: u32

record spi_board_info =
  modalias :: string
  spi_irq :: u32
  max_speed_hz :: int
  spi_bus_num :: int
  chip_select :: int
  spi_mode :: u32

record symspi_private =
  spi_pdev :: ulong
  spi_master :: ulong
  master_bus_num :: int
  num_chipselect :: int
  mode_bits :: u32
  bitbang_master :: ulong
  spi_board :: spi_board_info
  spi_device :: ulong

text \<open>The module parameters of Linux, then the static variables of the four files.\<close>

record dev_state = mod_state +
  g_sym_params :: int
  g_platform_enable :: int
  g_platform_name :: string
  g_platform_nr :: int
  g_platform_rflags :: "ulong list"
  g_platform_rnames :: "string option list"
  g_i2c_enable :: int
  g_i2c_chip_addr :: "u16 list"
  g_i2c_functionality :: ulong
  g_i2c_names :: "string option list"
  g_spi_enable :: int
  g_spi_name :: string
  pci_cur_device :: ulong
  pci_drvdata :: "ulong \<Rightarrow> ulong option"
  platform_pdev :: ulong
  tf_platform_resources :: "resource list"
  tf_platform_device :: platform_device
  i2c_pdev :: ulong
  i2c_board :: "i2c_board_info list"
  i2c_clients :: "ulong list"
  spi_private :: "symspi_private option"

record 's linux_core =
  misc_register :: "'s check"
  misc_deregister :: "'s check"
  pci_register_driver :: "(ulong \<Rightarrow> 's check) \<Rightarrow> 's check"
  pci_unregister_driver :: "(ulong \<Rightarrow> 's act) \<Rightarrow> 's act"
  pci_enable_device :: "ulong \<Rightarrow> 's check"
  pci_disable_device :: "ulong \<Rightarrow> 's act"
  pci_resource_start :: "ulong \<Rightarrow> nat \<Rightarrow> ulong"
  pci_resource_end :: "ulong \<Rightarrow> nat \<Rightarrow> ulong"
  dev_resource_start :: "ulong \<Rightarrow> nat \<Rightarrow> ulong"
  dev_irq :: "ulong \<Rightarrow> u32"
  platform_device_register :: "platform_device \<Rightarrow> 's check"
  platform_device_unregister :: "platform_device \<Rightarrow> 's act"
  i2c_add_adapter :: "'s check"
  i2c_del_adapter :: "'s act"
  i2c_new_device :: "i2c_board_info \<Rightarrow> (ulong, 's) prog"
  i2c_unregister_device :: "ulong \<Rightarrow> 's act"
  I2C_NAME_SIZE :: nat
  spi_alloc_master :: "ulong \<Rightarrow> (ulong, 's) prog"
  spi_master_get :: "ulong \<Rightarrow> (ulong, 's) prog"
  spi_master_put :: "ulong \<Rightarrow> 's act"
  spi_bitbang_start :: "symspi_private \<Rightarrow> 's check"
  spi_bitbang_stop :: "symspi_private \<Rightarrow> 's act"
  spi_new_device :: "spi_board_info \<Rightarrow> (ulong, 's) prog"
  SPI_CPOL :: u32
  SPI_CPHA :: u32
  SPI_CS_HIGH :: u32

section \<open>The symbolic PCI device\<close>

text \<open>
  The private structure of the PCI driver holds the device alone; \<open>pci_drvdata\<close> is the driver data of each
  device, as \<open>pci_set_drvdata\<close> stores it and \<open>pci_get_drvdata\<close> reads it. For a resource that is not there the code
  prints \<open>"%s: no resource defined at index %d"\<close> with the index, at most 5, as its one argument. By the C standard
  this is undefined; the kernel's \<open>printk\<close> prints a string pointer below the first page as \<open>(null)\<close> and the
  missing number as whatever it finds, and goes on, which is what the model does.
\<close>

definition check_resource :: "('a dev_state_scheme) linux_core \<Rightarrow> ulong \<Rightarrow> nat \<Rightarrow> ('a dev_state_scheme) act" where
  "check_resource k pdev i =
     (if pci_resource_start k pdev i \<noteq> 0 then
        if dev_resource_start k pdev i \<noteq> pci_resource_start k pdev i then fail (Panic ''pci_platform_probe: resource'')
        else skip
      else skip)"

definition pci_platform_probe :: "('a dev_state_scheme) linux_core \<Rightarrow> ulong \<Rightarrow> ('a dev_state_scheme) check" where
  "pci_platform_probe k pdev = returning 0 (block
     [with_result mjr_kmalloc (\<lambda>ok. if ok then skip else fail (Panic ''Failed to allocate memory'')),
      cond (\<lambda>s. pci_cur_device s \<noteq> 0) (fail (Panic ''Misunderstanding with respect to pci_cur_device'')) skip,
      update (\<lambda>s. s\<lparr>pci_cur_device := pdev\<rparr>),
      with_result (pci_enable_device k pdev) (\<lambda>rc. if rc \<noteq> 0 then fail (Panic ''pci_enable_device failed'') else skip),
      block (map (check_resource k pdev) [0..<PCI_MAX_RESOURCES]),
      update (\<lambda>s. s\<lparr>pci_drvdata := (pci_drvdata s)(pdev := Some pdev)\<rparr>)])"

definition pci_platform_remove_one :: "('a dev_state_scheme) linux_core \<Rightarrow> ulong \<Rightarrow> ('a dev_state_scheme) act" where
  "pci_platform_remove_one k pdev = with_state (\<lambda>s. let private = pci_drvdata s pdev in block
     [cond (\<lambda>s. pci_cur_device s = 0) (fail (Panic ''Misunderstanding'')) skip,
      if private \<noteq> None then
        block [pci_disable_device k pdev, update (\<lambda>s. s\<lparr>pci_drvdata := (pci_drvdata s)(pdev := None)\<rparr>)]
      else skip,
      update (\<lambda>s. s\<lparr>pci_cur_device := 0\<rparr>)])"

definition initialize_pci_device :: "('a dev_state_scheme) linux_core \<Rightarrow> (ulong, 'a dev_state_scheme) prog" where
  "initialize_pci_device k = (\<lambda>s.
     case block
       [with_result (pci_register_driver k (pci_platform_probe k))
          (\<lambda>ret. if ret \<noteq> 0 then fail (Panic ''pci_register_driver failed'') else skip),
        cond (\<lambda>s. pci_cur_device s = 0) (fail (Panic ''Misunderstanding pci_cur_device'')) skip] s of
       Inl e \<Rightarrow> Inl e
     | Inr t \<Rightarrow> Inr (pci_cur_device t, t))"

definition free_pci_device :: "('a dev_state_scheme) linux_core \<Rightarrow> ulong \<Rightarrow> ('a dev_state_scheme) act" where
  "free_pci_device k dev = block
     [cond (\<lambda>s. dev \<noteq> pci_cur_device s) (fail (Panic ''Misunderstandig pci_cur_device != dev'')) skip,
      pci_unregister_driver k (pci_platform_remove_one k),
      cond (\<lambda>s. pci_cur_device s \<noteq> 0) (fail (Panic ''Misunderstanding pci_cur_device'')) skip]"

section \<open>The platform device\<close>

definition setup_resource :: "('a dev_state_scheme) linux_core \<Rightarrow> nat \<Rightarrow> ('a dev_state_scheme) act" where
  "setup_resource k i = with_state (\<lambda>s.
     let rflags = g_platform_rflags s ! i; name = g_platform_rnames s ! i in
     if rflags AND IORESOURCE_MEM \<noteq> 0 then
       update (\<lambda>s. s\<lparr>tf_platform_resources := (tf_platform_resources s)[i :=
         \<lparr>res_start = pci_resource_start k (platform_pdev s) i, res_end = pci_resource_end k (platform_pdev s) i,
          res_name = name, res_flags = rflags\<rparr>]\<rparr>)
     else if rflags AND IORESOURCE_IRQ \<noteq> 0 then
       update (\<lambda>s. s\<lparr>tf_platform_resources := (tf_platform_resources s)[i :=
         \<lparr>res_start = dev_irq k (platform_pdev s), res_end = 0, res_name = name, res_flags = rflags\<rparr>]\<rparr>)
     else fail (Panic ''How are we going to hack this flags in''))"

definition setup_platform_device :: "('a dev_state_scheme) linux_core \<Rightarrow> ('a dev_state_scheme) act" where
  "setup_platform_device k = block
     [cond (\<lambda>s. g_platform_name s = '''') (fail (Panic ''Need to specify a platform device name with g_platform_name'')) skip,
      cond (\<lambda>s. g_platform_nr s > int PCI_MAX_RESOURCES) (fail (Panic ''Invalid number of resources'')) skip,
      with_state (\<lambda>s. block (map (setup_resource k) [0..<nat (g_platform_nr s)])),
      update (\<lambda>s. s\<lparr>tf_platform_device := \<lparr>plat_name = g_platform_name s, plat_id = -1,
        num_resources = g_platform_nr s, plat_resource = tf_platform_resources s\<rparr>\<rparr>),
      with_state (\<lambda>s. with_result (platform_device_register k (tf_platform_device s))
        (\<lambda>ret. if ret \<noteq> 0 then fail (Panic ''Could not register test framework platform device.'') else skip))]"

definition initialize_platform_device :: "('a dev_state_scheme) linux_core \<Rightarrow> ('a dev_state_scheme) check" where
  "initialize_platform_device k = returning 0 (onlyif (\<lambda>s. g_platform_enable s \<noteq> 0)
     (with_result (initialize_pci_device k) (\<lambda>pdev. block
       [cond (\<lambda>s. platform_pdev s \<noteq> 0) (fail (Panic ''initialize_platform_device: Misunderstanding'')) skip,
        update (\<lambda>s. s\<lparr>platform_pdev := pdev\<rparr>),
        setup_platform_device k])))"

definition free_platform_device :: "('a dev_state_scheme) linux_core \<Rightarrow> ('a dev_state_scheme) act" where
  "free_platform_device k = onlyif (\<lambda>s. g_platform_enable s \<noteq> 0) (block
     [with_state (\<lambda>s. platform_device_unregister k (tf_platform_device s)),
      with_state (\<lambda>s. free_pci_device k (platform_pdev s)),
      cond (\<lambda>s. platform_pdev s = 0) (fail (Panic ''free_platform_device: Misunderstanding'')) skip,
      update (\<lambda>s. s\<lparr>platform_pdev := 0\<rparr>)])"

section \<open>Chips on the I2C bus\<close>

text \<open>Every loop over the chips runs to the first address that is zero, or to the end of the array.\<close>

definition chips :: "'a dev_state_scheme \<Rightarrow> (nat \<times> u16) list" where
  "chips s = enumerate 0 (takeWhile (\<lambda>a. a \<noteq> 0) (take MAX_CHIPS (g_i2c_chip_addr s)))"

definition cleanup_chip :: "('a dev_state_scheme) linux_core \<Rightarrow> nat \<times> u16 \<Rightarrow> ('a dev_state_scheme) act" where
  "cleanup_chip k = (\<lambda>(i, addr). with_state (\<lambda>s. let client = i2c_clients s ! i in
     if client \<noteq> 0 then
       block [i2c_unregister_device k client, update (\<lambda>s. s\<lparr>i2c_clients := (i2c_clients s)[i := 0]\<rparr>)]
     else skip))"

definition cleanup_devices :: "('a dev_state_scheme) linux_core \<Rightarrow> ('a dev_state_scheme) check" where
  "cleanup_devices k = returning 0 (with_state (\<lambda>s. block (map (cleanup_chip k) (chips s))))"

definition alloc_chips :: "('a dev_state_scheme) check" where
  "alloc_chips = (\<lambda>s. Inr (if \<exists>(i, addr) \<in> set (chips s). addr < 0x03 \<or> addr > 0x77 then - EINVAL s else 0, s))"

fun alloc_from :: "('a dev_state_scheme) linux_core \<Rightarrow> (nat \<times> u16) list \<Rightarrow> ('a dev_state_scheme) act" where
  "alloc_from k [] = skip"
| "alloc_from k ((i, addr) # rest) = with_state (\<lambda>s. case g_i2c_names s ! i of
       None \<Rightarrow> fail Null_Deref
     | Some name \<Rightarrow>
         if length name \<ge> I2C_NAME_SIZE k then fail Out_Of_Bounds
         else block
           [update (\<lambda>s. s\<lparr>i2c_board := (i2c_board s)[i :=
              \<lparr>i2c_type = name, i2c_addr = addr, i2c_irq = dev_irq k (i2c_pdev s)\<rparr>]\<rparr>),
            with_state (\<lambda>s. with_result (i2c_new_device k (i2c_board s ! i)) (\<lambda>client. block
              [update (\<lambda>s. s\<lparr>i2c_clients := (i2c_clients s)[i := client]\<rparr>),
               if client = 0 then ignore_result (cleanup_devices k) else alloc_from k rest]))])"

definition alloc_devices :: "('a dev_state_scheme) linux_core \<Rightarrow> ('a dev_state_scheme) check" where
  "alloc_devices k = returning 0 (block
     [cond (\<lambda>s. i2c_pdev s = 0) (fail (Panic ''Misunderstanding in alloc_devices'')) skip,
      with_state (\<lambda>s. alloc_from k (chips s))])"

definition setup_i2c_devices :: "('a dev_state_scheme) linux_core \<Rightarrow> ('a dev_state_scheme) act" where
  "setup_i2c_devices k = block
     [cond (\<lambda>s. g_i2c_chip_addr s ! 0 = 0) (fail (Panic ''i2c-stub: Please specify a chip address'')) skip,
      must_succeed ''alloc_chips failed'' alloc_chips,
      must_succeed ''i2c_add_adapter failed'' (i2c_add_adapter k),
      must_succeed ''alloc_devices failed'' (alloc_devices k)]"

definition initialize_i2c_device :: "('a dev_state_scheme) linux_core \<Rightarrow> ('a dev_state_scheme) check" where
  "initialize_i2c_device k = returning 0 (onlyif (\<lambda>s. g_i2c_enable s \<noteq> 0)
     (with_result (initialize_pci_device k) (\<lambda>pdev. block
       [cond (\<lambda>s. i2c_pdev s \<noteq> 0) (fail (Panic ''initialize_i2c_device: Misunderstanding'')) skip,
        update (\<lambda>s. s\<lparr>i2c_pdev := pdev\<rparr>),
        setup_i2c_devices k])))"

definition free_i2c_device :: "('a dev_state_scheme) linux_core \<Rightarrow> ('a dev_state_scheme) act" where
  "free_i2c_device k = onlyif (\<lambda>s. g_i2c_enable s \<noteq> 0) (block
     [ignore_result (cleanup_devices k),
      i2c_del_adapter k,
      with_state (\<lambda>s. free_pci_device k (i2c_pdev s)),
      cond (\<lambda>s. i2c_pdev s = 0) (fail (Panic ''free_i2c_device: Misunderstanding'')) skip,
      update (\<lambda>s. s\<lparr>i2c_pdev := 0\<rparr>)])"

section \<open>The SPI slave\<close>

text \<open>
  The structure lies in the memory of the master; \<open>spi_master_put\<close> may free it, and the pointer stays. The calls of
  the kernel may write to it, as \<open>spi_bitbang_start\<close> does with the number of the bus, so each access goes through
  the pointer again. \<open>g_spi_name\<close> has room for 31 characters, as the name in the board has.
\<close>

definition with_spi :: "(symspi_private \<Rightarrow> ('a dev_state_scheme) act) \<Rightarrow> ('a dev_state_scheme) act" where
  "with_spi f = with_state (\<lambda>s. deref (spi_private s) f)"

definition update_spi :: "(symspi_private \<Rightarrow> symspi_private) \<Rightarrow> ('a dev_state_scheme) act" where
  "update_spi f = with_spi (\<lambda>p. update (\<lambda>s. s\<lparr>spi_private := Some (f p)\<rparr>))"

definition setup_spi_devices :: "('a dev_state_scheme) linux_core \<Rightarrow> ulong \<Rightarrow> ('a dev_state_scheme) act" where
  "setup_spi_devices k pdev = with_result (spi_alloc_master k pdev) (\<lambda>master.
     if master = 0 then fail (Panic ''failed to allocate master'')
     else
       let board = \<lparr>modalias = '''', spi_irq = 0, max_speed_hz = 0, spi_bus_num = 0, chip_select = 0, spi_mode = 0\<rparr>
       in block
        [update (\<lambda>s. s\<lparr>spi_private := Some \<lparr>spi_pdev = pdev, spi_master = master, master_bus_num = -1, num_chipselect = 16,
           mode_bits = SPI_CPOL k OR SPI_CPHA k OR SPI_CS_HIGH k, bitbang_master = 0, spi_board = board, spi_device = 0\<rparr>\<rparr>),
         with_spi (\<lambda>p. with_result (spi_master_get k (spi_master p)) (\<lambda>m. update_spi (\<lambda>p. p\<lparr>bitbang_master := m\<rparr>))),
         with_spi (\<lambda>p. if bitbang_master p = 0 then fail (Panic ''spi_master_get failed'') else skip),
         with_spi (\<lambda>p. with_result (spi_bitbang_start k p)
           (\<lambda>r. if r \<noteq> 0 then fail (Panic ''failed to register master with spi_bitbang_start'') else skip)),
         with_state (\<lambda>s. update_spi (\<lambda>p. p\<lparr>spi_board := \<lparr>modalias = g_spi_name s, spi_irq = dev_irq k pdev,
           max_speed_hz = 10000000, spi_bus_num = master_bus_num p, chip_select = 0, spi_mode = SPI_CS_HIGH k\<rparr>\<rparr>)),
         with_spi (\<lambda>p. with_result (spi_new_device k (spi_board p)) (\<lambda>d. update_spi (\<lambda>p. p\<lparr>spi_device := d\<rparr>))),
         with_spi (\<lambda>p. if spi_device p = 0 then fail (Panic ''failed to create spi_device'') else skip)])"

definition cleanup_spi_device :: "('a dev_state_scheme) linux_core \<Rightarrow> (ulong, 'a dev_state_scheme) prog" where
  "cleanup_spi_device k = (\<lambda>s. case spi_private s of
       None \<Rightarrow> Inl Null_Deref
     | Some p \<Rightarrow> (case block [spi_bitbang_stop k p, spi_master_put k (spi_master p)] s of
           Inl e \<Rightarrow> Inl e
         | Inr t \<Rightarrow> Inr (spi_pdev p, t)))"

definition initialize_spi_device :: "('a dev_state_scheme) linux_core \<Rightarrow> ('a dev_state_scheme) check" where
  "initialize_spi_device k = returning 0 (onlyif (\<lambda>s. g_spi_enable s \<noteq> 0)
     (with_result (initialize_pci_device k) (setup_spi_devices k)))"

definition free_spi_device :: "('a dev_state_scheme) linux_core \<Rightarrow> ('a dev_state_scheme) act" where
  "free_spi_device k = onlyif (\<lambda>s. g_spi_enable s \<noteq> 0)
     (with_result (cleanup_spi_device k) (free_pci_device k))"

end
