(* ===== verification/Linux_Module.thy ===== *)
theory Linux_Module
  imports Symbolic_Devices
begin

text \<open>
  Loading and unloading the module under Linux: \<open>linux_init\<close> and \<open>linux_cleanup\<close> of \<open>init_module.c\<close> and the
  registration of the control device of \<open>testing_ep_control.c\<close>. \<open>dump_params\<close> only prints, but it formats
  the arrays in a buffer of 16 and one of 4096 characters, so what it does to them is modelled. \<open>core_ok\<close> is
  what the code relies on of the kernel: registering the PCI driver probes the one device it matches and is
  refused while the driver is registered, unregistering removes it, and the other calls succeed, except
  that a chip may not be created; none touches the framework's variables, except that starting an SPI master
  gives it the number of its bus.
\<close>

section \<open>Printing the parameters\<close>

fun print_name :: "string option \<Rightarrow> string" where
  "print_name None = ''(null)''"
| "print_name (Some name) = name"

text \<open>\<open>sprintf\<close> into \<open>temp[16]\<close>, then \<open>strcat\<close> to \<open>buffer[4096]\<close>, for each item.\<close>

fun dump_items :: "string \<Rightarrow> string list \<Rightarrow> 's act" where
  "dump_items buffer [] = skip"
| "dump_items buffer (x # xs) =
     (if length (x @ '' '') + 1 > 16 then fail Out_Of_Bounds
      else if length (buffer @ x @ '' '') + 1 > 4096 then fail Out_Of_Bounds
      else dump_items (buffer @ x @ '' '') xs)"

definition dump_array :: "int \<Rightarrow> ('v \<Rightarrow> string) \<Rightarrow> 'v list \<Rightarrow> 's act" where
  "dump_array n f xs = (if nat n \<le> length xs then dump_items [] (map f (take (nat n) xs)) else fail Out_Of_Bounds)"

definition dump_params :: "('a dev_state_scheme) act" where
  "dump_params = with_state (\<lambda>s. block
     [dump_array (g_sym_num_trackperf_fn s) (\<lambda>x. x) (g_sym_trackperf_fn s),
      dump_array (g_sym_num_trackperf_fn_flags s) show_int (g_sym_trackperf_fn_flags s),
      dump_array (int PCI_MAX_RESOURCES) (\<lambda>w. show_nat (unat w)) (g_platform_rflags s),
      dump_array (int PCI_MAX_RESOURCES) print_name (g_platform_rnames s),
      dump_array (int MAX_CHIPS) (\<lambda>w. show_nat (unat w)) (g_i2c_chip_addr s),
      dump_array (int MAX_CHIPS) print_name (g_i2c_names s)])"

section \<open>Loading and unloading\<close>

definition initialize_ep_control :: "('a dev_state_scheme) linux_core \<Rightarrow> ('a dev_state_scheme) check" where
  "initialize_ep_control k = misc_register k"

definition free_ep_control :: "('a dev_state_scheme) linux_core \<Rightarrow> ('a dev_state_scheme) act" where
  "free_ep_control k = ignore_result (misc_deregister k)"

definition linux_init :: "('a dev_state_scheme) linux_core \<Rightarrow> ('a dev_state_scheme) check" where
  "linux_init k = returning 0 (block
     [dump_params,
      init_common,
      must_succeed ''Failed initializing test framework 4'' initialize_ep,
      must_succeed ''Failed initializing test framework 5'' (initialize_ep_control k),
      must_succeed ''Failed initializing test framework 6'' (initialize_platform_device k),
      must_succeed ''Failed initializing test framework 7'' (initialize_i2c_device k),
      must_succeed ''Failed initializing test framework 8'' (initialize_spi_device k)])"

definition linux_cleanup :: "('a dev_state_scheme) linux_core \<Rightarrow> ('a dev_state_scheme) act" where
  "linux_cleanup k = block
     [free_spi_device k, free_i2c_device k, free_platform_device k, free_ep_control k, cleanup_common]"

definition test_init :: "('a dev_state_scheme) linux_core \<Rightarrow> ('a dev_state_scheme) check" where
  "test_init k = linux_init k"

definition test_exit :: "('a dev_state_scheme) linux_core \<Rightarrow> ('a dev_state_scheme) act" where
  "test_exit k = linux_cleanup k"

section \<open>What the kernel does\<close>

definition core_ok :: "('a dev_state_scheme) linux_core \<Rightarrow> ulong \<Rightarrow> bool" where
  "core_ok k d \<longleftrightarrow> d \<noteq> 0 \<and>
     (\<forall>s. misc_register k s = Inr (0, s) \<and> misc_deregister k s = Inr (0, s)) \<and>
     (\<forall>p s. pci_register_driver k p s =
        (if pci_cur_device s \<noteq> 0 then Inr (-16, s) else map_sum id (\<lambda>(r, t). (0, t)) (p d s))) \<and>
     (\<forall>f s. pci_unregister_driver k f s = f d s) \<and>
     (\<forall>x s. pci_enable_device k x s = Inr (0, s) \<and> pci_disable_device k x s = Inr s) \<and>
     (\<forall>x i. dev_resource_start k x i = pci_resource_start k x i) \<and>
     (\<forall>p s. platform_device_register k p s = Inr (0, s) \<and> platform_device_unregister k p s = Inr s) \<and>
     (\<forall>s. i2c_add_adapter k s = Inr (0, s) \<and> i2c_del_adapter k s = Inr s) \<and>
     (\<forall>b s. \<exists>c. i2c_new_device k b s = Inr (c, s)) \<and> (\<forall>c s. i2c_unregister_device k c s = Inr s) \<and>
     (\<forall>x s. \<exists>m. m \<noteq> 0 \<and> spi_alloc_master k x s = Inr (m, s)) \<and>
     (\<forall>m s. m \<noteq> 0 \<longrightarrow> spi_master_get k m s = Inr (m, s)) \<and> (\<forall>m s. spi_master_put k m s = Inr s) \<and>
     (\<forall>p s. \<exists>n. spi_bitbang_start k p s = Inr (0, s\<lparr>spi_private := map_option (\<lambda>q. q\<lparr>master_bus_num := n\<rparr>) (spi_private s)\<rparr>)) \<and>
     (\<forall>p s. spi_bitbang_stop k p s = Inr s) \<and>
     (\<forall>b s. \<exists>c. c \<noteq> 0 \<and> spi_new_device k b s = Inr (c, s))"

lemma core_okD:
  assumes "core_ok k d"
  shows "d \<noteq> 0" and "misc_register k s = Inr (0, s)" and "misc_deregister k s = Inr (0, s)"
    and "pci_register_driver k p s = (if pci_cur_device s \<noteq> 0 then Inr (-16, s) else map_sum id (\<lambda>(r, t). (0, t)) (p d s))"
    and "pci_unregister_driver k f s = f d s"
    and "pci_enable_device k x s = Inr (0, s)" and "pci_disable_device k x s = Inr s"
    and "dev_resource_start k x i = pci_resource_start k x i"
    and "platform_device_register k pd s = Inr (0, s)" and "platform_device_unregister k pd s = Inr s"
    and "i2c_add_adapter k s = Inr (0, s)" and "i2c_del_adapter k s = Inr s"
    and "\<exists>c. i2c_new_device k b s = Inr (c, s)" and "i2c_unregister_device k c s = Inr s"
    and "\<exists>m. m \<noteq> 0 \<and> spi_alloc_master k x s = Inr (m, s)" and "m \<noteq> 0 \<Longrightarrow> spi_master_get k m s = Inr (m, s)"
    and "spi_master_put k m s = Inr s" and "\<exists>n. spi_bitbang_start k p' s = Inr (0, s\<lparr>spi_private := map_option (\<lambda>q. q\<lparr>master_bus_num := n\<rparr>) (spi_private s)\<rparr>)" and "spi_bitbang_stop k p' s = Inr s"
    and "\<exists>c. c \<noteq> 0 \<and> spi_new_device k b' s = Inr (c, s)"
  using assms unfolding core_ok_def by meson+

section \<open>The PCI device\<close>

lemma check_resource_ok: "core_ok k d \<Longrightarrow> check_resource k x i = skip"
  by (simp add: check_resource_def core_okD(8))

lemma block_skips: "block (map (\<lambda>_. skip) xs) s = Inr s"
  by (induction xs) simp_all

lemma pci_probe_run:
  assumes ok: "core_ok k d" and mem: "kmalloc_ok s (kmalloc_calls s)" and fresh: "pci_cur_device s = 0"
  shows "initialize_pci_device k s = Inr (d, s\<lparr>kmalloc_calls := Suc (kmalloc_calls s), pci_cur_device := d,
    pci_drvdata := (pci_drvdata s)(d := Some d)\<rparr>)"
proof -
  have r: "map (check_resource k d) xs = map (\<lambda>_. skip) xs" for xs by (simp add: check_resource_ok [OF ok])
  show ?thesis using mem fresh core_okD(1) [OF ok]
    by (simp add: initialize_pci_device_def with_result_def core_okD(4,6) [OF ok] pci_platform_probe_def returning_def
        mjr_kmalloc_def r block_skips del: fun_upd_apply)
qed

lemma pci_probe_again:
  assumes ok: "core_ok k d" and busy: "pci_cur_device s \<noteq> 0"
  shows "initialize_pci_device k s = Inl (Panic ''pci_register_driver failed'')"
  using busy by (simp add: initialize_pci_device_def with_result_def core_okD(4) [OF ok])

lemma free_pci_device_run:
  assumes ok: "core_ok k d" and cur: "pci_cur_device s = d"
  shows "free_pci_device k d s = Inr (s\<lparr>pci_cur_device := 0, pci_drvdata := (pci_drvdata s)(d := None)\<rparr>)"
  using cur core_okD(1) [OF ok]
  by (auto simp: free_pci_device_def core_okD(5,7) [OF ok] pci_platform_remove_one_def with_state_def Let_def
      fun_upd_idem simp del: fun_upd_apply)

section \<open>The three buses\<close>

text \<open>What a platform driver finds for parameter \<open>i\<close>: a memory region of the PCI device, or its interrupt.\<close>

definition wanted :: "('a dev_state_scheme) linux_core \<Rightarrow> 'a dev_state_scheme \<Rightarrow> nat \<Rightarrow> resource" where
  "wanted k s i =
     (if g_platform_rflags s ! i AND IORESOURCE_MEM \<noteq> 0 then
        \<lparr>res_start = pci_resource_start k (platform_pdev s) i, res_end = pci_resource_end k (platform_pdev s) i,
         res_name = g_platform_rnames s ! i, res_flags = g_platform_rflags s ! i\<rparr>
      else \<lparr>res_start = dev_irq k (platform_pdev s), res_end = 0,
         res_name = g_platform_rnames s ! i, res_flags = g_platform_rflags s ! i\<rparr>)"

definition usable :: "ulong \<Rightarrow> bool" where
  "usable rflags \<longleftrightarrow> rflags AND IORESOURCE_MEM \<noteq> 0 \<or> rflags AND IORESOURCE_IRQ \<noteq> 0"

lemma setup_resources_run:
  "\<forall>i < n. usable (g_platform_rflags s ! i) \<Longrightarrow> n \<le> length (tf_platform_resources s) \<Longrightarrow>
   block (map (setup_resource k) [0..<n]) s =
     Inr (s\<lparr>tf_platform_resources := map (wanted k s) [0..<n] @ drop n (tf_platform_resources s)\<rparr>)"
proof (induction n)
  case 0
  then show ?case by simp
next
  case (Suc n)
  let ?s = "s\<lparr>tf_platform_resources := map (wanted k s) [0..<n] @ drop n (tf_platform_resources s)\<rparr>"
  have "setup_resource k n ?s = Inr (?s\<lparr>tf_platform_resources := (tf_platform_resources ?s)[n := wanted k s n]\<rparr>)"
    using Suc.prems(1) by (auto simp: setup_resource_def with_state_def Let_def wanted_def usable_def)
  moreover have "(tf_platform_resources ?s)[n := wanted k s n] = map (wanted k s) [0..<Suc n] @ drop (Suc n) (tf_platform_resources s)"
    using Suc.prems(2) by (simp add: list_update_append Cons_nth_drop_Suc [symmetric])
  ultimately show ?case using Suc by (simp add: block_append)
qed

definition platform_params :: "'a dev_state_scheme \<Rightarrow> bool" where
  "platform_params s \<longleftrightarrow> g_platform_name s \<noteq> '''' \<and> g_platform_nr s \<le> int PCI_MAX_RESOURCES \<and>
     (\<forall>i < nat (g_platform_nr s). usable (g_platform_rflags s ! i))"

lemma initialize_platform_device_run:
  assumes ok: "core_ok k d" and mem: "kmalloc_ok s (kmalloc_calls s)" and fresh: "pci_cur_device s = 0" "platform_pdev s = 0"
    and en: "g_platform_enable s \<noteq> 0" and par: "platform_params s" and len: "length (tf_platform_resources s) = PCI_MAX_RESOURCES"
  shows "\<exists>t n pd. initialize_platform_device k s = Inr (0, t) \<and>
    t = s\<lparr>kmalloc_calls := n, pci_cur_device := d, pci_drvdata := (pci_drvdata s)(d := Some d), platform_pdev := d,
      tf_platform_resources := plat_resource pd, tf_platform_device := pd\<rparr> \<and> length (plat_resource pd) = PCI_MAX_RESOURCES \<and>
    take (nat (g_platform_nr s)) (plat_resource pd) = map (wanted k t) [0..<nat (g_platform_nr s)] \<and>
    plat_name pd = g_platform_name s \<and> num_resources pd = g_platform_nr s"
proof -
  let ?n = "nat (g_platform_nr s)"
  let ?s = "s\<lparr>kmalloc_calls := Suc (kmalloc_calls s), pci_cur_device := d, pci_drvdata := (pci_drvdata s)(d := Some d), platform_pdev := d\<rparr>"
  have le: "?n \<le> PCI_MAX_RESOURCES" using par by (simp add: platform_params_def nat_le_iff)
  let ?rs = "map (wanted k ?s) [0..<?n] @ drop ?n (tf_platform_resources s)"
  have r: "block (map (setup_resource k) [0..<?n]) ?s = Inr (?s\<lparr>tf_platform_resources := ?rs\<rparr>)"
    using setup_resources_run [of ?n ?s k] par le len by (simp add: platform_params_def)
  let ?pd = "\<lparr>plat_name = g_platform_name s, plat_id = -1, num_resources = g_platform_nr s, plat_resource = ?rs\<rparr>"
  let ?t = "?s\<lparr>tf_platform_resources := ?rs, tf_platform_device := ?pd\<rparr>"
  have "initialize_platform_device k s = Inr (0, ?t)"
    using par fresh en by (simp add: initialize_platform_device_def with_result_def pci_probe_run [OF ok mem fresh(1)]
        setup_platform_device_def platform_params_def with_state_def r core_okD(9) [OF ok] del: fun_upd_apply)
  moreover have "wanted k ?s = wanted k ?t" by (simp add: fun_eq_iff wanted_def)
  ultimately show ?thesis using le len
    by (intro exI [of _ ?t] exI [of _ "Suc (kmalloc_calls s)"] exI [of _ ?pd]) simp
qed

lemma free_platform_device_run:
  assumes ok: "core_ok k d" and "g_platform_enable s \<noteq> 0" "platform_pdev s = d" "pci_cur_device s = d"
  shows "free_platform_device k s = Inr (s\<lparr>pci_cur_device := 0, pci_drvdata := (pci_drvdata s)(d := None), platform_pdev := 0\<rparr>)"
  using assms(2-) core_okD(1) [OF ok]
  by (simp add: free_platform_device_def with_state_def core_okD(10) [OF ok] free_pci_device_run [OF ok] del: fun_upd_apply)

subsection \<open>I2C\<close>

lemma cleanup_chips_run:
  assumes ok: "core_ok k d"
  shows "j + length xs \<le> length (i2c_clients s) \<Longrightarrow>
    \<exists>cs. block (map (cleanup_chip k) (enumerate j xs)) s = Inr (s\<lparr>i2c_clients := cs\<rparr>) \<and> length cs = length (i2c_clients s) \<and>
      (\<forall>i < length cs. cs ! i = (if j \<le> i \<and> i < j + length xs then 0 else i2c_clients s ! i))"
proof (induction xs arbitrary: j s)
  case Nil
  then show ?case by (intro exI [of _ "i2c_clients s"]) auto
next
  case (Cons x xs)
  let ?s = "s\<lparr>i2c_clients := (i2c_clients s)[j := 0]\<rparr>"
  have "cleanup_chip k (j, x) s = Inr ?s"
  proof (cases "i2c_clients s ! j = 0")
    case True
    then have "(i2c_clients s)[j := 0] = i2c_clients s" using list_update_id [of "i2c_clients s" j] by simp
    with True show ?thesis by (simp add: cleanup_chip_def with_state_def Let_def)
  qed (simp add: cleanup_chip_def with_state_def Let_def core_okD(14) [OF ok])
  moreover from Cons.IH [of "Suc j" ?s] Cons.prems obtain cs
    where "block (map (cleanup_chip k) (enumerate (Suc j) xs)) ?s = Inr (?s\<lparr>i2c_clients := cs\<rparr>)"
      "length cs = length (i2c_clients s)"
      "\<forall>i < length cs. cs ! i = (if Suc j \<le> i \<and> i < Suc j + length xs then 0 else i2c_clients ?s ! i)" by auto
  ultimately show ?case using Cons.prems
    by (intro exI [of _ cs]) (auto simp: nth_list_update)
qed

lemma chips_short: "length (chips s) \<le> MAX_CHIPS"
  using length_takeWhile_le [of "\<lambda>a. a \<noteq> 0" "take MAX_CHIPS (g_i2c_chip_addr s)"]
  by (simp add: chips_def min_def split: if_splits)

text \<open>The clients of all chips are gone and those of the others are as before.\<close>

lemma cleanup_devices_run:
  assumes ok: "core_ok k d" and len: "length (i2c_clients s) = MAX_CHIPS"
  shows "\<exists>cs. cleanup_devices k s = Inr (0, s\<lparr>i2c_clients := cs\<rparr>) \<and> length cs = MAX_CHIPS \<and>
    (\<forall>i < MAX_CHIPS. cs ! i = (if i < length (chips s) then 0 else i2c_clients s ! i))"
  using cleanup_chips_run [OF ok, of 0 "takeWhile (\<lambda>a. a \<noteq> 0) (take MAX_CHIPS (g_i2c_chip_addr s))" s] chips_short [of s] len
  by (auto simp: cleanup_devices_def with_state_def chips_def returning_def)

lemma chips_frame [simp]:
  "chips (s\<lparr>i2c_board := b\<rparr>) = chips s" "chips (s\<lparr>i2c_clients := cs\<rparr>) = chips s" "chips (s\<lparr>i2c_pdev := d\<rparr>) = chips s"
  "chips (s\<lparr>kmalloc_calls := n\<rparr>) = chips s" "chips (s\<lparr>pci_cur_device := d\<rparr>) = chips s" "chips (s\<lparr>pci_drvdata := f\<rparr>) = chips s"
  by (simp_all add: chips_def)

definition name_fits :: "('a dev_state_scheme) linux_core \<Rightarrow> 'a dev_state_scheme \<Rightarrow> nat \<Rightarrow> bool" where
  "name_fits k s i \<longleftrightarrow> (case g_i2c_names s ! i of None \<Rightarrow> False | Some name \<Rightarrow> length name < I2C_NAME_SIZE k)"

text \<open>Creating the clients: all of them, or none once one could not be created.\<close>

lemma alloc_from_run:
  assumes ok: "core_ok k d"
  shows "length (i2c_clients s) = MAX_CHIPS \<Longrightarrow> j + length xs \<le> length (chips s) \<Longrightarrow>
    \<forall>i. j \<le> i \<and> i < j + length xs \<longrightarrow> name_fits k s i \<Longrightarrow>
    \<exists>cs b. alloc_from k (enumerate j xs) s = Inr (s\<lparr>i2c_board := b, i2c_clients := cs\<rparr>) \<and> length cs = MAX_CHIPS \<and>
      ((\<forall>i < MAX_CHIPS. cs ! i = (if i < length (chips s) then 0 else i2c_clients s ! i)) \<or>
       (\<forall>i < MAX_CHIPS. if j \<le> i \<and> i < j + length xs then cs ! i \<noteq> 0 else cs ! i = i2c_clients s ! i))"
proof (induction xs arbitrary: j s)
  case Nil
  then show ?case by (intro exI [of _ "i2c_clients s"] exI [of _ "i2c_board s"]) auto
next
  case (Cons x xs)
  from Cons.prems(3) have "name_fits k s j" by simp
  then obtain name where name: "g_i2c_names s ! j = Some name" "length name < I2C_NAME_SIZE k"
    by (auto simp: name_fits_def split: option.splits)
  let ?b = "(i2c_board s)[j := \<lparr>i2c_type = name, i2c_addr = x, i2c_irq = dev_irq k (i2c_pdev s)\<rparr>]"
  let ?s = "s\<lparr>i2c_board := ?b\<rparr>"
  from core_okD(13) [OF ok] obtain c where c: "i2c_new_device k (?b ! j) ?s = Inr (c, ?s)" by blast
  let ?u = "?s\<lparr>i2c_clients := (i2c_clients s)[j := c]\<rparr>"
  have run: "alloc_from k (enumerate j (x # xs)) s =
      (if c = 0 then ignore_result (cleanup_devices k) ?u else alloc_from k (enumerate (Suc j) xs) ?u)"
    using name c by (simp add: with_state_def with_result_def)
  have jm: "j < MAX_CHIPS" using Cons.prems(2) chips_short [of s] by simp
  show ?case
  proof (cases "c = 0")
    case True
    from cleanup_devices_run [OF ok, of ?u] Cons.prems(1) obtain cs
      where cs: "cleanup_devices k ?u = Inr (0, ?u\<lparr>i2c_clients := cs\<rparr>)" "length cs = MAX_CHIPS"
        "\<forall>i < MAX_CHIPS. cs ! i = (if i < length (chips s) then 0 else i2c_clients ?u ! i)" by auto
    have "cs ! i = (if i < length (chips s) then 0 else i2c_clients s ! i)" if "i < MAX_CHIPS" for i
      using cs(3) that Cons.prems(2) by auto
    with True cs(1,2) show ?thesis
      unfolding run by (intro exI [of _ cs] exI [of _ ?b]) (simp add: ignore_result_def)
  next
    case False
    have nf: "name_fits k ?u i = name_fits k s i" for i by (simp add: name_fits_def)
    from Cons.IH [of ?u "Suc j"] Cons.prems obtain cs b
      where r: "alloc_from k (enumerate (Suc j) xs) ?u = Inr (?u\<lparr>i2c_board := b, i2c_clients := cs\<rparr>)" "length cs = MAX_CHIPS"
        "(\<forall>i < MAX_CHIPS. cs ! i = (if i < length (chips s) then 0 else i2c_clients ?u ! i)) \<or>
         (\<forall>i < MAX_CHIPS. if Suc j \<le> i \<and> i < Suc j + length xs then cs ! i \<noteq> 0 else cs ! i = i2c_clients ?u ! i)"
      by (auto simp: nf)
    from r(3) have "(\<forall>i < MAX_CHIPS. cs ! i = (if i < length (chips s) then 0 else i2c_clients s ! i)) \<or>
       (\<forall>i < MAX_CHIPS. if j \<le> i \<and> i < j + length (x # xs) then cs ! i \<noteq> 0 else cs ! i = i2c_clients s ! i)"
    proof
      assume "\<forall>i < MAX_CHIPS. cs ! i = (if i < length (chips s) then 0 else i2c_clients ?u ! i)"
      then show ?thesis using Cons.prems(2) by (intro disjI1) auto
    next
      assume "\<forall>i < MAX_CHIPS. if Suc j \<le> i \<and> i < Suc j + length xs then cs ! i \<noteq> 0 else cs ! i = i2c_clients ?u ! i"
      then show ?thesis using False Cons.prems(1)
        by (intro disjI2) (auto simp: nth_list_update le_eq_less_or_eq Suc_le_eq split: if_splits)
    qed
    with r(1,2) False show ?thesis
      unfolding run by (intro exI [of _ cs] exI [of _ b]) simp
  qed
qed

definition i2c_params :: "('a dev_state_scheme) linux_core \<Rightarrow> 'a dev_state_scheme \<Rightarrow> bool" where
  "i2c_params k s \<longleftrightarrow> g_i2c_chip_addr s ! 0 \<noteq> 0 \<and>
     (\<forall>(i, addr) \<in> set (chips s). 0x03 \<le> addr \<and> addr \<le> 0x77 \<and> name_fits k s i)"

lemma initialize_i2c_device_run:
  assumes ok: "core_ok k d" and mem: "kmalloc_ok s (kmalloc_calls s)" and fresh: "pci_cur_device s = 0" "i2c_pdev s = 0"
    and en: "g_i2c_enable s \<noteq> 0" and par: "i2c_params k s" and zero: "i2c_clients s = replicate MAX_CHIPS 0"
  shows "\<exists>n b cs. initialize_i2c_device k s = Inr (0, s\<lparr>kmalloc_calls := n, pci_cur_device := d,
      pci_drvdata := (pci_drvdata s)(d := Some d), i2c_pdev := d, i2c_board := b, i2c_clients := cs\<rparr>) \<and>
    length cs = MAX_CHIPS \<and> (cs = replicate MAX_CHIPS 0 \<or> (\<forall>i < MAX_CHIPS. cs ! i \<noteq> 0 \<longleftrightarrow> i < length (chips s)))"
proof -
  let ?s = "s\<lparr>kmalloc_calls := Suc (kmalloc_calls s), pci_cur_device := d, pci_drvdata := (pci_drvdata s)(d := Some d), i2c_pdev := d\<rparr>"
  let ?xs = "takeWhile (\<lambda>a. a \<noteq> 0) (take MAX_CHIPS (g_i2c_chip_addr s))"
  have ch: "chips s = enumerate 0 ?xs" by (simp add: chips_def)
  have "name_fits k ?s i" if "i < length ?xs" for i
  proof -
    have "(i, ?xs ! i) \<in> set (chips s)" using that by (simp add: ch in_set_enumerate_eq)
    with par show ?thesis by (auto simp: i2c_params_def name_fits_def)
  qed
  with alloc_from_run [OF ok, of ?s 0 ?xs] zero obtain cs b
    where r: "alloc_from k (chips s) ?s = Inr (?s\<lparr>i2c_board := b, i2c_clients := cs\<rparr>)" "length cs = MAX_CHIPS"
      "(\<forall>i < MAX_CHIPS. cs ! i = (if i < length (chips s) then 0 else i2c_clients s ! i)) \<or>
       (\<forall>i < MAX_CHIPS. if i < length (chips s) then cs ! i \<noteq> 0 else cs ! i = i2c_clients s ! i)"
    by (auto simp: ch)
  have a: "alloc_chips ?s = Inr (0, ?s)"
    using par by (force simp: alloc_chips_def i2c_params_def)
  have d: "d \<noteq> 0" by (rule core_okD(1) [OF ok])
  have "initialize_i2c_device k s = Inr (0, ?s\<lparr>i2c_board := b, i2c_clients := cs\<rparr>)"
    using en fresh par a r(1) d
    by (simp add: initialize_i2c_device_def with_result_def pci_probe_run [OF ok mem fresh(1)] setup_i2c_devices_def
        i2c_params_def must_succeed_def core_okD(11) [OF ok] alloc_devices_def with_state_def returning_def del: fun_upd_apply)
  moreover have "cs = replicate MAX_CHIPS 0 \<or> (\<forall>i < MAX_CHIPS. cs ! i \<noteq> 0 \<longleftrightarrow> i < length (chips s))"
    using r(2,3) zero by (auto simp: list_eq_iff_nth_eq split: if_splits)
  ultimately show ?thesis using r(2)
    by (intro exI [of _ "Suc (kmalloc_calls s)"] exI [of _ b] exI [of _ cs]) simp
qed

lemma free_i2c_device_run:
  assumes ok: "core_ok k d" and en: "g_i2c_enable s \<noteq> 0" and pd: "i2c_pdev s = d" "pci_cur_device s = d"
    and cs: "length (i2c_clients s) = MAX_CHIPS" "\<forall>i < MAX_CHIPS. i2c_clients s ! i \<noteq> 0 \<longrightarrow> i < length (chips s)"
  shows "free_i2c_device k s = Inr (s\<lparr>pci_cur_device := 0, pci_drvdata := (pci_drvdata s)(d := None), i2c_pdev := 0,
    i2c_clients := replicate MAX_CHIPS 0\<rparr>)"
proof -
  from cleanup_devices_run [OF ok cs(1)] obtain xs where x: "cleanup_devices k s = Inr (0, s\<lparr>i2c_clients := xs\<rparr>)"
    "length xs = MAX_CHIPS" "\<forall>i < MAX_CHIPS. xs ! i = (if i < length (chips s) then 0 else i2c_clients s ! i)" by blast
  then have "xs = replicate MAX_CHIPS 0" using cs(2) by (auto simp: list_eq_iff_nth_eq)
  with x(1) en pd core_okD(1) [OF ok] show ?thesis
    by (simp add: free_i2c_device_def ignore_result_def core_okD(12) [OF ok] with_state_def free_pci_device_run [OF ok]
        del: fun_upd_apply)
qed

subsection \<open>SPI\<close>

lemma initialize_spi_device_run:
  assumes ok: "core_ok k d" and mem: "kmalloc_ok s (kmalloc_calls s)" and fresh: "pci_cur_device s = 0" and en: "g_spi_enable s \<noteq> 0"
  shows "\<exists>n p. initialize_spi_device k s = Inr (0, s\<lparr>kmalloc_calls := n, pci_cur_device := d,
      pci_drvdata := (pci_drvdata s)(d := Some d), spi_private := Some p\<rparr>) \<and> spi_pdev p = d \<and>
    spi_irq (spi_board p) = dev_irq k d \<and> modalias (spi_board p) = g_spi_name s"
proof -
  let ?s = "s\<lparr>kmalloc_calls := Suc (kmalloc_calls s), pci_cur_device := d, pci_drvdata := (pci_drvdata s)(d := Some d)\<rparr>"
  from core_okD(15) [OF ok] obtain m where m: "m \<noteq> 0" "spi_alloc_master k d ?s = Inr (m, ?s)" by blast
  have "\<forall>b s. \<exists>c. c \<noteq> 0 \<and> spi_new_device k b s = Inr (c, s)" using core_okD(20) [OF ok] by blast
  then obtain f where c: "\<And>b s. f b s \<noteq> 0" "\<And>b s. spi_new_device k b s = Inr (f b s, s)" by metis
  have "\<forall>p s. \<exists>n. spi_bitbang_start k p s = Inr (0, s\<lparr>spi_private := map_option (\<lambda>q. q\<lparr>master_bus_num := n\<rparr>) (spi_private s)\<rparr>)"
    using core_okD(18) [OF ok] by blast
  then obtain g where g: "\<And>p s. spi_bitbang_start k p s = Inr (0, s\<lparr>spi_private := map_option (\<lambda>q. q\<lparr>master_bus_num := g p s\<rparr>) (spi_private s)\<rparr>)"
    by metis
  show ?thesis
    using en m(1) by (simp add: initialize_spi_device_def with_result_def pci_probe_run [OF ok mem fresh] setup_spi_devices_def
        with_spi_def update_spi_def deref_def m(2) core_okD(16) [OF ok m(1)] g with_state_def Let_def c returning_def del: fun_upd_apply)
      (rule exI, rule exI, rule conjI, rule refl, simp)
qed

lemma free_spi_device_run:
  assumes ok: "core_ok k d" and "g_spi_enable s \<noteq> 0" "spi_private s = Some p" "spi_pdev p = d" "pci_cur_device s = d"
  shows "free_spi_device k s = Inr (s\<lparr>pci_cur_device := 0, pci_drvdata := (pci_drvdata s)(d := None)\<rparr>)"
  using assms(2-)
  by (simp add: free_spi_device_def with_result_def cleanup_spi_device_def core_okD(17,19) [OF ok] free_pci_device_run [OF ok]
      del: fun_upd_apply)

section \<open>The whole module\<close>

text \<open>What loading sets up does not depend on the variables of the devices.\<close>

lemmas loaded_parts = loaded_def lines_bounded_def line_count_def ee_free_def ee_at_def frames_ok_def frames_def tf_inv_def core_inv_def blocking_ok_def
  user_ok_def tracker_ok_def flags_ok_def flag_of_def class_ok_def unlocked_def ft_ok_def purposes_def irq_ok_def
  tracked_def bus_set_def blocking_stack_def user_stack_def

lemma loaded_cong:
  assumes
    "ft_initialized t = ft_initialized s" "sym_irq_lines t = sym_irq_lines s"
    "sym_num_requests t = sym_num_requests s" "sym_irq_ongoing t = sym_irq_ongoing s"
    "device_irq_disabled t = device_irq_disabled s" "pci_driver_state t = pci_driver_state s"
    "usb_driver_state t = usb_driver_state s" "ndo_driver_state t = ndo_driver_state s"
    "misc_driver_state t = misc_driver_state s" "proto_ops_state t = proto_ops_state s"
    "i2c_driver_state t = i2c_driver_state s" "platform_driver_state t = platform_driver_state s"
    "spi_driver_state t = spi_driver_state s" "sound_driver_state t = sound_driver_state s" "objs t = objs s"
    "blocking_context t = blocking_context s" "blocking_context_current t = blocking_context_current s"
    "user_context t = user_context s" "user_context_current t = user_context_current s"
    "ioctl_capable_retval t = ioctl_capable_retval s" "global_lock t = global_lock s"
    "global_lock_acquired t = global_lock_acquired s" "driver_call_stack t = driver_call_stack s"
    "driver_call_stack_str t = driver_call_stack_str s" "call_stack_buffer1 t = call_stack_buffer1 s"
    "call_stack_buffer2 t = call_stack_buffer2 s" "ft_objs t = ft_objs s" "sym_irq t = sym_irq s"
  shows "loaded t \<longleftrightarrow> loaded s"
  unfolding loaded_parts assms ..

lemma loaded_frame [simp]:
  fixes s :: "'a dev_state_scheme"
  shows "loaded (s\<lparr>kmalloc_calls := n\<rparr>) = loaded s"
    and "loaded (s\<lparr>pci_cur_device := d\<rparr>) = loaded s"
    and "loaded (s\<lparr>pci_drvdata := f\<rparr>) = loaded s"
    and "loaded (s\<lparr>platform_pdev := d\<rparr>) = loaded s"
    and "loaded (s\<lparr>tf_platform_resources := rs\<rparr>) = loaded s"
    and "loaded (s\<lparr>tf_platform_device := pd\<rparr>) = loaded s"
    and "loaded (s\<lparr>i2c_pdev := d\<rparr>) = loaded s"
    and "loaded (s\<lparr>i2c_board := b\<rparr>) = loaded s"
    and "loaded (s\<lparr>i2c_clients := cs\<rparr>) = loaded s"
    and "loaded (s\<lparr>spi_private := p\<rparr>) = loaded s"
proof -
  show "loaded (s\<lparr>kmalloc_calls := n\<rparr>) = loaded s" by (rule loaded_cong) simp_all
  show "loaded (s\<lparr>pci_cur_device := d\<rparr>) = loaded s" by (rule loaded_cong) simp_all
  show "loaded (s\<lparr>pci_drvdata := f\<rparr>) = loaded s" by (rule loaded_cong) simp_all
  show "loaded (s\<lparr>platform_pdev := d\<rparr>) = loaded s" by (rule loaded_cong) simp_all
  show "loaded (s\<lparr>tf_platform_resources := rs\<rparr>) = loaded s" by (rule loaded_cong) simp_all
  show "loaded (s\<lparr>tf_platform_device := pd\<rparr>) = loaded s" by (rule loaded_cong) simp_all
  show "loaded (s\<lparr>i2c_pdev := d\<rparr>) = loaded s" by (rule loaded_cong) simp_all
  show "loaded (s\<lparr>i2c_board := b\<rparr>) = loaded s" by (rule loaded_cong) simp_all
  show "loaded (s\<lparr>i2c_clients := cs\<rparr>) = loaded s" by (rule loaded_cong) simp_all
  show "loaded (s\<lparr>spi_private := p\<rparr>) = loaded s" by (rule loaded_cong) simp_all
qed

lemma initialize_ep_run:
  fixes s :: "'a dev_state_scheme"
  obtains t where "initialize_ep s = Inr (0, t)" "loaded t = loaded s" "kmalloc_ok t = kmalloc_ok s"
    "mod_state.more t = mod_state.more s"
proof -
  obtain a b c where t: "initialize_ep s = Inr (0, s\<lparr>net_dev := 0, pci_drv := 0, pci_dev := 0, i2c_drv := 0,
      i2c_client := 0, ethtool_fn_array := a, pci_pm_fn_array := b, i2c_pm_fn_array := c\<rparr>)"
    by (simp add: initialize_ep_def returning_def)
  show thesis
    by (rule that [OF t]) (rule loaded_cong, simp_all)
qed

lemma loaded_cleanup:
  assumes "loaded s"
  shows "\<exists>t. cleanup_common s = Inr t \<and> objs t = None \<and> ft_objs t = None \<and> sym_irq_lines t = None \<and>
    \<not> call_stack_buffer1 t \<and> \<not> call_stack_buffer2 t \<and> unlocked t \<and> mod_state.more t = mod_state.more s"
proof -
  have "tf_inv s" using loadedD(1) [OF assms] by (simp add: ee_free_def)
  then have l: "unlocked s" "tracker_ok s" by (simp_all add: tf_inv_def core_inv_def)
  have i: "length (sym_irq s) = MAX_IRQS" using loadedD(6) [OF assms] by (simp add: irq_ok_def)
  from cleanup_common_run [OF l loadedD(8,13) [OF assms] i loadedD(14) [OF assms]] show ?thesis by blast
qed

end
