(* ===== verification/Symbolic_Transfers.thy ===== *)
theory Symbolic_Transfers
  imports Symbolic_Devices
begin

text \<open>
  What the made up devices do when the driver talks to them: the I2C algorithm of \<open>bus_i2c.c\<close> and the
  callbacks of the SPI controller of \<open>bus_spi.c\<close>. Data that a device would send is symbolic: the values the
  hypervisor chooses are arguments (\<open>vals\<close>), and each request for them is an event. A buffer is its address
  and the bytes behind it; a union is its bytes, so that \<open>byte\<close> is byte 0 and \<open>word\<close> bytes 0 and 1.
\<close>

section \<open>Symbolic buffers\<close>

definition symbolic_at ::
  "string \<Rightarrow> (nat \<Rightarrow> u8) \<Rightarrow> ulong \<Rightarrow> nat \<Rightarrow> nat \<Rightarrow> u8 list \<Rightarrow> (u8 list, 'a tf_globals_scheme) prog" where
  "symbolic_at name vals p off n bytes = (\<lambda>s.
     if n > 0 \<and> p = 0 then Inl Null_Deref
     else if off + n > length bytes then Inl Out_Of_Bounds
     else Inr (take off bytes @ map vals [off..<off + n] @ drop (off + n) bytes,
       s\<lparr>s2e_log := s2e_log s @ [S2E_make_symbolic (p + of_nat off) (of_nat n) name]\<rparr>))"

section \<open>The I2C algorithm\<close>

datatype i2c_func =
    I2C_FUNC_I2C | I2C_FUNC_10BIT_ADDR | I2C_FUNC_PROTOCOL_MANGLING | I2C_FUNC_SMBUS_PEC
  | I2C_FUNC_SMBUS_BLOCK_PROC_CALL | I2C_FUNC_SMBUS_QUICK | I2C_FUNC_SMBUS_READ_BYTE
  | I2C_FUNC_SMBUS_WRITE_BYTE | I2C_FUNC_SMBUS_READ_BYTE_DATA | I2C_FUNC_SMBUS_WRITE_BYTE_DATA
  | I2C_FUNC_SMBUS_READ_WORD_DATA | I2C_FUNC_SMBUS_WRITE_WORD_DATA | I2C_FUNC_SMBUS_PROC_CALL
  | I2C_FUNC_SMBUS_READ_BLOCK_DATA | I2C_FUNC_SMBUS_WRITE_BLOCK_DATA | I2C_FUNC_SMBUS_READ_I2C_BLOCK
  | I2C_FUNC_SMBUS_WRITE_I2C_BLOCK

datatype smbus_protocol =
    I2C_SMBUS_QUICK | I2C_SMBUS_BYTE | I2C_SMBUS_BYTE_DATA | I2C_SMBUS_WORD_DATA | I2C_SMBUS_PROC_CALL
  | I2C_SMBUS_BLOCK_DATA | I2C_SMBUS_I2C_BLOCK_BROKEN | I2C_SMBUS_BLOCK_PROC_CALL | I2C_SMBUS_I2C_BLOCK_DATA
  | Other_Protocol int

text \<open>Constants of the kernel's headers; the labels of the switch on the protocol are distinct.\<close>

record i2c_constants =
  I2C_FUNC :: "i2c_func \<Rightarrow> ulong"
  I2C_M_RD :: u16
  I2C_M_RECV_LEN :: u16

record i2c_msg =
  msg_addr :: u16
  msg_flags :: u16
  msg_len :: u16
  msg_buf :: ulong
  msg_bytes :: "u8 list"

definition STUB_FUNC_bits :: "i2c_func list" where
  "STUB_FUNC_bits =
     [I2C_FUNC_I2C, I2C_FUNC_10BIT_ADDR, I2C_FUNC_PROTOCOL_MANGLING, I2C_FUNC_SMBUS_PEC,
      I2C_FUNC_SMBUS_BLOCK_PROC_CALL, I2C_FUNC_SMBUS_QUICK, I2C_FUNC_SMBUS_READ_BYTE, I2C_FUNC_SMBUS_WRITE_BYTE,
      I2C_FUNC_SMBUS_READ_BYTE_DATA, I2C_FUNC_SMBUS_WRITE_BYTE_DATA, I2C_FUNC_SMBUS_READ_WORD_DATA,
      I2C_FUNC_SMBUS_WRITE_WORD_DATA, I2C_FUNC_SMBUS_PROC_CALL, I2C_FUNC_SMBUS_READ_BLOCK_DATA,
      I2C_FUNC_SMBUS_WRITE_BLOCK_DATA, I2C_FUNC_SMBUS_READ_I2C_BLOCK, I2C_FUNC_SMBUS_WRITE_I2C_BLOCK]"

definition STUB_FUNC :: "i2c_constants \<Rightarrow> ulong" where
  "STUB_FUNC c = foldr (\<lambda>f w. I2C_FUNC c f OR w) STUB_FUNC_bits 0"

definition stub_func :: "i2c_constants \<Rightarrow> 'a dev_state_scheme \<Rightarrow> ulong" where
  "stub_func c s = STUB_FUNC c AND g_i2c_functionality s"

definition process_message ::
  "i2c_constants \<Rightarrow> (nat \<Rightarrow> u8) \<Rightarrow> i2c_msg \<Rightarrow> (i2c_msg, 'a tf_globals_scheme) prog" where
  "process_message c vals msg = (\<lambda>s.
     if msg_flags msg AND I2C_M_RD c \<noteq> 0 then
       if msg_flags msg AND I2C_M_RECV_LEN c \<noteq> 0 then
         (case symbolic_at ''process_message'' vals (msg_buf msg) 0 (unat (msg_len msg) + 1) (msg_bytes msg) s of
            Inl e \<Rightarrow> Inl e
          | Inr (bytes, t) \<Rightarrow> Inr (msg\<lparr>msg_bytes := bytes[0 := ucast (msg_len msg)]\<rparr>, t))
       else
         (case symbolic_at ''process_message'' vals (msg_buf msg) 0 (unat (msg_len msg)) (msg_bytes msg) s of
            Inl e \<Rightarrow> Inl e
          | Inr (bytes, t) \<Rightarrow> Inr (msg\<lparr>msg_bytes := bytes\<rparr>, t))
     else Inr (msg, s))"

fun process_messages ::
  "i2c_constants \<Rightarrow> (nat \<Rightarrow> nat \<Rightarrow> u8) \<Rightarrow> nat \<Rightarrow> i2c_msg list \<Rightarrow> (i2c_msg list, 'a tf_globals_scheme) prog" where
  "process_messages c vals i [] s = Inr ([], s)"
| "process_messages c vals i (msg # msgs) s =
     (case process_message c (vals i) msg s of
        Inl e \<Rightarrow> Inl e
      | Inr (msg', t) \<Rightarrow>
          (case process_messages c vals (Suc i) msgs t of
             Inl e \<Rightarrow> Inl e
           | Inr (msgs', u) \<Rightarrow> Inr (msg' # msgs', u)))"

definition master_xfer ::
  "i2c_constants \<Rightarrow> int \<Rightarrow> (nat \<Rightarrow> nat \<Rightarrow> u8) \<Rightarrow> i2c_msg list \<Rightarrow> int \<Rightarrow> (int \<times> i2c_msg list, 'a tf_globals_scheme) prog" where
  "master_xfer c retval vals msgs num = (\<lambda>s.
     let t = s\<lparr>s2e_log := s2e_log s @ [S2E_make_symbolic_local ''int'' ''master_xfer'']\<rparr> in
     if retval = num then
       if nat num > length msgs then Inl Out_Of_Bounds
       else (case process_messages c vals 0 (take (nat num) msgs) t of
           Inl e \<Rightarrow> Inl e
         | Inr (msgs', u) \<Rightarrow> Inr ((retval, msgs' @ drop (nat num) msgs), u))
     else if IS_ERR_VALUE s (word_of_int retval) then Inr ((retval, msgs), t)
     else Inr ((0, msgs), t))"

definition symbolic_byte ::
  "string \<Rightarrow> (nat \<Rightarrow> u8) \<Rightarrow> ulong \<Rightarrow> nat \<Rightarrow> u8 list \<Rightarrow> (u8 list, 'a tf_globals_scheme) prog" where
  "symbolic_byte name vals p off bytes = (\<lambda>s. case symbolic_at name vals p off 1 bytes s of
       Inl e \<Rightarrow> Inl e
     | Inr (bs, t) \<Rightarrow> Inr (bs[off := bs ! off AND 0xFF], t))"

fun symbolic_block :: "(nat \<Rightarrow> u8) \<Rightarrow> ulong \<Rightarrow> nat list \<Rightarrow> u8 list \<Rightarrow> (u8 list, 'a tf_globals_scheme) prog" where
  "symbolic_block vals p [] bytes s = Inr (bytes, s)"
| "symbolic_block vals p (i # js) bytes s =
     (case symbolic_byte ''sym_I2C_SMBUS_I2C_BLOCK_DATA'' vals p (1 + i) bytes s of
        Inl e \<Rightarrow> Inl e
      | Inr (bs, t) \<Rightarrow> symbolic_block vals p js bs t)"

text \<open>\<open>wr\<close> stands for \<open>read_write == I2C_SMBUS_WRITE\<close>; the flags and the command are only printed.\<close>

definition stub_xfer ::
  "int \<Rightarrow> (nat \<Rightarrow> u8) \<Rightarrow> u16 \<Rightarrow> bool \<Rightarrow> smbus_protocol \<Rightarrow> ulong \<Rightarrow> u8 list \<Rightarrow> (int \<times> u8 list, 'a dev_state_scheme) prog" where
  "stub_xfer ret vals addr wr protocol p data = (\<lambda>s.
     let s = s\<lparr>s2e_log := s2e_log s @ [S2E_make_symbolic_local ''s32'' ''retval'']\<rparr>;
         done = map_sum id (\<lambda>(bytes, t). ((0, bytes), t)) in
     if IS_ERR_VALUE s (word_of_int ret) then Inr ((- EINVAL s, data), s)
     else if \<forall>(i, chip) \<in> set (chips s). addr \<noteq> chip then Inr ((- ENODEV s, data), s)
     else (case protocol of
         I2C_SMBUS_QUICK \<Rightarrow> Inr ((0, data), s)
       | I2C_SMBUS_BYTE \<Rightarrow>
           if wr then Inr ((0, data), s) else done (symbolic_byte ''sym_I2C_SMBUS_BYTE'' vals p 0 data s)
       | I2C_SMBUS_BYTE_DATA \<Rightarrow>
           if wr then Inr ((0, data), s) else done (symbolic_byte ''sym_I2C_SMBUS_BYTE_DATA'' vals p 0 data s)
       | I2C_SMBUS_WORD_DATA \<Rightarrow>
           if wr then Inr ((0, data), s) else done (symbolic_at ''sym_I2C_SMBUS_WORD_DATA'' vals p 0 2 data s)
       | I2C_SMBUS_PROC_CALL \<Rightarrow> done (symbolic_at ''sym_I2C_SMBUS_PROC_CALL'' vals p 0 2 data s)
       | I2C_SMBUS_I2C_BLOCK_DATA \<Rightarrow>
           if p = 0 then Inl Null_Deref
           else if data = [] then Inl Out_Of_Bounds
           else if wr then Inr ((0, data), s)
           else done (symbolic_block vals p [0..<unat (data ! 0)] data s)
       | I2C_SMBUS_I2C_BLOCK_BROKEN \<Rightarrow> Inl (Panic ''Matt - finish I2C Support for I2C_SMBUS_I2C_BLOCK_BROKEN'')
       | I2C_SMBUS_BLOCK_PROC_CALL \<Rightarrow> Inl (Panic ''Matt - finish I2C Support for I2C_SMBUS_BLOCK_PROC_CALL'')
       | I2C_SMBUS_BLOCK_DATA \<Rightarrow> Inl (Panic ''Matt - finish I2C Support for I2C_SMBUS_BLOCK_DATA'')
       | Other_Protocol n \<Rightarrow> Inl (Panic ''Unsupported I2C/SMBus command'')))"

text \<open>A callback of the platform data of one chip.\<close>

definition rx51_lp5523_setup :: "int \<Rightarrow> ('a tf_globals_scheme) check" where
  "rx51_lp5523_setup retval = returning (if retval = 0 then 0 else -1)
     (s2e (S2E_make_symbolic_local ''int'' ''rx51_lp5523_setup''))"

section \<open>The SPI controller\<close>

definition symspi_setup :: "'s check" where
  "symspi_setup = returning 0 skip"

definition symspi_setup_transfer :: "'s check" where
  "symspi_setup_transfer = returning 0 skip"

definition symspi_chipselect :: "'s act" where
  "symspi_chipselect = skip"

definition symspi_txrx_bufs ::
  "(nat \<Rightarrow> u8) \<Rightarrow> ulong \<Rightarrow> ulong \<Rightarrow> u8 list \<Rightarrow> (int \<times> u8 list, 'a tf_globals_scheme) prog" where
  "symspi_txrx_bufs vals rx_buf len bytes = (\<lambda>s.
     if rx_buf \<noteq> 0 \<and> len > 0 then
       (case symbolic_at ''spi_rx'' vals rx_buf 0 (unat len) bytes s of
          Inl e \<Rightarrow> Inl e
        | Inr (bs, t) \<Rightarrow> Inr ((sint len, bs), t))
     else Inr ((sint len, bytes), s))"

definition symspi_txrx_word :: "u32 \<Rightarrow> (u32, 's) prog" where
  "symspi_txrx_word word = (\<lambda>s. Inr (0, s))"

end
