(* ===== verification/Linux_Properties.thy ===== *)
theory Linux_Properties
  imports Linux_Module Symbolic_Transfers
begin

text \<open>
  Properties of the Linux module as a whole: which made up devices loading leaves behind, that unloading
  takes them down again, and what the I2C adapter answers to a driver.
\<close>

section \<open>Printing the parameters\<close>

lemma dump_items_run:
  "\<forall>x \<in> set xs. length x \<le> 14 \<Longrightarrow> length buffer + 15 * length xs < 4096 \<Longrightarrow> dump_items buffer xs s = Inr s"
  by (induction xs arbitrary: buffer) auto

lemma dump_array_run:
  assumes "nat n \<le> length xs" "\<forall>x \<in> set (take (nat n) xs). length (f x) \<le> 14" "nat n \<le> 200"
  shows "dump_array n f xs s = Inr s"
  using assms dump_items_run [of "map f (take (nat n) xs)" "[]" s] by (simp add: dump_array_def min_def)

lemma length_show_nat: "n < 10 ^ m \<Longrightarrow> 0 < m \<Longrightarrow> length (show_nat n) \<le> m"
proof (induction n arbitrary: m rule: show_nat.induct)
  case (1 n)
  show ?case
  proof (cases "n < 10")
    case True
    then show ?thesis using 1 by (simp add: show_nat.simps [of n])
  next
    case False
    then have "1 < m" using 1(2,3) by (cases "m = 1") auto
    moreover have "n div 10 < 10 ^ (m - 1)"
      using 1(2) \<open>1 < m\<close> by (simp add: less_mult_imp_div_less power_eq_if)
    ultimately have "length (show_nat (n div 10)) \<le> m - 1" using 1(1) False by simp
    then show ?thesis using False \<open>1 < m\<close> by (simp add: show_nat.simps [of n])
  qed
qed

lemma length_show_word:
  "length (show_nat (unat (w :: ulong))) \<le> 14" "length (show_nat (unat (v :: u16))) \<le> 14"
  using length_show_nat [of "unat w" 10] length_show_nat [of "unat v" 10] unsigned_less [where w = w, where 'a = nat]
    unsigned_less [where w = v, where 'a = nat] by simp_all

definition print_ok :: "'a dev_state_scheme \<Rightarrow> bool" where
  "print_ok s \<longleftrightarrow> (\<forall>x \<in> set (take (nat (g_sym_num_trackperf_fn s)) (g_sym_trackperf_fn s)). length x \<le> 14) \<and>
     length (g_platform_rflags s) = PCI_MAX_RESOURCES \<and> length (g_i2c_chip_addr s) = MAX_CHIPS \<and>
     length (g_platform_rnames s) = MAX_CHIPS \<and> length (g_i2c_names s) = MAX_CHIPS \<and>
     (\<forall>x \<in> set (g_platform_rnames s) \<union> set (g_i2c_names s). length (print_name x) \<le> 14)"

lemma dump_params_run:
  assumes tp: "trackperf_ok s" and pr: "print_ok s"
  shows "dump_params s = Inr s"
proof -
  have i: "length (show_int x) \<le> 14" if "x = 0 \<or> x = 1" for x using that by (auto simp: show_int_def show_nat.simps [of 0] show_nat.simps [of "Suc 0"])
  have "dump_array (g_sym_num_trackperf_fn s) (\<lambda>x. x) (g_sym_trackperf_fn s) s = Inr s"
    by (rule dump_array_run) (use tp pr in \<open>auto simp: trackperf_ok_def print_ok_def MAX_TRACKPERF_def\<close>)
  moreover have "dump_array (g_sym_num_trackperf_fn_flags s) show_int (g_sym_trackperf_fn_flags s) s = Inr s"
    by (rule dump_array_run) (use tp in \<open>auto simp: trackperf_ok_def MAX_TRACKPERF_def intro: i\<close>)
  moreover have "dump_array (int PCI_MAX_RESOURCES) (\<lambda>w. show_nat (unat w)) (g_platform_rflags s) s = Inr s"
    by (rule dump_array_run) (use pr in \<open>auto simp: print_ok_def PCI_MAX_RESOURCES_def length_show_word\<close>)
  moreover have "dump_array (int PCI_MAX_RESOURCES) print_name (g_platform_rnames s) s = Inr s"
    by (rule dump_array_run) (use pr in \<open>auto simp: print_ok_def PCI_MAX_RESOURCES_def MAX_CHIPS_def dest: in_set_takeD\<close>)
  moreover have "dump_array (int MAX_CHIPS) (\<lambda>w. show_nat (unat w)) (g_i2c_chip_addr s) s = Inr s"
    by (rule dump_array_run) (use pr in \<open>auto simp: print_ok_def MAX_CHIPS_def length_show_word\<close>)
  moreover have "dump_array (int MAX_CHIPS) print_name (g_i2c_names s) s = Inr s"
    by (rule dump_array_run) (use pr in \<open>auto simp: print_ok_def MAX_CHIPS_def dest: in_set_takeD\<close>)
  ultimately show ?thesis by (simp add: dump_params_def with_state_def)
qed

section \<open>Loading and unloading\<close>

definition devices_down :: "'a dev_state_scheme \<Rightarrow> bool" where
  "devices_down s \<longleftrightarrow> pci_cur_device s = 0 \<and> pci_drvdata s = Map.empty \<and> platform_pdev s = 0 \<and> i2c_pdev s = 0 \<and>
     i2c_clients s = replicate MAX_CHIPS 0"

definition devices_fresh :: "'a dev_state_scheme \<Rightarrow> bool" where
  "devices_fresh s \<longleftrightarrow> devices_down s \<and> length (tf_platform_resources s) = PCI_MAX_RESOURCES"

lemma more_fields:
  fixes s t :: "'a dev_state_scheme"
  assumes "mod_state.more t = mod_state.more s"
  shows "pci_cur_device t = pci_cur_device s" "pci_drvdata t = pci_drvdata s" "platform_pdev t = platform_pdev s"
    "i2c_pdev t = i2c_pdev s" "i2c_clients t = i2c_clients s" "tf_platform_resources t = tf_platform_resources s"
    "g_platform_enable t = g_platform_enable s" "g_platform_name t = g_platform_name s"
    "g_platform_nr t = g_platform_nr s" "g_platform_rflags t = g_platform_rflags s" "g_i2c_enable t = g_i2c_enable s"
    "g_i2c_chip_addr t = g_i2c_chip_addr s" "g_i2c_names t = g_i2c_names s" "g_spi_enable t = g_spi_enable s"
    "spi_private t = spi_private s" "g_platform_rnames t = g_platform_rnames s"
  using assms by (cases t, cases s, simp)+

lemma more_predicates:
  fixes s t :: "'a dev_state_scheme"
  assumes "mod_state.more t = mod_state.more s"
  shows "devices_fresh t = devices_fresh s" "platform_params t = platform_params s" "i2c_params k t = i2c_params k s"
    "chips t = chips s"
  using more_fields [OF assms]
  by (simp_all add: devices_fresh_def devices_down_def platform_params_def i2c_params_def name_fits_def chips_def)

lemma linux_init_common:
  assumes core: "core_ok k d" and un: "unloaded s" and mem: "\<forall>n. kmalloc_ok s n" and tp: "trackperf_ok s" and pr: "print_ok s"
  obtains t where "loaded t" "mod_state.more t = mod_state.more s" "\<forall>n. kmalloc_ok t n"
    "linux_init k s = returning 0 (block [must_succeed ''Failed initializing test framework 6'' (initialize_platform_device k),
      must_succeed ''Failed initializing test framework 7'' (initialize_i2c_device k),
      must_succeed ''Failed initializing test framework 8'' (initialize_spi_device k)]) t"
proof -
  from init_common_run [OF un mem tp] obtain t where t: "init_common s = Inr t" "loaded t" "same_build s t"
    "mod_state.more t = mod_state.more s" by blast
  obtain u where u: "initialize_ep t = Inr (0, u)" "loaded u = loaded t" "kmalloc_ok u = kmalloc_ok t"
    "mod_state.more u = mod_state.more t" by (rule initialize_ep_run)
  show thesis
  proof (rule that [of u])
    show "loaded u" "mod_state.more u = mod_state.more s" using t u by simp_all
    show "\<forall>n. kmalloc_ok u n" using t(3) u(3) mem by (simp add: same_build_def)
    show "linux_init k s = returning 0 (block [must_succeed ''Failed initializing test framework 6'' (initialize_platform_device k),
      must_succeed ''Failed initializing test framework 7'' (initialize_i2c_device k),
      must_succeed ''Failed initializing test framework 8'' (initialize_spi_device k)]) u"
      by (simp add: linux_init_def returning_def dump_params_run [OF tp pr] t(1) must_succeed_def with_result_def u(1)
          initialize_ep_control_def core_okD(2) [OF core])
  qed
qed

lemma bus_off:
  "g_platform_enable s = 0 \<Longrightarrow> initialize_platform_device k s = Inr (0, s)"
  "g_i2c_enable s = 0 \<Longrightarrow> initialize_i2c_device k s = Inr (0, s)"
  "g_spi_enable s = 0 \<Longrightarrow> initialize_spi_device k s = Inr (0, s)"
  "g_platform_enable s = 0 \<Longrightarrow> free_platform_device k s = Inr s"
  "g_i2c_enable s = 0 \<Longrightarrow> free_i2c_device k s = Inr s"
  "g_spi_enable s = 0 \<Longrightarrow> free_spi_device k s = Inr s"
  by (simp_all add: initialize_platform_device_def initialize_i2c_device_def initialize_spi_device_def free_platform_device_def
      free_i2c_device_def free_spi_device_def)

lemma bus_busy:
  assumes "core_ok k d" and "pci_cur_device s \<noteq> 0"
  shows "g_i2c_enable s \<noteq> 0 \<Longrightarrow> initialize_i2c_device k s = Inl (Panic ''pci_register_driver failed'')"
    and "g_spi_enable s \<noteq> 0 \<Longrightarrow> initialize_spi_device k s = Inl (Panic ''pci_register_driver failed'')"
  using pci_probe_again [OF assms]
  by (simp_all add: initialize_i2c_device_def initialize_spi_device_def with_result_def)

text \<open>What loading leaves behind for each bus that is enabled, and what unloading gives back.\<close>

definition buses_up :: "('a dev_state_scheme) linux_core \<Rightarrow> ulong \<Rightarrow> 'a dev_state_scheme \<Rightarrow> bool" where
  "buses_up k d t \<longleftrightarrow> loaded t \<and>
     pci_cur_device t = (if g_platform_enable t = 0 \<and> g_i2c_enable t = 0 \<and> g_spi_enable t = 0 then 0 else d) \<and>
     pci_drvdata t = (if pci_cur_device t = 0 then Map.empty else [d \<mapsto> d]) \<and>
     (if g_platform_enable t = 0 then platform_pdev t = 0
      else platform_pdev t = d \<and> take (nat (g_platform_nr t)) (plat_resource (tf_platform_device t)) =
        map (wanted k t) [0..<nat (g_platform_nr t)]) \<and>
     (if g_i2c_enable t = 0 then i2c_pdev t = 0 \<and> i2c_clients t = replicate MAX_CHIPS 0
      else i2c_pdev t = d \<and> length (i2c_clients t) = MAX_CHIPS \<and>
        (i2c_clients t = replicate MAX_CHIPS 0 \<or> (\<forall>i < MAX_CHIPS. i2c_clients t ! i \<noteq> 0 \<longleftrightarrow> i < length (chips t)))) \<and>
     (if g_spi_enable t = 0 then True
      else case spi_private t of None \<Rightarrow> False | Some p \<Rightarrow> spi_pdev p = d \<and> spi_irq (spi_board p) = dev_irq k d)"

definition bus_count :: "'a dev_state_scheme \<Rightarrow> nat" where
  "bus_count s = length (filter (\<lambda>e. e \<noteq> 0) [g_platform_enable s, g_i2c_enable s, g_spi_enable s])"

definition bus_params :: "('a dev_state_scheme) linux_core \<Rightarrow> 'a dev_state_scheme \<Rightarrow> bool" where
  "bus_params k s \<longleftrightarrow> (g_platform_enable s = 0 \<or> platform_params s) \<and> (g_i2c_enable s = 0 \<or> i2c_params k s)"

lemma buses_come_up:
  assumes core: "core_ok k d" and l: "loaded s" and mem: "\<forall>n. kmalloc_ok s n" and fresh: "devices_fresh s" and par: "bus_params k s"
  shows "if bus_count s \<le> 1 then \<exists>t. block [must_succeed a (initialize_platform_device k), must_succeed b (initialize_i2c_device k),
      must_succeed c (initialize_spi_device k)] s = Inr t \<and> buses_up k d t \<and> bus_count t = bus_count s
    else block [must_succeed a (initialize_platform_device k), must_succeed b (initialize_i2c_device k),
      must_succeed c (initialize_spi_device k)] s = Inl (Panic ''pci_register_driver failed'')"
proof -
  note d = core_okD(1) [OF core]
  have f: "pci_cur_device s = 0" "pci_drvdata s = Map.empty" "platform_pdev s = 0" "i2c_pdev s = 0"
    "i2c_clients s = replicate MAX_CHIPS 0" "length (tf_platform_resources s) = PCI_MAX_RESOURCES"
    using fresh by (simp_all add: devices_fresh_def devices_down_def)
  have m: "kmalloc_ok s (kmalloc_calls s)" using mem by simp
  show ?thesis
  proof (cases "g_platform_enable s = 0")
    case p: False
    from initialize_platform_device_run [OF core m f(1,3) p _ f(6)] par p obtain t n pd
      where t: "initialize_platform_device k s = Inr (0, t)" "t = s\<lparr>kmalloc_calls := n, pci_cur_device := d,
          pci_drvdata := (pci_drvdata s)(d := Some d), platform_pdev := d, tf_platform_resources := plat_resource pd,
          tf_platform_device := pd\<rparr>"
        "take (nat (g_platform_nr s)) (plat_resource pd) = map (wanted k t) [0..<nat (g_platform_nr s)]"
      by (auto simp: bus_params_def)
    have q: "pci_cur_device t \<noteq> 0" "g_i2c_enable t = g_i2c_enable s" "g_spi_enable t = g_spi_enable s"
      using d by (simp_all add: t(2))
    note busy = bus_busy [OF core q(1)]
    show ?thesis
    proof (cases "g_i2c_enable s = 0 \<and> g_spi_enable s = 0")
      case True
      have "buses_up k d t" using l f p True d t(3) by (simp add: buses_up_def t(2))
      moreover have "bus_count t = bus_count s" by (simp add: bus_count_def t(2))
      ultimately show ?thesis using t(1) True q p
        by (auto simp: must_succeed_def with_result_def bus_off bus_count_def)
    next
      case False
      then show ?thesis using p t(1) q busy by (auto simp: must_succeed_def with_result_def bus_off bus_count_def)
    qed
  next
    case p: True
    show ?thesis
    proof (cases "g_i2c_enable s = 0")
      case i: False
      from initialize_i2c_device_run [OF core m f(1,4) i _ f(5)] par i obtain n x cs
        where t: "initialize_i2c_device k s = Inr (0, s\<lparr>kmalloc_calls := n, pci_cur_device := d,
            pci_drvdata := (pci_drvdata s)(d := Some d), i2c_pdev := d, i2c_board := x, i2c_clients := cs\<rparr>)"
          "length cs = MAX_CHIPS" "cs = replicate MAX_CHIPS 0 \<or> (\<forall>i < MAX_CHIPS. cs ! i \<noteq> 0 \<longleftrightarrow> i < length (chips s))"
        by (auto simp: bus_params_def)
      let ?t = "s\<lparr>kmalloc_calls := n, pci_cur_device := d, pci_drvdata := (pci_drvdata s)(d := Some d), i2c_pdev := d,
        i2c_board := x, i2c_clients := cs\<rparr>"
      have q: "pci_cur_device ?t \<noteq> 0" using d by simp
      have "buses_up k d ?t" if "g_spi_enable s = 0" using l f p i d t(2,3) that by (simp add: buses_up_def)
      with t(1) p i bus_busy [OF core q] show ?thesis
        by (auto simp: must_succeed_def with_result_def bus_off bus_count_def)
    next
      case i: True
      show ?thesis
      proof (cases "g_spi_enable s = 0")
        case e: False
        from initialize_spi_device_run [OF core m f(1) e] obtain n q
          where t: "initialize_spi_device k s = Inr (0, s\<lparr>kmalloc_calls := n, pci_cur_device := d,
              pci_drvdata := (pci_drvdata s)(d := Some d), spi_private := Some q\<rparr>)" "spi_pdev q = d"
            "spi_irq (spi_board q) = dev_irq k d" by blast
        let ?t = "s\<lparr>kmalloc_calls := n, pci_cur_device := d, pci_drvdata := (pci_drvdata s)(d := Some d), spi_private := Some q\<rparr>"
        have "buses_up k d ?t" using l f p i e d t(2,3) by (simp add: buses_up_def)
        with t(1) p i e show ?thesis by (auto simp: must_succeed_def with_result_def bus_off bus_count_def)
      next
        case e: True
        have "buses_up k d s" using l f p i e by (simp add: buses_up_def)
        with p i e show ?thesis by (auto simp: must_succeed_def with_result_def bus_off bus_count_def)
      qed
    qed
  qed
qed

lemma buses_go_down:
  assumes core: "core_ok k d" and up: "buses_up k d s" and one: "bus_count s \<le> 1"
  obtains t where "block [free_spi_device k, free_i2c_device k, free_platform_device k] s = Inr t" "loaded t"
    "devices_down t"
proof -
  note d = core_okD(1) [OF core]
  have l: "loaded s" using up by (simp add: buses_up_def)
  consider (none) "g_platform_enable s = 0" "g_i2c_enable s = 0" "g_spi_enable s = 0"
    | (plat) "g_platform_enable s \<noteq> 0" "g_i2c_enable s = 0" "g_spi_enable s = 0"
    | (i2c) "g_platform_enable s = 0" "g_i2c_enable s \<noteq> 0" "g_spi_enable s = 0"
    | (spi) "g_platform_enable s = 0" "g_i2c_enable s = 0" "g_spi_enable s \<noteq> 0"
    using one by (auto simp: bus_count_def split: if_splits)
  then show thesis
  proof cases
    case none
    show thesis by (rule that [of s]) (use none up l in \<open>simp_all add: bus_off buses_up_def devices_down_def\<close>)
  next
    case plat
    let ?t = "s\<lparr>pci_cur_device := 0, pci_drvdata := (pci_drvdata s)(d := None), platform_pdev := 0\<rparr>"
    from plat up d have "free_platform_device k s = Inr ?t"
      by (intro free_platform_device_run [OF core]) (simp_all add: buses_up_def)
    with plat show thesis
      by (intro that [of ?t]) (use up l d in \<open>simp_all add: bus_off buses_up_def devices_down_def\<close>)
  next
    case i2c
    let ?t = "s\<lparr>pci_cur_device := 0, pci_drvdata := (pci_drvdata s)(d := None), i2c_pdev := 0, i2c_clients := replicate MAX_CHIPS 0\<rparr>"
    from i2c up d have "free_i2c_device k s = Inr ?t"
      by (intro free_i2c_device_run [OF core]) (auto simp: buses_up_def)
    with i2c show thesis
      by (intro that [of ?t]) (use up l d in \<open>simp_all add: bus_off buses_up_def devices_down_def\<close>)
  next
    case spi
    let ?t = "s\<lparr>pci_cur_device := 0, pci_drvdata := (pci_drvdata s)(d := None)\<rparr>"
    from spi up obtain p where p: "spi_private s = Some p" "spi_pdev p = d" by (auto simp: buses_up_def split: option.splits)
    from spi up p d have "free_spi_device k s = Inr ?t"
      by (intro free_spi_device_run [OF core]) (simp_all add: buses_up_def)
    with spi show thesis
      by (intro that [of ?t]) (use up l d in \<open>simp_all add: bus_off buses_up_def devices_down_def\<close>)
  qed
qed

text \<open>C18. Loading under Linux with at most one made up bus enabled and sensible parameters succeeds and brings up
  the framework and the device: the platform device has the regions and the interrupt of the PCI device, every
  chip has a client or none has, the SPI slave the interrupt. Unloading takes device and framework down again.
  With two buses enabled the second registers the PCI driver again and the kernel panics.\<close>

theorem linux_load_unload:
  fixes s :: "'a dev_state_scheme"
  assumes core: "core_ok k d" and un: "unloaded s" and mem: "\<forall>n. kmalloc_ok s n" and tp: "trackperf_ok s"
    and pr: "print_ok s" and fresh: "devices_fresh s" and par: "bus_params k s"
  shows "if bus_count s \<le> 1 then \<exists>t u. linux_init k s = Inr (0, t) \<and> buses_up k d t \<and>
      linux_cleanup k t = Inr u \<and> devices_down u \<and> objs u = None \<and> ft_objs u = None \<and> unlocked u
    else linux_init k s = Inl (Panic ''pci_register_driver failed'')"
proof -
  from linux_init_common [OF core un mem tp pr] obtain t where t: "loaded t" "mod_state.more t = mod_state.more s"
    "\<forall>n. kmalloc_ok t n" "linux_init k s = returning 0 (block [must_succeed ''Failed initializing test framework 6'' (initialize_platform_device k),
      must_succeed ''Failed initializing test framework 7'' (initialize_i2c_device k),
      must_succeed ''Failed initializing test framework 8'' (initialize_spi_device k)]) t" by blast
  have n: "bus_count t = bus_count s" by (simp add: bus_count_def more_fields [OF t(2)])
  have "devices_fresh t" "bus_params k t"
    using fresh par by (simp_all add: bus_params_def more_predicates [OF t(2)] more_fields [OF t(2)])
  note up = buses_come_up [OF core t(1,3) this, where a = "''Failed initializing test framework 6''"
      and b = "''Failed initializing test framework 7''" and c = "''Failed initializing test framework 8''"]
  show ?thesis
  proof (cases "bus_count s \<le> 1")
    case True
    with up n obtain v where v: "linux_init k s = Inr (0, v)" "buses_up k d v" "bus_count v = bus_count s"
      unfolding t(4) by (auto simp del: block.simps)
    from buses_go_down [OF core v(2)] v(3) True obtain x
      where x: "block [free_spi_device k, free_i2c_device k, free_platform_device k] v = Inr x" "loaded x" "devices_down x"
      by auto
    from loaded_cleanup [OF x(2)] obtain u where u: "cleanup_common x = Inr u" "objs u = None" "ft_objs u = None" "unlocked u"
      "mod_state.more u = mod_state.more x" by blast
    have "linux_cleanup k v = block ([free_spi_device k, free_i2c_device k, free_platform_device k] @ [free_ep_control k, cleanup_common]) v"
      by (simp add: linux_cleanup_def)
    also have "\<dots> = Inr u" unfolding block_append x(1)
      by (simp add: free_ep_control_def ignore_result_def core_okD(3) [OF core] u(1))
    finally have "linux_cleanup k v = Inr u" .
    moreover have "devices_down u" using x(3) by (simp add: devices_down_def more_fields [OF u(5)])
    ultimately show ?thesis using True v u by auto
  next
    case False
    with up n show ?thesis unfolding t(4) by (simp del: block.simps)
  qed
qed

text \<open>A kernel of that kind, with one PCI device at address 0x4000, and a module loaded for an I2C driver.\<close>

definition plain_core :: "('a dev_state_scheme) linux_core" where
  "plain_core = \<lparr>misc_register = \<lambda>s. Inr (0, s), misc_deregister = \<lambda>s. Inr (0, s),
     pci_register_driver = \<lambda>p s. if pci_cur_device s \<noteq> 0 then Inr (-16, s) else map_sum id (\<lambda>(r, t). (0, t)) (p 0x4000 s),
     pci_unregister_driver = \<lambda>f s. f 0x4000 s, pci_enable_device = \<lambda>x s. Inr (0, s), pci_disable_device = \<lambda>x. Inr,
     pci_resource_start = \<lambda>x i. 0x10000 * of_nat i, pci_resource_end = \<lambda>x i. 0x10000 * of_nat i + 0xFF,
     dev_resource_start = \<lambda>x i. 0x10000 * of_nat i, dev_irq = \<lambda>x. 11,
     platform_device_register = \<lambda>x s. Inr (0, s), platform_device_unregister = \<lambda>x. Inr,
     i2c_add_adapter = \<lambda>s. Inr (0, s), i2c_del_adapter = Inr, i2c_new_device = \<lambda>b s. Inr (0x5000, s),
     i2c_unregister_device = \<lambda>c. Inr, I2C_NAME_SIZE = 20, spi_alloc_master = \<lambda>x s. Inr (0x6000, s),
     spi_master_get = \<lambda>m s. Inr (m, s), spi_master_put = \<lambda>m. Inr,
     spi_bitbang_start = \<lambda>p s. Inr (0, s\<lparr>spi_private := map_option (\<lambda>q. q\<lparr>master_bus_num := 32766\<rparr>) (spi_private s)\<rparr>),
     spi_bitbang_stop = \<lambda>p. Inr, spi_new_device = \<lambda>b s. Inr (0x7000, s), SPI_CPOL = 2, SPI_CPHA = 1, SPI_CS_HIGH = 4\<rparr>"

lemma plain_core_ok: "core_ok plain_core 0x4000"
  by (simp add: core_ok_def plain_core_def) (rule allI, rule exI, rule refl)

definition loading_i2c :: "dev_state" where
  "loading_i2c = mod_state.extend loading (dev_state.fields 0
     0 '''' 0 (replicate PCI_MAX_RESOURCES 0) (replicate MAX_CHIPS None)
     1 [0x21, 0x22, 0, 0, 0, 0, 0, 0] 0xFFFFFFFF (Some ''lp5523'' # Some ''a1026'' # replicate 6 None)
     0 '''' 0 Map.empty 0 (replicate PCI_MAX_RESOURCES \<lparr>res_start = 0, res_end = 0, res_name = None, res_flags = 0\<rparr>)
     \<lparr>plat_name = '''', plat_id = 0, num_resources = 0, plat_resource = []\<rparr>
     0 (replicate MAX_CHIPS \<lparr>i2c_type = '''', i2c_addr = 0, i2c_irq = 0\<rparr>) (replicate MAX_CHIPS 0) None)"

lemma loading_i2c_ok:
  "unloaded loading_i2c" "\<forall>n. kmalloc_ok loading_i2c n" "trackperf_ok loading_i2c" "print_ok loading_i2c"
  "devices_fresh loading_i2c" "bus_params plain_core loading_i2c" "bus_count loading_i2c = 1"
  by (simp_all add: loading_i2c_def mod_state.extend_def dev_state.fields_def loading_def unloaded_def trackperf_ok_def
      zero_ndo_driver_state_def MAX_TRACKPERF_def print_ok_def PCI_MAX_RESOURCES_def MAX_CHIPS_def devices_fresh_def
      devices_down_def bus_params_def i2c_params_def chips_def name_fits_def plain_core_def bus_count_def)

theorem linux_load_unload_witness:
  "\<exists>t u. linux_init plain_core loading_i2c = Inr (0, t) \<and> buses_up plain_core 0x4000 t \<and>
     linux_cleanup plain_core t = Inr u \<and> devices_down u"
proof -
  note ok = loading_i2c_ok
  from linux_load_unload [OF plain_core_ok ok(1-6)] ok(7) show ?thesis by auto
qed

section \<open>What the I2C adapter answers\<close>

lemma symbolic_byte_run:
  assumes "p \<noteq> 0"
  shows "symbolic_byte name vals p off bytes s =
    (if off < length bytes then Inr (bytes[off := vals off],
       s\<lparr>s2e_log := s2e_log s @ [S2E_make_symbolic (p + of_nat off) 1 name]\<rparr>) else Inl Out_Of_Bounds)"
proof -
  have "(w :: u8) AND 0xFF = w" for w
  proof -
    have "(0xFF :: u8) = -1" by simp
    then show ?thesis by (simp only: and.right_neutral)
  qed
  then show ?thesis using assms
    by (auto simp: symbolic_byte_def symbolic_at_def upd_conv_take_nth_drop list_update_append nth_append)
qed

lemma symbolic_word_run:
  assumes "p \<noteq> 0" and "2 \<le> length bytes"
  shows "\<exists>t. symbolic_at name vals p 0 2 bytes s = Inr (vals 0 # vals 1 # drop 2 bytes, t)"
  using assms by (simp add: symbolic_at_def upt_conv_Cons numeral_2_eq_2)

lemma symbolic_block_run:
  assumes p: "p \<noteq> 0"
  shows "a \<le> b \<Longrightarrow> (if b < length bytes then
      \<exists>bs t. symbolic_block vals p [a..<b] bytes s = Inr (bs, t) \<and> length bs = length bytes \<and>
        (\<forall>i < length bytes. bs ! i = (if Suc a \<le> i \<and> i \<le> b then vals i else bytes ! i))
    else b = a \<or> symbolic_block vals p [a..<b] bytes s = Inl Out_Of_Bounds)"
proof (induction "b - a" arbitrary: a bytes s)
  case 0
  then show ?case by auto
next
  case (Suc n)
  let ?s = "s\<lparr>s2e_log := s2e_log s @ [S2E_make_symbolic (p + of_nat (1 + a)) 1 ''sym_I2C_SMBUS_I2C_BLOCK_DATA'']\<rparr>"
  let ?bytes = "bytes[Suc a := vals (Suc a)]"
  have up: "[a..<b] = a # [Suc a..<b]" using Suc.hyps(2) by (intro upt_conv_Cons) simp
  have st: "symbolic_block vals p [a..<b] bytes s =
      (if Suc a < length bytes then symbolic_block vals p [Suc a..<b] ?bytes ?s else Inl Out_Of_Bounds)"
    unfolding up by (simp add: symbolic_byte_run [OF p])
  have IH: "if b < length ?bytes then
      \<exists>bs t. symbolic_block vals p [Suc a..<b] ?bytes ?s = Inr (bs, t) \<and> length bs = length ?bytes \<and>
        (\<forall>i < length ?bytes. bs ! i = (if Suc (Suc a) \<le> i \<and> i \<le> b then vals i else ?bytes ! i))
    else b = Suc a \<or> symbolic_block vals p [Suc a..<b] ?bytes ?s = Inl Out_Of_Bounds"
    by (rule Suc.hyps(1)) (use Suc.hyps(2) in simp_all)
  show ?case
  proof (cases "b < length bytes")
    case True
    with IH obtain bs t where b: "symbolic_block vals p [Suc a..<b] ?bytes ?s = Inr (bs, t)" "length bs = length bytes"
      "\<forall>i < length bytes. bs ! i = (if Suc (Suc a) \<le> i \<and> i \<le> b then vals i else ?bytes ! i)" by auto
    have "bs ! i = (if Suc a \<le> i \<and> i \<le> b then vals i else bytes ! i)" if "i < length bytes" for i
      using b(3) that Suc.hyps(2) by (cases "i = Suc a") (auto simp: nth_list_update)
    moreover have "Suc a < length bytes" using True Suc.hyps(2) by simp
    ultimately show ?thesis using True b(1,2) st by auto
  next
    case False
    with IH st Suc.hyps(2) show ?thesis by auto
  qed
qed

text \<open>The bytes of the union that hold symbolic data after a transfer.\<close>

definition symbolic_bytes :: "bool \<Rightarrow> smbus_protocol \<Rightarrow> u8 list \<Rightarrow> nat set" where
  "symbolic_bytes wr protocol data =
     (if protocol = I2C_SMBUS_PROC_CALL then {0, 1}
      else if wr then {}
      else if protocol = I2C_SMBUS_BYTE \<or> protocol = I2C_SMBUS_BYTE_DATA then {0}
      else if protocol = I2C_SMBUS_WORD_DATA then {0, 1}
      else if protocol = I2C_SMBUS_I2C_BLOCK_DATA then {1..unat (data ! 0)}
      else {})"

lemma advertised: "f \<in> set fs \<Longrightarrow> foldr (\<lambda>f w. I2C_FUNC c f OR w) fs 0 AND I2C_FUNC c f = I2C_FUNC c f"
proof (induction fs)
  case (Cons g fs)
  then show ?case by (auto simp: bit_eq_iff bit_simps)
qed simp

text \<open>C39. What the made up adapter answers when a chip is addressed and no error is injected: transfers of at
  most a word and of blocks up to the size of the union return zero and put symbolic bytes exactly where the
  protocol sends data; a longer block is written over the end of the union; and the three block protocols panic.
  Yet by default the adapter advertises every function, those of the block protocols included.\<close>

theorem i2c_stub_answers:
  assumes ok: "\<not> IS_ERR_VALUE s (word_of_int ret)" and chip: "addr \<in> snd ` set (chips s)"
    and data: "p \<noteq> 0" "length data = 34"
  shows "(if protocol \<in> {I2C_SMBUS_BLOCK_DATA, I2C_SMBUS_I2C_BLOCK_BROKEN, I2C_SMBUS_BLOCK_PROC_CALL} \<or> (\<exists>n. protocol = Other_Protocol n)
     then \<exists>m. stub_xfer ret vals addr wr protocol p data s = Inl (Panic m)
     else if protocol = I2C_SMBUS_I2C_BLOCK_DATA \<and> \<not> wr \<and> 34 \<le> unat (data ! 0)
     then stub_xfer ret vals addr wr protocol p data s = Inl Out_Of_Bounds
     else \<exists>data' t. stub_xfer ret vals addr wr protocol p data s = Inr ((0, data'), t) \<and> length data' = 34 \<and>
       (\<forall>i < 34. data' ! i = (if i \<in> symbolic_bytes wr protocol data then vals i else data ! i))) \<and>
    (g_i2c_functionality s = STUB_FUNC c \<longrightarrow>
       (\<forall>f \<in> set STUB_FUNC_bits. stub_func c s AND I2C_FUNC c f = I2C_FUNC c f))"
proof
  let ?s = "s\<lparr>s2e_log := s2e_log s @ [S2E_make_symbolic_local ''s32'' ''retval'']\<rparr>"
  have c: "(\<forall>(i, chip) \<in> set (chips ?s). addr \<noteq> chip) = False" using chip by (force simp: chips_def)
  have two: "(vals 0 # vals (Suc 0) # drop 2 data) ! i = (if i = 0 \<or> i = Suc 0 then vals i else data ! i)" if "i < 34" for i
  proof -
    consider "i = 0" | "i = Suc 0" | j where "i = Suc (Suc j)" by (metis not0_implies_Suc)
    then show ?thesis using that data(2) by cases auto
  qed
  show "if protocol \<in> {I2C_SMBUS_BLOCK_DATA, I2C_SMBUS_I2C_BLOCK_BROKEN, I2C_SMBUS_BLOCK_PROC_CALL} \<or> (\<exists>n. protocol = Other_Protocol n)
     then \<exists>m. stub_xfer ret vals addr wr protocol p data s = Inl (Panic m)
     else if protocol = I2C_SMBUS_I2C_BLOCK_DATA \<and> \<not> wr \<and> 34 \<le> unat (data ! 0)
     then stub_xfer ret vals addr wr protocol p data s = Inl Out_Of_Bounds
     else \<exists>data' t. stub_xfer ret vals addr wr protocol p data s = Inr ((0, data'), t) \<and> length data' = 34 \<and>
       (\<forall>i < 34. data' ! i = (if i \<in> symbolic_bytes wr protocol data then vals i else data ! i))"
  proof (cases protocol)
    case I2C_SMBUS_I2C_BLOCK_DATA
    have ne: "data \<noteq> []" using data(2) by auto
    note b = symbolic_block_run [OF data(1), of 0 "unat (data ! 0)" data vals ?s]
    show ?thesis
    proof (cases "wr")
      case True
      then show ?thesis using I2C_SMBUS_I2C_BLOCK_DATA ok data ne by (simp add: c stub_xfer_def Let_def symbolic_bytes_def)
    next
      case False
      show ?thesis
      proof (cases "unat (data ! 0) < 34")
        case True
        with b data(2) obtain bs t where "symbolic_block vals p [0..<unat (data ! 0)] data ?s = Inr (bs, t)" "length bs = 34"
          "\<forall>i < 34. bs ! i = (if Suc 0 \<le> i \<and> i \<le> unat (data ! 0) then vals i else data ! i)" by auto
        then show ?thesis using I2C_SMBUS_I2C_BLOCK_DATA False True ok data ne
          by (simp add: c stub_xfer_def Let_def symbolic_bytes_def)
      next
        case f: False
        with b data(2) have "symbolic_block vals p [0..<unat (data ! 0)] data ?s = Inl Out_Of_Bounds" by auto
        then show ?thesis using I2C_SMBUS_I2C_BLOCK_DATA False f ok data ne by (simp add: c stub_xfer_def Let_def)
      qed
    qed
  next
    case I2C_SMBUS_WORD_DATA
    from symbolic_word_run [OF data(1), of data "''sym_I2C_SMBUS_WORD_DATA''" vals ?s] data(2) obtain t
      where "symbolic_at ''sym_I2C_SMBUS_WORD_DATA'' vals p 0 2 data ?s = Inr (vals 0 # vals 1 # drop 2 data, t)" by auto
    then show ?thesis using I2C_SMBUS_WORD_DATA ok data two by (simp add: c stub_xfer_def Let_def symbolic_bytes_def)
  next
    case I2C_SMBUS_PROC_CALL
    from symbolic_word_run [OF data(1), of data "''sym_I2C_SMBUS_PROC_CALL''" vals ?s] data(2) obtain t
      where "symbolic_at ''sym_I2C_SMBUS_PROC_CALL'' vals p 0 2 data ?s = Inr (vals 0 # vals 1 # drop 2 data, t)" by auto
    then show ?thesis using I2C_SMBUS_PROC_CALL ok data two by (simp add: c stub_xfer_def Let_def symbolic_bytes_def)
  qed (use ok data in \<open>auto simp: c stub_xfer_def Let_def symbolic_bytes_def symbolic_byte_run\<close>)
  show "g_i2c_functionality s = STUB_FUNC c \<longrightarrow> (\<forall>f \<in> set STUB_FUNC_bits. stub_func c s AND I2C_FUNC c f = I2C_FUNC c f)"
    by (simp add: stub_func_def STUB_FUNC_def advertised)
qed

theorem i2c_stub_answers_witness:
  "\<exists>data' t. stub_xfer 0 (\<lambda>i. 0xAB) 0x21 False I2C_SMBUS_I2C_BLOCK_DATA 0x9000 (2 # replicate 33 0) loading_i2c = Inr ((0, data'), t) \<and>
     data' ! 2 = 0xAB \<and> data' ! 3 = 0"
proof -
  have ok: "\<not> IS_ERR_VALUE loading_i2c (word_of_int 0)"
    by (simp add: loading_i2c_def mod_state.extend_def loading_def dev_state.fields_def)
  have chip: "0x21 \<in> snd ` set (chips loading_i2c)"
    by (simp add: chips_def loading_i2c_def mod_state.extend_def dev_state.fields_def MAX_CHIPS_def)
  from i2c_stub_answers [OF ok chip, where p = "0x9000" and data = "2 # replicate 33 0" and protocol = I2C_SMBUS_I2C_BLOCK_DATA
      and vals = "\<lambda>i. 0xAB" and wr = False]
  show ?thesis by (force simp: symbolic_bytes_def)
qed

end
