(* ===== verification/Freebsd_Checks.thy ===== *)
theory Freebsd_Checks
  imports Module_Init
begin

text \<open>
  The FreeBSD build: \<open>misc_checks/freebsd.c\<close>, the FreeBSD part of \<open>misc_checks/irq.c\<close> and the module event
  handler of \<open>init_module.c\<close>. The routines for \<open>bus_dmamap_load\<close> and its relatives keep a table of the maps
  the driver has loaded, so that the memory behind them is symbolic from the load to the unload; they put a
  callback of their own before the driver's. A pointer to an entry of the table is its index; a callback
  argument is the driver's, an entry, or the address the argument is stored at. The assertions of this build
  do not dump the driver's stack; inside a routine both builds end the path in the same way.
\<close>

section \<open>State\<close>

definition MAX_SEGS :: nat where "MAX_SEGS = 128"
definition MAX_STRUCTS :: nat where "MAX_STRUCTS = 4096"

datatype dma_arg = Driver_Arg ulong | Struct_Arg nat | Own_Address
datatype dma_callback = Driver_Callback ulong | Load_Callback1 | Load_Callback2

record dma_struct =
  used :: int
  dma_tag :: ulong
  ds_addr :: "ulong list"
  ds_len :: "u32 list"
  nsegs :: int
  orig_arg :: dma_arg
  orig_callback1 :: dma_callback
  orig_callback2 :: dma_callback

record fb_irq_struct =
  fb_allocated :: int
  fb_res :: ulong
  fb_handler :: ulong
  fb_parameter :: ulong
  fb_flags :: ulong
  fb_enabled :: int

record fb_state = mod_state +
  fb_sym_params :: int
  dma_structs :: "dma_struct list option"
  last_unused :: nat
  load_cur :: "nat option"
  load_mbuf_cur :: "nat option"
  adaptive :: u8
  channel_count :: u32
  fb_irq :: "fb_irq_struct list"

text \<open>Constants of the kernel's MII headers.\<close>

record mii_constants =
  MII_BMSR :: int
  BMSR_EXTSTAT :: u32
  BMSR_MEDIAMASK :: u32
  BMSR_100TXFDX :: u32
  BMSR_LINK :: u32
  BMCR_ISO :: u32

definition zero_struct :: dma_struct where
  "zero_struct = \<lparr>used = 0, dma_tag = 0, ds_addr = replicate MAX_SEGS 0, ds_len = replicate MAX_SEGS 0, nsegs = 0,
     orig_arg = Driver_Arg 0, orig_callback1 = Driver_Callback 0, orig_callback2 = Driver_Callback 0\<rparr>"

definition fb_assert :: "('a test_state_scheme \<Rightarrow> bool) \<Rightarrow> string \<Rightarrow> ('a test_state_scheme) act" where
  "fb_assert P msg = (\<lambda>s. if P s then Inr s else if objs s = None then Inl Null_Deref else Inl (Killed 0 1 msg))"

text \<open>A value written through a pointer, as a function of the state the routine ends in.\<close>

definition with_final :: "('s \<Rightarrow> 'v) \<Rightarrow> 's check \<Rightarrow> (int \<times> 'v, 's) prog" where
  "with_final out c = (\<lambda>s. case c s of Inl e \<Rightarrow> Inl e | Inr (r, t) \<Rightarrow> Inr ((r, out t), t))"

section \<open>Network and sound\<close>

definition fb_default_MJRcheck :: "'s check" where
  "fb_default_MJRcheck = returning 0 skip"

definition ed_attach_MJRcheck :: "('a test_state_scheme) check" where
  "ed_attach_MJRcheck = check_routine 0 skip"

definition miibus_readreg_desc_MJRcheck :: "mii_constants \<Rightarrow> int \<Rightarrow> u32 \<Rightarrow> int \<Rightarrow> ('a test_state_scheme) check" where
  "miibus_readreg_desc_MJRcheck k prepost retval reg = check_routine 0 (on_prepost prepost skip
     (if reg = MII_BMSR k then
        if retval = 0 \<or> retval = 0xFFFF \<or> retval AND (BMSR_EXTSTAT k OR BMSR_MEDIAMASK k) = 0 \<or>
           retval AND BMSR_100TXFDX k = 0 \<or> retval AND BMSR_LINK k = 0 \<or> retval AND BMCR_ISO k \<noteq> 0
        then fail (Killed 0 0 ''miibus_readreg_desc hack'')
        else skip
      else skip))"

definition mii_bitbang_readreg_MJRcheck :: "int \<Rightarrow> int \<Rightarrow> ('a test_state_scheme) check" where
  "mii_bitbang_readreg_MJRcheck prepost retval = check_routine 0 (on_prepost prepost skip
     (if retval = 0 then fail (Killed 0 0 ''mii_bitbang_readreg hack'') else skip))"

text \<open>The new value of \<open>*phyloc\<close> is handed back.\<close>

definition mii_attach_MJRcheck :: "int \<Rightarrow> int \<Rightarrow> (int \<times> int, 'a test_state_scheme) prog" where
  "mii_attach_MJRcheck prepost phyloc =
     with_out (\<lambda>_. if prepost = 0 then 0 else phyloc) (check_routine 0 (on_prepost prepost skip skip))"

definition next_adaptive :: "u8 \<Rightarrow> u8" where
  "next_adaptive a = (if a = 0 then 1 else a) * 2"

definition slowed_ticks :: "u32 \<Rightarrow> int \<Rightarrow> u8 \<Rightarrow> u32" where
  "slowed_ticks to_ticks slow a =
     (let t = to_ticks * word_of_int slow * ucast a in if sint t > 2000 then 2000 else t)"

definition callout_reset_on_MJRcheck :: "int \<Rightarrow> u32 \<Rightarrow> (int \<times> u32, 'a fb_state_scheme) prog" where
  "callout_reset_on_MJRcheck prepost to_ticks =
     with_final (\<lambda>t. if prepost = 0 then slowed_ticks to_ticks (g_sym_slow_timers t) (adaptive t) else to_ticks)
       (check_routine 0 (on_prepost prepost (update (\<lambda>s. s\<lparr>adaptive := next_adaptive (adaptive s)\<rparr>)) skip))"

definition next_count :: "u32 \<Rightarrow> u32" where
  "next_count n = (let c = n * 2 AND 0xFFFFFF00 in if c < 1024 then 1024 else c)"

definition channel_getptr_desc_MJRcheck :: "int \<Rightarrow> u32 \<Rightarrow> (int \<times> u32, 'a fb_state_scheme) prog" where
  "channel_getptr_desc_MJRcheck prepost retval =
     with_final (\<lambda>t. if prepost = 1 then channel_count t else retval)
       (check_routine 0 (on_prepost prepost skip (update (\<lambda>s. s\<lparr>channel_count := next_count (channel_count s)\<rparr>))))"

definition ac97_read_desc_MJRcheck :: "int \<Rightarrow> u32 \<Rightarrow> ('a test_state_scheme) check" where
  "ac97_read_desc_MJRcheck prepost retval = check_routine 0 (on_prepost prepost skip
     (if retval = 0 \<or> retval = 0xFFFF \<or> retval = 0xFFFFFFFF then s2e (S2E_deprioritize 0) else skip))"

section \<open>The table of DMA maps\<close>

definition initialize_dma_map :: "('a fb_state_scheme) check" where
  "initialize_dma_map = returning 0 (block
     [with_result mjr_kmalloc (\<lambda>ok. update (\<lambda>s. s\<lparr>dma_structs := (if ok then Some (replicate MAX_STRUCTS zero_struct) else None)\<rparr>)),
      fb_assert (\<lambda>s. dma_structs s \<noteq> None) ''dma_structs = NULL?''])"

definition free_dma_map :: "('a fb_state_scheme) act" where
  "free_dma_map = onlyif (\<lambda>s. dma_structs s \<noteq> None) (update (\<lambda>s. s\<lparr>dma_structs := None\<rparr>))"

text \<open>
  The loop of \<open>dma_struct_get\<close>: round the table from \<open>last_unused\<close>. The outer option says whether it ends,
  the inner one whether there is a free entry.
\<close>

partial_function (option) get_loop :: "dma_struct list \<Rightarrow> nat \<Rightarrow> nat \<Rightarrow> bool \<Rightarrow> nat option option" where
  "get_loop ds start i looped =
     (if used (ds ! i) = 0 then Some (Some i)
      else
        let i = Suc i; wrap = i \<ge> MAX_STRUCTS; i = (if wrap then 0 else i); looped = (looped \<or> wrap) in
        if looped \<and> i \<ge> start then Some None
        else get_loop ds start i looped)"

definition update_struct :: "nat \<Rightarrow> (dma_struct \<Rightarrow> dma_struct) \<Rightarrow> ('a fb_state_scheme) act" where
  "update_struct i f = update (\<lambda>s. s\<lparr>dma_structs := map_option (\<lambda>ds. ds[i := f (ds ! i)]) (dma_structs s)\<rparr>)"

definition dma_struct_get :: "(nat, 'a fb_state_scheme) prog" where
  "dma_struct_get = (\<lambda>s. case dma_structs s of
       None \<Rightarrow> Inl (if objs s = None then Null_Deref else Killed 0 1 ''Should allocate memory first'')
     | Some ds \<Rightarrow>
         (case get_loop ds (last_unused s) (last_unused s) False of
            None \<Rightarrow> Inl Deadlock
          | Some None \<Rightarrow> Inl (if objs s = None then Null_Deref else Killed 0 1 ''Out of DMA map structures!'')
          | Some (Some i) \<Rightarrow> Inr (i, s\<lparr>dma_structs := Some (ds[i := zero_struct\<lparr>used := 1\<rparr>]), last_unused := i\<rparr>)))"

definition dma_struct_find :: "ulong \<Rightarrow> ('a fb_state_scheme) \<Rightarrow> tf_error + nat" where
  "dma_struct_find tag s = (case dma_structs s of
       None \<Rightarrow> Inl (if objs s = None then Null_Deref else Killed 0 1 ''Should allocate memory first'')
     | Some ds \<Rightarrow>
         let i = first_index (\<lambda>cur. used cur = 1 \<and> dma_tag cur = tag) ds in
         if i < length ds then Inr i
         else Inl (if objs s = None then Null_Deref else Killed 0 1 ''Failed to find tag''))"

definition dma_struct_free :: "nat \<Rightarrow> ('a fb_state_scheme) act" where
  "dma_struct_free i = with_state (\<lambda>s. deref (dma_structs s) (\<lambda>ds. block
     [fb_assert (\<lambda>_. used (ds ! i) = 1) ''DMA map not used?'',
      update_struct i (\<lambda>_. zero_struct)]))"

definition put_segments :: "(ulong \<times> ulong) list \<Rightarrow> int \<Rightarrow> dma_struct \<Rightarrow> dma_struct" where
  "put_segments segs n cur = cur\<lparr>ds_addr := map fst (take (nat n) segs) @ drop (nat n) (ds_addr cur),
     ds_len := map (ucast \<circ> snd) (take (nat n) segs) @ drop (nat n) (ds_len cur), nsegs := n\<rparr>"

definition bus_dmamap_callback_common :: "nat \<Rightarrow> (ulong \<times> ulong) list \<Rightarrow> int \<Rightarrow> ('a fb_state_scheme) act" where
  "bus_dmamap_callback_common i segs n = block
     [fb_assert (\<lambda>_. n < int MAX_SEGS) ''Too many segments!'',
      if nat n > length segs then fail Out_Of_Bounds else update_struct i (put_segments segs n)]"

definition segments :: "dma_struct \<Rightarrow> (ulong \<times> u32) list" where
  "segments cur = take (nat (nsegs cur)) (zip (ds_addr cur) (ds_len cur))"

definition bus_dmamap_common :: "nat \<Rightarrow> ('a fb_state_scheme) act" where
  "bus_dmamap_common i = with_state (\<lambda>s. deref (dma_structs s) (\<lambda>ds.
     block (map (\<lambda>(addr, len). s2e (S2E_make_dma_symbolic addr (scast len) ''DMA segment'')) (segments (ds ! i)))))"

definition bus_dmaunmap_common :: "nat \<Rightarrow> ('a fb_state_scheme) act" where
  "bus_dmaunmap_common i = with_state (\<lambda>s. deref (dma_structs s) (\<lambda>ds.
     block (map (\<lambda>(addr, len). s2e (S2E_free_dma_symbolic addr (scast len) ''DMA segment'')) (segments (ds ! i)))))"

text \<open>
  The callbacks the kernel calls take their argument for an entry of the table. Called with the driver's
  argument they would write to whatever that points to. \<open>run\<close> is the effect of the driver's callback.
\<close>

definition bus_dmamap_load_callback1 ::
  "(dma_callback \<Rightarrow> dma_arg \<Rightarrow> ('a fb_state_scheme) act) \<Rightarrow> dma_arg \<Rightarrow> (ulong \<times> ulong) list \<Rightarrow> int \<Rightarrow> int \<Rightarrow> ('a fb_state_scheme) act" where
  "bus_dmamap_load_callback1 run arg segs n err = (case arg of
       Struct_Arg cur \<Rightarrow> block
         [if err = 0 then bus_dmamap_callback_common cur segs n else skip,
          with_state (\<lambda>s. deref (dma_structs s) (\<lambda>ds. run (orig_callback1 (ds ! cur)) (orig_arg (ds ! cur))))]
     | _ \<Rightarrow> fail Out_Of_Bounds)"

definition bus_dmamap_load_callback2 ::
  "(dma_callback \<Rightarrow> dma_arg \<Rightarrow> ('a fb_state_scheme) act) \<Rightarrow> dma_arg \<Rightarrow> (ulong \<times> ulong) list \<Rightarrow> int \<Rightarrow> int \<Rightarrow> ('a fb_state_scheme) act" where
  "bus_dmamap_load_callback2 run arg segs n err = (case arg of
       Struct_Arg cur \<Rightarrow> block
         [if err = 0 then bus_dmamap_callback_common cur segs n else skip,
          with_state (\<lambda>s. deref (dma_structs s) (\<lambda>ds. run (orig_callback2 (ds ! cur)) (orig_arg (ds ! cur))))]
     | _ \<Rightarrow> fail Out_Of_Bounds)"

section \<open>Loading and unloading maps\<close>

text \<open>\<open>*callback\<close> and \<open>*callback_arg\<close> are handed back.\<close>

definition struct_field :: "(dma_struct \<Rightarrow> 'v) \<Rightarrow> nat option \<Rightarrow> 'a fb_state_scheme \<Rightarrow> 'v" where
  "struct_field f cur t = f (the (dma_structs t) ! the cur)"

definition bus_dmamap_load_MJRcheck ::
  "int \<Rightarrow> int \<Rightarrow> ulong \<Rightarrow> dma_callback \<Rightarrow> dma_arg \<Rightarrow> (int \<times> dma_callback \<times> dma_arg, 'a fb_state_scheme) prog" where
  "bus_dmamap_load_MJRcheck prepost retval dmat callback callback_arg =
     with_final (\<lambda>t. if prepost = 0 then (Load_Callback1, Struct_Arg (the (load_cur t)))
         else (struct_field orig_callback1 (load_cur t) t, Own_Address))
       (check_routine 0 (on_prepost prepost
         (with_result dma_struct_get (\<lambda>cur. block
           [update (\<lambda>s. s\<lparr>load_cur := Some cur\<rparr>),
            update_struct cur (\<lambda>d. d\<lparr>dma_tag := dmat, orig_callback1 := callback, orig_arg := callback_arg\<rparr>)]))
         (with_state (\<lambda>s. deref (load_cur s) (\<lambda>cur. if retval = 0 then bus_dmamap_common cur else skip)))))"

definition bus_dmamap_load_mbuf_MJRcheck ::
  "int \<Rightarrow> int \<Rightarrow> ulong \<Rightarrow> dma_callback \<Rightarrow> dma_arg \<Rightarrow> (int \<times> dma_callback \<times> dma_arg, 'a fb_state_scheme) prog" where
  "bus_dmamap_load_mbuf_MJRcheck prepost retval dmat callback callback_arg =
     with_final (\<lambda>t. if prepost = 0 then (Load_Callback2, callback_arg)
         else (struct_field orig_callback2 (load_mbuf_cur t) t, struct_field orig_arg (load_mbuf_cur t) t))
       (check_routine 0 (on_prepost prepost
         (with_result dma_struct_get (\<lambda>cur. block
           [update (\<lambda>s. s\<lparr>load_mbuf_cur := Some cur\<rparr>),
            update_struct cur (\<lambda>d. d\<lparr>dma_tag := dmat, orig_callback2 := callback, orig_arg := callback_arg\<rparr>)]))
         (with_state (\<lambda>s. deref (load_mbuf_cur s) (\<lambda>cur. if retval = 0 then bus_dmamap_common cur else skip)))))"

definition bus_dmamap_load_mbuf_sg_MJRcheck ::
  "int \<Rightarrow> int \<Rightarrow> ulong \<Rightarrow> (ulong \<times> ulong) list \<Rightarrow> int \<Rightarrow> ('a fb_state_scheme) check" where
  "bus_dmamap_load_mbuf_sg_MJRcheck prepost retval dmat segs n = check_routine 0 (on_prepost prepost skip
     (if retval = 0 then with_result dma_struct_get (\<lambda>cur. block
        [tfassert (\<lambda>_. n < int MAX_SEGS) ''Too many segments!'',
         update_struct cur (\<lambda>d. d\<lparr>dma_tag := dmat\<rparr>),
         if nat n > length segs then fail Out_Of_Bounds else update_struct cur (put_segments segs n),
         bus_dmamap_common cur])
      else skip))"

definition bus_dmamap_load_uio_MJRcheck :: "('a test_state_scheme) check" where
  "bus_dmamap_load_uio_MJRcheck = check_routine 0 (tfassert (\<lambda>_. False) ''bus_dmamap_load_uio unsupported'')"

definition bus_dmamap_unload_MJRcheck :: "int \<Rightarrow> ulong \<Rightarrow> ('a fb_state_scheme) check" where
  "bus_dmamap_unload_MJRcheck prepost dmat = check_routine 0 (on_prepost prepost skip
     (reading (dma_struct_find dmat) (\<lambda>cur. block [bus_dmaunmap_common cur, dma_struct_free cur])))"

definition bus_dmamem_alloc_MJRcheck :: "int \<Rightarrow> ('a test_state_scheme) check" where
  "bus_dmamem_alloc_MJRcheck prepost = check_routine 0 (on_prepost prepost skip skip)"

definition bus_dmamem_free_MJRcheck :: "int \<Rightarrow> ('a test_state_scheme) check" where
  "bus_dmamem_free_MJRcheck prepost = check_routine 0 (on_prepost prepost skip skip)"

definition pci_read_config_MJRcheck :: "string \<Rightarrow> int \<Rightarrow> ('a test_state_scheme) check" where
  "pci_read_config_MJRcheck func prepost =
     check_routine 1 (on_prepost prepost skip (s2e (S2E_make_symbolic_local ''uint32_t'' func)))"

definition pci_write_config_MJRcheck :: "int \<Rightarrow> ('a test_state_scheme) check" where
  "pci_write_config_MJRcheck prepost = check_routine 1 (on_prepost prepost skip skip)"

section \<open>Interrupts\<close>

text \<open>
  \<open>reset_one\<close> tests \<open>FREEBSD_MOD\<close>, which is never defined, so the resource and the handler of a slot stay.
  A slot is found by its resource. The filter, when there is one, is stored in place of the handler. Before
  the call the resource is printed through its pointer, which must not be \<open>NULL\<close>.
\<close>

definition fb_reset_one :: "nat \<Rightarrow> ('a fb_state_scheme) act" where
  "fb_reset_one i = update (\<lambda>s. s\<lparr>fb_irq := (fb_irq s)[i :=
     (fb_irq s ! i)\<lparr>fb_allocated := 0, fb_parameter := 0, fb_flags := 0, fb_enabled := 0\<rparr>]\<rparr>)"

definition fb_reset_state :: "('a fb_state_scheme) act" where
  "fb_reset_state = block (map fb_reset_one [0..<MAX_IRQS])"

definition bus_setup_intr_MJRcheck ::
  "int \<Rightarrow> int \<Rightarrow> ulong \<Rightarrow> ulong \<Rightarrow> ulong \<Rightarrow> ulong \<Rightarrow> ulong \<Rightarrow> ('a fb_state_scheme) check" where
  "bus_setup_intr_MJRcheck prepost retval r flgs filter_fn hdl arg = check_routine 0
    (if prepost = 0 then (if r = 0 then fail Null_Deref else skip)
     else if prepost = 1 \<and> retval = 0 then block
      [update (\<lambda>s. s\<lparr>sym_num_requests := sym_num_requests s + 1\<rparr>),
       with_state (\<lambda>s. let i = first_index (\<lambda>q. fb_allocated q \<noteq> 1) (fb_irq s) in block
        [if i < length (fb_irq s) then block
          [fb_assert (\<lambda>s. fb_allocated (fb_irq s ! i) = 0) ''Allocated = 0 in request_irq_MJRcheck'',
           update (\<lambda>s. s\<lparr>fb_irq := (fb_irq s)[i := \<lparr>fb_allocated = 1, fb_res = r,
             fb_handler = (if filter_fn \<noteq> 0 then filter_fn else hdl), fb_parameter = arg, fb_flags = flgs, fb_enabled = 1\<rparr>]\<rparr>)]
         else skip,
         tfassert (\<lambda>s. i < MAX_IRQS) ''Driver requesting many many IRQs?'',
         fb_assert (\<lambda>s. sym_irq_lines s \<noteq> None) ''Failed -- why not allocated?''])]
     else skip)"

definition snd_setup_intr_MJRcheck ::
  "int \<Rightarrow> int \<Rightarrow> ulong \<Rightarrow> ulong \<Rightarrow> ulong \<Rightarrow> ulong \<Rightarrow> ('a fb_state_scheme) check" where
  "snd_setup_intr_MJRcheck prepost retval r flgs hdl arg = bus_setup_intr_MJRcheck prepost retval r flgs 0 hdl arg"

definition bus_teardown_intr_MJRcheck :: "int \<Rightarrow> ulong \<Rightarrow> ('a fb_state_scheme) check" where
  "bus_teardown_intr_MJRcheck prepost r = check_routine 0
    (if prepost = 0 then block
      [update (\<lambda>s. s\<lparr>sym_num_requests := sym_num_requests s - 1\<rparr>),
       with_state (\<lambda>s. let i = first_index (\<lambda>q. fb_allocated q = 1 \<and> fb_res q = r) (fb_irq s) in block
        [if i < length (fb_irq s) then block
          [tfassert (\<lambda>s. sym_irq_ongoing s = 0) ''Weird: an IRQ is in progress but they are freeing it'', fb_reset_one i]
         else skip,
         tfassert (\<lambda>s. i < MAX_IRQS) ''Well, the driver freed an IRQ without first requesting it.''])]
     else skip)"

definition fb_interrupt_handler_MJRcheck :: "int \<Rightarrow> ('a test_state_scheme) check" where
  "fb_interrupt_handler_MJRcheck prepost = check_routine 0 (on_prepost prepost
     (block [push_blocking_state BLOCKING_NO, push_user_state USER_YES])
     (block [pop_blocking_state, pop_user_state]))"

text \<open>
  The loop that calls the handlers. A handler gets its parameter only. The assertion does not touch the global
  lock in this build, so it can fail outside a check routine.
\<close>

definition fb_call_handler :: "(ulong \<Rightarrow> ulong \<Rightarrow> ('a fb_state_scheme) act) \<Rightarrow> nat \<Rightarrow> nat \<Rightarrow> ('a fb_state_scheme) act" where
  "fb_call_handler isr line i =
     cond (\<lambda>s. fb_allocated (fb_irq s ! i) = 0) skip
      (onlyif (\<lambda>s. fb_enabled (fb_irq s ! i) = 1) (block
        [with_state (\<lambda>s. set_line_count line (line_count line s + 1)),
         cond (\<lambda>s. line_count line s \<le> MAX_INTERRUPTS_PER_LINE s)
          (with_state (\<lambda>s. isr (fb_handler (fb_irq s ! i)) (fb_parameter (fb_irq s ! i))))
          (onlyif (\<lambda>s. line_count line s > 100)
            (with_state (\<lambda>s. set_line_count line (MAX_INTERRUPTS_PER_LINE s - 1))))]))"

definition fb_call_interrupt_handlers ::
  "(ulong \<Rightarrow> ulong \<Rightarrow> ('a fb_state_scheme) act) \<Rightarrow> nat \<Rightarrow> ('a fb_state_scheme) act" where
  "fb_call_interrupt_handlers isr line =
     cond (\<lambda>s. sym_irq_ongoing s > 0) skip
      (cond (\<lambda>s. can_call_interrupt_handlers s = 0) skip (block
        [fb_assert (\<lambda>_. line < MAX_IRQ_LINES) ''Failed: MAX_IRQ_LINES not big enough'',
         update (\<lambda>s. s\<lparr>sym_irq_ongoing := sym_irq_ongoing s + 1\<rparr>),
         block (map (fb_call_handler isr line) [0..<MAX_IRQS]),
         update (\<lambda>s. s\<lparr>sym_irq_ongoing := sym_irq_ongoing s - 1\<rparr>)]))"

section \<open>The module\<close>

definition TF_STRING_LEN :: nat where "TF_STRING_LEN = 32"

text \<open>
  \<open>init_common\<close> and \<open>cleanup_common\<close> are those of the Linux build except that the interrupt slots they reset are
  the ones of this build, which no other part of them reads.
  The tunables of the kernel environment: a name has a value or not. A string is cut to the buffer.
\<close>

record tunable_env =
  env_int :: "string \<Rightarrow> int option"
  env_string :: "string \<Rightarrow> string option"

datatype module_event = MOD_LOAD | MOD_UNLOAD | Other_Event

definition TUNABLE_INT_FETCH :: "tunable_env \<Rightarrow> string \<Rightarrow> (int \<Rightarrow> 's \<Rightarrow> 's) \<Rightarrow> 's act" where
  "TUNABLE_INT_FETCH env name set_var = (case env_int env (''test_framework.'' @ name) of
     None \<Rightarrow> skip | Some v \<Rightarrow> update (set_var v))"

definition TUNABLE_STR_FETCH :: "tunable_env \<Rightarrow> string \<Rightarrow> (string \<Rightarrow> 's \<Rightarrow> 's) \<Rightarrow> 's act" where
  "TUNABLE_STR_FETCH env name set_var = (case env_string env (''test_framework.'' @ name) of
     None \<Rightarrow> skip | Some v \<Rightarrow> update (set_var (take (TF_STRING_LEN - 1) v)))"

definition fetch_tunables :: "tunable_env \<Rightarrow> ('a fb_state_scheme) act" where
  "fetch_tunables env = block
     [TUNABLE_INT_FETCH env ''g_sym_retval'' (\<lambda>v s. s\<lparr>g_sym_retval := v\<rparr>),
      TUNABLE_INT_FETCH env ''g_sym_pci'' (\<lambda>v s. s\<lparr>g_sym_pci := v\<rparr>),
      TUNABLE_INT_FETCH env ''g_sym_params'' (\<lambda>v s. s\<lparr>fb_sym_params := v\<rparr>),
      TUNABLE_STR_FETCH env ''g_sym_starting_fn'' (\<lambda>v s. s\<lparr>g_sym_starting_fn := v\<rparr>),
      TUNABLE_STR_FETCH env ''g_sym_primary_fn'' (\<lambda>v s. s\<lparr>g_sym_primary_fn := v\<rparr>),
      TUNABLE_INT_FETCH env ''g_sym_kill_carrier_off'' (\<lambda>v s. s\<lparr>g_sym_kill_carrier_off := v\<rparr>),
      TUNABLE_INT_FETCH env ''g_sym_slow_timers'' (\<lambda>v s. s\<lparr>g_sym_slow_timers := v\<rparr>),
      TUNABLE_INT_FETCH env ''g_sym_force_receive'' (\<lambda>v s. s\<lparr>g_sym_force_receive := v\<rparr>),
      TUNABLE_INT_FETCH env ''g_sym_enable_tracing'' (\<lambda>v s. s\<lparr>g_sym_enable_tracing := v\<rparr>)]"

definition freebsd_init :: "tunable_env \<Rightarrow> ('a fb_state_scheme) check" where
  "freebsd_init env = returning 0 (block
     [fetch_tunables env, init_common, fb_reset_state,
      must_succeed ''Failed initializing test framework DMA map'' initialize_dma_map])"

definition freebsd_cleanup :: "('a fb_state_scheme) act" where
  "freebsd_cleanup = block [free_dma_map, fb_reset_state, cleanup_common]"

definition event_handler :: "int \<Rightarrow> tunable_env \<Rightarrow> module_event \<Rightarrow> ('a fb_state_scheme) check" where
  "event_handler EOPNOTSUPP env event = (case event of
       MOD_LOAD \<Rightarrow> freebsd_init env
     | MOD_UNLOAD \<Rightarrow> returning 0 freebsd_cleanup
     | Other_Event \<Rightarrow> returning EOPNOTSUPP skip)"

end
