(* ===== verification/Freebsd_Properties.thy ===== *)
theory Freebsd_Properties
  imports Freebsd_Checks Routine_Calls
begin

text \<open>
  The table of DMA maps of the FreeBSD build: the search for a free entry ends and finds the next one round
  the table, a load records a map and makes its segments symbolic, and an unload takes the first map with the
  tag out and makes its segments regular memory again.
\<close>

section \<open>The search for an entry\<close>

definition dma_ok :: "'a fb_state_scheme \<Rightarrow> dma_struct list \<Rightarrow> bool" where
  "dma_ok s ds \<longleftrightarrow> dma_structs s = Some ds \<and> length ds = MAX_STRUCTS \<and> last_unused s < MAX_STRUCTS \<and>
     (\<forall>cur \<in> set ds. used cur \<in> {0, 1} \<and> length (ds_addr cur) = MAX_SEGS \<and> length (ds_len cur) = MAX_SEGS)"

text \<open>The entries in the order the search looks at them, and the first free one.\<close>

definition search_order :: "nat \<Rightarrow> nat list" where
  "search_order start = [start..<MAX_STRUCTS] @ [0..<start]"

definition next_free :: "dma_struct list \<Rightarrow> nat \<Rightarrow> nat option" where
  "next_free ds start = find (\<lambda>i. used (ds ! i) = 0) (search_order start)"

lemma get_loop_wrapped:
  "i < start \<Longrightarrow> start < MAX_STRUCTS \<Longrightarrow>
   get_loop ds start i True = Some (find (\<lambda>i. used (ds ! i) = 0) [i..<start])"
proof (induction "start - i" arbitrary: i)
  case (Suc k)
  then show ?case
    by (cases "Suc i < start") (simp_all add: get_loop.simps [of ds start i] upt_conv_Cons Let_def)
qed simp

lemma get_loop_finds:
  "i < MAX_STRUCTS \<Longrightarrow> start \<le> i \<Longrightarrow>
   get_loop ds start i False = Some (find (\<lambda>i. used (ds ! i) = 0) ([i..<MAX_STRUCTS] @ [0..<start]))"
proof (induction "MAX_STRUCTS - i" arbitrary: i)
  case (Suc k)
  have last: "get_loop ds start 0 True = Some (find (\<lambda>i. used (ds ! i) = 0) [0..<start])" if "0 < start"
    by (rule get_loop_wrapped) (use that Suc.prems in simp_all)
  show ?case
  proof (cases "Suc i < MAX_STRUCTS")
    case True
    with Suc show ?thesis by (simp add: get_loop.simps [of ds start i] upt_conv_Cons [of i] Let_def)
  next
    case False
    with Suc.prems have "MAX_STRUCTS = Suc i" by simp
    with last show ?thesis by (cases "start = 0") (simp_all add: get_loop.simps [of ds _ i] Let_def upt_conv_Cons [of i])
  qed
qed simp

lemma dma_struct_get_run:
  assumes "dma_ok s ds" and "objs s \<noteq> None"
  shows "dma_struct_get s = (case next_free ds (last_unused s) of
      None \<Rightarrow> Inl (Killed 0 1 ''Out of DMA map structures!'')
    | Some i \<Rightarrow> Inr (i, s\<lparr>dma_structs := Some (ds[i := zero_struct\<lparr>used := 1\<rparr>]), last_unused := i\<rparr>))"
  using assms get_loop_finds [of "last_unused s" "last_unused s" ds]
  by (simp add: dma_struct_get_def dma_ok_def next_free_def search_order_def split: option.split)

lemma next_free_Some:
  assumes "next_free ds start = Some i" and "start < MAX_STRUCTS"
  shows "i < MAX_STRUCTS" and "used (ds ! i) = 0"
proof -
  from assms(1) obtain k where "k < length (search_order start)" "i = search_order start ! k" "used (ds ! i) = 0"
    unfolding next_free_def find_Some_iff by auto
  moreover from this(1,2) have "i \<in> set (search_order start)" by simp
  ultimately show "i < MAX_STRUCTS" "used (ds ! i) = 0" using assms(2) by (auto simp: search_order_def)
qed

section \<open>The table as a map\<close>

text \<open>A live entry is a tag and the segments of its memory.\<close>

definition dma_map :: "dma_struct list \<Rightarrow> nat \<Rightarrow> (ulong \<times> (ulong \<times> u32) list) option" where
  "dma_map ds i = (if i < length ds \<and> used (ds ! i) = 1 then Some (dma_tag (ds ! i), segments (ds ! i)) else None)"

definition has_tag :: "ulong \<Rightarrow> (ulong \<times> (ulong \<times> u32) list) option \<Rightarrow> bool" where
  "has_tag tag m \<longleftrightarrow> map_option fst m = Some tag"

definition loaded_segments :: "(ulong \<times> ulong) list \<Rightarrow> int \<Rightarrow> (ulong \<times> u32) list" where
  "loaded_segments segs n = map (\<lambda>(addr, len). (addr, ucast len)) (take (nat n) segs)"

definition make_events :: "(ulong \<times> u32) list \<Rightarrow> s2e_event list" where
  "make_events = map (\<lambda>(addr, len). S2E_make_dma_symbolic addr (scast len) ''DMA segment'')"

definition free_events :: "(ulong \<times> u32) list \<Rightarrow> s2e_event list" where
  "free_events = map (\<lambda>(addr, len). S2E_free_dma_symbolic addr (scast len) ''DMA segment'')"

lemma block_events: "block (map (\<lambda>x. s2e (f x)) xs) s = Inr (s\<lparr>s2e_log := s2e_log s @ map f xs\<rparr>)"
  for s :: "'a tf_globals_scheme"
  by (induction xs arbitrary: s) (simp_all add: s2e_def)

lemma common_run:
  assumes "dma_structs s = Some ds"
  shows "bus_dmamap_common i s = Inr (s\<lparr>s2e_log := s2e_log s @ make_events (segments (ds ! i))\<rparr>)"
    and "bus_dmaunmap_common i s = Inr (s\<lparr>s2e_log := s2e_log s @ free_events (segments (ds ! i))\<rparr>)"
  using assms by (simp_all add: bus_dmamap_common_def bus_dmaunmap_common_def with_state_def deref_def case_prod_unfold
      block_events make_events_def free_events_def)

lemma dma_map_update:
  "i < length ds \<Longrightarrow> dma_map (ds[i := d]) = (dma_map ds)(i := if used d = 1 then Some (dma_tag d, segments d) else None)"
  by (auto simp: dma_map_def fun_eq_iff nth_list_update)

lemma segments_put:
  assumes "0 \<le> n" and "n < int MAX_SEGS" and "nat n \<le> length segs" and "length (ds_addr d) = MAX_SEGS" and "length (ds_len d) = MAX_SEGS"
  shows "segments (put_segments segs n d) = loaded_segments segs n"
  using assms by (intro nth_equalityI) (auto simp: segments_def put_segments_def loaded_segments_def split_beta nth_append)

section \<open>Loading and unloading\<close>

lemma dma_ok_frames [simp]:
  "dma_ok (s\<lparr>global_lock := b, global_lock_acquired := n\<rparr>) ds = dma_ok s ds"
  "dma_ok (s\<lparr>s2e_log := l\<rparr>) ds = dma_ok s ds"
  by (simp_all add: dma_ok_def)

lemma dma_ok_update:
  assumes "dma_ok s ds" and "used d \<in> {0, 1}" and "length (ds_addr d) = MAX_SEGS" and "length (ds_len d) = MAX_SEGS" and "k < MAX_STRUCTS"
  shows "dma_ok (s\<lparr>dma_structs := Some (ds[i := d]), last_unused := k\<rparr>) (ds[i := d])"
  using assms set_update_subset_insert [of ds i d] by (auto simp: dma_ok_def)

lemma length_put:
  "n < int MAX_SEGS \<Longrightarrow> nat n \<le> length segs \<Longrightarrow> length (ds_addr d) = MAX_SEGS \<Longrightarrow> length (ds_len d) = MAX_SEGS \<Longrightarrow>
   length (ds_addr (put_segments segs n d)) = MAX_SEGS \<and> length (ds_len (put_segments segs n d)) = MAX_SEGS"
  by (simp add: put_segments_def min_def)

lemma zero_lengths [simp]:
  "length (ds_addr zero_struct) = MAX_SEGS" "length (ds_len zero_struct) = MAX_SEGS" "used zero_struct = 0"
  by (simp_all add: zero_struct_def)

lemma load_sg_run:
  assumes ok: "dma_ok s ds" and u: "unlocked s" and o: "objs s \<noteq> None"
    and n: "0 \<le> n" "n < int MAX_SEGS" "nat n \<le> length segs"
  shows "case next_free ds (last_unused s) of
      None \<Rightarrow> bus_dmamap_load_mbuf_sg_MJRcheck 1 0 tag segs n s = Inl (Killed 0 1 ''Out of DMA map structures!'')
    | Some i \<Rightarrow> \<exists>t ds'. bus_dmamap_load_mbuf_sg_MJRcheck 1 0 tag segs n s = Inr (0, t) \<and> dma_ok t ds' \<and>
        dma_map ds' = (dma_map ds)(i \<mapsto> (tag, loaded_segments segs n)) \<and>
        s2e_log t = s2e_log s @ make_events (loaded_segments segs n) \<and> unlocked t \<and> objs t = objs s"
proof (cases "next_free ds (last_unused s)")
  case None
  then show ?thesis using ok u o
    by (simp add: bus_dmamap_load_mbuf_sg_MJRcheck_def check_routine_run with_result_def dma_struct_get_run)
next
  case (Some i)
  define d where "d = put_segments segs n (zero_struct\<lparr>used := 1, dma_tag := tag\<rparr>)"
  define ds' where "ds' = ds[i := d]"
  let ?in = "s\<lparr>global_lock := True, global_lock_acquired := 1\<rparr>"
  let ?u = "?in\<lparr>dma_structs := Some ds', last_unused := i, s2e_log := s2e_log s @ make_events (segments d)\<rparr>"
  have i: "i < length ds" using next_free_Some(1) [OF Some] ok by (simp add: dma_ok_def)
  have d: "used d = 1" "dma_tag d = tag" "length (ds_addr d) = MAX_SEGS" "length (ds_len d) = MAX_SEGS"
    "segments d = loaded_segments segs n"
    using n segments_put [OF n, of "zero_struct\<lparr>used := 1, dma_tag := tag\<rparr>"]
      length_put [OF n(2,3), of "zero_struct\<lparr>used := 1, dma_tag := tag\<rparr>"]
    by (simp_all add: d_def put_segments_def)
  have "bus_dmamap_load_mbuf_sg_MJRcheck 1 0 tag segs n s = Inr (0, ?u\<lparr>global_lock := False, global_lock_acquired := 0\<rparr>)"
    unfolding bus_dmamap_load_mbuf_sg_MJRcheck_def using Some ok o n i
    by (intro routine_runs [OF u])
      (simp_all add: with_result_def dma_struct_get_run update_struct_def common_run ds'_def d_def)
  moreover have "dma_map ds' = (dma_map ds)(i \<mapsto> (tag, loaded_segments segs n))"
    by (simp add: ds'_def dma_map_update [OF i] d)
  moreover have "dma_ok (s\<lparr>dma_structs := Some ds', last_unused := i\<rparr>) ds'"
    unfolding ds'_def by (rule dma_ok_update [OF ok]) (use d i ok in \<open>simp_all add: dma_ok_def\<close>)
  ultimately show ?thesis using Some d(5) by (auto simp: dma_ok_def unlocked_def)
qed

text \<open>The search for a tag, and what an unload does with the entry it finds.\<close>

lemma dma_struct_find_run:
  assumes ok: "dma_ok s ds" and o: "objs s \<noteq> None"
  shows "dma_struct_find tag s = (if \<exists>i. has_tag tag (dma_map ds i) then Inr (LEAST i. has_tag tag (dma_map ds i))
    else Inl (Killed 0 1 ''Failed to find tag''))"
proof -
  define P where "P = (\<lambda>cur :: dma_struct. used cur = 1 \<and> dma_tag cur = tag)"
  have P: "has_tag tag (dma_map ds i) \<longleftrightarrow> i < length ds \<and> P (ds ! i)" for i
    by (auto simp: has_tag_def dma_map_def P_def)
  have find: "dma_struct_find tag s = (let i = first_index P ds in
      if i < length ds then Inr i else Inl (Killed 0 1 ''Failed to find tag''))"
    using ok o by (auto simp: dma_struct_find_def dma_ok_def P_def)
  show ?thesis
  proof (cases "first_index P ds < length ds")
    case True
    have "(LEAST i. has_tag tag (dma_map ds i)) = first_index P ds"
      by (rule Least_equality) (use True P first_index_hit [of P ds] first_index_before [of _ P ds] not_less in blast)+
    moreover have "\<exists>i. has_tag tag (dma_map ds i)" using True P first_index_hit [of P ds] by blast
    ultimately show ?thesis using True by (simp add: find Let_def)
  next
    case False
    then have "\<not> (\<exists>i. has_tag tag (dma_map ds i))"
      using first_index_none [of P ds] first_index_le [of P ds] P by auto
    with False show ?thesis by (simp add: find Let_def)
  qed
qed

lemma unload_run:
  assumes ok: "dma_ok s ds" and u: "unlocked s" and o: "objs s \<noteq> None"
    and ex: "has_tag tag (dma_map ds i)" and k: "k = (LEAST i. has_tag tag (dma_map ds i))"
  shows "\<exists>t ds'. bus_dmamap_unload_MJRcheck 1 tag s = Inr (0, t) \<and> dma_ok t ds' \<and> dma_map ds' = (dma_map ds)(k := None) \<and>
    s2e_log t = s2e_log s @ free_events (snd (the (dma_map ds k)))"
proof -
  let ?in = "s\<lparr>global_lock := True, global_lock_acquired := 1\<rparr>"
  have "has_tag tag (dma_map ds k)" unfolding k by (rule LeastI) (rule ex)
  then have kk: "k < length ds" "used (ds ! k) = 1" "dma_map ds k = Some (dma_tag (ds ! k), segments (ds ! k))"
    by (auto simp: has_tag_def dma_map_def split: if_splits)
  have found: "dma_struct_find tag ?in = Inr k"
    using dma_struct_find_run [of ?in ds tag] ok o ex k by auto
  define ds' where "ds' = ds[k := zero_struct]"
  let ?u = "?in\<lparr>s2e_log := s2e_log s @ free_events (segments (ds ! k)), dma_structs := Some ds'\<rparr>"
  have "bus_dmamap_unload_MJRcheck 1 tag s = Inr (0, ?u\<lparr>global_lock := False, global_lock_acquired := 0\<rparr>)"
    unfolding bus_dmamap_unload_MJRcheck_def using ok kk
    by (intro routine_runs [OF u]) (simp_all add: reading_def found common_run dma_struct_free_def with_state_def
        deref_def fb_assert_def update_struct_def dma_ok_def ds'_def)
  moreover have "dma_map ds' = (dma_map ds)(k := None)" by (simp add: ds'_def dma_map_update [OF kk(1)])
  moreover have "dma_ok (s\<lparr>dma_structs := Some ds', last_unused := last_unused s\<rparr>) ds'"
    unfolding ds'_def by (rule dma_ok_update [OF ok]) (use ok in \<open>simp_all add: dma_ok_def\<close>)
  ultimately show ?thesis by (auto simp: kk(3) dma_ok_def)
qed

text \<open>C12. The DMA maps of a driver. A load that fits puts the map with its tag at the next free entry round the
  table, makes exactly its segments symbolic, and is killed when no entry is free. The unload with the same tag
  takes out the first map with that tag and frees exactly that map's segments. So load and unload cancel out, on
  the table and on the memory, if and only if no earlier entry holds a live map with the tag.\<close>

theorem dma_load_unload:
  assumes ok: "dma_ok s ds" and u: "unlocked s" and o: "objs s \<noteq> None"
    and n: "0 \<le> n" "n < int MAX_SEGS" "nat n \<le> length segs"
  shows "case next_free ds (last_unused s) of
      None \<Rightarrow> bus_dmamap_load_mbuf_sg_MJRcheck 1 0 tag segs n s = Inl (Killed 0 1 ''Out of DMA map structures!'')
    | Some i \<Rightarrow> \<exists>t u ds' ds''. bus_dmamap_load_mbuf_sg_MJRcheck 1 0 tag segs n s = Inr (0, t) \<and> dma_ok t ds' \<and>
        dma_map ds' = (dma_map ds)(i \<mapsto> (tag, loaded_segments segs n)) \<and>
        s2e_log t = s2e_log s @ make_events (loaded_segments segs n) \<and>
        bus_dmamap_unload_MJRcheck 1 tag t = Inr (0, u) \<and> dma_ok u ds'' \<and>
        s2e_log u = s2e_log t @ free_events (snd (the (dma_map ds' (LEAST i. has_tag tag (dma_map ds' i))))) \<and>
        (if \<forall>j < i. \<not> has_tag tag (dma_map ds j)
         then dma_map ds'' = dma_map ds \<and> s2e_log u = s2e_log t @ free_events (loaded_segments segs n)
         else dma_map ds'' \<noteq> dma_map ds)"
proof (cases "next_free ds (last_unused s)")
  case None
  then show ?thesis using load_sg_run [OF ok u o n, of tag] by simp
next
  case (Some i)
  obtain t ds' where t: "bus_dmamap_load_mbuf_sg_MJRcheck 1 0 tag segs n s = Inr (0, t)" "dma_ok t ds'"
    "dma_map ds' = (dma_map ds)(i \<mapsto> (tag, loaded_segments segs n))"
    "s2e_log t = s2e_log s @ make_events (loaded_segments segs n)" "unlocked t" "objs t = objs s"
    using load_sg_run [OF ok u o n, of tag] unfolding Some option.case by blast
  have tag: "has_tag tag (dma_map ds' i)" by (simp add: t(3) has_tag_def)
  define k where "k = (LEAST i. has_tag tag (dma_map ds' i))"
  have k: "k \<le> i" "has_tag tag (dma_map ds' k)" "\<And>j. j < k \<Longrightarrow> \<not> has_tag tag (dma_map ds' j)"
    unfolding k_def by (rule Least_le, rule tag, rule LeastI, rule tag, rule not_less_Least)
  obtain v ds'' where v: "bus_dmamap_unload_MJRcheck 1 tag t = Inr (0, v)" "dma_ok v ds''"
    "dma_map ds'' = (dma_map ds')(k := None)" "s2e_log v = s2e_log t @ free_events (snd (the (dma_map ds' k)))"
    using unload_run [OF t(2,5) o [folded t(6)] tag k_def] by blast
  have free: "dma_map ds i = None"
    using next_free_Some [OF Some] ok by (auto simp: dma_map_def dma_ok_def)
  have rest: "if \<forall>j < i. \<not> has_tag tag (dma_map ds j)
     then dma_map ds'' = dma_map ds \<and> s2e_log v = s2e_log t @ free_events (loaded_segments segs n)
     else dma_map ds'' \<noteq> dma_map ds"
  proof (cases "\<forall>j < i. \<not> has_tag tag (dma_map ds j)")
    case True
    have "\<not> k < i"
    proof
      assume "k < i"
      then have "has_tag tag (dma_map ds k)" using k(2) by (simp add: t(3))
      then show False using True \<open>k < i\<close> by blast
    qed
    then have "k = i" using k(1) by simp
    then have "dma_map ds'' = dma_map ds" using free unfolding v(3) t(3) by (simp add: fun_eq_iff)
    moreover have "s2e_log v = s2e_log t @ free_events (loaded_segments segs n)" unfolding v(4) \<open>k = i\<close> t(3) by simp
    ultimately show ?thesis unfolding if_P [OF True] ..
  next
    case False
    then obtain j where j: "j < i" "has_tag tag (dma_map ds j)" by blast
    then have "has_tag tag (dma_map ds' j)" by (simp add: t(3))
    then have "k < i" using k(3) [of j] j(1) by (cases "j < k") simp_all
    then have "dma_map ds k \<noteq> None" using k(2) by (auto simp: t(3) has_tag_def)
    moreover have "dma_map ds'' k = None" by (simp add: v(3))
    ultimately have "dma_map ds'' \<noteq> dma_map ds" by auto
    then show ?thesis unfolding if_not_P [OF False] .
  qed
  show ?thesis unfolding Some option.case
    by (rule exI [of _ t], rule exI [of _ v], rule exI [of _ ds'], rule exI [of _ ds'']) (intro conjI t v rest v [unfolded k_def])
qed

definition loading_freebsd :: fb_state where
  "loading_freebsd = mod_state.extend loading (fb_state.fields 0 None 0 None None 1 1024 [])"

lemma initialize_dma_map_run:
  "kmalloc_ok s (kmalloc_calls s) \<Longrightarrow> initialize_dma_map s =
     Inr (0, s\<lparr>kmalloc_calls := Suc (kmalloc_calls s), dma_structs := Some (replicate MAX_STRUCTS zero_struct)\<rparr>)"
  by (simp add: initialize_dma_map_def returning_def with_result_def mjr_kmalloc_def fb_assert_def)

lemma dma_ok_fresh:
  "dma_structs s = Some (replicate MAX_STRUCTS zero_struct) \<Longrightarrow> last_unused s < MAX_STRUCTS \<Longrightarrow>
   dma_ok s (replicate MAX_STRUCTS zero_struct)"
  by (simp add: dma_ok_def)

lemma next_free_empty: "start < MAX_STRUCTS \<Longrightarrow> next_free (replicate MAX_STRUCTS zero_struct) start = Some start"
  by (simp add: next_free_def search_order_def upt_conv_Cons)

theorem dma_load_unload_witness:
  "\<exists>r s t u :: fb_state. init_common loading_freebsd = Inr r \<and> initialize_dma_map r = Inr (0, s) \<and>
     bus_dmamap_load_mbuf_sg_MJRcheck 1 0 7 [(0x1000, 64)] 1 s = Inr (0, t) \<and>
     s2e_log t = s2e_log s @ [S2E_make_dma_symbolic 0x1000 64 ''DMA segment''] \<and>
     bus_dmamap_unload_MJRcheck 1 7 t = Inr (0, u) \<and>
     s2e_log u = s2e_log t @ [S2E_free_dma_symbolic 0x1000 64 ''DMA segment'']"
proof -
  have "unloaded loading_freebsd" "\<forall>n. kmalloc_ok loading_freebsd n" "trackperf_ok loading_freebsd"
    by (simp_all add: loading_freebsd_def mod_state.extend_def fb_state.fields_def loading_def unloaded_def trackperf_ok_def
        zero_ndo_driver_state_def MAX_TRACKPERF_def)
  from init_common_run [OF this] obtain r :: fb_state where r: "init_common loading_freebsd = Inr r" "loaded r"
    "same_build loading_freebsd r" "mod_state.more r = mod_state.more loading_freebsd" by blast
  define s where "s = r\<lparr>kmalloc_calls := Suc (kmalloc_calls r), dma_structs := Some (replicate MAX_STRUCTS zero_struct)\<rparr>"
  have "last_unused r = 0" using r(4)
    by (cases r) (simp add: loading_freebsd_def mod_state.extend_def fb_state.fields_def)
  then have l: "last_unused s = 0" "0 < MAX_STRUCTS" by (simp_all add: s_def MAX_STRUCTS_def)
  have "kmalloc_ok r n" for n using r(3)
    by (simp add: same_build_def loading_freebsd_def mod_state.extend_def fb_state.fields_def loading_def)
  then have s: "initialize_dma_map r = Inr (0, s)" "dma_ok s (replicate MAX_STRUCTS zero_struct)"
    "unlocked s = unlocked r" "objs s = objs r"
    using l initialize_dma_map_run [of r] dma_ok_fresh [of s] by (simp_all add: s_def unlocked_def)
  have inv: "unlocked s" "objs s \<noteq> None"
    using r(2) s(3,4) by (auto simp: loaded_def ee_free_def tf_inv_def core_inv_def tracker_ok_def)
  have no: "dma_map (replicate MAX_STRUCTS zero_struct) j = None" for j by (simp add: dma_map_def)
  from dma_load_unload [OF s(2) inv, where segs = "[(0x1000, 64)]" and n = 1 and tag = 7]
  obtain t u where t: "bus_dmamap_load_mbuf_sg_MJRcheck 1 0 7 [(0x1000, 64)] 1 s = Inr (0, t)"
    "s2e_log t = s2e_log s @ make_events (loaded_segments [(0x1000, 64)] 1)" "bus_dmamap_unload_MJRcheck 1 7 t = Inr (0, u)"
    "s2e_log u = s2e_log t @ free_events (loaded_segments [(0x1000, 64)] 1)"
    by (auto simp: l next_free_empty MAX_SEGS_def has_tag_def no)
  show ?thesis
    by (rule exI [of _ r], rule exI [of _ s], rule exI [of _ t], rule exI [of _ u])
      (simp add: r(1) s(1) t loaded_segments_def make_events_def free_events_def)
qed

end
