(* ===== verification/Freebsd_Safety.thy ===== *)
theory Freebsd_Safety
  imports Freebsd_Properties
begin

text \<open>
  Every check routine of the FreeBSD build keeps the invariant of the framework and that of the DMA table, in
  any order and from the load of the module on: the index the search for a free entry starts at stays inside
  the table, so the search ends.
\<close>

section \<open>The invariant\<close>

definition dma_inv :: "'a fb_state_scheme \<Rightarrow> bool" where
  "dma_inv s \<longleftrightarrow> (\<exists>ds. dma_ok s ds) \<and> (\<forall>i. load_cur s = Some i \<or> load_mbuf_cur s = Some i \<longrightarrow> i < MAX_STRUCTS)"

definition fb_check :: "'a fb_state_scheme \<Rightarrow> bool" where
  "fb_check s \<longleftrightarrow> in_check s \<and> dma_inv s"

definition fb_inv :: "'a fb_state_scheme \<Rightarrow> bool" where
  "fb_inv s \<longleftrightarrow> tf_inv s \<and> dma_inv s"

lemma fb_in_check: "fb_check s \<Longrightarrow> in_check s"
  by (simp add: fb_check_def)

lemma in_check_fb_frames [simp]:
  "in_check (s\<lparr>dma_structs := d\<rparr>) = in_check s" "in_check (s\<lparr>last_unused := n\<rparr>) = in_check s"
  "in_check (s\<lparr>load_cur := c\<rparr>) = in_check s" "in_check (s\<lparr>load_mbuf_cur := c\<rparr>) = in_check s"
  "in_check (s\<lparr>adaptive := a\<rparr>) = in_check s" "in_check (s\<lparr>channel_count := k\<rparr>) = in_check s"
  "in_check (s\<lparr>fb_irq := q\<rparr>) = in_check s"
  by (simp_all add: in_check_def core_inv_def blocking_ok_def user_ok_def tracker_ok_def flags_ok_def all_buses_def
      flag_of_simps class_ok_def locked_def)

lemma dma_inv_frames [simp]:
  "dma_inv (s\<lparr>s2e_log := l\<rparr>) = dma_inv s" "dma_inv (s\<lparr>adaptive := a\<rparr>) = dma_inv s"
  "dma_inv (s\<lparr>channel_count := k\<rparr>) = dma_inv s" "dma_inv (s\<lparr>fb_irq := q\<rparr>) = dma_inv s"
  "dma_inv (s\<lparr>sym_num_requests := n\<rparr>) = dma_inv s" "dma_inv (s\<lparr>global_lock := b, global_lock_acquired := n\<rparr>) = dma_inv s"
  "dma_inv (s\<lparr>blocking_context_current := n\<rparr>) = dma_inv s" "dma_inv (s\<lparr>blocking_context := bs\<rparr>) = dma_inv s"
  "dma_inv (s\<lparr>user_context_current := n\<rparr>) = dma_inv s" "dma_inv (s\<lparr>user_context := us\<rparr>) = dma_inv s"
  by (simp_all add: dma_inv_def dma_ok_def)

section \<open>Rules\<close>

lemma safe_fb: "safe in_check a \<Longrightarrow> preserves dma_inv a \<Longrightarrow> safe fb_check a"
  by (rule safeI) (auto simp: fb_check_def safe_def preserves_def split: sum.splits)

lemma safe_fb_tfassert [safe_rules]: "safe fb_check (tfassert Q msg)"
  by (rule safe_tfassert) (rule fb_in_check)

lemma safe_fb_tf_fail [safe_rules]: "safe fb_check (tf_fail msg)"
  by (rule safe_tf_fail) (rule fb_in_check)

lemma in_check_objs: "in_check s \<Longrightarrow> objs s \<noteq> None"
  by (auto simp: in_check_def core_inv_def tracker_ok_def)

lemma safe_fb_assert [safe_rules]: "safe fb_check (fb_assert Q msg)"
  by (rule safeI) (auto simp: fb_assert_def fb_check_def dest: in_check_objs)

lemma safe_fb_killed [safe_rules]: "safe fb_check (fail (Killed a b msg))"
  by (rule safeI) simp

lemma safe_fb_s2e [safe_rules]: "safe fb_check (s2e e)"
  by (rule safeI) (simp add: fb_check_def)

lemma safe_fb_prepost [safe_rules]:
  "safe fb_check a \<Longrightarrow> safe fb_check b \<Longrightarrow> safe fb_check (on_prepost prepost a b)"
  unfolding on_prepost_def by (intro safe_rules)

lemma safe_fb_events [safe_rules]: "safe fb_check (block (map (\<lambda>x. s2e (f x)) xs))"
  by (rule safeI) (simp add: block_events fb_check_def)

lemma fb_updates [safe_rules]:
  "safe fb_check (update (\<lambda>s. s\<lparr>adaptive := f s\<rparr>))" "safe fb_check (update (\<lambda>s. s\<lparr>channel_count := g s\<rparr>))"
  "safe fb_check (update (\<lambda>s. s\<lparr>fb_irq := h s\<rparr>))" "safe fb_check (update (\<lambda>s. s\<lparr>sym_num_requests := n s\<rparr>))"
  by (rule safeI, simp add: fb_check_def)+

lemma dma_inv_context:
  "preserves dma_inv (push_blocking_state bc)" "preserves dma_inv (push_user_state uc)"
  "preserves dma_inv pop_blocking_state" "preserves dma_inv pop_user_state"
  unfolding push_blocking_state_def push_user_state_def pop_blocking_state_def pop_user_state_def preserves_def
  by (auto simp: block_Cons_Inr split: option.splits simp del: block.simps(2))

lemma safe_fb_context [safe_rules]:
  "safe fb_check (push_blocking_state bc)" "safe fb_check (push_user_state uc)"
  "safe fb_check pop_blocking_state" "safe fb_check pop_user_state"
  by (rule safe_fb, rule safe_rules, rule dma_inv_context)+

section \<open>The table\<close>

definition struct_ok :: "dma_struct \<Rightarrow> bool" where
  "struct_ok d \<longleftrightarrow> used d \<in> {0, 1} \<and> length (ds_addr d) = MAX_SEGS \<and> length (ds_len d) = MAX_SEGS"

lemma struct_ok_nth: "dma_ok s ds \<Longrightarrow> i < MAX_STRUCTS \<Longrightarrow> struct_ok (ds ! i)"
  by (auto simp: dma_ok_def struct_ok_def)

lemma dma_inv_update_struct:
  assumes "\<And>d. struct_ok d \<Longrightarrow> struct_ok (f d)"
  shows "preserves dma_inv (update_struct i f)"
proof (unfold update_struct_def, rule preserves_update)
  fix s :: "'a fb_state_scheme" assume s: "dma_inv s"
  then obtain ds where ds: "dma_ok s ds" by (auto simp: dma_inv_def)
  then have "dma_structs s = Some ds" by (simp add: dma_ok_def)
  moreover have "dma_ok (s\<lparr>dma_structs := Some (ds[i := f (ds ! i)])\<rparr>) (ds[i := f (ds ! i)])"
  proof (cases "i < MAX_STRUCTS")
    case True
    with assms [OF struct_ok_nth [OF ds True]] dma_ok_update [OF ds, of "f (ds ! i)" "last_unused s" i] ds
    show ?thesis by (simp add: struct_ok_def dma_ok_def)
  next
    case False
    with ds have "ds[i := f (ds ! i)] = ds" by (intro list_update_beyond) (simp add: dma_ok_def)
    with ds show ?thesis by (simp add: dma_ok_def)
  qed
  ultimately show "dma_inv (s\<lparr>dma_structs := map_option (\<lambda>ds. ds[i := f (ds ! i)]) (dma_structs s)\<rparr>)"
    using s by (auto simp: dma_inv_def)
qed

lemma safe_update_struct:
  assumes "\<And>d. struct_ok d \<Longrightarrow> struct_ok (f d)"
  shows "safe fb_check (update_struct i f)"
  by (rule safe_fb [OF _ dma_inv_update_struct [OF assms]]) (auto intro: safeI simp: update_struct_def)

lemma safe_dma_struct_get:
  assumes "\<And>i. i < MAX_STRUCTS \<Longrightarrow> safe fb_check (k i)"
  shows "safe fb_check (with_result dma_struct_get k)"
proof (rule safe_with_result [where Q = "\<lambda>i. i < MAX_STRUCTS"])
  fix s :: "'a fb_state_scheme" assume s: "fb_check s"
  then obtain ds where ds: "dma_ok s ds" "objs s \<noteq> None" by (auto simp: fb_check_def dma_inv_def dest: in_check_objs)
  note run = dma_struct_get_run [OF ds]
  show "ends_well e" if "dma_struct_get s = Inl e" for e
    using that run by (auto split: option.splits)
  show "fb_check t \<and> i < MAX_STRUCTS" if "dma_struct_get s = Inr (i, t)" for i t
  proof -
    have t: "next_free ds (last_unused s) = Some i"
      "t = s\<lparr>dma_structs := Some (ds[i := zero_struct\<lparr>used := 1\<rparr>]), last_unused := i\<rparr>"
      using that run by (auto split: option.splits)
    have i: "i < MAX_STRUCTS" using next_free_Some(1) [OF t(1)] ds(1) by (simp add: dma_ok_def)
    have "dma_ok t (ds[i := zero_struct\<lparr>used := 1\<rparr>])"
      unfolding t(2) by (rule dma_ok_update [OF ds(1)]) (use i in simp_all)
    then show ?thesis using s i by (auto simp: t(2) fb_check_def dma_inv_def)
  qed
qed (rule assms)

lemma safe_dma_struct_find:
  assumes "\<And>i. safe fb_check (k i)"
  shows "safe fb_check (reading (dma_struct_find tag) k)"
proof (rule safe_reading)
  fix s :: "'a fb_state_scheme" and e assume s: "fb_check s" and e: "dma_struct_find tag s = Inl e"
  then obtain ds where "dma_ok s ds" "objs s \<noteq> None" by (auto simp: fb_check_def dma_inv_def dest: in_check_objs)
  from dma_struct_find_run [OF this, of tag] e show "ends_well e" by (auto split: if_splits)
qed (rule assms)

text \<open>What follows an assertion about the arguments may rely on it.\<close>

lemma safe_guarded:
  assumes "Q \<Longrightarrow> safe fb_check (block as)"
  shows "safe fb_check (block (tfassert (\<lambda>_. Q) msg # as))"
proof (cases Q)
  case True
  with assms show ?thesis by (intro safe_block_Cons safe_fb_tfassert)
next
  case False
  then have "block (tfassert (\<lambda>_. Q) msg # as) = tf_fail msg" by (simp add: fun_eq_iff tfassert_def)
  then show ?thesis by (simp only: safe_fb_tf_fail)
qed

lemma struct_ok_put:
  "n < int MAX_SEGS \<Longrightarrow> \<not> nat n > length segs \<Longrightarrow> struct_ok d \<Longrightarrow> struct_ok (put_segments segs n d)"
  using length_put [of n segs d] by (auto simp: struct_ok_def put_segments_def)

lemma safe_put_segments:
  "n < int MAX_SEGS \<Longrightarrow> \<not> nat n > length segs \<Longrightarrow> safe fb_check (update_struct i (put_segments segs n))"
  by (rule safe_update_struct) (rule struct_ok_put)

lemma safe_put_or_fail:
  "n < int MAX_SEGS \<Longrightarrow>
   safe fb_check (if nat n > length segs then fail Out_Of_Bounds else update_struct i (put_segments segs n))"
  by (auto intro: safe_put_segments simp: safe_fail_bounds)

lemma safe_tag: "safe fb_check (update_struct i (\<lambda>d. d\<lparr>dma_tag := tag\<rparr>))"
  by (rule safe_update_struct) (simp add: struct_ok_def)

lemma safe_cur:
  assumes "i < MAX_STRUCTS"
  shows "safe fb_check (update (\<lambda>s. s\<lparr>load_cur := Some i\<rparr>))" "safe fb_check (update (\<lambda>s. s\<lparr>load_mbuf_cur := Some i\<rparr>))"
  by (rule safeI, use assms in \<open>auto simp: fb_check_def dma_inv_def dma_ok_def\<close>)+

lemma safe_common [safe_rules]:
  "safe fb_check (bus_dmamap_common i)" "safe fb_check (bus_dmaunmap_common i)"
  unfolding bus_dmamap_common_def bus_dmaunmap_common_def case_prod_unfold by (intro safe_rules)+

lemma safe_dma_struct_free [safe_rules]: "safe fb_check (dma_struct_free i)"
proof -
  have "safe fb_check (update_struct i (\<lambda>_. zero_struct))"
    by (rule safe_update_struct) (simp add: struct_ok_def)
  then show ?thesis unfolding dma_struct_free_def by (intro safe_rules)
qed

section \<open>Routines\<close>

lemma fb_inv_acquire: "fb_inv s \<Longrightarrow> fb_check (s\<lparr>global_lock := True, global_lock_acquired := 1\<rparr>)"
  by (simp add: fb_inv_def fb_check_def in_check_acquire)

lemma fb_inv_release: "fb_check s \<Longrightarrow> fb_inv (s\<lparr>global_lock := False, global_lock_acquired := 0\<rparr>)"
  by (simp add: fb_inv_def fb_check_def tf_inv_release)

lemma safe_fb_routine:
  fixes body :: "('a fb_state_scheme) act"
  assumes body: "safe fb_check body"
  shows "safe fb_inv (ignore_result (check_routine r body))"
proof (rule safeI)
  fix s :: "'a fb_state_scheme" assume s: "fb_inv s"
  then have u: "unlocked s" by (simp add: fb_inv_def tf_inv_def)
  let ?in = "s\<lparr>global_lock := True, global_lock_acquired := 1\<rparr>"
  note b = safeD [OF body fb_inv_acquire [OF s]]
  show "case ignore_result (check_routine r body) s of Inl e \<Rightarrow> ends_well e | Inr t \<Rightarrow> fb_inv t"
  proof (cases "body ?in")
    case (Inl e)
    with b show ?thesis by (simp add: routine_ends [OF u] ignore_result_def)
  next
    case (Inr t)
    with b have t: "fb_check t" by simp
    then have "global_lock_acquired t = 1" by (simp add: fb_check_def in_check_def locked_def)
    from routine_runs [where body = body, OF u Inr this] show ?thesis by (simp add: ignore_result_def fb_inv_release [OF t])
  qed
qed

lemma ignore_final: "ignore_result (with_final out c) = ignore_result c"
  by (auto simp: fun_eq_iff ignore_result_def with_final_def split: sum.split)

lemma ignore_out: "ignore_result (with_out out c) = ignore_result c"
  by (auto simp: fun_eq_iff ignore_result_def with_out_def split: sum.split)

text \<open>The routines of the build; \<open>run\<close> is the effect of a callback of the driver.\<close>

inductive fb_routine :: "('a fb_state_scheme) act \<Rightarrow> bool" where
  "fb_routine (ignore_result (fb_default_MJRcheck))"
| "fb_routine (ignore_result (ed_attach_MJRcheck))"
| "fb_routine (ignore_result (miibus_readreg_desc_MJRcheck mii pp retval reg))"
| "fb_routine (ignore_result (mii_bitbang_readreg_MJRcheck pp v))"
| "fb_routine (ignore_result (mii_attach_MJRcheck pp phyloc))"
| "fb_routine (ignore_result (callout_reset_on_MJRcheck pp to_ticks))"
| "fb_routine (ignore_result (channel_getptr_desc_MJRcheck pp n))"
| "fb_routine (ignore_result (ac97_read_desc_MJRcheck pp n))"
| "fb_routine (ignore_result (bus_dmamap_load_MJRcheck pp v dmat callback arg))"
| "fb_routine (ignore_result (bus_dmamap_load_mbuf_MJRcheck pp v dmat callback arg))"
| "fb_routine (ignore_result (bus_dmamap_load_mbuf_sg_MJRcheck pp v dmat segs n))"
| "fb_routine (ignore_result (bus_dmamap_load_uio_MJRcheck))"
| "fb_routine (ignore_result (bus_dmamap_unload_MJRcheck pp dmat))"
| "fb_routine (ignore_result (bus_dmamem_alloc_MJRcheck pp))"
| "fb_routine (ignore_result (bus_dmamem_free_MJRcheck pp))"
| "fb_routine (ignore_result (pci_read_config_MJRcheck fn pp))"
| "fb_routine (ignore_result (pci_write_config_MJRcheck pp))"
| "fb_routine (ignore_result (bus_setup_intr_MJRcheck pp v r flgs flt hdl arg'))"
| "fb_routine (ignore_result (snd_setup_intr_MJRcheck pp v r flgs hdl arg'))"
| "fb_routine (ignore_result (bus_teardown_intr_MJRcheck pp r))"
| "fb_routine (ignore_result (fb_interrupt_handler_MJRcheck pp))"

lemma fb_routine_keeps: "fb_routine a \<Longrightarrow> safe fb_inv a"
proof (induction rule: fb_routine.induct)
  case 1 show ?case by (rule safeI) (simp add: fb_default_MJRcheck_def returning_def ignore_result_def)
next case 2 show ?case unfolding ed_attach_MJRcheck_def by (intro safe_fb_routine safe_rules)
next case 3 show ?case unfolding miibus_readreg_desc_MJRcheck_def by (intro safe_fb_routine safe_rules)
next case 4 show ?case unfolding mii_bitbang_readreg_MJRcheck_def by (intro safe_fb_routine safe_rules)
next case 5 show ?case unfolding mii_attach_MJRcheck_def ignore_out by (intro safe_fb_routine safe_rules)
next case 6 show ?case unfolding callout_reset_on_MJRcheck_def ignore_final by (intro safe_fb_routine safe_rules)
next case 7 show ?case unfolding channel_getptr_desc_MJRcheck_def ignore_final by (intro safe_fb_routine safe_rules)
next case 8 show ?case unfolding ac97_read_desc_MJRcheck_def by (intro safe_fb_routine safe_rules)
next case 9 show ?case unfolding bus_dmamap_load_MJRcheck_def ignore_final
    by (intro safe_fb_routine safe_rules safe_dma_struct_get safe_cur safe_update_struct) (simp_all add: struct_ok_def)
next case 10 show ?case unfolding bus_dmamap_load_mbuf_MJRcheck_def ignore_final
    by (intro safe_fb_routine safe_rules safe_dma_struct_get safe_cur safe_update_struct) (simp_all add: struct_ok_def)
next case (11 pp v dmat segs n) show ?case unfolding bus_dmamap_load_mbuf_sg_MJRcheck_def
    by (intro safe_fb_routine safe_fb_prepost safe_skip safe_if safe_dma_struct_get safe_guarded)
      (intro safe_block_Cons safe_block_Nil safe_common safe_put_or_fail safe_tag)+
next case 12 show ?case unfolding bus_dmamap_load_uio_MJRcheck_def by (intro safe_fb_routine safe_rules)
next case 13 show ?case unfolding bus_dmamap_unload_MJRcheck_def
    by (intro safe_fb_routine safe_rules safe_dma_struct_find)
next case 14 show ?case unfolding bus_dmamem_alloc_MJRcheck_def by (intro safe_fb_routine safe_rules)
next case 15 show ?case unfolding bus_dmamem_free_MJRcheck_def by (intro safe_fb_routine safe_rules)
next case 16 show ?case unfolding pci_read_config_MJRcheck_def by (intro safe_fb_routine safe_rules)
next case 17 show ?case unfolding pci_write_config_MJRcheck_def by (intro safe_fb_routine safe_rules)
next case 18 show ?case unfolding bus_setup_intr_MJRcheck_def Let_def by (intro safe_fb_routine safe_rules)
next case 19 show ?case unfolding snd_setup_intr_MJRcheck_def bus_setup_intr_MJRcheck_def Let_def by (intro safe_fb_routine safe_rules)
next case 20 show ?case unfolding bus_teardown_intr_MJRcheck_def fb_reset_one_def Let_def by (intro safe_fb_routine safe_rules)
next case 21 show ?case unfolding fb_interrupt_handler_MJRcheck_def by (intro safe_fb_routine safe_rules)
qed

section \<open>Callbacks\<close>

text \<open>The kernel calls them outside every routine, after the load or later.\<close>

lemma tf_inv_fb_frames [simp]:
  "tf_inv (s\<lparr>dma_structs := d\<rparr>) = tf_inv s" "tf_inv (s\<lparr>fb_irq := q\<rparr>) = tf_inv s"
  "tf_inv (s\<lparr>kmalloc_calls := n\<rparr>) = tf_inv s"
  by (simp_all add: tf_inv_def core_inv_def blocking_ok_def user_ok_def tracker_ok_def flags_ok_def all_buses_def
      flag_of_simps class_ok_def unlocked_def)

lemma callback_common_keeps: "safe fb_inv (bus_dmamap_callback_common i segs n)"
proof (rule safeI)
  fix s :: "'a fb_state_scheme" assume s: "fb_inv s"
  then have o: "objs s \<noteq> None" by (auto simp: fb_inv_def tf_inv_def core_inv_def tracker_ok_def)
  have "dma_inv t" if "n < int MAX_SEGS" "\<not> nat n > length segs" "update_struct i (put_segments segs n) s = Inr t" for t
    using preservesD [OF dma_inv_update_struct [OF struct_ok_put [OF that(1,2)]] _ that(3)] s by (simp add: fb_inv_def)
  then show "case bus_dmamap_callback_common i segs n s of Inl e \<Rightarrow> ends_well e | Inr t \<Rightarrow> fb_inv t"
    using s o by (auto simp: bus_dmamap_callback_common_def fb_assert_def fb_inv_def update_struct_def)
qed

lemma callback_keeps:
  assumes "\<And>cb arg. safe fb_inv (run cb arg)"
  shows "safe fb_inv (bus_dmamap_load_callback1 run arg segs n err)"
    and "safe fb_inv (bus_dmamap_load_callback2 run arg segs n err)"
proof -
  have "safe fb_inv (block [if err = 0 then bus_dmamap_callback_common i segs n else skip,
      with_state (\<lambda>s. deref (dma_structs s) (\<lambda>ds. run (cb (ds ! i)) (orig_arg (ds ! i))))])" for cb i
    by (intro safe_block_Cons safe_block_Nil safe_if safe_skip callback_common_keeps safe_with_state safe_deref assms)
  then show "safe fb_inv (bus_dmamap_load_callback1 run arg segs n err)"
    "safe fb_inv (bus_dmamap_load_callback2 run arg segs n err)"
    by (cases arg; simp only: bus_dmamap_load_callback1_def bus_dmamap_load_callback2_def dma_arg.case safe_fail_bounds)+
qed

section \<open>Interrupts\<close>

lemma fb_inv_irq_frames [simp]:
  "fb_inv (s\<lparr>sym_irq_lines := l\<rparr>) = fb_inv s" "fb_inv (s\<lparr>sym_irq_ongoing := n\<rparr>) = fb_inv s"
  by (simp_all add: fb_inv_def dma_inv_def dma_ok_def tf_inv_def core_inv_def blocking_ok_def user_ok_def tracker_ok_def
      flags_ok_def all_buses_def flag_of_simps class_ok_def unlocked_def)

lemma safe_map: "(\<And>i. safe P (f i)) \<Longrightarrow> safe P (block (map f xs))"
  by (induction xs) (simp_all only: list.simps safe_block_Nil safe_block_Cons)

lemma interrupts_keep:
  assumes "\<And>h x. safe fb_inv (isr h x)"
  shows "safe fb_inv (fb_call_interrupt_handlers isr line)"
proof -
  have c: "safe fb_inv (set_line_count line n)" for n
    by (rule safeI) (simp add: set_line_count_def split: option.split)
  have "safe fb_inv (fb_call_handler isr line i)" for i
    unfolding fb_call_handler_def by (intro safe_rules assms c)
  then have "safe fb_inv (block (map (fb_call_handler isr line) [0..<MAX_IRQS]))" by (rule safe_map)
  moreover have "safe fb_inv (fb_assert (\<lambda>_. line < MAX_IRQ_LINES) msg)" for msg
    by (rule safeI) (auto simp: fb_assert_def)
  moreover have "safe fb_inv (update (\<lambda>s. s\<lparr>sym_irq_ongoing := f s\<rparr>))" for f by (rule safe_update) simp
  ultimately show ?thesis unfolding fb_call_interrupt_handlers_def
    by (intro safe_cond safe_skip safe_block_Cons safe_block_Nil)
qed

section \<open>Runs\<close>

inductive fb_step :: "'a fb_state_scheme \<Rightarrow> 'a fb_state_scheme \<Rightarrow> bool" where
  step_check: "fb_routine a \<Longrightarrow> a s = Inr t \<Longrightarrow> fb_step s t"
| step_callback1: "(\<And>cb x. safe fb_inv (run cb x)) \<Longrightarrow> bus_dmamap_load_callback1 run arg segs n err s = Inr t \<Longrightarrow> fb_step s t"
| step_callback2: "(\<And>cb x. safe fb_inv (run cb x)) \<Longrightarrow> bus_dmamap_load_callback2 run arg segs n err s = Inr t \<Longrightarrow> fb_step s t"
| step_interrupts: "(\<And>h x. safe fb_inv (isr h x)) \<Longrightarrow> fb_call_interrupt_handlers isr line s = Inr t \<Longrightarrow> fb_step s t"

lemma fb_step_keeps: "fb_step s t \<Longrightarrow> fb_inv s \<Longrightarrow> fb_inv t"
proof (induction rule: fb_step.induct)
  case (step_check a s t)
  show ?case by (rule safe_Inr [OF fb_routine_keeps [OF step_check.hyps(1)] step_check.prems step_check.hyps(2)])
next
  case (step_callback1 run arg segs n err s t)
  show ?case by (rule safe_Inr [OF callback_keeps(1) [OF step_callback1.hyps(1)] step_callback1.prems step_callback1.hyps(2)])
next
  case (step_callback2 run arg segs n err s t)
  show ?case by (rule safe_Inr [OF callback_keeps(2) [OF step_callback2.hyps(1)] step_callback2.prems step_callback2.hyps(2)])
next
  case (step_interrupts isr line s t)
  show ?case by (rule safe_Inr [OF interrupts_keep [OF step_interrupts.hyps(1)] step_interrupts.prems step_interrupts.hyps(2)])
qed

lemma fb_run_keeps: "fb_step\<^sup>*\<^sup>* s t \<Longrightarrow> fb_inv s \<Longrightarrow> fb_inv t"
  by (induction rule: rtranclp_induct) (auto intro: fb_step_keeps)

section \<open>Loading the module\<close>

definition fb_fresh :: "'a fb_state_scheme \<Rightarrow> bool" where
  "fb_fresh s \<longleftrightarrow> unloaded s \<and> (\<forall>n. kmalloc_ok s n) \<and> trackperf_ok s \<and>
     last_unused s < MAX_STRUCTS \<and> load_cur s = None \<and> load_mbuf_cur s = None"

lemma fb_fresh_frames [simp]:
  "fb_fresh (s\<lparr>g_sym_retval := i\<rparr>) = fb_fresh s" "fb_fresh (s\<lparr>g_sym_pci := i\<rparr>) = fb_fresh s"
  "fb_fresh (s\<lparr>fb_sym_params := i\<rparr>) = fb_fresh s" "fb_fresh (s\<lparr>g_sym_starting_fn := str\<rparr>) = fb_fresh s"
  "fb_fresh (s\<lparr>g_sym_primary_fn := str\<rparr>) = fb_fresh s" "fb_fresh (s\<lparr>g_sym_kill_carrier_off := i\<rparr>) = fb_fresh s"
  "fb_fresh (s\<lparr>g_sym_slow_timers := i\<rparr>) = fb_fresh s" "fb_fresh (s\<lparr>g_sym_force_receive := i\<rparr>) = fb_fresh s"
  "fb_fresh (s\<lparr>g_sym_enable_tracing := i\<rparr>) = fb_fresh s"
  by (simp_all add: fb_fresh_def unloaded_def trackperf_ok_def)

lemma fetch_run:
  "(\<And>v s. P s \<Longrightarrow> P (f v s)) \<Longrightarrow> P s \<Longrightarrow> \<exists>t. TUNABLE_INT_FETCH env name f s = Inr t \<and> P t"
  "(\<And>v s. P s \<Longrightarrow> P (g v s)) \<Longrightarrow> P s \<Longrightarrow> \<exists>t. TUNABLE_STR_FETCH env name g s = Inr t \<and> P t"
  by (auto simp: TUNABLE_INT_FETCH_def TUNABLE_STR_FETCH_def split: option.splits)

lemma block_run:
  "(\<And>s. P s \<Longrightarrow> \<exists>t. a s = Inr t \<and> P t) \<Longrightarrow> (\<And>s. P s \<Longrightarrow> \<exists>t. block as s = Inr t \<and> P t) \<Longrightarrow> P s \<Longrightarrow>
   \<exists>t. block (a # as) s = Inr t \<and> P t"
  by (metis block_Cons_ok)

lemma fetch_tunables_run: "fb_fresh s \<Longrightarrow> \<exists>t. fetch_tunables env s = Inr t \<and> fb_fresh t"
  unfolding fetch_tunables_def 
  by (rule block_run [where P = fb_fresh] fetch_run [where P = fb_fresh] | assumption | simp; fail)+

lemma fb_reset_state_run: "\<exists>q. fb_reset_state s = Inr (s\<lparr>fb_irq := q\<rparr>)"
proof -
  have "\<exists>q. block (map fb_reset_one ks) s = Inr (s\<lparr>fb_irq := q\<rparr>)" for ks
  proof (induction ks arbitrary: s)
    case Nil
    have "s = s\<lparr>fb_irq := fb_irq s\<rparr>" by simp
    then show ?case by (metis block.simps(1) list.simps(8))
  next
    case (Cons i js)
    obtain u where u: "fb_reset_one i s = Inr (s\<lparr>fb_irq := u\<rparr>)" by (simp add: fb_reset_one_def)
    from Cons [of "s\<lparr>fb_irq := u\<rparr>"] u show ?case by simp
  qed
  then show ?thesis by (simp add: fb_reset_state_def)
qed

lemma freebsd_load:
  assumes "fb_fresh s0"
  shows "\<exists>s. event_handler E env MOD_LOAD s0 = Inr (0, s) \<and> fb_inv s \<and> dma_ok s (replicate MAX_STRUCTS zero_struct)"
proof -
  obtain x where x: "fetch_tunables env s0 = Inr x" "fb_fresh x" using fetch_tunables_run [OF assms] by blast
  from init_common_run [of x] x(2) obtain y where y: "init_common x = Inr y" "loaded y" "same_build x y"
    "mod_state.more y = mod_state.more x" by (auto simp: fb_fresh_def)
  have c: "last_unused y = last_unused x" "load_cur y = load_cur x" "load_mbuf_cur y = load_mbuf_cur x"
    using y(4) by (cases x, cases y, simp)+
  from fb_reset_state_run obtain q where q: "fb_reset_state y = Inr (y\<lparr>fb_irq := q\<rparr>)" by blast
  let ?z = "y\<lparr>fb_irq := q, kmalloc_calls := Suc (kmalloc_calls y), dma_structs := Some (replicate MAX_STRUCTS zero_struct)\<rparr>"
  have "initialize_dma_map (y\<lparr>fb_irq := q\<rparr>) = Inr (0, ?z)"
    using initialize_dma_map_run [of "y\<lparr>fb_irq := q\<rparr>"] x(2) y(3) by (simp add: fb_fresh_def same_build_def)
  then have "event_handler E env MOD_LOAD s0 = Inr (0, ?z)"
    by (simp add: event_handler_def freebsd_init_def returning_def x(1) y(1) q must_succeed_def with_result_def)
  moreover have t: "dma_ok ?z (replicate MAX_STRUCTS zero_struct)"
    by (rule dma_ok_fresh) (use x(2) c in \<open>simp_all add: fb_fresh_def\<close>)
  moreover have "tf_inv ?z" using loadedD(1) [OF y(2)] by (simp add: ee_free_def)
  moreover have "dma_inv ?z" using t x(2) c by (auto simp: dma_inv_def fb_fresh_def)
  ultimately show ?thesis by (auto simp: fb_inv_def)
qed

section \<open>The table stays well formed\<close>

text \<open>C8. From the load of the module on, whatever checks, callbacks and interrupts run in whatever order, as long as
  the driver's own callbacks and handlers, where they return, leave this invariant as they found it, the DMA table
  stays well formed, the index of the next free entry stays inside it, so that the search for an entry ends,
  and the invariant of the framework holds; no routine runs into a deadlock or an endless recursion.\<close>

theorem freebsd_runs_keep_table:
  assumes fresh: "fb_fresh s0" and load: "event_handler E env MOD_LOAD s0 = Inr (r, s)" and run: "fb_step\<^sup>*\<^sup>* s t"
  shows "r = 0 \<and> tf_inv t \<and>
    (\<exists>ds. dma_ok t ds \<and> (\<exists>free. get_loop ds (last_unused t) (last_unused t) False = Some free)) \<and>
    (\<forall>a. fb_routine a \<longrightarrow> (case a t of Inl e \<Rightarrow> e \<noteq> Deadlock \<and> e \<noteq> Stack_Overflow | Inr u \<Rightarrow> unlocked u))"
proof -
  have s: "r = 0" "fb_inv s" using freebsd_load [OF fresh, of E env] load by auto
  from fb_run_keeps [OF run s(2)] have t: "fb_inv t" .
  then obtain ds where ds: "dma_ok t ds" by (auto simp: fb_inv_def dma_inv_def)
  have "\<exists>free. get_loop ds (last_unused t) (last_unused t) False = Some free"
    using get_loop_finds [of "last_unused t" "last_unused t" ds] ds by (auto simp: dma_ok_def)
  moreover have "case a t of Inl e \<Rightarrow> e \<noteq> Deadlock \<and> e \<noteq> Stack_Overflow | Inr u \<Rightarrow> unlocked u" if "fb_routine a" for a
    using safeD [OF fb_routine_keeps [OF that] t]
    by (cases "a t") (auto simp: fb_inv_def tf_inv_def)
  ultimately show ?thesis using s(1) t ds by (auto simp: fb_inv_def)
qed

theorem freebsd_runs_keep_table_witness:
  "\<exists>s t :: fb_state. event_handler 45 \<lparr>env_int = \<lambda>_. None, env_string = \<lambda>_. None\<rparr> MOD_LOAD loading_freebsd = Inr (0, s) \<and>
     ignore_result (bus_dmamap_load_MJRcheck 0 0 7 (Driver_Callback 0x3000) (Driver_Arg 0x4000)) s = Inr t \<and>
     last_unused t < MAX_STRUCTS \<and> tf_inv t"
proof -
  let ?env = "\<lparr>env_int = \<lambda>_. None, env_string = \<lambda>_. None\<rparr>"
  have fresh: "fb_fresh loading_freebsd"
    by (simp add: fb_fresh_def loading_freebsd_def mod_state.extend_def fb_state.fields_def loading_def unloaded_def trackperf_ok_def
        zero_ndo_driver_state_def MAX_TRACKPERF_def MAX_STRUCTS_def)
  from freebsd_load [OF fresh, of 45 ?env] obtain s :: fb_state where s: "event_handler 45 ?env MOD_LOAD loading_freebsd = Inr (0, s)"
    "fb_inv s" "dma_ok s (replicate MAX_STRUCTS zero_struct)" by blast
  let ?a = "ignore_result (bus_dmamap_load_MJRcheck 0 0 7 (Driver_Callback 0x3000) (Driver_Arg 0x4000)) :: fb_state act"
  have a: "fb_routine ?a" by (rule fb_routine.intros)
  have u: "unlocked s" "objs s \<noteq> None" using s(2) by (auto simp: fb_inv_def tf_inv_def core_inv_def tracker_ok_def)
  let ?in = "s\<lparr>global_lock := True, global_lock_acquired := 1\<rparr>"
  have "dma_ok ?in (replicate MAX_STRUCTS zero_struct)" "objs ?in \<noteq> None" "last_unused ?in < MAX_STRUCTS"
    using s(3) u(2) by (simp_all add: dma_ok_def)
  then obtain v i where g: "dma_struct_get ?in = Inr (i, v)" "global_lock_acquired v = 1"
    using dma_struct_get_run [of ?in "replicate MAX_STRUCTS zero_struct"] by (simp add: next_free_empty)
  have "\<exists>t. ?a s = Inr t"
    using u g by (simp add: ignore_result_def bus_dmamap_load_MJRcheck_def with_final_def check_routine_run with_result_def
        update_struct_def release_global_lock_def)
  then obtain t where t: "?a s = Inr t" by blast
  have "fb_step\<^sup>*\<^sup>* s t" by (rule r_into_rtranclp, rule step_check [OF a t])
  from freebsd_runs_keep_table [OF fresh s(1) this] s(1) t show ?thesis by (auto simp: dma_ok_def)
qed

end
