(* ===== verification/Freebsd_Trace.thy ===== *)
theory Freebsd_Trace
  imports Prelude
begin

text \<open>
  The tracing of bus accesses, \<open>freebsd_trace.c\<close>. Compiled with it, a driver's calls of the bus functions of
  FreeBSD go through wrappers that print each access, the writes before and the reads after they happen. The
  bus functions are the kernel's and a parameter, on a machine of their own type: the device, and the memory
  the multiple accesses fill or send. The last theorem says what tracing promises: it changes neither the
  machine nor a result, and the lines printed are the accesses made, in order.
\<close>

section \<open>State\<close>

datatype trace_line =
    Access string u32 int                                \<comment> \<open>R/W, VA, Size\<close>
  | Extra_Data string int string                       \<comment> \<open>the calling function, its line, the operation\<close>

record 'w tracer =
  g_trace_level :: int
  printed :: "trace_line list"
  machine :: 'w

text \<open>The kernel's side. Pointers and the types of the bus are words of the machine.\<close>

record 'w bus_space =
  bus_alloc_resource :: "ulong \<Rightarrow> int \<Rightarrow> ulong \<Rightarrow> ulong \<Rightarrow> ulong \<Rightarrow> ulong \<Rightarrow> u32 \<Rightarrow> (ulong, 'w) prog"
  bus_alloc_resource_any :: "ulong \<Rightarrow> int \<Rightarrow> ulong \<Rightarrow> u32 \<Rightarrow> (ulong, 'w) prog"
  bus_space_write_1 :: "ulong \<Rightarrow> ulong \<Rightarrow> ulong \<Rightarrow> 8 word \<Rightarrow> 'w act"
  bus_space_write_2 :: "ulong \<Rightarrow> ulong \<Rightarrow> ulong \<Rightarrow> 16 word \<Rightarrow> 'w act"
  bus_space_write_4 :: "ulong \<Rightarrow> ulong \<Rightarrow> ulong \<Rightarrow> 32 word \<Rightarrow> 'w act"
  bus_space_read_1 :: "ulong \<Rightarrow> ulong \<Rightarrow> ulong \<Rightarrow> (8 word, 'w) prog"
  bus_space_read_2 :: "ulong \<Rightarrow> ulong \<Rightarrow> ulong \<Rightarrow> (16 word, 'w) prog"
  bus_space_read_4 :: "ulong \<Rightarrow> ulong \<Rightarrow> ulong \<Rightarrow> (32 word, 'w) prog"
  bus_space_read_multi_1 :: "ulong \<Rightarrow> ulong \<Rightarrow> ulong \<Rightarrow> ulong \<Rightarrow> ulong \<Rightarrow> 'w act"
  bus_space_read_multi_2 :: "ulong \<Rightarrow> ulong \<Rightarrow> ulong \<Rightarrow> ulong \<Rightarrow> ulong \<Rightarrow> 'w act"
  bus_space_read_multi_4 :: "ulong \<Rightarrow> ulong \<Rightarrow> ulong \<Rightarrow> ulong \<Rightarrow> ulong \<Rightarrow> 'w act"
  bus_space_write_multi_1 :: "ulong \<Rightarrow> ulong \<Rightarrow> ulong \<Rightarrow> ulong \<Rightarrow> ulong \<Rightarrow> 'w act"
  bus_space_write_multi_2 :: "ulong \<Rightarrow> ulong \<Rightarrow> ulong \<Rightarrow> ulong \<Rightarrow> ulong \<Rightarrow> 'w act"
  bus_space_write_multi_4 :: "ulong \<Rightarrow> ulong \<Rightarrow> ulong \<Rightarrow> ulong \<Rightarrow> ulong \<Rightarrow> 'w act"

definition on_machine :: "'w act \<Rightarrow> 'w tracer act" where
  "on_machine a s = map_sum id (\<lambda>w. s\<lparr>machine := w\<rparr>) (a (machine s))"

definition asking :: "('v, 'w) prog \<Rightarrow> ('v, 'w tracer) prog" where
  "asking p s = map_sum id (\<lambda>(v, w). (v, s\<lparr>machine := w\<rparr>)) (p (machine s))"

definition followed_by :: "('v, 's) prog \<Rightarrow> 's act \<Rightarrow> ('v, 's) prog" where
  "followed_by p a s = (case p s of Inl e \<Rightarrow> Inl e | Inr (v, t) \<Rightarrow> map_sum id (Pair v) (a t))"

section \<open>Printing\<close>

definition printf_line :: "trace_line \<Rightarrow> 'w tracer act" where
  "printf_line l = update (\<lambda>s. s\<lparr>printed := printed s @ [l]\<rparr>)"

definition READ :: string where
  "READ = ''Read''"

definition WRITE :: string where
  "WRITE = ''Write''"

definition PRINT_EXTRA :: "string \<Rightarrow> int \<Rightarrow> string \<Rightarrow> 'w tracer act" where
  "PRINT_EXTRA fn ln op = onlyif (\<lambda>s. g_trace_level s \<ge> 2) (printf_line (Extra_Data fn ln op))"

definition PRINT_VALUE :: "string \<Rightarrow> int \<Rightarrow> string \<Rightarrow> string \<Rightarrow> u32 \<Rightarrow> int \<Rightarrow> 'w tracer act" where
  "PRINT_VALUE fn ln op rw addr sz =
     onlyif (\<lambda>s. g_trace_level s \<ge> 1) (block [
       printf_line (Access rw addr sz),
       PRINT_EXTRA fn ln op])"

definition PRINT_MULTI :: "string \<Rightarrow> int \<Rightarrow> string \<Rightarrow> string \<Rightarrow> u32 \<Rightarrow> int \<Rightarrow> ulong \<Rightarrow> 'w tracer act" where
  "PRINT_MULTI fn ln op rw addr sz src_size =
     block (replicate (unat src_size) (PRINT_VALUE fn ln op rw addr sz))"

section \<open>The wrappers\<close>

definition tm_bus_alloc_resource ::
  "'w bus_space \<Rightarrow> string \<Rightarrow> int \<Rightarrow> ulong \<Rightarrow> int \<Rightarrow> ulong \<Rightarrow> ulong \<Rightarrow> ulong \<Rightarrow> ulong \<Rightarrow> u32 \<Rightarrow> (ulong, 'w tracer) prog" where
  "tm_bus_alloc_resource k fn ln dev type rid start stop cnt flags =
     followed_by (asking (bus_alloc_resource k dev type rid start stop cnt flags))
       (PRINT_EXTRA fn ln ''tm_bus_alloc_resource'')"

definition tm_bus_alloc_resource_any ::
  "'w bus_space \<Rightarrow> string \<Rightarrow> int \<Rightarrow> ulong \<Rightarrow> int \<Rightarrow> ulong \<Rightarrow> u32 \<Rightarrow> (ulong, 'w tracer) prog" where
  "tm_bus_alloc_resource_any k fn ln dev type rid flags =
     followed_by (asking (bus_alloc_resource_any k dev type rid flags))
       (PRINT_EXTRA fn ln ''tm_bus_alloc_resource_any'')"

definition tm_bus_space_write_1 :: "'w bus_space \<Rightarrow> string \<Rightarrow> int \<Rightarrow> ulong \<Rightarrow> ulong \<Rightarrow> ulong \<Rightarrow> 8 word \<Rightarrow> 'w tracer act" where
  "tm_bus_space_write_1 k fn ln tag bsh off v = block [
     PRINT_VALUE fn ln ''tm_bus_space_write_1'' WRITE off 1,
     on_machine (bus_space_write_1 k tag bsh off v)]"

definition tm_bus_space_write_2 :: "'w bus_space \<Rightarrow> string \<Rightarrow> int \<Rightarrow> ulong \<Rightarrow> ulong \<Rightarrow> ulong \<Rightarrow> 16 word \<Rightarrow> 'w tracer act" where
  "tm_bus_space_write_2 k fn ln tag bsh off v = block [
     PRINT_VALUE fn ln ''tm_bus_space_write_2'' WRITE off 2,
     on_machine (bus_space_write_2 k tag bsh off v)]"

definition tm_bus_space_write_4 :: "'w bus_space \<Rightarrow> string \<Rightarrow> int \<Rightarrow> ulong \<Rightarrow> ulong \<Rightarrow> ulong \<Rightarrow> 32 word \<Rightarrow> 'w tracer act" where
  "tm_bus_space_write_4 k fn ln tag bsh off v = block [
     PRINT_VALUE fn ln ''tm_bus_space_write_4'' WRITE off 4,
     on_machine (bus_space_write_4 k tag bsh off v)]"

definition tm_bus_space_read_1 :: "'w bus_space \<Rightarrow> string \<Rightarrow> int \<Rightarrow> ulong \<Rightarrow> ulong \<Rightarrow> ulong \<Rightarrow> (8 word, 'w tracer) prog" where
  "tm_bus_space_read_1 k fn ln tag bsh off =
     followed_by (asking (bus_space_read_1 k tag bsh off)) (PRINT_VALUE fn ln ''tm_bus_space_read_1'' READ off 1)"

definition tm_bus_space_read_2 :: "'w bus_space \<Rightarrow> string \<Rightarrow> int \<Rightarrow> ulong \<Rightarrow> ulong \<Rightarrow> ulong \<Rightarrow> (16 word, 'w tracer) prog" where
  "tm_bus_space_read_2 k fn ln tag bsh off =
     followed_by (asking (bus_space_read_2 k tag bsh off)) (PRINT_VALUE fn ln ''tm_bus_space_read_2'' READ off 2)"

definition tm_bus_space_read_4 :: "'w bus_space \<Rightarrow> string \<Rightarrow> int \<Rightarrow> ulong \<Rightarrow> ulong \<Rightarrow> ulong \<Rightarrow> (32 word, 'w tracer) prog" where
  "tm_bus_space_read_4 k fn ln tag bsh off =
     followed_by (asking (bus_space_read_4 k tag bsh off)) (PRINT_VALUE fn ln ''tm_bus_space_read_4'' READ off 4)"

definition tm_bus_space_read_multi_1 ::
  "'w bus_space \<Rightarrow> string \<Rightarrow> int \<Rightarrow> ulong \<Rightarrow> ulong \<Rightarrow> ulong \<Rightarrow> ulong \<Rightarrow> ulong \<Rightarrow> 'w tracer act" where
  "tm_bus_space_read_multi_1 k fn ln tag bsh off addr cnt = block [
     on_machine (bus_space_read_multi_1 k tag bsh off addr cnt),
     PRINT_MULTI fn ln ''tm_bus_space_read_multi_1'' READ off 1 cnt]"

definition tm_bus_space_read_multi_2 ::
  "'w bus_space \<Rightarrow> string \<Rightarrow> int \<Rightarrow> ulong \<Rightarrow> ulong \<Rightarrow> ulong \<Rightarrow> ulong \<Rightarrow> ulong \<Rightarrow> 'w tracer act" where
  "tm_bus_space_read_multi_2 k fn ln tag bsh off addr cnt = block [
     on_machine (bus_space_read_multi_2 k tag bsh off addr cnt),
     PRINT_MULTI fn ln ''tm_bus_space_read_multi_2'' READ off 2 cnt]"

definition tm_bus_space_read_multi_4 ::
  "'w bus_space \<Rightarrow> string \<Rightarrow> int \<Rightarrow> ulong \<Rightarrow> ulong \<Rightarrow> ulong \<Rightarrow> ulong \<Rightarrow> ulong \<Rightarrow> 'w tracer act" where
  "tm_bus_space_read_multi_4 k fn ln tag bsh off addr cnt = block [
     on_machine (bus_space_read_multi_4 k tag bsh off addr cnt),
     PRINT_MULTI fn ln ''tm_bus_space_read_multi_4'' READ off 4 cnt]"

definition tm_bus_space_write_multi_1 ::
  "'w bus_space \<Rightarrow> string \<Rightarrow> int \<Rightarrow> ulong \<Rightarrow> ulong \<Rightarrow> ulong \<Rightarrow> ulong \<Rightarrow> ulong \<Rightarrow> 'w tracer act" where
  "tm_bus_space_write_multi_1 k fn ln tag bsh off addr cnt = block [
     PRINT_MULTI fn ln ''tm_bus_space_write_multi_1'' WRITE off 1 cnt,
     on_machine (bus_space_write_multi_1 k tag bsh off addr cnt)]"

definition tm_bus_space_write_multi_2 ::
  "'w bus_space \<Rightarrow> string \<Rightarrow> int \<Rightarrow> ulong \<Rightarrow> ulong \<Rightarrow> ulong \<Rightarrow> ulong \<Rightarrow> ulong \<Rightarrow> 'w tracer act" where
  "tm_bus_space_write_multi_2 k fn ln tag bsh off addr cnt = block [
     PRINT_MULTI fn ln ''tm_bus_space_write_multi_2'' WRITE off 2 cnt,
     on_machine (bus_space_write_multi_2 k tag bsh off addr cnt)]"

definition tm_bus_space_write_multi_4 ::
  "'w bus_space \<Rightarrow> string \<Rightarrow> int \<Rightarrow> ulong \<Rightarrow> ulong \<Rightarrow> ulong \<Rightarrow> ulong \<Rightarrow> ulong \<Rightarrow> 'w tracer act" where
  "tm_bus_space_write_multi_4 k fn ln tag bsh off addr cnt = block [
     PRINT_MULTI fn ln ''tm_bus_space_write_multi_4'' WRITE off 4 cnt,
     on_machine (bus_space_write_multi_4 k tag bsh off addr cnt)]"

section \<open>A driver's accesses\<close>

text \<open>
  One access of a driver, with its arguments. \<open>plain\<close> is what it does in a driver compiled without tracing,
  \<open>traced\<close> what it does with it; the result of a call that has none is 0.
\<close>

datatype bus_call =
    Alloc ulong int ulong ulong ulong ulong u32
  | Alloc_Any ulong int ulong u32
  | Write_1 ulong ulong ulong "8 word"
  | Write_2 ulong ulong ulong "16 word"
  | Write_4 ulong ulong ulong "32 word"
  | Read_1 ulong ulong ulong
  | Read_2 ulong ulong ulong
  | Read_4 ulong ulong ulong
  | Read_Multi_1 ulong ulong ulong ulong ulong
  | Read_Multi_2 ulong ulong ulong ulong ulong
  | Read_Multi_4 ulong ulong ulong ulong ulong
  | Write_Multi_1 ulong ulong ulong ulong ulong
  | Write_Multi_2 ulong ulong ulong ulong ulong
  | Write_Multi_4 ulong ulong ulong ulong ulong

definition giving_int :: "('v::len word, 's) prog \<Rightarrow> (int, 's) prog" where
  "giving_int p s = map_sum id (\<lambda>(v, t). (uint v, t)) (p s)"

fun plain :: "'w bus_space \<Rightarrow> bus_call \<Rightarrow> (int, 'w) prog" where
  "plain k (Alloc d y r s e c f) = giving_int (bus_alloc_resource k d y r s e c f)"
| "plain k (Alloc_Any d y r f) = giving_int (bus_alloc_resource_any k d y r f)"
| "plain k (Write_1 t h off v) = returning 0 (bus_space_write_1 k t h off v)"
| "plain k (Write_2 t h off v) = returning 0 (bus_space_write_2 k t h off v)"
| "plain k (Write_4 t h off v) = returning 0 (bus_space_write_4 k t h off v)"
| "plain k (Read_1 t h off) = giving_int (bus_space_read_1 k t h off)"
| "plain k (Read_2 t h off) = giving_int (bus_space_read_2 k t h off)"
| "plain k (Read_4 t h off) = giving_int (bus_space_read_4 k t h off)"
| "plain k (Read_Multi_1 t h off a c) = returning 0 (bus_space_read_multi_1 k t h off a c)"
| "plain k (Read_Multi_2 t h off a c) = returning 0 (bus_space_read_multi_2 k t h off a c)"
| "plain k (Read_Multi_4 t h off a c) = returning 0 (bus_space_read_multi_4 k t h off a c)"
| "plain k (Write_Multi_1 t h off a c) = returning 0 (bus_space_write_multi_1 k t h off a c)"
| "plain k (Write_Multi_2 t h off a c) = returning 0 (bus_space_write_multi_2 k t h off a c)"
| "plain k (Write_Multi_4 t h off a c) = returning 0 (bus_space_write_multi_4 k t h off a c)"

fun traced :: "'w bus_space \<Rightarrow> string \<Rightarrow> int \<Rightarrow> bus_call \<Rightarrow> (int, 'w tracer) prog" where
  "traced k fn ln (Alloc d y r s e c f) = giving_int (tm_bus_alloc_resource k fn ln d y r s e c f)"
| "traced k fn ln (Alloc_Any d y r f) = giving_int (tm_bus_alloc_resource_any k fn ln d y r f)"
| "traced k fn ln (Write_1 t h off v) = returning 0 (tm_bus_space_write_1 k fn ln t h off v)"
| "traced k fn ln (Write_2 t h off v) = returning 0 (tm_bus_space_write_2 k fn ln t h off v)"
| "traced k fn ln (Write_4 t h off v) = returning 0 (tm_bus_space_write_4 k fn ln t h off v)"
| "traced k fn ln (Read_1 t h off) = giving_int (tm_bus_space_read_1 k fn ln t h off)"
| "traced k fn ln (Read_2 t h off) = giving_int (tm_bus_space_read_2 k fn ln t h off)"
| "traced k fn ln (Read_4 t h off) = giving_int (tm_bus_space_read_4 k fn ln t h off)"
| "traced k fn ln (Read_Multi_1 t h off a c) = returning 0 (tm_bus_space_read_multi_1 k fn ln t h off a c)"
| "traced k fn ln (Read_Multi_2 t h off a c) = returning 0 (tm_bus_space_read_multi_2 k fn ln t h off a c)"
| "traced k fn ln (Read_Multi_4 t h off a c) = returning 0 (tm_bus_space_read_multi_4 k fn ln t h off a c)"
| "traced k fn ln (Write_Multi_1 t h off a c) = returning 0 (tm_bus_space_write_multi_1 k fn ln t h off a c)"
| "traced k fn ln (Write_Multi_2 t h off a c) = returning 0 (tm_bus_space_write_multi_2 k fn ln t h off a c)"
| "traced k fn ln (Write_Multi_4 t h off a c) = returning 0 (tm_bus_space_write_multi_4 k fn ln t h off a c)"

text \<open>The lines an access prints at a level of tracing.\<close>

definition extra_lines :: "int \<Rightarrow> string \<Rightarrow> int \<Rightarrow> string \<Rightarrow> trace_line list" where
  "extra_lines lv fn ln op = (if lv \<ge> 2 then [Extra_Data fn ln op] else [])"

definition value_lines :: "int \<Rightarrow> string \<Rightarrow> int \<Rightarrow> string \<Rightarrow> string \<Rightarrow> u32 \<Rightarrow> int \<Rightarrow> trace_line list" where
  "value_lines lv fn ln op rw off sz = (if lv \<ge> 1 then Access rw off sz # extra_lines lv fn ln op else [])"

fun lines_of :: "int \<Rightarrow> string \<Rightarrow> int \<Rightarrow> bus_call \<Rightarrow> trace_line list" where
  "lines_of lv fn ln (Alloc d y r s e c f) = extra_lines lv fn ln ''tm_bus_alloc_resource''"
| "lines_of lv fn ln (Alloc_Any d y r f) = extra_lines lv fn ln ''tm_bus_alloc_resource_any''"
| "lines_of lv fn ln (Write_1 t h off v) = value_lines lv fn ln ''tm_bus_space_write_1'' WRITE off 1"
| "lines_of lv fn ln (Write_2 t h off v) = value_lines lv fn ln ''tm_bus_space_write_2'' WRITE off 2"
| "lines_of lv fn ln (Write_4 t h off v) = value_lines lv fn ln ''tm_bus_space_write_4'' WRITE off 4"
| "lines_of lv fn ln (Read_1 t h off) = value_lines lv fn ln ''tm_bus_space_read_1'' READ off 1"
| "lines_of lv fn ln (Read_2 t h off) = value_lines lv fn ln ''tm_bus_space_read_2'' READ off 2"
| "lines_of lv fn ln (Read_4 t h off) = value_lines lv fn ln ''tm_bus_space_read_4'' READ off 4"
| "lines_of lv fn ln (Read_Multi_1 t h off a c) =
     concat (replicate (unat c) (value_lines lv fn ln ''tm_bus_space_read_multi_1'' READ off 1))"
| "lines_of lv fn ln (Read_Multi_2 t h off a c) =
     concat (replicate (unat c) (value_lines lv fn ln ''tm_bus_space_read_multi_2'' READ off 2))"
| "lines_of lv fn ln (Read_Multi_4 t h off a c) =
     concat (replicate (unat c) (value_lines lv fn ln ''tm_bus_space_read_multi_4'' READ off 4))"
| "lines_of lv fn ln (Write_Multi_1 t h off a c) =
     concat (replicate (unat c) (value_lines lv fn ln ''tm_bus_space_write_multi_1'' WRITE off 1))"
| "lines_of lv fn ln (Write_Multi_2 t h off a c) =
     concat (replicate (unat c) (value_lines lv fn ln ''tm_bus_space_write_multi_2'' WRITE off 2))"
| "lines_of lv fn ln (Write_Multi_4 t h off a c) =
     concat (replicate (unat c) (value_lines lv fn ln ''tm_bus_space_write_multi_4'' WRITE off 4))"

section \<open>Tracing changes nothing\<close>

definition add_lines :: "trace_line list \<Rightarrow> 'w tracer \<Rightarrow> 'w tracer" where
  "add_lines ls s = s\<lparr>printed := printed s @ ls\<rparr>"

lemma add_lines_simps [simp]:
  "machine (add_lines ls s) = machine s" "g_trace_level (add_lines ls s) = g_trace_level s"
  "add_lines [] s = s" "add_lines ks (add_lines ls s) = add_lines (ls @ ks) s"
  "(add_lines ls s)\<lparr>machine := w\<rparr> = add_lines ls (s\<lparr>machine := w\<rparr>)"
  by (simp_all add: add_lines_def)

lemma PRINT_EXTRA_runs [simp]: "PRINT_EXTRA fn ln op s = Inr (add_lines (extra_lines (g_trace_level s) fn ln op) s)"
  by (simp add: PRINT_EXTRA_def printf_line_def add_lines_def extra_lines_def)

lemma PRINT_VALUE_runs [simp]:
  "PRINT_VALUE fn ln op rw off sz s = Inr (add_lines (value_lines (g_trace_level s) fn ln op rw off sz) s)"
  by (simp add: PRINT_VALUE_def printf_line_def value_lines_def) (simp add: add_lines_def)

lemma block_replicate_lines:
  assumes "\<And>s. a s = Inr (add_lines (f (g_trace_level s)) s)"
  shows "block (replicate n a) s = Inr (add_lines (concat (replicate n (f (g_trace_level s)))) s)"
  by (induction n arbitrary: s) (simp_all add: assms)

lemma PRINT_MULTI_runs [simp]:
  "PRINT_MULTI fn ln op rw off sz c s =
     Inr (add_lines (concat (replicate (unat c) (value_lines (g_trace_level s) fn ln op rw off sz))) s)"
  unfolding PRINT_MULTI_def by (rule block_replicate_lines) simp

lemma asking_then_lines:
  assumes "\<And>t. a t = Inr (add_lines (f (g_trace_level t)) t)"
  shows "giving_int (followed_by (asking p) a) s =
    map_sum id (\<lambda>(v, w). (v, (add_lines (f (g_trace_level s)) s)\<lparr>machine := w\<rparr>)) (giving_int p (machine s))"
  by (cases "p (machine s)") (simp_all add: giving_int_def followed_by_def asking_def assms split: prod.split)

lemma lines_then_machine:
  assumes "\<And>t. a t = Inr (add_lines (f (g_trace_level t)) t)"
  shows "returning 0 (block [a, on_machine m]) s =
      map_sum id (\<lambda>(v, w). (v, (add_lines (f (g_trace_level s)) s)\<lparr>machine := w\<rparr>)) (returning 0 m (machine s))"
    and "returning 0 (block [on_machine m, a]) s =
      map_sum id (\<lambda>(v, w). (v, (add_lines (f (g_trace_level s)) s)\<lparr>machine := w\<rparr>)) (returning 0 m (machine s))"
  by (cases "m (machine s)"; simp add: returning_def on_machine_def assms)+

lemmas print_then =
  lines_then_machine [where a = "PRINT_VALUE fn ln op rw off sz" and f = "\<lambda>lv. value_lines lv fn ln op rw off sz", OF PRINT_VALUE_runs]
  lines_then_machine [where a = "PRINT_MULTI fn ln op rw off sz c"
    and f = "\<lambda>lv. concat (replicate (unat c) (value_lines lv fn ln op rw off sz))", OF PRINT_MULTI_runs]
  asking_then_lines [where a = "PRINT_VALUE fn ln op rw off sz" and f = "\<lambda>lv. value_lines lv fn ln op rw off sz", OF PRINT_VALUE_runs]
  asking_then_lines [where a = "PRINT_EXTRA fn ln op" and f = "\<lambda>lv. extra_lines lv fn ln op", OF PRINT_EXTRA_runs]
  for fn ln op rw off sz c

text \<open>
  Every wrapper ends as the bus function does, with its result and its machine, and prints the lines of
  the access.
\<close>

theorem traced_is_plain:
  "traced k fn ln c s =
     map_sum id (\<lambda>(v, w). (v, (add_lines (lines_of (g_trace_level s) fn ln c) s)\<lparr>machine := w\<rparr>)) (plain k c (machine s))"

  by (cases c)
    (simp_all add: tm_bus_alloc_resource_def tm_bus_alloc_resource_any_def
      tm_bus_space_write_1_def tm_bus_space_write_2_def tm_bus_space_write_4_def
      tm_bus_space_read_1_def tm_bus_space_read_2_def tm_bus_space_read_4_def
      tm_bus_space_read_multi_1_def tm_bus_space_read_multi_2_def tm_bus_space_read_multi_4_def
      tm_bus_space_write_multi_1_def tm_bus_space_write_multi_2_def tm_bus_space_write_multi_4_def
      print_then del: block.simps)

section \<open>Whole drivers\<close>

text \<open>A driver chooses its next access by the results so far, and stops when it has none left to make.\<close>

type_synonym bus_driver = "int list \<Rightarrow> ((string \<times> int) \<times> bus_call) option"

fun run_plain :: "'w bus_space \<Rightarrow> bus_driver \<Rightarrow> nat \<Rightarrow> int list \<Rightarrow> (int list, 'w) prog" where
  "run_plain k d 0 vs w = Inr (vs, w)"
| "run_plain k d (Suc n) vs w = (case d vs of
       None \<Rightarrow> Inr (vs, w)
     | Some (_, c) \<Rightarrow> (case plain k c w of Inl e \<Rightarrow> Inl e | Inr (v, w') \<Rightarrow> run_plain k d n (vs @ [v]) w'))"

fun run_traced :: "'w bus_space \<Rightarrow> bus_driver \<Rightarrow> nat \<Rightarrow> int list \<Rightarrow> (int list, 'w tracer) prog" where
  "run_traced k d 0 vs s = Inr (vs, s)"
| "run_traced k d (Suc n) vs s = (case d vs of
       None \<Rightarrow> Inr (vs, s)
     | Some ((fn, ln), c) \<Rightarrow>
         (case traced k fn ln c s of Inl e \<Rightarrow> Inl e | Inr (v, t) \<Rightarrow> run_traced k d n (vs @ [v]) t))"

text \<open>
  A traced driver sees the results and leaves the machine of the same driver without tracing, and a path
  that ends in the kernel ends there with tracing too, whatever was printed.
\<close>

theorem tracing_is_transparent:
  "map_sum id (\<lambda>(vs, s). (vs, machine s)) (run_traced k d n vs s) = run_plain k d n vs (machine s)"
  by (induction n arbitrary: vs s) (auto simp: traced_is_plain split: option.split sum.split)

text \<open>The printed lines are those of the accesses made, in order.\<close>

fun accesses :: "'w bus_space \<Rightarrow> bus_driver \<Rightarrow> nat \<Rightarrow> int list \<Rightarrow> 'w \<Rightarrow> ((string \<times> int) \<times> bus_call) list" where
  "accesses k d 0 vs w = []"
| "accesses k d (Suc n) vs w = (case d vs of
       None \<Rightarrow> []
     | Some (p, c) \<Rightarrow> (p, c) # (case plain k c w of Inl e \<Rightarrow> [] | Inr (v, w') \<Rightarrow> accesses k d n (vs @ [v]) w'))"

definition trace_of :: "int \<Rightarrow> ((string \<times> int) \<times> bus_call) list \<Rightarrow> trace_line list" where
  "trace_of lv cs = concat (map (\<lambda>((fn, ln), c). lines_of lv fn ln c) cs)"

theorem trace_records_accesses:
  "run_traced k d n vs s = Inr (ws, t) \<Longrightarrow>
     printed t = printed s @ trace_of (g_trace_level s) (accesses k d n vs (machine s))"
proof (induction n arbitrary: vs s)
  case 0
  then show ?case by (simp add: trace_of_def)
next
  case (Suc n)
  show ?case
  proof (cases "d vs")
    case None
    with Suc.prems show ?thesis by (simp add: trace_of_def)
  next
    case (Some call)
    obtain fn ln c where call: "call = ((fn, ln), c)" by (metis surj_pair)
    obtain v w where c: "plain k c (machine s) = Inr (v, w)"
      using Suc.prems Some call by (cases "plain k c (machine s)") (auto simp: traced_is_plain)
    let ?s = "add_lines (lines_of (g_trace_level s) fn ln c) (s\<lparr>machine := w\<rparr>)"
    have "run_traced k d n (vs @ [v]) ?s = Inr (ws, t)"
      using Suc.prems Some call c by (simp add: traced_is_plain)
    then have "printed t = printed ?s @ trace_of (g_trace_level s) (accesses k d n (vs @ [v]) w)"
      using Suc.IH [of "vs @ [v]" ?s] by simp
    then show ?thesis using Some call c by (simp add: trace_of_def add_lines_def)
  qed
qed

text \<open>Below level 1 nothing is printed at all.\<close>

lemma lines_of_untraced: "lv < 1 \<Longrightarrow> lines_of lv fn ln c = []"
  by (cases c) (simp_all add: extra_lines_def value_lines_def)

theorem untraced_prints_nothing:
  "run_traced k d n vs s = Inr (ws, t) \<Longrightarrow> g_trace_level s < 1 \<Longrightarrow> printed t = printed s"
  by (auto dest!: trace_records_accesses simp: trace_of_def lines_of_untraced)

end
