(* ===== verification/Symbol_Lookup.thy ===== *)
theory Symbol_Lookup
  imports Module_Init
begin

text \<open>
  \<open>symbol_lookup.c\<close>, the search by symbol name both builds give the function tracker, and the tests for error
  values of the FreeBSD build, \<open>portable.h\<close>. The search of the kernel's own tables is a parameter: of
  \<open>kallsyms_lookup_name\<close> in Linux, and in FreeBSD of \<open>linker_ddb_lookup\<close>, which finds the value of a symbol and
  of the module of the framework, whose address and size are the other two. Addresses have 32 bits.
\<close>

section \<open>Linux\<close>

definition symbol_lookup_linux :: "(string \<Rightarrow> ulong) \<Rightarrow> string \<Rightarrow> ulong" where
  "symbol_lookup_linux kallsyms_lookup_name name = kallsyms_lookup_name name"

section \<open>FreeBSD\<close>

record linker_file =
  lf_address :: ulong
  lf_size :: ulong

definition kernel_base :: ulong where "kernel_base = 0xC0000000"

definition symbol_lookup_freebsd :: "(string \<Rightarrow> ulong option) \<Rightarrow> linker_file \<Rightarrow> string \<Rightarrow> tf_error + ulong" where
  "symbol_lookup_freebsd linker_ddb_lookup tf_file name =
     (let ret_addr = (case linker_ddb_lookup name of
            Some st_value \<Rightarrow> if st_value < lf_size tf_file * 2 then lf_address tf_file + st_value else st_value
          | None \<Rightarrow> 0) in
      if ret_addr < kernel_base \<and> ret_addr \<noteq> 0 then Inl (Panic ''Failed symbol lookup'') else Inr ret_addr)"

definition IS_ERR_VALUE_freebsd :: "ulong \<Rightarrow> ulong \<Rightarrow> bool" where
  "IS_ERR_VALUE_freebsd ELAST x \<longleftrightarrow> x \<le> ELAST \<and> x > 0"

definition IS_ERR_freebsd :: "ulong \<Rightarrow> bool" where
  "IS_ERR_freebsd x \<longleftrightarrow> x < 4096 \<or> x = 0 \<or> x > - 4096"

section \<open>What a search answers\<close>

text \<open>An address a search answers lies in the kernel, so a check routine is never an error value.\<close>

lemma symbol_lookup_range:
  "symbol_lookup_freebsd ddb f name = Inr a \<Longrightarrow> a = 0 \<or> kernel_base \<le> a"
  by (auto simp: symbol_lookup_freebsd_def Let_def split: if_splits option.splits)

text \<open>
  With the kernel and the module above the base, the module not wrapping around and its size below the base,
  the search does not panic: symbols of the kernel are found as they are and those of the module moved by its
  address.
\<close>

lemma symbol_lookup_total:
  assumes base: "kernel_base \<le> lf_address f" and size: "unat (lf_size f) * 2 < unat kernel_base"
    and fit: "unat (lf_address f) + unat (lf_size f) * 2 < 2 ^ 32"
    and vals: "\<And>v. ddb name = Some v \<Longrightarrow> unat v < unat (lf_size f) * 2 \<or> kernel_base \<le> v"
  shows "symbol_lookup_freebsd ddb f name = Inr (case ddb name of None \<Rightarrow> 0
     | Some v \<Rightarrow> if kernel_base \<le> v then v else lf_address f + v)"
proof (cases "ddb name")
  case None
  then show ?thesis by (simp add: symbol_lookup_freebsd_def)
next
  case (Some v)
  have s: "unat (lf_size f * 2) = unat (lf_size f) * 2"
    using fit by (simp add: unat_word_ariths)
  show ?thesis
  proof (cases "kernel_base \<le> v")
    case True
    then have "unat kernel_base \<le> unat v" by (simp add: word_le_nat_alt)
    then have "\<not> v < lf_size f * 2" using s size by (simp add: word_less_nat_alt)
    moreover have "\<not> v < kernel_base" using True by simp
    ultimately show ?thesis using Some True by (simp add: symbol_lookup_freebsd_def)
  next
    case False
    then have v: "unat v < unat (lf_size f) * 2" using vals [OF Some] by blast
    then have "unat (lf_address f + v) = unat (lf_address f) + unat v"
      using fit by (simp add: unat_word_ariths)
    then have "kernel_base \<le> lf_address f + v" using base by (simp add: word_le_nat_alt)
    moreover have "v < lf_size f * 2" using v s by (simp add: word_less_nat_alt)
    ultimately show ?thesis using Some False by (simp add: symbol_lookup_freebsd_def Let_def not_less)
  qed
qed

text \<open>
  The two tests differ: the errors of a function are small positive numbers, an error pointer is also a
  small negative one and the null pointer.
\<close>

lemma error_value_is_error: "ELAST < 4096 \<Longrightarrow> IS_ERR_VALUE_freebsd ELAST x \<Longrightarrow> IS_ERR_freebsd x"
  by (simp add: IS_ERR_VALUE_freebsd_def IS_ERR_freebsd_def word_less_nat_alt word_le_nat_alt)

end
