(* ===== verification/Test_Program.thy ===== *)
theory Test_Program
  imports Linux_Module
begin

text \<open>
  The user space program \<open>app_ep_control.c\<close>, which opens the control device and runs one test case, with the
  number it is given on the command line, and the way from its arguments to the dispatcher of
  \<open>testing_ep.c\<close>. \<open>atoi\<close> is the one of the C library; \<open>open\<close> and \<open>ioctl\<close> are the kernel's.
\<close>

section \<open>Numbers on the command line\<close>

definition is_space :: "char \<Rightarrow> bool" where
  "is_space c \<longleftrightarrow> (let n = of_char c :: nat in n = 32 \<or> (9 \<le> n \<and> n \<le> 13))"

definition digit_value :: "char \<Rightarrow> nat option" where
  "digit_value c = (let n = of_char c in if 48 \<le> n \<and> n \<le> 57 then Some (n - 48) else None)"

fun leading_number :: "nat \<Rightarrow> string \<Rightarrow> nat" where
  "leading_number n [] = n"
| "leading_number n (c # cs) = (case digit_value c of Some d \<Rightarrow> leading_number (10 * n + d) cs | None \<Rightarrow> n)"

definition atoi :: "string \<Rightarrow> int" where
  "atoi str = (case dropWhile is_space str of
       [] \<Rightarrow> 0
     | c # cs \<Rightarrow> if c = CHR ''-'' then - int (leading_number 0 cs)
         else if c = CHR ''+'' then int (leading_number 0 cs)
         else int (leading_number 0 (c # cs)))"

section \<open>The program\<close>

definition EP_CONTROL_NAME :: string where "EP_CONTROL_NAME = ''ep_control''"

text \<open>The calls of the system: a descriptor or -1, and an \<open>ioctl\<close> on the device.\<close>

record 's system_calls =
  sys_open :: "string \<Rightarrow> int"
  sys_ioctl :: "test_category \<Rightarrow> ulong \<Rightarrow> (int, 's) prog"

definition test_ethtool :: "('s, 'b) system_calls_scheme \<Rightarrow> string \<Rightarrow> (int, 's) prog" where
  "test_ethtool k param = sys_ioctl k TEST_ETHTOOL (word_of_int (atoi param))"

definition test_pci_pm :: "('s, 'b) system_calls_scheme \<Rightarrow> string \<Rightarrow> (int, 's) prog" where
  "test_pci_pm k param = sys_ioctl k TEST_PCI_PM (word_of_int (atoi param))"

definition test_i2c_pm :: "('s, 'b) system_calls_scheme \<Rightarrow> string \<Rightarrow> (int, 's) prog" where
  "test_i2c_pm k param = sys_ioctl k TEST_I2C_PM (word_of_int (atoi param))"

definition test_snd :: "string \<Rightarrow> (int, 's) prog" where
  "test_snd param = (\<lambda>s. Inr (0, s))"

definition app_main :: "('s, 'b) system_calls_scheme \<Rightarrow> string list \<Rightarrow> (int, 's) prog" where
  "app_main k argv = (\<lambda>s.
     if length argv \<noteq> 3 then Inr (1, s)
     else if sys_open k (''/dev/'' @ EP_CONTROL_NAME) = -1 then Inr (2, s)
     else
       (case (if argv ! 1 = ''ethtool'' then test_ethtool k (argv ! 2) s
              else if argv ! 1 = ''pci_pm'' then test_pci_pm k (argv ! 2) s
              else if argv ! 1 = ''i2c_pm'' then test_i2c_pm k (argv ! 2) s
              else if argv ! 1 = ''snd'' then test_snd (argv ! 2) s
              else Inr (0, s)) of
          Inl e \<Rightarrow> Inl e
        | Inr (ret, t) \<Rightarrow> Inr (0, t)))"

text \<open>The kernel hands the \<open>unsigned long\<close> of the call to the handler, which reads it as an \<open>int\<close>.\<close>

definition framework_calls :: "('a ep_state_scheme) ep_driver \<Rightarrow> int \<Rightarrow> ('a ep_state_scheme) system_calls" where
  "framework_calls drv run_test = \<lparr>sys_open = \<lambda>name. if name = ''/dev/ep_control'' then 3 else -1,
     sys_ioctl = \<lambda>cmd arg. ep_control_ioctl drv run_test cmd (sint arg)\<rparr>"

section \<open>From the command line to a test case\<close>

lemma digit_value_digit: "d < 10 \<Longrightarrow> digit_value (digit d) = Some d"
  by (simp add: digit_value_def digit_def Let_def)

lemma digit_not_special: "d < 10 \<Longrightarrow> \<not> is_space (digit d) \<and> digit d \<noteq> CHR ''-'' \<and> digit d \<noteq> CHR ''+''"
proof -
  assume d: "d < 10"
  then have "of_char (digit d) = (48 + d :: nat)" by (simp add: digit_def)
  then show ?thesis using d by (auto simp: is_space_def Let_def)
qed

lemma leading_number_append:
  "\<forall>c \<in> set cs. digit_value c \<noteq> None \<Longrightarrow> leading_number n (cs @ ds) = leading_number (leading_number n cs) ds"
  by (induction cs arbitrary: n) (auto split: option.splits)

lemma show_nat_digits: "\<forall>c \<in> set (show_nat n). digit_value c \<noteq> None"
proof (induction n rule: show_nat.induct)
  case (1 n)
  then show ?case
    by (subst show_nat.simps) (auto simp: digit_value_digit)
qed

lemma leading_number_show_nat: "leading_number 0 (show_nat n) = n"
proof (induction n rule: show_nat.induct)
  case (1 n)
  then show ?case
    by (subst show_nat.simps) (auto simp: digit_value_digit leading_number_append show_nat_digits)
qed

lemma hd_show_nat: "\<exists>d cs. d < 10 \<and> show_nat n = digit d # cs"
proof (induction n rule: show_nat.induct)
  case (1 n)
  then show ?case by (cases "n < 10") (auto simp: show_nat.simps [of n])
qed

lemma atoi_show_nat: "atoi (show_nat n) = int n"
proof -
  obtain d cs where "d < 10" "show_nat n = digit d # cs" using hd_show_nat by blast
  then show ?thesis using digit_not_special [of d] leading_number_show_nat [of n] by (simp add: atoi_def)
qed

text \<open>
  A test case named on the command line is the one the dispatcher runs, and what ends it ends the program's
  path; a name the program does not know is reported as success, like a test the kernel refuses.
\<close>

theorem test_program_runs_case:
  assumes "n < 2 ^ 31"
  shows "app_main (framework_calls drv x) [prog, ''ethtool'', show_nat n] s = map_sum id (Pair 0) (ep_test drv x TEST_ETHTOOL (int n) s)"
    and "app_main (framework_calls drv x) [prog, ''pci_pm'', show_nat n] s = map_sum id (Pair 0) (ep_test drv x TEST_PCI_PM (int n) s)"
    and "app_main (framework_calls drv x) [prog, ''i2c_pm'', show_nat n] s = map_sum id (Pair 0) (ep_test drv x TEST_I2C_PM (int n) s)"
proof -
  have "sint (word_of_int (int n) :: ulong) = int n"
    by (subst sint_sbintrunc') (use assms in \<open>simp add: signed_take_bit_int_eq_self\<close>)
  then show "app_main (framework_calls drv x) [prog, ''ethtool'', show_nat n] s = map_sum id (Pair 0) (ep_test drv x TEST_ETHTOOL (int n) s)"
    and "app_main (framework_calls drv x) [prog, ''pci_pm'', show_nat n] s = map_sum id (Pair 0) (ep_test drv x TEST_PCI_PM (int n) s)"
    and "app_main (framework_calls drv x) [prog, ''i2c_pm'', show_nat n] s = map_sum id (Pair 0) (ep_test drv x TEST_I2C_PM (int n) s)"
    by (simp_all add: app_main_def framework_calls_def EP_CONTROL_NAME_def test_ethtool_def test_pci_pm_def test_i2c_pm_def
        atoi_show_nat ep_control_ioctl_def returning_def split: sum.split)
qed

end
