(* ===== verification/Check_Frames.thy ===== *)
theory Check_Frames
  imports Check_Safety
begin

text \<open>
  What a check routine leaves alone. The state is one record that grows from file to file, and a routine of
  \<open>misc_checks/\<close> or \<open>structs/\<close> changes only the part that \<open>test_state.c\<close>, \<open>testing_ep.c\<close> and the files below
  them declare: what \<open>irq.c\<close>, \<open>enter_exit.c\<close> and the rest keep for themselves is \<open>ep_state.more\<close>, and stays.
  The judgement \<open>keeps f a\<close> says that an action leaves a view \<open>f\<close> of the state as it was; its rules are
  collected in \<open>frame_rules\<close>.
\<close>

section \<open>The judgement\<close>

definition keeps :: "('s \<Rightarrow> 'b) \<Rightarrow> 's act \<Rightarrow> bool" where
  "keeps f a \<longleftrightarrow> (\<forall>s t. a s = Inr t \<longrightarrow> f t = f s)"

definition keeps_out :: "('s \<Rightarrow> 'b) \<Rightarrow> ('v, 's) prog \<Rightarrow> bool" where
  "keeps_out f p \<longleftrightarrow> (\<forall>s v t. p s = Inr (v, t) \<longrightarrow> f t = f s)"

named_theorems frame_rules \<open>rules of the judgement \<open>keeps\<close>\<close>

lemma keepsI: "(\<And>s t. a s = Inr t \<Longrightarrow> f t = f s) \<Longrightarrow> keeps f a"
  by (simp add: keeps_def)

lemma keepsD: "keeps f a \<Longrightarrow> a s = Inr t \<Longrightarrow> f t = f s"
  by (simp add: keeps_def)

lemma keeps_outI: "(\<And>s v t. p s = Inr (v, t) \<Longrightarrow> f t = f s) \<Longrightarrow> keeps_out f p"
  by (simp add: keeps_out_def)

lemma keeps_outD: "keeps_out f p \<Longrightarrow> p s = Inr (v, t) \<Longrightarrow> f t = f s"
  by (simp add: keeps_out_def)

text \<open>A coarser view is kept too, and a predicate on a view that is kept is preserved.\<close>

lemma keeps_coarser: "keeps f a \<Longrightarrow> (\<And>s t. f s = f t \<Longrightarrow> g s = g t) \<Longrightarrow> keeps g a"
  unfolding keeps_def by blast

lemma keeps_preserves: "keeps f a \<Longrightarrow> (\<And>s t. f s = f t \<Longrightarrow> P s = P t) \<Longrightarrow> preserves P a"
  unfolding keeps_def preserves_def by blast

lemma keeps_skip [frame_rules]: "keeps f skip"
  by (simp add: keeps_def)

lemma keeps_fail [frame_rules]: "keeps f (fail e)"
  by (simp add: keeps_def)

lemma keeps_update: "(\<And>s. f (g s) = f s) \<Longrightarrow> keeps f (update g)"
  by (auto simp: keeps_def)

lemma keeps_cond [frame_rules]: "keeps f a \<Longrightarrow> keeps f b \<Longrightarrow> keeps f (cond c a b)"
  by (auto simp: keeps_def)

lemma keeps_if [frame_rules]: "keeps f a \<Longrightarrow> keeps f b \<Longrightarrow> keeps f (if c then a else b)"
  by simp

lemma keeps_onlyif [frame_rules]: "keeps f a \<Longrightarrow> keeps f (onlyif c a)"
  by (auto simp: keeps_def)

lemma keeps_block_Nil [frame_rules]: "keeps f (block [])"
  by (simp add: keeps_def)

lemma keeps_block_Cons [frame_rules]: "keeps f a \<Longrightarrow> keeps f (block as) \<Longrightarrow> keeps f (block (a # as))"
proof (rule keepsI)
  fix s t
  assume a: "keeps f a" and b: "keeps f (block as)" and "block (a # as) s = Inr t"
  then obtain u where "a s = Inr u" "block as u = Inr t" by (auto simp: block_Cons_Inr simp del: block.simps(2))
  then show "f t = f s" using keepsD [OF a] keepsD [OF b] by simp
qed

lemma keeps_block_set: "(\<And>a. a \<in> set as \<Longrightarrow> keeps f a) \<Longrightarrow> keeps f (block as)"
proof (induction as)
  case Nil
  show ?case by (rule keeps_block_Nil)
next
  case (Cons a as)
  show ?case by (intro keeps_block_Cons Cons.IH Cons.prems) auto
qed

lemma keeps_block_map [frame_rules]: "(\<And>x. keeps f (g x)) \<Longrightarrow> keeps f (block (map g xs))"
  by (rule keeps_block_set) auto

lemma keeps_option [frame_rules]: "keeps f a \<Longrightarrow> (\<And>v. keeps f (b v)) \<Longrightarrow> keeps f (case p of None \<Rightarrow> a | Some v \<Rightarrow> b v)"
  by (cases p) simp_all

lemma keeps_pair [frame_rules]: "(\<And>x y. keeps f (g x y)) \<Longrightarrow> keeps f (case p of (x, y) \<Rightarrow> g x y)"
  by (cases p) simp

lemma keeps_deref [frame_rules]: "(\<And>v. keeps f (a v)) \<Longrightarrow> keeps f (deref p a)"
  unfolding deref_def by (intro frame_rules)

lemma keeps_with_state [frame_rules]: "(\<And>s. keeps f (k s)) \<Longrightarrow> keeps f (with_state k)"
  by (simp add: keeps_def)

lemma keeps_reading [frame_rules]: "(\<And>v. keeps f (k v)) \<Longrightarrow> keeps f (reading p k)"
  by (rule keepsI) (auto simp: reading_def dest: keepsD split: sum.splits)

lemma keeps_with_result [frame_rules]:
  assumes p: "keeps_out f p" and k: "\<And>v. keeps f (k v)"
  shows "keeps f (with_result p k)"
proof (rule keepsI)
  fix s t
  assume "with_result p k s = Inr t"
  then obtain v u where "p s = Inr (v, u)" "k v u = Inr t" by (auto simp: with_result_def split: sum.splits)
  then show "f t = f s" using keeps_outD [OF p] keepsD [OF k] by metis
qed

lemma keeps_out_returning [frame_rules]: "keeps f a \<Longrightarrow> keeps_out f (returning r a)"
  by (auto simp: keeps_def keeps_out_def)

lemma keeps_ignore [frame_rules]: "keeps_out f p \<Longrightarrow> keeps f (ignore_result p)"
proof (rule keepsI)
  fix s t
  assume p: "keeps_out f p" and "ignore_result p s = Inr t"
  then obtain v where "p s = Inr (v, t)" by (cases "p s") (auto simp: ignore_result_def)
  then show "f t = f s" by (rule keeps_outD [OF p])
qed

lemma keeps_with_out [frame_rules]: "keeps_out f c \<Longrightarrow> keeps_out f (with_out out c)"
  by (auto simp: keeps_out_def)

section \<open>Primitive operations\<close>

lemma keeps_ends [frame_rules]:
  "keeps f (tf_fail msg)" "keeps f (tf_fail_no_detail msg)" "keeps f (tfassert P msg)" "keeps f (tfassert_no_detail P msg)"
  by (rule keepsI; simp add: tf_fail_no_detail_def split: if_splits)+

text \<open>
  The variables the files above \<open>testing_ep.c\<close> declare. The routines below write none of them, and what an
  update of the others leaves is simple arithmetic of records.
\<close>

abbreviation outer :: "'a ep_state_scheme \<Rightarrow> 'a" where
  "outer \<equiv> ep_state.more"

definition frames_ref :: "(('a ep_state_scheme, 'v) ref) \<Rightarrow> bool" where
  "frames_ref r \<longleftrightarrow> (\<forall>s v. outer (snd r v s) = outer s)"

lemma frames_refs [frame_rules]:
  "frames_ref (dot pci_r f)" "frames_ref (dot usb_r g)" "frames_ref (dot misc_r g)" "frames_ref (dot proto_r g)"
  "frames_ref (dot i2c_r g)" "frames_ref (dot platform_r g)" "frames_ref (dot spi_r g)" "frames_ref (dot ndo_r h)"
  "frames_ref ioctl_capable_retval_r"
  by (simp_all add: frames_ref_def ioctl_capable_retval_r_def)

lemma outer_set_call_state [frame_rules]: "frames_ref r \<Longrightarrow> keeps outer (set_call_state r c)"
  by (rule keepsI) (auto simp: set_call_state_Inr frames_ref_def)

lemma outer_set_device_state [frame_rules]: "frames_ref r \<Longrightarrow> keeps outer (set_device_state r d)"
  by (rule keepsI) (auto simp: set_device_state_Inr frames_ref_def)

lemma outer_s2e [frame_rules]: "keeps outer (s2e e)"
  unfolding s2e_def by (intro keeps_update; simp)

lemma outer_lock [frame_rules]: "keeps outer acquire_global_lock" "keeps outer release_global_lock"
  by (auto simp: keeps_def acquire_Inr release_Inr)

lemma outer_store [frame_rules]:
  "keeps outer (\<lambda>s. case store_at (blocking_context_current s) bc (blocking_context s) of
      None \<Rightarrow> Inl Out_Of_Bounds | Some ctx \<Rightarrow> Inr (s\<lparr>blocking_context := ctx\<rparr>))"
  "keeps outer (\<lambda>s. case store_at (user_context_current s) uc (user_context s) of
      None \<Rightarrow> Inl Out_Of_Bounds | Some ctx \<Rightarrow> Inr (s\<lparr>user_context := ctx\<rparr>))"
  by (rule keepsI; auto split: option.splits)+

lemma outer_push_pop [frame_rules]:
  "keeps outer (push_blocking_state bc)" "keeps outer (push_user_state uc)" "keeps outer pop_blocking_state" "keeps outer pop_user_state"
  unfolding push_blocking_state_def push_user_state_def pop_blocking_state_def pop_user_state_def
  by (intro frame_rules keeps_update; simp)+

lemma outer_kernel_state [frame_rules]: "keeps outer (push_kernel_state bc uc)" "keeps outer pop_kernel_state"
  unfolding push_kernel_state_def pop_kernel_state_def by (intro frame_rules)+

lemma outer_bus [frame_rules]: "keeps outer (set_driver_bus t)" "keeps outer (remove_driver_bus t)"
  unfolding set_driver_bus_def remove_driver_bus_def by (intro frame_rules keeps_update; simp)+

lemma outer_class [frame_rules]: "keeps outer (set_driver_class c)"
  unfolding set_driver_class_def
  by (cases c) (simp_all only: driver_class.case, (intro frame_rules keeps_update; simp)+)

text \<open>The object tracker.\<close>

lemma outer_objs [frame_rules]:
  "keeps_out outer mjr_kmalloc" "keeps_out outer (objs_key_ptr obj)" "keeps_out outer (objs_value str org sz new)"
  "keeps_out outer (objs_remove key)" "keeps_out outer (objs_hashtable_insert key value)"
  by (rule keeps_outI; auto simp: mjr_kmalloc_def objs_key_ptr_def objs_value_def objs_remove_def objs_hashtable_insert_def Let_def
      split: option.splits prod.splits if_splits)+

lemma outer_objs_tables [frame_rules]: "keeps outer (objs_poke key value)" "keeps outer (objs_enumerate kv)"
  by (rule keepsI; auto simp: objs_poke_def objs_enumerate_def split: option.splits sum.splits)+

lemma outer_tracker [frame_rules]:
  "keeps outer (objs_insert key value)" "keeps outer (assert_allocated org obj)" "keeps outer (assert_allocated_weak obj minsize)"
  "keeps outer (generic_free prepost obj org)" "keeps outer reset_new_objects"
  unfolding objs_insert_def assert_allocated_def assert_allocated_weak_def generic_free_def reset_new_objects_def
  by (intro frame_rules keeps_update; simp)+

lemma outer_allocator [frame_rules]: "keeps outer (generic_allocator fn prepost obj sz org)"
  unfolding generic_allocator_def by (intro frame_rules)

text \<open>The lock protocol.\<close>

lemma outer_lock_state [frame_rules]: "keeps outer (verify_lock_state v)" "keeps outer (lock_kernel_state org lt d)"
  unfolding verify_lock_state_def lock_kernel_state_def Let_def by (intro frame_rules)+

lemma outer_lock_allocator [frame_rules]: "keeps outer (generic_lock_allocator fn prepost lock org)"
proof -
  have "keeps_out outer (\<lambda>s :: 'a ep_state_scheme. case objs_remove key s of Inl e \<Rightarrow> Inl e | Inr (_, t) \<Rightarrow> Inr (v, t))" for key and v :: hvalue
    by (rule keeps_outI) (auto dest: keeps_outD [OF outer_objs(4)] split: sum.splits)
  then have "keeps_out outer (case e of None \<Rightarrow> objs_value fn org (- 1) 0
      | Some existing \<Rightarrow> (\<lambda>s :: 'a ep_state_scheme. case objs_remove key s of Inl e \<Rightarrow> Inl e | Inr (_, t) \<Rightarrow> Inr (existing, t)))" for key e
    by (cases e) (simp_all add: outer_objs)
  then show ?thesis unfolding generic_lock_allocator_def by (intro frame_rules)
qed

lemma outer_lock_moves [frame_rules]: "keeps outer (lock_acquired key v org lt)" "keeps outer (lock_released key v org lt)"
  unfolding lock_acquired_def lock_released_def Let_def by (intro frame_rules)+

lemma outer_generic_lock [frame_rules]: "keeps outer (generic_lock_state fn prepost lock org lt d)"
proof -
  have "keeps outer (generic_lock_state_fuel n fn prepost lock org lt d :: 'a ep_state_scheme act)" for n
    by (induction n) (simp only: generic_lock_state_fuel.simps, (intro frame_rules | assumption)+)+
  then show ?thesis by (simp add: generic_lock_state_def)
qed

section \<open>The routines\<close>

lemma outer_check_routine [frame_rules]: "keeps outer body \<Longrightarrow> keeps_out outer (check_routine r body)"
  unfolding check_routine_def by (intro frame_rules)

lemma outer_check_returning [frame_rules]:
  assumes "keeps outer body" shows "keeps_out outer (check_returning res body)"
  using keeps_outD [OF outer_check_routine [OF assms]] by (auto simp: keeps_out_def check_returning_Inr)

lemma outer_on_prepost [frame_rules]: "keeps outer a \<Longrightarrow> keeps outer b \<Longrightarrow> keeps outer (on_prepost prepost a b)"
  unfolding on_prepost_def by (intro frame_rules)

lemma outer_capable [frame_rules]:
  "keeps outer (mem_flags_test no yes flgs)" "keeps outer (gfp_test flgs)" "keeps outer (ioctl_called_capable prepost retval cmd)"
  "keeps outer (call_capable prepost b cap)"
  unfolding gfp_test_def mem_flags_test_def ioctl_called_capable_def call_capable_def
  by (intro frame_rules keeps_update; simp)+

lemma outer_testing_ep [frame_rules]:
  "keeps outer (ep_init_net d)" "keeps outer (ep_init_pci_driver d)" "keeps outer (ep_init_pci_dev d)"
  "keeps outer (ep_init_i2c_driver d)" "keeps outer (ep_init_i2c_client d)" "keeps outer usb_context"
  unfolding ep_init_net_def ep_init_pci_driver_def ep_init_pci_dev_def ep_init_i2c_driver_def ep_init_i2c_client_def usb_context_def
  by (intro frame_rules keeps_update; simp)+

lemmas routine_defs = memory_defs memory_out_defs main_defs main_out_defs bus_defs bus_out_defs structs_defs lock_set_up_defs

lemma plain_routine_outer: "plain_routine a \<Longrightarrow> keeps outer a"
  by (induction rule: plain_routine.induct) (unfold routine_defs Let_def, (intro frame_rules keeps_update; simp)+)

lemma lock_routine_outer: "lock_routine prepost lock a \<Longrightarrow> keeps outer a"
  by (induction rule: lock_routine.induct) (unfold lock_routine_defs, (intro frame_rules)+)

end
