(* ===== verification/Framework_Runs.thy ===== *)
theory Framework_Runs
  imports Check_Frames Irq_Runs Module_Init
begin

text \<open>
  The components together. A run of the framework interleaves, in any order, check routines, lock routines,
  operations on the table of interrupts and crossings of the border between kernel and driver, at which the
  driver's interrupt handlers run. The theories before this one follow one kind of step at a time; here a
  labelled run is shown to move two abstract states, the stack of frames and the multiset of requested lines,
  each by the labels that concern it and by no other step.
\<close>

section \<open>Views of the state\<close>

definition irq_view :: "'a irq_state_scheme \<Rightarrow> irq_struct list \<times> int \<times> int \<times> (nat \<Rightarrow> u8) option" where
  "irq_view s = (sym_irq s, sym_num_requests s, sym_irq_ongoing s, sym_irq_lines s)"

definition ee_view :: "'a ee_state_scheme \<Rightarrow> int \<times> string option list \<times> bool \<times> bool" where
  "ee_view s = (driver_call_stack s, driver_call_stack_str s, call_stack_buffer1 s, call_stack_buffer2 s)"

lemma outer_irq_more: "outer s = outer t \<Longrightarrow> irq_state.more s = irq_state.more t"
  by (cases s; cases t) simp

lemma outer_irq_view: "outer s = outer t \<Longrightarrow> irq_view s = irq_view t"
  by (cases s; cases t) (simp add: irq_view_def)

lemma more_ee_view: "irq_state.more s = irq_state.more t \<Longrightarrow> ee_view s = ee_view t"
  by (cases s; cases t) (simp add: ee_view_def)

lemma ee_at_view: "ee_view s = ee_view t \<Longrightarrow> ee_at fs s = ee_at fs t"
  by (rule ee_at_frame) (simp_all add: ee_view_def)

section \<open>Steps\<close>

text \<open>Between steps the table of interrupts is well formed and holds the lines \<open>M\<close>.\<close>

definition irq_table :: "u32 multiset \<Rightarrow> 'a irq_state_scheme \<Rightarrow> bool" where
  "irq_table M s \<longleftrightarrow> irq_ok s \<and> requested_lines s = M"

text \<open>The routines of interrupts that leave the table as it is.\<close>

inductive quiet_irq :: "('a irq_state_scheme) act \<Rightarrow> bool" where
  "pp \<noteq> 1 \<or> m \<noteq> 0 \<Longrightarrow> quiet_irq (ignore_result (request_threaded_irq_MJRcheck pp m iq x y nm z))"
| "pp \<noteq> 0 \<Longrightarrow> quiet_irq (ignore_result (free_irq_MJRcheck pp n x))"
| "pp \<noteq> 1 \<Longrightarrow> quiet_irq (ignore_result (enable_irq_MJRcheck pp n))"
| "pp \<noteq> 1 \<Longrightarrow> quiet_irq (ignore_result (disable_irq_MJRcheck pp n))"
| "pp \<noteq> 1 \<Longrightarrow> quiet_irq (ignore_result (disable_irq_nosync_MJRcheck pp n))"
| "quiet_irq (ignore_result (interrupt_handler_MJRcheck pp))"

text \<open>The calls a stub makes about the value a function returns.\<close>

inductive stub_call :: "('a ee_state_scheme) act \<Rightarrow> bool" where
  "stub_call (ignore_result (gen_make_symbolic_ptr fn line symv p))"
| "stub_call (ignore_result (gen_make_symbolic_int is_err fn line symw v n))"
| "stub_call (symdrive_annotation flgs)"

datatype fw_label = Checking | Irq_Call irq_op | Crossing crossing

inductive fw_step ::
  "('a ee_state_scheme) isr \<Rightarrow> ('a ee_state_scheme) act \<Rightarrow> (ulong \<Rightarrow> bool) \<Rightarrow> 'a ee_state_scheme \<Rightarrow> fw_label \<Rightarrow>
   'a ee_state_scheme \<Rightarrow> bool"
  for isr :: "('a ee_state_scheme) isr" and regs :: "('a ee_state_scheme) act" and is_symbolic :: "ulong \<Rightarrow> bool" where
  fw_plain: "plain_routine a \<Longrightarrow> a s = Inr t \<Longrightarrow> fw_step isr regs is_symbolic s Checking t"
| fw_lock: "lock_routine pp lock a \<Longrightarrow> pp = 0 \<or> tracked s (objs_key lock) \<noteq> None \<Longrightarrow> a s = Inr t \<Longrightarrow>
    fw_step isr regs is_symbolic s Checking t"
| fw_quiet: "quiet_irq a \<Longrightarrow> a s = Inr t \<Longrightarrow> fw_step isr regs is_symbolic s Checking t"
| fw_stub: "stub_call a \<Longrightarrow> a s = Inr t \<Longrightarrow> fw_step isr regs is_symbolic s Checking t"
| fw_irq: "irq_act p s = Inr t \<Longrightarrow> fw_step isr regs is_symbolic s (Irq_Call p) t"
| fw_cross: "crossing_act isr regs is_symbolic c s = Inr t \<Longrightarrow> fw_step isr regs is_symbolic s (Crossing c) t"

inductive fw_run ::
  "('a ee_state_scheme) isr \<Rightarrow> ('a ee_state_scheme) act \<Rightarrow> (ulong \<Rightarrow> bool) \<Rightarrow> 'a ee_state_scheme \<Rightarrow> fw_label list \<Rightarrow>
   'a ee_state_scheme \<Rightarrow> bool"
  for isr :: "('a ee_state_scheme) isr" and regs :: "('a ee_state_scheme) act" and is_symbolic :: "ulong \<Rightarrow> bool" where
  run_Nil: "fw_run isr regs is_symbolic s [] s"
| run_Cons: "fw_step isr regs is_symbolic s l u \<Longrightarrow> fw_run isr regs is_symbolic u ls t \<Longrightarrow>
    fw_run isr regs is_symbolic s (l # ls) t"

text \<open>What a run says to each of the two abstract machines.\<close>

fun crossings :: "fw_label list \<Rightarrow> crossing list" where
  "crossings [] = []"
| "crossings (Crossing c # ls) = c # crossings ls"
| "crossings (Checking # ls) = crossings ls"
| "crossings (Irq_Call p # ls) = crossings ls"

fun irq_calls :: "fw_label list \<Rightarrow> irq_op list" where
  "irq_calls [] = []"
| "irq_calls (Irq_Call p # ls) = p # irq_calls ls"
| "irq_calls (Checking # ls) = irq_calls ls"
| "irq_calls (Crossing c # ls) = irq_calls ls"

text \<open>Every routine of interrupts is a labelled step, or ends its path.\<close>

lemma irq_routine_step:
  assumes "irq_routine a" and "irq_ok s" and "a s = Inr t"
  shows "quiet_irq a \<or> (\<exists>p. a = irq_act p)"
  using assms(1)
proof (cases rule: irq_routine.cases)
  case (1 pp m iq x y nm z)
  show ?thesis
  proof (cases "pp = 1 \<and> m = 0")
    case True
    with assms(3) obtain r where "request_threaded_irq_MJRcheck 1 0 iq x y nm z s = Inr (r, t)"
      unfolding 1 by (cases "request_threaded_irq_MJRcheck 1 0 iq x y nm z s") (auto simp: ignore_result_def)
    from request_irq_Inr(3) [OF assms(2) this] have "\<exists>n name. iq = Some n \<and> nm = Some name" by blast
    then obtain n name where "iq = Some n" "nm = Some name" by blast
    then have "a = irq_act (Request n x y name z)" using True by (simp add: 1)
    then show ?thesis by blast
  qed (auto simp: 1 intro: quiet_irq.intros)
next
  case (2 pp f x)
  then show ?thesis by (cases "pp = 0") (auto intro: quiet_irq.intros exI [of _ "Free_Line f x"])
next
  case (3 pp f)
  then show ?thesis by (cases "pp = 1") (auto intro: quiet_irq.intros exI [of _ "Enable_Line f"])
next
  case (4 pp f)
  then show ?thesis by (cases "pp = 1") (auto intro: quiet_irq.intros exI [of _ "Disable_Line f"])
next
  case (5 pp f)
  show ?thesis
  proof (cases "pp = 1")
    case True
    then have "a = irq_act (Disable_Line f)" by (simp add: 5 disable_irq_nosync_MJRcheck_def disable_irq_MJRcheck_def)
    then show ?thesis by blast
  qed (auto simp: 5 intro: quiet_irq.intros)
next
  case (6 pp)
  then show ?thesis by (auto intro: quiet_irq.intros)
qed

section \<open>Checks and calls on the table\<close>

text \<open>A check routine that writes the table of interrupts keeps whatever the table is not part of.\<close>

lemma keeps_check_routine:
  assumes body: "keeps f body" and coarse: "\<And>s t. outer s = outer t \<Longrightarrow> f s = f t"
  shows "keeps_out f (check_routine r body)"
proof -
  have "keeps f acquire_global_lock" "keeps f release_global_lock"
    by (rule keeps_coarser [OF outer_lock(1)] keeps_coarser [OF outer_lock(2)]; rule coarse; assumption)+
  then show ?thesis unfolding check_routine_def by (intro frame_rules body)
qed

text \<open>The variables of interrupts besides the table, and those of the files above.\<close>

definition beyond_table :: "'a irq_state_scheme \<Rightarrow> int \<times> (nat \<Rightarrow> u8) option \<times> 'a" where
  "beyond_table s = (sym_irq_ongoing s, sym_irq_lines s, irq_state.more s)"

lemma outer_beyond_table: "outer s = outer t \<Longrightarrow> beyond_table s = beyond_table t"
  using outer_irq_view [of s t] outer_irq_more [of s t] by (simp add: beyond_table_def irq_view_def)

lemma irq_routines_beyond:
  "keeps_out beyond_table (request_threaded_irq_MJRcheck pp m iq hdl flgs nm dev)"
  "keeps_out beyond_table (free_irq_MJRcheck pp n dev)"
  "keeps_out beyond_table (enable_irq_MJRcheck pp n)"
  "keeps_out beyond_table (disable_interrupt pp n)"
  unfolding request_threaded_irq_MJRcheck_def free_irq_MJRcheck_def enable_irq_MJRcheck_def disable_interrupt_def
    reset_one_def set_enabled_def Let_def
  by ((rule keeps_check_routine [OF _ outer_beyond_table], intro frame_rules keeps_update; simp add: beyond_table_def)+)

lemma irq_act_beyond: "keeps beyond_table (irq_act p)"
  by (cases p) (simp_all only: irq_act.simps disable_irq_MJRcheck_def, (intro keeps_ignore irq_routines_beyond)+)

text \<open>Quiet routines.\<close>

definition quiet_view :: "'a irq_state_scheme \<Rightarrow> (irq_struct list \<times> int \<times> int \<times> (nat \<Rightarrow> u8) option) \<times> 'a" where
  "quiet_view s = (irq_view s, irq_state.more s)"

lemma outer_quiet_view: "outer s = outer t \<Longrightarrow> quiet_view s = quiet_view t"
  using outer_irq_view [of s t] outer_irq_more [of s t] by (simp add: quiet_view_def)

lemma quiet_force_receive: "keeps quiet_view (update (\<lambda>s. s\<lparr>irq_force_receive_called_before := k\<rparr>))"
  by (rule keeps_update) (simp add: quiet_view_def irq_view_def)

lemma quiet_coarser: "keeps outer a \<Longrightarrow> keeps quiet_view a"
  by (erule keeps_coarser) (rule outer_quiet_view)

lemma quiet_check: "keeps quiet_view body \<Longrightarrow> keeps quiet_view (ignore_result (check_routine r body))"
  by (intro keeps_ignore keeps_check_routine [OF _ outer_quiet_view])

lemma quiet_handler: "keeps quiet_view (ignore_result (interrupt_handler_MJRcheck pp))"
proof -
  have k: "keeps quiet_view (push_blocking_state bc)" "keeps quiet_view (push_user_state uc)" "keeps quiet_view pop_blocking_state"
    "keeps quiet_view pop_user_state" "keeps quiet_view (s2e e)" for bc uc e
    by (rule quiet_coarser, rule frame_rules)+
  show ?thesis unfolding interrupt_handler_MJRcheck_def by (intro quiet_check frame_rules k quiet_force_receive)
qed

lemma quiet_irq_view: "quiet_irq a \<Longrightarrow> keeps quiet_view a"
proof (induction rule: quiet_irq.induct)
  case (6 pp)
  show ?case by (rule quiet_handler)
qed (unfold request_threaded_irq_MJRcheck_def free_irq_MJRcheck_def enable_irq_MJRcheck_def disable_irq_MJRcheck_def
    disable_irq_nosync_MJRcheck_def disable_interrupt_def,
  (rule quiet_check; auto intro!: frame_rules simp del: block.simps)+)

section \<open>Crossings\<close>

text \<open>What enters and leaves the driver does not touch the interrupts, the handlers apart.\<close>

lemma outer_to_irq_view: "keeps outer a \<Longrightarrow> keeps irq_view a"
  by (erule keeps_coarser) (rule outer_irq_view)

lemma irq_view_of_outer [frame_rules]:
  "keeps irq_view acquire_global_lock" "keeps irq_view release_global_lock" "keeps irq_view (s2e e)" "keeps irq_view reset_new_objects"
  by (rule outer_to_irq_view, rule frame_rules)+

lemma irq_view_updates [frame_rules]:
  "keeps irq_view (update (\<lambda>s. s\<lparr>g_symdrive_annotations := a s\<rparr>))"
  "keeps irq_view (update (\<lambda>s. s\<lparr>g_sym_retval := b s\<rparr>))"
  "keeps irq_view (update (\<lambda>s. s\<lparr>bad_path := c s\<rparr>))"
  "keeps irq_view (update (\<lambda>s. s\<lparr>first_time_in_driver := d s\<rparr>))"
  "keeps irq_view (update (\<lambda>s. s\<lparr>driver_call_stack := e s\<rparr>))"
  "keeps irq_view (update (\<lambda>s. s\<lparr>driver_call_stack_str := g s\<rparr>))"
  by (rule keeps_update, simp add: irq_view_def)+

lemma irq_view_stack [frame_rules]: "keeps irq_view (push_driver_call_stack fn)" "keeps irq_view (pop_driver_call_stack fn)"
proof -
  show "keeps irq_view (push_driver_call_stack fn)"
    by (rule keepsI) (auto simp: push_driver_call_stack_def irq_view_def split: option.splits)
  show "keeps irq_view (pop_driver_call_stack fn)"
    unfolding pop_driver_call_stack_def Let_def by (intro frame_rules)
qed

lemma keeps_kill_with_text [frame_rules]: "keeps f (kill_with_text txt)"
  by (rule keepsI) simp

lemma irq_view_border [frame_rules]:
  "keeps irq_view (verify_invariants fn line add wt)" "keeps irq_view (handle_max_coverage fn line rv r dir)"
  "keeps irq_view (verify_retval line wt dir rv r)"
proof -
  have m: "keeps irq_view (move_frame fn add wt)" for fn add wt
    unfolding move_frame_def by (cases wt) (simp_all only: wrapper.case, (intro frame_rules)+)
  show "keeps irq_view (verify_invariants fn line add wt)"
    unfolding verify_invariants_def manage_call_stack_def by (intro frame_rules m)
  show "keeps irq_view (handle_max_coverage fn line rv r dir)"
    unfolding handle_max_coverage_def by (cases dir) (simp_all only: direction.case simp_thms if_True if_False, (intro frame_rules)+)
  show "keeps irq_view (verify_retval line wt dir rv r)"
    unfolding verify_retval_def verify_symretval_def Let_def by (intro frame_rules)
qed

lemma preserves_call_depth:
  assumes "preserves P a" shows "preserves P (ignore_result (call_depth a))"
proof (rule preservesI)
  fix s t assume "P s" and "ignore_result (call_depth a) s = Inr t"
  then show "P t" using preservesD [OF assms] by (cases "a s") (auto simp: ignore_result_def call_depth_def)
qed

text \<open>A property of the interrupts that the handlers keep is kept by every crossing.\<close>

lemma crossing_preserves:
  assumes view: "\<And>s t. irq_view s = irq_view t \<Longrightarrow> P s = P t"
    and handlers: "\<And>line. preserves P (call_interrupt_handlers isr line)" and regs: "preserves P regs"
  shows "preserves P (crossing_act isr regs is_symbolic c)"
proof -
  have v: "keeps irq_view a \<Longrightarrow> preserves P a" for a by (erule keeps_preserves) (rule view)
  show ?thesis
    by (cases c)
      (simp_all only: crossing_act.simps gen_enter_driver_def gen_exit_driver_def execute_completions_def Let_def,
        (rule preserves_call_depth, intro pres handlers regs v frame_rules)+)
qed

section \<open>Symbolic return values\<close>

lemma ignore_guarded:
  "ignore_result (\<lambda>s. if c s then Inr (x s, s) else case b s of Inl e \<Rightarrow> Inl e | Inr t \<Rightarrow> Inr (y t, t)) = cond c skip b"
  by (rule ext) (auto simp: ignore_result_def split: sum.splits)

lemma preserves_leads: "leads P a P \<Longrightarrow> preserves P a"
  by (simp add: preserves_def leads_def)

lemma stub_frames:
  "preserves (ee_free fs) (ignore_result (gen_make_symbolic_ptr fn line symv p))"
  "preserves (ee_free fs) (ignore_result (gen_make_symbolic_int is_err fn line symw v n))"
  "preserves (ee_free fs) (symdrive_annotation flgs)"
proof -
  note into = leads_Cons [OF ee_acquire] and out = leads_Cons [OF ee_release leads_Nil]
  show "preserves (ee_free fs) (ignore_result (gen_make_symbolic_ptr fn line symv p))"
    unfolding gen_make_symbolic_ptr_def ignore_guarded
    by (rule preserves_cond, rule preserves_skip, rule preserves_leads, rule into,
      rule leads_pres_Cons, (intro pres)[1], rule leads_pres_Cons, (intro pres)[1], rule out)
  show "preserves (ee_free fs) (ignore_result (gen_make_symbolic_int is_err fn line symw v n))"
    unfolding gen_make_symbolic_int_def ignore_guarded
    by (rule preserves_cond, rule preserves_skip, rule preserves_leads, rule into,
      rule leads_pres_Cons, (intro pres)[1], rule leads_pres_Cons, (intro pres)[1], rule leads_pres_Cons, (intro pres)[1], rule out)
  show "preserves (ee_free fs) (symdrive_annotation flgs)"
    unfolding symdrive_annotation_def by (rule preserves_update) (simp add: ee_free_def tf_inv_def core_inv_def blocking_ok_def
        user_ok_def tracker_ok_def flags_ok_def all_buses_def flag_of_simps class_ok_def unlocked_def)
qed

lemma stub_call_frames: "stub_call a \<Longrightarrow> preserves (ee_free fs) a"
  by (induction rule: stub_call.induct) (rule stub_frames)+

lemma stub_call_view: "stub_call a \<Longrightarrow> keeps irq_view a"
  by (induction rule: stub_call.induct)
    (unfold gen_make_symbolic_ptr_def gen_make_symbolic_int_def ignore_guarded symdrive_annotation_def, (intro frame_rules)+)

section \<open>Handlers\<close>

text \<open>
  What a handler of the driver, and the registration of its parameters, may do to the framework: keep the
  invariant and the frames, request and free no line, leave the count of running handlers and the bounds of the
  counters. The last lemma of this section shows that handlers that are themselves runs of the framework,
  whose crossings come in pairs, do.
\<close>

definition settled_act :: "('a ee_state_scheme) act \<Rightarrow> bool" where
  "settled_act a \<longleftrightarrow> (\<forall>fs. preserves (ee_free fs) a) \<and> (\<forall>M. preserves (irq_table M) a) \<and>
     (\<forall>k. preserves (\<lambda>s. sym_irq_ongoing s = k) a) \<and> preserves lines_bounded a"

definition handlers_ok :: "('a ee_state_scheme) isr \<Rightarrow> bool" where
  "handlers_ok isr \<longleftrightarrow> (\<forall>h n p. settled_act (isr h n p))"

lemma settled_actD:
  assumes "settled_act a"
  shows "preserves (ee_free fs) a" and "preserves (irq_table M) a" and "preserves (\<lambda>s. sym_irq_ongoing s = k) a"
    and "preserves lines_bounded a"
  using assms by (simp_all add: settled_act_def)

lemma handlers_okD: "handlers_ok isr \<Longrightarrow> settled_act (isr h n p)"
  by (simp add: handlers_ok_def)

lemma handlers_isr_ok: "handlers_ok isr \<Longrightarrow> isr_ok isr"
  by (auto simp: isr_ok_def intro: settled_actD handlers_okD)

lemma irq_table_frames [simp]:
  "irq_table M (s\<lparr>sym_irq_lines := l\<rparr>) = irq_table M s" "irq_table M (s\<lparr>sym_irq_ongoing := n\<rparr>) = irq_table M s"
  by (simp_all add: irq_table_def irq_ok_def requested_lines_def)

lemma handlers_keep_table:
  assumes isr: "\<And>h n p. preserves (irq_table M) (isr h n p)"
  shows "preserves (irq_table M) (call_interrupt_handlers isr line)"
proof -
  have c: "preserves (irq_table M) (set_line_count line c)" for line c
    by (rule preservesI) (auto simp: set_line_count_def split: option.splits)
  have u: "preserves (irq_table M) (update (\<lambda>s. s\<lparr>sym_irq_ongoing := f s\<rparr>))" for f
    by (rule preserves_update) simp
  have "preserves (irq_table M) (call_handler isr line i)" for i
    unfolding call_handler_def by (intro pres c isr)
  then have "preserves (irq_table M) (block (map (call_handler isr line) is))" for "is"
    by (intro preserves_block_set) auto
  then show ?thesis unfolding call_interrupt_handlers_def by (intro pres u)
qed

lemma handlers_keep_ongoing:
  assumes isr: "\<And>k h n p. preserves (\<lambda>s. sym_irq_ongoing s = k) (isr h n p)"
  shows "preserves (\<lambda>s. sym_irq_ongoing s = k) (call_interrupt_handlers isr line)"
  by (rule preservesI) (rule call_interrupt_handlers_ongoing [OF isr])

lemma crossing_settled:
  assumes isr: "handlers_ok isr" and regs: "settled_act regs"
  shows "preserves (irq_table M) (crossing_act isr regs is_symbolic c)"
    and "preserves (\<lambda>s. sym_irq_ongoing s = k) (crossing_act isr regs is_symbolic c)"
    and "preserves lines_bounded (crossing_act isr regs is_symbolic c)"
proof -
  note h = settled_actD [OF handlers_okD [OF isr]] and r = settled_actD [OF regs]
  show "preserves (irq_table M) (crossing_act isr regs is_symbolic c)"
    by (rule crossing_preserves [OF _ handlers_keep_table [OF h(2)] r(2)])
      (simp add: irq_view_def irq_table_def irq_ok_def requested_lines_def)
  show "preserves (\<lambda>s. sym_irq_ongoing s = k) (crossing_act isr regs is_symbolic c)"
    by (rule crossing_preserves [OF _ handlers_keep_ongoing [OF h(3)] r(3)]) (simp add: irq_view_def)
  show "preserves lines_bounded (crossing_act isr regs is_symbolic c)"
    by (rule crossing_preserves [OF _ preserves_call_interrupt_handlers [OF h(4)] r(4)])
      (simp add: irq_view_def lines_bounded_def line_count_def)
qed

section \<open>One step\<close>

lemma quiet_irq_routine: "quiet_irq a \<Longrightarrow> irq_routine a"
  by (induction rule: quiet_irq.induct) (rule irq_routine.intros)+

lemma irq_act_routine: "irq_routine (irq_act p)"
  by (cases p) (simp_all only: irq_act.simps irq_routine.intros)

text \<open>No step of the checks is missing.\<close>

lemma check_step_is_step:
  assumes "check_step s t" and ok: "irq_ok s"
  shows "\<exists>l. fw_step isr regs is_symbolic s l t"
  using assms(1)
proof cases
  case (step_routine a)
  from step_routine(1) consider "plain_routine a" | "irq_routine a" by (auto simp: routine_def)
  then show ?thesis
  proof cases
    case 1
    then show ?thesis using step_routine(2) by (blast intro: fw_plain)
  next
    case 2
    from irq_routine_step [OF this ok step_routine(2)] step_routine(2) show ?thesis by (blast intro: fw_quiet fw_irq)
  qed
next
  case (step_lock pp lock a)
  then show ?thesis by (blast intro: fw_lock)
qed

lemma view_of_quiet: "quiet_view s = quiet_view t \<Longrightarrow> irq_view s = irq_view t" "quiet_view s = quiet_view t \<Longrightarrow> ee_view s = ee_view t"
  using more_ee_view [of s t] by (simp_all add: quiet_view_def)

text \<open>The routines and the calls of stubs move neither abstract state, nor the counters of interrupts.\<close>

lemma ee_free_quiet:
  assumes "keeps quiet_view a" and "safe tf_inv a" shows "preserves (ee_free fs) a"
proof (rule preservesI)
  fix s t assume s: "ee_free fs s" and run: "a s = Inr t"
  have "ee_at fs t = ee_at fs s" by (rule ee_at_view [OF view_of_quiet(2) [OF keepsD [OF assms(1) run]]])
  moreover have "tf_inv t" using safe_Inr [OF assms(2) _ run] s by (simp add: ee_free_def)
  ultimately show "ee_free fs t" using s by (simp add: ee_free_def)
qed

lemma fw_step_view: "fw_step isr regs is_symbolic s Checking t \<Longrightarrow> irq_view t = irq_view s"
proof (erule fw_step.cases)
  fix a u v assume "plain_routine a" "a u = Inr v" "s = u" "t = v"
  then show ?thesis using keepsD [OF outer_to_irq_view [OF plain_routine_outer]] by blast
next
  fix pp lock a u v assume "lock_routine pp lock a" "a u = Inr v" "s = u" "t = v"
  then show ?thesis using keepsD [OF outer_to_irq_view [OF lock_routine_outer]] by blast
next
  fix a u v assume "quiet_irq a" "a u = Inr v" "s = u" "t = v"
  then show ?thesis using view_of_quiet(1) [OF keepsD [OF quiet_irq_view]] by blast
next
  fix a u v assume "stub_call a" "a u = Inr v" "s = u" "t = v"
  then show ?thesis using keepsD [OF stub_call_view] by blast
qed simp_all

lemma fw_step_frames:
  assumes isr: "isr_ok isr" and regs: "\<And>fs. preserves (ee_free fs) regs" and s: "ee_free fs s"
    and step: "fw_step isr regs is_symbolic s l t"
  shows "\<exists>fs'. frames_run (crossings [l]) fs = Some fs' \<and> ee_free fs' t"
  using step
proof cases
  case (fw_plain a)
  from preservesD [OF ee_free_quiet [OF quiet_coarser [OF plain_routine_outer] plain_routine_keeps] s] fw_plain
  show ?thesis by simp
next
  case (fw_lock pp lock a)
  then have o: "quiet_view t = quiet_view s" using keepsD [OF quiet_coarser [OF lock_routine_outer]] by blast
  have "ee_at fs t = ee_at fs s" by (rule ee_at_view [OF view_of_quiet(2) [OF o]])
  moreover have "tf_inv s" using s by (simp add: ee_free_def)
  from lock_routine_keeps [OF fw_lock(2) this fw_lock(3)] fw_lock(4) have "tf_inv t" by simp
  ultimately show ?thesis using s fw_lock(1) by (simp add: ee_free_def)
next
  case (fw_quiet a)
  from preservesD [OF ee_free_quiet [OF quiet_irq_view irq_routine_keeps [OF quiet_irq_routine]] s] fw_quiet
  show ?thesis by simp
next
  case (fw_stub a)
  from preservesD [OF stub_call_frames s] fw_stub show ?thesis by simp
next
  case (fw_irq p)
  have v: "beyond_table t = beyond_table s" by (rule keepsD [OF irq_act_beyond fw_irq(2)])
  have "tf_inv t" using safe_Inr [OF irq_routine_keeps [OF irq_act_routine] _ fw_irq(2)] s by (simp add: ee_free_def)
  moreover have "ee_at fs t" using ee_at_view [OF more_ee_view, of t s] v s by (simp add: beyond_table_def ee_free_def)
  ultimately show ?thesis using fw_irq(1) by (simp add: ee_free_def)
next
  case (fw_cross c)
  from crossing_leads [OF isr regs s fw_cross(2)] show ?thesis by (auto simp: fw_cross(1))
qed

lemma fw_step_table:
  assumes isr: "handlers_ok isr" and regs: "settled_act regs" and s: "irq_table M s"
    and step: "fw_step isr regs is_symbolic s l t"
  shows "\<exists>M'. irq_run M (irq_calls [l]) = Some M' \<and> irq_table M' t"
proof (cases l)
  case Checking
  with fw_step_view [of isr regs is_symbolic s t] step have "irq_view t = irq_view s" by simp
  with s Checking show ?thesis by (simp add: irq_view_def irq_table_def irq_ok_def requested_lines_def)
next
  case (Irq_Call p)
  with step have "irq_act p s = Inr t" by (auto elim: fw_step.cases)
  from irq_act_step [OF _ this] s show ?thesis by (auto simp: Irq_Call irq_table_def)
next
  case (Crossing c)
  with step have "crossing_act isr regs is_symbolic c s = Inr t" by (auto elim: fw_step.cases)
  from preservesD [OF crossing_settled(1) [OF isr regs] s this] show ?thesis by (simp add: Crossing)
qed

lemma fw_step_counters:
  assumes isr: "handlers_ok isr" and regs: "settled_act regs" and step: "fw_step isr regs is_symbolic s l t"
  shows "sym_irq_ongoing t = sym_irq_ongoing s" and "lines_bounded s \<Longrightarrow> lines_bounded t"
proof -
  have "sym_irq_ongoing t = sym_irq_ongoing s \<and> (lines_bounded s \<longrightarrow> lines_bounded t)"
  proof (cases l)
    case Checking
    with fw_step_view [of isr regs is_symbolic s t] step have "irq_view t = irq_view s" by simp
    then show ?thesis by (simp add: irq_view_def lines_bounded_def line_count_def)
  next
    case (Irq_Call p)
    with step have "irq_act p s = Inr t" by (auto elim: fw_step.cases)
    from keepsD [OF irq_act_beyond this] show ?thesis by (simp add: beyond_table_def lines_bounded_def line_count_def)
  next
    case (Crossing c)
    with step have c: "crossing_act isr regs is_symbolic c s = Inr t" by (auto elim: fw_step.cases)
    show ?thesis using preservesD [OF crossing_settled(2) [OF isr regs] refl c] preservesD [OF crossing_settled(3) [OF isr regs] _ c]
      by blast
  qed
  then show "sym_irq_ongoing t = sym_irq_ongoing s" "lines_bounded s \<Longrightarrow> lines_bounded t" by simp_all
qed

section \<open>Runs\<close>

lemma frames_run_append: "frames_run (cs @ ds) fs = (case frames_run cs fs of None \<Rightarrow> None | Some gs \<Rightarrow> frames_run ds gs)"
  by (induction cs arbitrary: fs) (auto split: option.splits)

lemma irq_run_append: "irq_run M (ps @ qs) = (case irq_run M ps of None \<Rightarrow> None | Some N \<Rightarrow> irq_run N qs)"
  by (induction ps arbitrary: M) (auto split: option.splits)

lemma labels_Cons: "crossings (l # ls) = crossings [l] @ crossings ls" "irq_calls (l # ls) = irq_calls [l] @ irq_calls ls"
  by (cases l; simp)+

lemma fw_run_frames:
  assumes isr: "isr_ok isr" and regs: "\<And>fs. preserves (ee_free fs) regs"
  shows "fw_run isr regs is_symbolic s ls t \<Longrightarrow> ee_free fs s \<Longrightarrow>
    \<exists>fs'. frames_run (crossings ls) fs = Some fs' \<and> ee_free fs' t"
proof (induction arbitrary: fs rule: fw_run.induct)
  case (run_Nil s)
  then show ?case by simp
next
  case (run_Cons s l u ls t)
  from fw_step_frames [OF isr regs run_Cons.prems run_Cons.hyps(1)] obtain gs
    where "frames_run (crossings [l]) fs = Some gs" "ee_free gs u" by blast
  with run_Cons.IH show ?case by (simp add: labels_Cons(1) [of l ls] frames_run_append)
qed

lemma fw_run_table:
  assumes isr: "handlers_ok isr" and regs: "settled_act regs"
  shows "fw_run isr regs is_symbolic s ls t \<Longrightarrow> irq_table M s \<Longrightarrow>
    \<exists>M'. irq_run M (irq_calls ls) = Some M' \<and> irq_table M' t"
proof (induction arbitrary: M rule: fw_run.induct)
  case (run_Nil s)
  then show ?case by simp
next
  case (run_Cons s l u ls t)
  from fw_step_table [OF isr regs run_Cons.prems run_Cons.hyps(1)] obtain N
    where "irq_run M (irq_calls [l]) = Some N" "irq_table N u" by blast
  with run_Cons.IH show ?case by (simp add: labels_Cons(2) [of l ls] irq_run_append)
qed

lemma fw_run_counters:
  assumes isr: "handlers_ok isr" and regs: "settled_act regs"
  shows "fw_run isr regs is_symbolic s ls t \<Longrightarrow>
    sym_irq_ongoing t = sym_irq_ongoing s \<and> (lines_bounded s \<longrightarrow> lines_bounded t)"
  by (induction rule: fw_run.induct) (use fw_step_counters [OF isr regs] in auto)

text \<open>
  A handler is a driver function: it enters and leaves, and in between calls the kernel, so its effect is a run
  of the framework itself, in which no handlers run, since one is in progress (\<open>sym_irq_ongoing\<close>). If its
  crossings come in pairs and it gives back the lines it requests, it is one the theorem below allows.
\<close>

definition paired :: "fw_label list \<Rightarrow> bool" where
  "paired ls \<longleftrightarrow> (\<forall>fs gs. frames_run (crossings ls) fs = Some gs \<longrightarrow> gs = fs) \<and>
     (\<forall>M N. irq_run M (irq_calls ls) = Some N \<longrightarrow> N = M)"

lemma settled_skip: "settled_act skip"
  by (simp add: settled_act_def preserves_skip)

lemma run_settled:
  assumes regs: "settled_act regs"
    and a: "\<And>s t. a s = Inr t \<Longrightarrow> \<exists>ls. paired ls \<and> fw_run (\<lambda>_ _ _. skip) regs is_symbolic s ls t"
  shows "settled_act a"
proof -
  have isr: "handlers_ok (\<lambda>_ _ _. skip)" by (simp add: handlers_ok_def settled_skip)
  have "preserves (ee_free fs) a" for fs
  proof (rule preservesI)
    fix s t assume s: "ee_free fs s" and "a s = Inr t"
    from a [OF this(2)] obtain ls where ls: "paired ls" "fw_run (\<lambda>_ _ _. skip) regs is_symbolic s ls t" by blast
    from fw_run_frames [OF handlers_isr_ok [OF isr] settled_actD(1) [OF regs] ls(2) s] obtain gs
      where "frames_run (crossings ls) fs = Some gs" "ee_free gs t" by blast
    with ls(1) show "ee_free fs t" by (metis paired_def)
  qed
  moreover have "preserves (irq_table M) a" for M
  proof (rule preservesI)
    fix s t assume s: "irq_table M s" and "a s = Inr t"
    from a [OF this(2)] obtain ls where ls: "paired ls" "fw_run (\<lambda>_ _ _. skip) regs is_symbolic s ls t" by blast
    from fw_run_table [OF isr regs ls(2) s] obtain N where "irq_run M (irq_calls ls) = Some N" "irq_table N t" by blast
    with ls(1) show "irq_table M t" by (metis paired_def)
  qed
  moreover have c: "sym_irq_ongoing t = sym_irq_ongoing s \<and> (lines_bounded s \<longrightarrow> lines_bounded t)" if "a s = Inr t" for s t
  proof -
    from a [OF that] obtain ls where "fw_run (\<lambda>_ _ _. skip) regs is_symbolic s ls t" by blast
    then show ?thesis by (rule fw_run_counters [OF isr regs])
  qed
  have "preserves (\<lambda>s. sym_irq_ongoing s = k) a" for k by (rule preservesI) (use c in simp)
  moreover have "preserves lines_bounded a" by (rule preservesI) (use c in simp)
  ultimately show ?thesis by (simp add: settled_act_def)
qed

lemma handlers_of_runs:
  assumes "settled_act regs"
    and "\<And>h n p s t. isr h n p s = Inr t \<Longrightarrow> \<exists>ls. paired ls \<and> fw_run (\<lambda>_ _ _. skip) regs is_symbolic s ls t"
  shows "handlers_ok isr"
  using run_settled [OF assms] by (simp add: handlers_ok_def)

end
