(* ===== verification/Border_Progress.thy ===== *)
theory Border_Progress
  imports Framework_Runs
begin

text \<open>
  Which crossings of the border pass. \<open>reaches P a Q\<close> is total correctness: from a state with \<open>P\<close> the action
  returns, in a state with \<open>Q\<close>. While the driver has requested no interrupt, a crossing inside the driver, one
  after which a function is still in progress, passes exactly when the stack of frames allows it.
\<close>

section \<open>Total correctness\<close>

definition reaches :: "('s \<Rightarrow> bool) \<Rightarrow> 's act \<Rightarrow> ('s \<Rightarrow> bool) \<Rightarrow> bool" where
  "reaches P a Q \<longleftrightarrow> (\<forall>s. P s \<longrightarrow> (\<exists>t. a s = Inr t \<and> Q t))"

lemma reachesI: "(\<And>s. P s \<Longrightarrow> \<exists>t. a s = Inr t \<and> Q t) \<Longrightarrow> reaches P a Q"
  by (simp add: reaches_def)

lemma reachesD: "reaches P a Q \<Longrightarrow> P s \<Longrightarrow> \<exists>t. a s = Inr t \<and> Q t"
  by (simp add: reaches_def)

lemma reaches_Nil: "reaches P (block []) P"
  by (simp add: reaches_def)

lemma reaches_Cons:
  assumes a: "reaches P a R" and b: "reaches R (block as) Q" shows "reaches P (block (a # as)) Q"
proof (rule reachesI)
  fix s assume "P s"
  from reachesD [OF a this] obtain u where u: "a s = Inr u" "R u" by blast
  from reachesD [OF b u(2)] u(1) show "\<exists>t. block (a # as) s = Inr t \<and> Q t" by (simp add: block_Cons_ok)
qed

lemma reaches_skip: "reaches P skip P"
  by (simp add: reaches_def)

lemma reaches_update: "preserves P (update f) \<Longrightarrow> reaches P (update f) P"
  by (rule reachesI) (auto dest: preservesD)

lemma reaches_s2e: "preserves P (s2e e) \<Longrightarrow> reaches P (s2e e) P"
  unfolding s2e_def by (rule reaches_update)

lemma reaches_if: "(c \<Longrightarrow> reaches P a Q) \<Longrightarrow> (\<not> c \<Longrightarrow> reaches P b Q) \<Longrightarrow> reaches P (if c then a else b) Q"
  by simp

lemma reaches_cond:
  "reaches (\<lambda>s. P s \<and> c s) a Q \<Longrightarrow> reaches (\<lambda>s. P s \<and> \<not> c s) b Q \<Longrightarrow> reaches P (cond c a b) Q"
  by (simp add: reaches_def)

lemma reaches_unless: "(\<And>s. P s \<Longrightarrow> \<not> c s) \<Longrightarrow> reaches P (onlyif c a) P"
  by (simp add: reaches_def)

lemma reaches_weaken: "reaches P a Q \<Longrightarrow> (\<And>s. P' s \<Longrightarrow> P s) \<Longrightarrow> reaches P' a Q"
  by (simp add: reaches_def)

lemma reaches_with_state: "(\<And>s. reaches P (k s) Q) \<Longrightarrow> reaches P (with_state k) Q"
  by (simp add: reaches_def)

section \<open>What a crossing keeps\<close>

definition border_view :: "'a ee_state_scheme \<Rightarrow> (irq_struct list \<times> int \<times> int \<times> (nat \<Rightarrow> u8) option) \<times> string \<times> int" where
  "border_view s = (irq_view s, g_sym_starting_fn s, first_time_in_driver s)"

lemma border_view_updates [frame_rules]:
  "keeps border_view (update (\<lambda>s. s\<lparr>g_symdrive_annotations := a s\<rparr>))"
  "keeps border_view (update (\<lambda>s. s\<lparr>driver_call_stack := b s\<rparr>))"
  "keeps border_view (update (\<lambda>s. s\<lparr>driver_call_stack_str := c s\<rparr>))"
  "keeps border_view (s2e e)"
  unfolding s2e_def by (rule keeps_update, simp add: border_view_def irq_view_def)+

lemma border_view_lock [frame_rules]:
  "keeps border_view acquire_global_lock" "keeps border_view release_global_lock"
  by (rule keepsI; auto simp: acquire_Inr release_Inr border_view_def irq_view_def)+

lemma border_view_stack [frame_rules]:
  "keeps border_view (push_driver_call_stack fn)" "keeps border_view (pop_driver_call_stack fn)"
proof -
  show "keeps border_view (push_driver_call_stack fn)"
    by (rule keepsI) (auto simp: push_driver_call_stack_def border_view_def irq_view_def split: option.splits)
  show "keeps border_view (pop_driver_call_stack fn)"
    unfolding pop_driver_call_stack_def Let_def by (intro frame_rules)
qed

lemma border_view_invariants [frame_rules]: "keeps border_view (verify_invariants fn line add wt)"
proof -
  have "keeps border_view (move_frame fn add wt)" for fn add wt
    unfolding move_frame_def by (cases wt) (simp_all only: wrapper.case, (intro frame_rules)+)
  then show ?thesis unfolding verify_invariants_def manage_call_stack_def by (intro frame_rules)
qed

text \<open>\<open>idle g\<close>: no line is requested, and the function to be covered thoroughly is \<open>g\<close>.\<close>

definition idle :: "string \<Rightarrow> 'a ee_state_scheme \<Rightarrow> bool" where
  "idle g s \<longleftrightarrow> irq_table {#} s \<and> g_sym_starting_fn s = g \<and> first_time_in_driver s \<noteq> 1"

lemma idle_view: "border_view s = border_view t \<Longrightarrow> idle g s = idle g t"
  by (simp add: idle_def border_view_def irq_view_def irq_table_def irq_ok_def requested_lines_def)

definition free_at :: "string \<Rightarrow> string list \<Rightarrow> 'a ee_state_scheme \<Rightarrow> bool" where
  "free_at g fs s \<longleftrightarrow> ee_free fs s \<and> idle g s"

definition locked_at :: "string \<Rightarrow> string list \<Rightarrow> 'a ee_state_scheme \<Rightarrow> bool" where
  "locked_at g fs s \<longleftrightarrow> ee_locked fs s \<and> idle g s"

lemma locked_at_keeps: "preserves (ee_locked fs) a \<Longrightarrow> keeps border_view a \<Longrightarrow> preserves (locked_at g fs) a"
  by (rule preservesI) (auto simp: locked_at_def dest: preservesD keepsD idle_view)

lemma locked_at_s2e: "reaches (locked_at g fs) (s2e e) (locked_at g fs)"
  by (rule reaches_s2e, rule locked_at_keeps, rule pres, rule frame_rules)

lemma locked_at_annotations:
  "reaches (locked_at g fs) (update (\<lambda>s. s\<lparr>g_symdrive_annotations := a s\<rparr>)) (locked_at g fs)"
  by (rule reaches_update, rule locked_at_keeps, rule pres, rule frame_rules)

lemma free_at_acquire: "reaches (free_at g fs) acquire_global_lock (locked_at g fs)"
proof (rule reachesI)
  fix s :: "'a ee_state_scheme" assume s: "free_at g fs s"
  then have "unlocked s" by (simp add: free_at_def ee_free_def tf_inv_def)
  from acquire_unlocked [OF this] obtain t where t: "acquire_global_lock s = Inr t" by blast
  have "locked_at g fs t"
    using s leadsD [OF ee_acquire _ t] idle_view [OF keepsD [OF border_view_lock(1) t]] by (simp add: free_at_def locked_at_def)
  with t show "\<exists>t. acquire_global_lock s = Inr t \<and> locked_at g fs t" by blast
qed

lemma locked_at_release: "reaches (locked_at g fs) release_global_lock (free_at g fs)"
proof (rule reachesI)
  fix s :: "'a ee_state_scheme" assume s: "locked_at g fs s"
  then have "global_lock_acquired s = 1" by (simp add: locked_at_def ee_locked_def in_check_def locked_def)
  from release_locked [OF this] obtain t where t: "release_global_lock s = Inr t" by blast
  have "free_at g fs t"
    using s leadsD [OF ee_release _ t] idle_view [OF keepsD [OF border_view_lock(2) t]] by (simp add: free_at_def locked_at_def)
  with t show "\<exists>t. release_global_lock s = Inr t \<and> free_at g fs t" by blast
qed

lemma locked_at_invariants:
  assumes add: "add = 1 \<or> add = -1" and fs: "frame_step (pushes add wt) fn fs = Some fs'"
  shows "reaches (locked_at g fs) (verify_invariants fn line add wt) (locked_at g fs')"
proof (rule reachesI)
  fix s :: "'a ee_state_scheme" assume s: "locked_at g fs s"
  then have ok: "frames_ok s" "in_check s" "call_stack_buffer1 s" "call_stack_buffer2 s" "frames s = fs"
    by (simp_all add: locked_at_def ee_locked_def ee_at_def)
  from verify_invariants_run [OF ok(1-4) add, where wt = wt and fn = fn and line = line] ok(5) fs
  obtain t where t: "verify_invariants fn line add wt s = Inr t" by auto
  have "ee_locked fs' t" using leadsD [OF ee_verify_invariants [OF add, where fs = fs] _ t] s fs
    by (auto simp: locked_at_def stepped_def)
  then have "locked_at g fs' t"
    using s idle_view [OF keepsD [OF border_view_invariants t]] by (simp add: locked_at_def)
  with t show "\<exists>t. verify_invariants fn line add wt s = Inr t \<and> locked_at g fs' t" by blast
qed

section \<open>No interrupts\<close>

lemma no_lines:
  assumes t: "irq_table {#} s" and i: "i < MAX_IRQS" shows "allocated (sym_irq s ! i) = 0"
proof -
  have "filter (\<lambda>q. allocated q = 1) (sym_irq s) = []"
    using t size_requested_filter [of s] by (simp add: irq_table_def)
  moreover have "sym_irq s ! i \<in> set (sym_irq s)" using t i by (simp add: irq_table_def irq_ok_def)
  ultimately show ?thesis using t by (auto simp: filter_empty_conv irq_table_def irq_ok_def)
qed

lemma no_handlers: "irq_table {#} s \<Longrightarrow> \<forall>i \<in> set is. i < MAX_IRQS \<Longrightarrow> block (map (call_handler isr line) is) s = Inr s"
  by (induction "is") (simp_all add: call_handler_def no_lines)

lemma call_no_handlers:
  assumes "irq_table {#} s" and "line < MAX_IRQ_LINES" shows "call_interrupt_handlers isr line s = Inr s"
  using assms no_handlers [of "s\<lparr>sym_irq_ongoing := sym_irq_ongoing s + 1\<rparr>" "[0..<MAX_IRQS]" isr line]
  by (simp add: call_interrupt_handlers_def)

lemma free_at_handlers:
  "line < MAX_IRQ_LINES \<Longrightarrow>
   reaches (free_at g fs) (block [call_interrupt_handlers isr line, execute_completions line]) (free_at g fs)"
  by (rule reachesI) (simp add: free_at_def idle_def call_no_handlers execute_completions_def)

section \<open>Crossings\<close>

lemma reaches_call_depth: "reaches P a Q \<Longrightarrow> reaches P (ignore_result (call_depth a)) Q"
  by (force simp: reaches_def ignore_result_def call_depth_def)

lemma depth_of_frames: "locked_at g fs s \<Longrightarrow> driver_call_stack s = int (length fs)" "free_at g fs s \<Longrightarrow> driver_call_stack s = int (length fs)"
  using frames_okD(1) [of s] by (auto simp: locked_at_def ee_locked_def free_at_def ee_free_def ee_at_def)

lemma verify_entrance:
  "reaches (\<lambda>s. locked_at g fs s \<and> driver_call_stack s = 0)
     (block [verify_retval line wt ENTRANCE rv r, s2e e]) (locked_at g fs)"
proof (rule reachesI)
  fix s assume s: "locked_at g fs s \<and> driver_call_stack s = 0"
  then have "verify_retval line wt ENTRANCE rv r s = Inr s" by (simp add: verify_retval_def)
  moreover from reachesD [OF locked_at_s2e] s obtain t where "s2e e s = Inr t" "locked_at g fs t" by blast
  ultimately show "\<exists>t. block [verify_retval line wt ENTRANCE rv r, s2e e] s = Inr t \<and> locked_at g fs t" by simp
qed

lemma not_covered: "fn \<noteq> g \<Longrightarrow> reaches (locked_at g fs) (handle_max_coverage fn line rv r dir) (locked_at g fs)"
  by (rule reachesI) (simp add: handle_max_coverage_def locked_at_def idle_def)

lemma reaches_onlyif: "reaches (\<lambda>s. P s \<and> c s) a P \<Longrightarrow> reaches P (onlyif c a) P"
  by (simp add: reaches_def)

lemma enter_passes:
  assumes fs: "frame_step (pushes 1 wt) fn fs = Some fs'" and line: "line < MAX_IRQ_LINES" and fn: "fn \<noteq> g"
  shows "reaches (free_at g fs) (ignore_result (gen_enter_driver isr regs fn line wt rv r)) (free_at g fs')"
  unfolding gen_enter_driver_def
  apply (rule reaches_call_depth)
  apply (rule reaches_Cons, rule reaches_unless, simp add: free_at_def idle_def)
  apply (rule reaches_Cons, rule reaches_if [OF free_at_handlers [OF line] reaches_skip])
  apply (rule reaches_Cons [OF free_at_acquire])
  apply (rule reaches_Cons [OF reaches_onlyif [OF verify_entrance]])
  apply (rule reaches_Cons [OF locked_at_invariants [OF _ fs]], simp)
  apply (rule reaches_Cons [OF locked_at_s2e])
  apply (rule reaches_Cons [OF not_covered [OF fn]])
  apply (rule reaches_Cons [OF locked_at_release reaches_Nil])
  done

text \<open>What \<open>gen_exit_driver\<close> tells the searcher of a concrete result.\<close>

lemma result_announced:
  "reaches (locked_at g fs) (if c then block [s2e e1, update (\<lambda>s. s\<lparr>g_symdrive_annotations := a s\<rparr>),
     cond P (s2e e2) (block [s2e e3, s2e e4])] else skip) (locked_at g fs)"
proof -
  have two: "reaches (locked_at g fs) (block [s2e e3, s2e e4]) (locked_at g fs)"
    by (rule reaches_Cons [OF locked_at_s2e reaches_Cons [OF locked_at_s2e reaches_Nil]])
  have "reaches (locked_at g fs) (cond P (s2e e2) (block [s2e e3, s2e e4])) (locked_at g fs)"
    by (rule reaches_cond; rule reaches_weaken [OF locked_at_s2e] reaches_weaken [OF two]; erule conjunct1)
  then have "reaches (locked_at g fs) (block [s2e e1, update (\<lambda>s. s\<lparr>g_symdrive_annotations := a s\<rparr>),
     cond P (s2e e2) (block [s2e e3, s2e e4])]) (locked_at g fs)"
    by (rule reaches_Cons [OF locked_at_s2e reaches_Cons [OF locked_at_annotations reaches_Cons [OF _ reaches_Nil]]])
  then show ?thesis by (simp add: reaches_skip del: block.simps)
qed

lemma leave_passes:
  assumes fs: "frame_step (pushes (-1) wt) fn fs = Some fs'" and line: "line < MAX_IRQ_LINES" and fn: "fn \<noteq> g"
    and inner: "fs' \<noteq> []"
  shows "reaches (free_at g fs) (ignore_result (gen_exit_driver isr is_symbolic fn line wt rv r)) (free_at g fs')"
proof -
  have inside: "\<not> driver_call_stack s = 0" if "locked_at g fs' s \<or> free_at g fs' s" for s
    using depth_of_frames that inner by fastforce
  show ?thesis
    unfolding gen_exit_driver_def Let_def
    apply (rule reaches_call_depth)
    apply (rule reaches_Cons [OF free_at_acquire])
    apply (rule reaches_Cons [OF locked_at_s2e])
    apply (rule reaches_Cons [OF not_covered [OF fn]])
    apply (rule reaches_Cons [where R = "locked_at g fs'"], rule reaches_with_state)
     apply (rule reaches_Cons [OF result_announced])
     apply (rule reaches_Cons [OF locked_at_invariants [OF _ fs]], simp)
     apply (rule reaches_Cons [OF _ reaches_Nil], rule reaches_unless, simp add: inside)
    apply (rule reaches_Cons [OF locked_at_release])
    apply (rule reaches_Cons [OF _ reaches_Nil], rule reaches_unless, simp add: inside)
    done
qed

section \<open>Runs of crossings\<close>

text \<open>
  A crossing the verdicts do not concern: its line fits the table of counters, its function is not the one
  covered thoroughly, and it does not leave the last function in progress.
\<close>

fun inner_crossing :: "string \<Rightarrow> crossing \<Rightarrow> string list \<Rightarrow> bool" where
  "inner_crossing g (Enter wt fn line rv r) fs \<longleftrightarrow> line < MAX_IRQ_LINES \<and> fn \<noteq> g"
| "inner_crossing g (Leave wt fn line rv r) fs \<longleftrightarrow> line < MAX_IRQ_LINES \<and> fn \<noteq> g \<and> frame_step (pushes (-1) wt) fn fs \<noteq> Some []"

fun inner_crossings :: "string \<Rightarrow> crossing list \<Rightarrow> string list \<Rightarrow> bool" where
  "inner_crossings g [] fs \<longleftrightarrow> True"
| "inner_crossings g (c # cs) fs \<longleftrightarrow> inner_crossing g c fs \<and>
     (case crossing_frames c fs of None \<Rightarrow> True | Some gs \<Rightarrow> inner_crossings g cs gs)"

lemma crossing_passes:
  assumes "inner_crossing g c fs" and "crossing_frames c fs = Some fs'"
  shows "reaches (free_at g fs) (crossing_act isr regs is_symbolic c) (free_at g fs')"
  using assms by (cases c) (auto intro: enter_passes leave_passes)

lemma crossings_pass_if:
  "inner_crossings g cs fs \<Longrightarrow> frames_run cs fs = Some fs' \<Longrightarrow>
   reaches (free_at g fs) (block (map (crossing_act isr regs is_symbolic) cs)) (free_at g fs')"
proof (induction cs arbitrary: fs)
  case Nil
  then show ?case by (simp add: reaches_def)
next
  case (Cons c cs)
  from Cons.prems(2) obtain gs where gs: "crossing_frames c fs = Some gs" "frames_run cs gs = Some fs'"
    by (auto split: option.splits)
  with Cons.prems(1) have i: "inner_crossing g c fs" "inner_crossings g cs gs" by simp_all
  show ?case unfolding list.map by (rule reaches_Cons [OF crossing_passes [OF i(1) gs(1)] Cons.IH [OF i(2) gs(2)]])
qed

text \<open>C7. The border raises no false alarm: as long as the driver has requested no interrupt, a sequence of entries
  and exits inside the driver passes exactly when a stack of at most 30 names, none too long for the buffer its dump is printed through, allows
  it. The verdicts on
  returned values, which end a path on purpose, only concern the exit from the last function and the
  function to be covered thoroughly.\<close>

theorem crossings_pass_iff_frames:
  assumes isr: "isr_ok isr" and regs: "\<And>fs. preserves (ee_free fs) regs"
    and s: "ee_free fs s" "irq_table {#} s" "first_time_in_driver s \<noteq> 1"
    and cs: "inner_crossings (g_sym_starting_fn s) cs fs"
  shows "(\<exists>t. block (map (crossing_act isr regs is_symbolic) cs) s = Inr t) \<longleftrightarrow> frames_run cs fs \<noteq> None"
proof
  show "frames_run cs fs \<noteq> None" if "\<exists>t. block (map (crossing_act isr regs is_symbolic) cs) s = Inr t"
    using crossings_lead [OF isr regs s(1)] that by blast
  show "\<exists>t. block (map (crossing_act isr regs is_symbolic) cs) s = Inr t" if "frames_run cs fs \<noteq> None"
  proof -
    from that obtain fs' where "frames_run cs fs = Some fs'" by blast
    note r = crossings_pass_if [OF cs this, where isr = isr and regs = regs and is_symbolic = is_symbolic]
    have "free_at (g_sym_starting_fn s) fs s" using s by (simp add: free_at_def idle_def)
    from reachesD [OF r this] show ?thesis by blast
  qed
qed

theorem crossings_pass_iff_frames_witness:
  "\<exists>(s :: mod_state) f g. ee_free [] s \<and>
     (\<exists>t. block (map (crossing_act (\<lambda>_ _ _. skip) skip (\<lambda>_. False))
       [Enter PREPOSTFN f 10 0 0, Enter PREPOSTFN g 20 0 0, Leave PREPOSTFN f 30 0 0]) s = Inr t) \<and>
     \<not> (\<exists>t. block (map (crossing_act (\<lambda>_ _ _. skip) skip (\<lambda>_. False))
       [Enter PREPOSTFN f 10 0 0, Enter PREPOSTFN g 20 0 0, Leave PREPOSTFN f 30 0 0, Leave PREPOSTFN f 40 0 0]) s = Inr t)"
proof -
  obtain s :: mod_state where s: "init_common loading = Inr s" "loaded s" and start: "g_sym_starting_fn s = []" by (rule started)
  let ?s = "s\<lparr>first_time_in_driver := 0\<rparr>" and ?f = "''probe''" and ?g = "''open''"
  have e: "ee_free [] ?s" using loadedD(1) [OF s(2)] by (simp add: ee_free_def)
  have "requested_lines s = {#}" using size_requested [OF loadedD(6) [OF s(2)]] loadedD(16) [OF s(2)] by simp
  then have t: "irq_table {#} ?s" using loadedD(6) [OF s(2)] by (simp add: irq_table_def irq_ok_def requested_lines_def)
  have i: "isr_ok (\<lambda>_ _ _. skip)" by (simp add: isr_ok_def preserves_skip)
  let ?cs = "[Enter PREPOSTFN ?f 10 0 0, Enter PREPOSTFN ?g 20 0 0, Leave PREPOSTFN ?f 30 0 0]"
  have f: "first_time_in_driver ?s \<noteq> 1" by simp
  have c: "inner_crossings (g_sym_starting_fn ?s) ?cs []" "inner_crossings (g_sym_starting_fn ?s) (?cs @ [Leave PREPOSTFN ?f 40 0 0]) []"
    and r: "frames_run ?cs [] = Some [?g]" "frames_run (?cs @ [Leave PREPOSTFN ?f 40 0 0]) [] = None"
    by (simp_all add: frame_step_def pushes_def driver_call_stack_max_def MAX_IRQ_LINES_def remove_last_def start
        stack_entry_def call_stack_buffer_size_def show_nat.simps)
  note p = crossings_pass_iff_frames [OF i preserves_skip e t f c(1), of "\<lambda>_. False"]
    crossings_pass_iff_frames [OF i preserves_skip e t f c(2), of "\<lambda>_. False"]
  show ?thesis by (rule exI [of _ ?s], rule exI [of _ ?f], rule exI [of _ ?g]) (use e p r in simp)
qed

end
