(* ===== verification/Interrupt_Nesting.thy ===== *)
theory Interrupt_Nesting
  imports Border_Progress
begin

text \<open>
  Handlers do not nest. \<open>irq.c\<close> counts the rounds of handlers in progress in \<open>sym_irq_ongoing\<close> and starts no
  handler while the count is above zero. A handler is code of the driver: what it does to the framework is a
  run of checks, calls on the table of interrupts and crossings of the border, and at a crossing the framework
  would call the handlers again. The lemmas below follow the count through such runs, without assuming
  anything of the count or the counters for the handlers themselves.
\<close>

section \<open>Actions that agree on some states\<close>

definition agree :: "('s \<Rightarrow> bool) \<Rightarrow> 's act \<Rightarrow> 's act \<Rightarrow> bool" where
  "agree P a b \<longleftrightarrow> (\<forall>s. P s \<longrightarrow> a s = b s)"

named_theorems agree_rules \<open>rules of the judgement \<open>agree\<close>\<close>

lemma agreeI: "(\<And>s. P s \<Longrightarrow> a s = b s) \<Longrightarrow> agree P a b"
  by (simp add: agree_def)

lemma agreeD: "agree P a b \<Longrightarrow> P s \<Longrightarrow> a s = b s"
  by (simp add: agree_def)

lemma agree_refl: "agree P a a"
  by (simp add: agree_def)

lemma agree_Cons:
  assumes "agree P a a'" and "preserves P a" and "agree P (block as) (block as')"
  shows "agree P (block (a # as)) (block (a' # as'))"
proof (rule agreeI)
  fix s assume s: "P s"
  have "a s = a' s" by (rule agreeD [OF assms(1) s])
  moreover have "block as u = block as' u" if "a s = Inr u" for u
    by (rule agreeD [OF assms(3) preservesD [OF assms(2) s that]])
  ultimately show "block (a # as) s = block (a' # as') s" by (auto split: sum.split)
qed

lemma agree_first: "agree P a a' \<Longrightarrow> agree P (block (a # as)) (block (a' # as))"
  by (simp add: agree_def split: sum.split)

lemma agree_later: "preserves P a \<Longrightarrow> agree P (block as) (block as') \<Longrightarrow> agree P (block (a # as)) (block (a # as'))"
  by (rule agree_Cons [OF agree_refl])

lemma agree_cond: "agree P a a' \<Longrightarrow> agree P b b' \<Longrightarrow> agree P (cond c a b) (cond c a' b')"
  by (simp add: agree_def)

lemma agree_if: "agree P a a' \<Longrightarrow> agree P b b' \<Longrightarrow> agree P (if c then a else b) (if c then a' else b')"
  by simp

lemma agree_onlyif: "agree P a a' \<Longrightarrow> agree P (onlyif c a) (onlyif c a')"
  by (simp add: agree_def)

lemma agree_with_state: "(\<And>s. agree P (k s) (k' s)) \<Longrightarrow> agree P (with_state k) (with_state k')"
  by (simp add: agree_def)

lemma agree_call_depth: "agree P a a' \<Longrightarrow> agree P (ignore_result (call_depth a)) (ignore_result (call_depth a'))"
  by (simp add: agree_def ignore_result_def call_depth_def)

lemma agree_map:
  "(\<And>x. agree P (f x) (g x)) \<Longrightarrow> (\<And>x. preserves P (f x)) \<Longrightarrow> agree P (block (map f xs)) (block (map g xs))"
  by (induction xs) (simp_all only: list.map agree_refl agree_Cons)

text \<open>A crossing consults the handlers only in \<open>call_interrupt_handlers\<close>.\<close>

lemma crossing_agree:
  assumes view: "\<And>s t. irq_view s = irq_view t \<Longrightarrow> P s = P t" and params: "keeps irq_view params"
    and handlers: "\<And>line. agree P (call_interrupt_handlers isr line) (call_interrupt_handlers isr' line)"
  shows "agree P (crossing_act isr params is_symbolic c) (crossing_act isr' params is_symbolic c)"
proof -
  have v: "keeps irq_view a \<Longrightarrow> preserves P a" for a by (erule keeps_preserves) (rule view)
  have both: "agree P (block [call_interrupt_handlers isr line, execute_completions line])
      (block [call_interrupt_handlers isr' line, execute_completions line])" for line
    by (rule agree_first [OF handlers])
  show ?thesis
  proof (cases c)
    case (Enter wt fn line rv r)
    show ?thesis unfolding Enter crossing_act.simps gen_enter_driver_def
      by (rule agree_call_depth, rule agree_later, (intro pres v params frame_rules)[1], rule agree_first,
        rule agree_if [OF both agree_refl])
  next
    case (Leave wt fn line rv r)
    show ?thesis unfolding Leave crossing_act.simps gen_exit_driver_def Let_def
      by (rule agree_call_depth, (rule agree_later, (intro pres v frame_rules)[1])+, rule agree_first, rule agree_onlyif, rule both)
  qed
qed

section \<open>While a handler runs\<close>

text \<open>No handler is started, so it does not matter what the handlers are.\<close>

lemma ongoing_calls_nothing: "0 < sym_irq_ongoing s \<Longrightarrow> call_interrupt_handlers isr line s = Inr s"
  by (simp add: call_interrupt_handlers_def)

lemma ongoing_agree: "agree (\<lambda>s. 0 < sym_irq_ongoing s) (call_interrupt_handlers isr line) (call_interrupt_handlers isr' line)"
  by (rule agreeI) (simp add: ongoing_calls_nothing)

text \<open>Steps keep the count, and the bounds of the counters, when the handlers do.\<close>

definition counting :: "('a irq_state_scheme) isr \<Rightarrow> bool" where
  "counting isr \<longleftrightarrow> (\<forall>h n p. (\<forall>k. preserves (\<lambda>s. sym_irq_ongoing s = k) (isr h n p)) \<and> preserves lines_bounded (isr h n p))"

lemma countingD:
  assumes "counting isr"
  shows "preserves (\<lambda>s. sym_irq_ongoing s = k) (isr h n p)" and "preserves lines_bounded (isr h n p)"
  using assms by (simp_all add: counting_def)

lemma crossing_counts:
  assumes isr: "counting isr" and params: "keeps irq_view params"
  shows "preserves (\<lambda>s. sym_irq_ongoing s = k) (crossing_act isr params is_symbolic c)"
    and "preserves lines_bounded (crossing_act isr params is_symbolic c)"
proof -
  have o: "(sym_irq_ongoing s = k) = (sym_irq_ongoing t = k)" and l: "lines_bounded s = lines_bounded t"
    if "irq_view s = irq_view t" for s t :: "'a ee_state_scheme"
    using that by (simp_all add: irq_view_def lines_bounded_def line_count_def)
  show "preserves (\<lambda>s. sym_irq_ongoing s = k) (crossing_act isr params is_symbolic c)"
    by (rule crossing_preserves [OF o handlers_keep_ongoing [OF countingD(1) [OF isr]] keeps_preserves [OF params o]])
  show "preserves lines_bounded (crossing_act isr params is_symbolic c)"
    by (rule crossing_preserves [OF l preserves_call_interrupt_handlers [OF countingD(2) [OF isr]] keeps_preserves [OF params l]])
qed

lemma step_counts:
  assumes isr: "counting isr" and params: "keeps irq_view params" and step: "fw_step isr params is_symbolic s l t"
  shows "sym_irq_ongoing t = sym_irq_ongoing s" and "lines_bounded s \<Longrightarrow> lines_bounded t"
proof -
  have "sym_irq_ongoing t = sym_irq_ongoing s \<and> (lines_bounded s \<longrightarrow> lines_bounded t)"
  proof (cases l)
    case Checking
    with fw_step_view [of isr params is_symbolic s t] step have "irq_view t = irq_view s" by simp
    then show ?thesis by (simp add: irq_view_def lines_bounded_def line_count_def)
  next
    case (Irq_Call p)
    with step have "irq_act p s = Inr t" by (auto elim: fw_step.cases)
    from keepsD [OF irq_act_beyond this] show ?thesis by (simp add: beyond_table_def lines_bounded_def line_count_def)
  next
    case (Crossing c)
    with step have c: "crossing_act isr params is_symbolic c s = Inr t" by (auto elim: fw_step.cases)
    show ?thesis using preservesD [OF crossing_counts(1) [OF isr params] refl c] preservesD [OF crossing_counts(2) [OF isr params] _ c]
      by blast
  qed
  then show "sym_irq_ongoing t = sym_irq_ongoing s" "lines_bounded s \<Longrightarrow> lines_bounded t" by simp_all
qed

lemma run_counts:
  assumes isr: "counting isr" and params: "keeps irq_view params"
  shows "fw_run isr params is_symbolic s ls t \<Longrightarrow> sym_irq_ongoing t = sym_irq_ongoing s \<and> (lines_bounded s \<longrightarrow> lines_bounded t)"
  by (induction rule: fw_run.induct) (use step_counts [OF isr params] in \<open>auto\<close>)

text \<open>A run is a run with other handlers, if those agree where the run goes.\<close>

lemma step_agrees:
  assumes view: "\<And>s t. irq_view s = irq_view t \<Longrightarrow> P s = P t" and params: "keeps irq_view params"
    and handlers: "\<And>line. agree P (call_interrupt_handlers isr line) (call_interrupt_handlers isr' line)"
    and s: "P s" and step: "fw_step isr params is_symbolic s l t"
  shows "fw_step isr' params is_symbolic s l t"
  using step
proof cases
  case (fw_cross c)
  with agreeD [OF crossing_agree [OF view params handlers] s] show ?thesis by (auto intro: fw_step.fw_cross)
qed (auto intro: fw_step.intros)

lemma run_agrees:
  assumes view: "\<And>s t. irq_view s = irq_view t \<Longrightarrow> P s = P t" and params: "keeps irq_view params"
    and handlers: "\<And>line. agree P (call_interrupt_handlers isr line) (call_interrupt_handlers isr' line)"
    and count: "counting isr \<or> counting isr'" and P: "\<And>s t. sym_irq_ongoing s = sym_irq_ongoing t \<Longrightarrow> P s = P t"
  shows "fw_run isr params is_symbolic s ls t \<Longrightarrow> P s \<Longrightarrow> fw_run isr' params is_symbolic s ls t"
proof (induction rule: fw_run.induct)
  case (run_Cons s l u ls t)
  have step: "fw_step isr' params is_symbolic s l u" by (rule step_agrees [OF view params handlers run_Cons(4,1)])
  have "sym_irq_ongoing u = sym_irq_ongoing s"
    using count step_counts(1) [OF _ params step] step_counts(1) [OF _ params run_Cons(1)] by blast
  with P [of u s] step run_Cons show ?case by (auto intro: fw_run.run_Cons)
qed (rule fw_run.run_Nil)

definition path_ending :: "'s isr" where
  "path_ending h n p = fail Stack_Overflow"

lemma path_ending_count: "counting path_ending"
  by (auto simp: counting_def path_ending_def preserves_fail)

lemma ongoing_view: "irq_view s = irq_view t \<Longrightarrow> P (sym_irq_ongoing s) = P (sym_irq_ongoing t)"
  by (simp add: irq_view_def)

lemma ongoing_run:
  assumes params: "keeps irq_view params" and run: "fw_run isr params is_symbolic s ls t" and k: "0 < sym_irq_ongoing s"
  shows "fw_run path_ending params is_symbolic s ls t" and "sym_irq_ongoing t = sym_irq_ongoing s"
    and "lines_bounded s \<Longrightarrow> lines_bounded t"
proof -
  show r: "fw_run path_ending params is_symbolic s ls t"
    by (rule run_agrees [where P = "\<lambda>s. 0 < sym_irq_ongoing s", OF ongoing_view params ongoing_agree disjI2 [OF path_ending_count] _ run k]) simp_all
  show "sym_irq_ongoing t = sym_irq_ongoing s" "lines_bounded s \<Longrightarrow> lines_bounded t"
    using run_counts [OF path_ending_count params r] by simp_all
qed

section \<open>The outermost round\<close>

text \<open>The handlers, guarded: started with another count than one they end the path.\<close>

definition only_outermost :: "('a irq_state_scheme) isr \<Rightarrow> ('a irq_state_scheme) isr" where
  "only_outermost isr h n p = cond (\<lambda>s. sym_irq_ongoing s = 1) (isr h n p) (fail Stack_Overflow)"

lemma outermost_counts:
  assumes isr: "\<And>h n p u v. isr h n p u = Inr v \<Longrightarrow> \<exists>ls. fw_run isr params is_symbolic u ls v" and params: "keeps irq_view params"
  shows "counting (only_outermost isr)"
  unfolding counting_def
proof (intro allI conjI)
  have eff: "sym_irq_ongoing v = sym_irq_ongoing u \<and> (lines_bounded u \<longrightarrow> lines_bounded v)"
    if run: "only_outermost isr h n p u = Inr v" for h n p u v
  proof -
    from run have k: "sym_irq_ongoing u = 1" and "isr h n p u = Inr v" by (auto simp: only_outermost_def split: if_splits)
    from isr [OF this(2)] obtain ls where "fw_run isr params is_symbolic u ls v" ..
    from ongoing_run(2,3) [OF params this] k show ?thesis by simp
  qed
  show "preserves (\<lambda>s. sym_irq_ongoing s = k) (only_outermost isr h n p)" for h n p k
    by (rule preservesI) (use eff in blast)
  show "preserves lines_bounded (only_outermost isr h n p)" for h n p
    by (rule preservesI) (use eff in blast)
qed

lemma outermost_agree:
  assumes "counting (only_outermost isr)"
  shows "agree (\<lambda>s. 0 \<le> sym_irq_ongoing s) (call_interrupt_handlers (only_outermost isr) line) (call_interrupt_handlers isr line)"
proof (rule agreeI)
  fix s :: "'a irq_state_scheme" assume s: "0 \<le> sym_irq_ongoing s"
  let ?P = "\<lambda>s :: 'a irq_state_scheme. sym_irq_ongoing s = 1"
  have c: "preserves ?P (set_line_count line c)" for c
    by (rule preservesI) (auto dest: line_count_set)
  have "agree ?P (only_outermost isr h n p) (isr h n p)" for h n p
    by (rule agreeI) (simp add: only_outermost_def)
  then have "agree ?P (call_handler (only_outermost isr) line i) (call_handler isr line i)" for i
    unfolding call_handler_def
    by (intro agree_cond agree_refl agree_onlyif agree_later agree_first agree_with_state pres c)
  then have l: "agree ?P (block (map (call_handler (only_outermost isr) line) is)) (block (map (call_handler isr line) is))" for "is"
    by (rule agree_map) (rule call_handler_ongoing [OF countingD(1) [OF assms]])
  show "call_interrupt_handlers (only_outermost isr) line s = call_interrupt_handlers isr line s"
  proof (cases "0 < sym_irq_ongoing s")
    case False
    with s have "sym_irq_ongoing s = 0" by simp
    then show ?thesis using agreeD [OF l, of "s\<lparr>sym_irq_ongoing := 1\<rparr>" "[0..<MAX_IRQS]"] by (simp add: call_interrupt_handlers_def)
  qed (simp add: ongoing_calls_nothing)
qed

text \<open>C26. Interrupt handlers never nest. Let each handler, where it returns, have done nothing to the framework but
  some run of checks, calls on the table of interrupts and crossings of the border, at which the framework may
  call the same handlers again, and let the registration of the module's parameters touch no variable of the
  interrupts. Then for every run: the number of rounds in progress is the same before and after, and no counter of a
  source line is left above 100. While a round is in progress, or where blocking is forbidden, calling the
  handlers does nothing. A round that is called otherwise starts each handler with exactly one round in
  progress, its own: with handlers that end the path at any other count the result is the same. And what a
  handler does while it is in progress would be the same with any other handlers: it starts none.\<close>

theorem interrupts_do_not_nest:
  assumes isr: "\<And>h n p u v. isr h n p u = Inr v \<Longrightarrow> \<exists>ls. fw_run isr params is_symbolic u ls v"
    and params: "keeps irq_view params" and k: "0 \<le> sym_irq_ongoing s" and b: "lines_bounded s"
  shows "(\<forall>ls t. fw_run isr params is_symbolic s ls t \<longrightarrow> sym_irq_ongoing t = sym_irq_ongoing s \<and> lines_bounded t) \<and>
    (0 < sym_irq_ongoing s \<or> can_call_interrupt_handlers s = 0 \<longrightarrow> call_interrupt_handlers isr line s = Inr s) \<and>
    call_interrupt_handlers (\<lambda>h n p u. if sym_irq_ongoing u = 1 then isr h n p u else Inl Stack_Overflow) line s =
      call_interrupt_handlers isr line s \<and>
    (\<forall>t. call_interrupt_handlers isr line s = Inr t \<longrightarrow> sym_irq_ongoing t = sym_irq_ongoing s \<and> lines_bounded t) \<and>
    (0 < sym_irq_ongoing s \<longrightarrow> (\<forall>other ls t. fw_run isr params is_symbolic s ls t \<longrightarrow> fw_run other params is_symbolic s ls t))"
proof (intro conjI allI impI)
  note count = outermost_counts [OF isr params]
  have outer: "agree (\<lambda>s. 0 \<le> sym_irq_ongoing s) (call_interrupt_handlers isr line) (call_interrupt_handlers (only_outermost isr) line)" for line
    using outermost_agree [OF count] by (simp add: agree_def)
  have guarded: "only_outermost isr = (\<lambda>h n p u. if sym_irq_ongoing u = 1 then isr h n p u else Inl Stack_Overflow)"
    by (intro ext) (simp add: only_outermost_def)
  show "sym_irq_ongoing t = sym_irq_ongoing s" "lines_bounded t" if run: "fw_run isr params is_symbolic s ls t" for ls t
  proof -
    have "fw_run (only_outermost isr) params is_symbolic s ls t"
      by (rule run_agrees [where P = "\<lambda>s. 0 \<le> sym_irq_ongoing s", OF ongoing_view params outer disjI2 [OF count] _ run k]) simp_all
    from run_counts [OF count params this] b show "sym_irq_ongoing t = sym_irq_ongoing s" "lines_bounded t" by simp_all
  qed
  show "call_interrupt_handlers isr line s = Inr s" if "0 < sym_irq_ongoing s \<or> can_call_interrupt_handlers s = 0"
    using that by (auto simp: call_interrupt_handlers_def)
  show "call_interrupt_handlers (\<lambda>h n p u. if sym_irq_ongoing u = 1 then isr h n p u else Inl Stack_Overflow) line s =
      call_interrupt_handlers isr line s"
    using agreeD [OF outer k] by (simp add: guarded)
  show "sym_irq_ongoing t = sym_irq_ongoing s" "lines_bounded t" if "call_interrupt_handlers isr line s = Inr t" for t
  proof -
    have run: "call_interrupt_handlers (only_outermost isr) line s = Inr t" using that agreeD [OF outer k] by simp
    show "sym_irq_ongoing t = sym_irq_ongoing s" by (rule preservesD [OF handlers_keep_ongoing [OF countingD(1) [OF count]] refl run])
    show "lines_bounded t" by (rule preservesD [OF preserves_call_interrupt_handlers [OF countingD(2) [OF count]] b run])
  qed
  show "fw_run other params is_symbolic s ls t" if "0 < sym_irq_ongoing s" and run: "fw_run isr params is_symbolic s ls t" for other ls t
    by (rule run_agrees [where P = "\<lambda>s. 0 < sym_irq_ongoing s", OF ongoing_view params ongoing_agree disjI1 [OF path_ending_count] _
          ongoing_run(1) [OF params run that(1)] that(1)]) simp_all
qed

lemma one_round:
  assumes i: "i < MAX_IRQS" and only: "\<And>j. j < MAX_IRQS \<Longrightarrow> j \<noteq> i \<Longrightarrow> allocated (sym_irq s ! j) = 0"
    and at: "allocated (sym_irq s ! i) = 1" "irq_enabled (sym_irq s ! i) = 1"
    and may: "can_call_interrupt_handlers s \<noteq> 0" "sym_irq_ongoing s = 0" and lines: "sym_irq_lines s = Some (\<lambda>_. 0)"
    and line: "line < MAX_IRQ_LINES"
  shows "\<exists>t. call_interrupt_handlers (\<lambda>_ _ _. symdrive_annotation flgs) line s = Inr t \<and> g_symdrive_annotations t = flgs"
proof -
  let ?isr = "\<lambda>_ _ _. symdrive_annotation flgs"
  let ?s = "s\<lparr>sym_irq_ongoing := 1\<rparr>"
  let ?t = "?s\<lparr>sym_irq_lines := Some ((\<lambda>_. 0)(line := 1)), g_symdrive_annotations := flgs\<rparr>"
  have none: "block (map (call_handler ?isr line) js) u = Inr u"
    if "\<forall>j \<in> set js. j < MAX_IRQS \<and> j \<noteq> i" "sym_irq u = sym_irq s" for js and u :: "'a ee_state_scheme"
    using that only by (induction js) (simp_all add: call_handler_def)
  have "1 \<le> MAX_INTERRUPTS_PER_LINE ?s" using MAX_INTERRUPTS_cases [of ?s] by auto
  then have one: "call_handler ?isr line i ?s = Inr ?t"
    using at lines by (simp add: call_handler_def line_count_def set_line_count_def symdrive_annotation_def
        MAX_INTERRUPTS_PER_LINE_def DISABLED_def)
  have "[0..<MAX_IRQS] = [0..<i] @ i # [Suc i..<MAX_IRQS]"
    using i upt_add_eq_append [of 0 i "MAX_IRQS - i"] by (simp add: upt_conv_Cons)
  then have "block (map (call_handler ?isr line) [0..<MAX_IRQS]) ?s = Inr ?t"
    using none [of "[0..<i]" ?s] none [of "[Suc i..<MAX_IRQS]" ?t] one i by (simp add: block_append)
  then show ?thesis using may line by (simp add: call_interrupt_handlers_def tfassert_def)
qed

definition call_view :: "'a test_state_scheme \<Rightarrow> int \<times> blocking list \<times> int" where
  "call_view s = (device_irq_disabled s, blocking_context s, blocking_context_current s)"

lemma request_keeps_context: "keeps call_view (irq_act (Request n hdl flgs name dev))"
proof -
  have "keeps call_view acquire_global_lock" "keeps call_view release_global_lock"
    by (auto simp: keeps_def acquire_Inr release_Inr call_view_def)
  then show ?thesis
    unfolding irq_act.simps request_threaded_irq_MJRcheck_def check_routine_def Let_def
    by (intro frame_rules keeps_update) (simp_all add: call_view_def)
qed

text \<open>A line is requested after loading, and its handler, which annotates its return value, runs once. While
  it runs, another crossing calls no handler.\<close>

theorem interrupts_do_not_nest_witness:
  "\<exists>(s :: mod_state) u t. init_common loading = Inr s \<and> irq_act (Request 9 0xC1000000 0 ''eth0'' 0x5000) s = Inr u \<and>
     requested_lines u = {#9#} \<and> g_symdrive_annotations u \<noteq> g_symdrive_annotations t \<and>
     call_interrupt_handlers (\<lambda>_ _ _. symdrive_annotation (g_symdrive_annotations u + 1)) 7 u = Inr t \<and> sym_irq_ongoing t = 0 \<and> lines_bounded t \<and>
     call_interrupt_handlers (\<lambda>h n p v. if sym_irq_ongoing v = 1 then symdrive_annotation (g_symdrive_annotations u + 1) v
       else Inl Stack_Overflow) 7 u = Inr t"
proof -
  obtain s :: mod_state where s: "init_common loading = Inr s" "loaded s" "tf_inv s" and l: "sym_irq_lines s = Some (\<lambda>_. 0)" by (rule started)
  have ok: "irq_ok s" "sym_irq_lines s \<noteq> None" using loadedD(6,14) [OF s(2)] by simp_all
  have e: "requested_lines s = {#}" using size_requested [OF ok(1)] loadedD(16) [OF s(2)] by simp
  then have "irq_table {#} s" by (simp add: irq_table_def ok(1))
  then have none: "allocated (sym_irq s ! j) = 0" if "j < MAX_IRQS" for j using no_lines that by blast
  from request_irq_ok [OF s(3) ok(1) _ ok(2), of "''eth0''" 9 "0xC1000000" 0 "0x5000"] obtain u
    where r: "request_threaded_irq_MJRcheck 1 0 (Some 9) 0xC1000000 0 (Some ''eth0'') 0x5000 s = Inr (0, u)"
    by (auto simp: e MAX_IRQS_def)
  then have u: "irq_act (Request 9 0xC1000000 0 ''eth0'' 0x5000) s = Inr u" by (simp add: ignore_result_def)
  have lines: "requested_lines u = {#9#}" using irq_act_step [OF ok(1) u] by (auto simp: e MAX_IRQS_def)
  have v: "sym_irq_ongoing u = 0" "sym_irq_lines u = Some (\<lambda>_. 0)"
    using keepsD [OF irq_act_beyond u] loadedD(7) [OF s(2)] l by (simp_all add: beyond_table_def)
  then have b: "lines_bounded u" by (simp add: lines_bounded_def line_count_def)
  have "blocking_ok s" "device_irq_disabled s = 0" using s(2,3) by (simp_all add: loaded_def tf_inv_def core_inv_def)
  then have "can_call_interrupt_handlers s \<noteq> 0"
    using hd_live [of "blocking_context_current s" "blocking_context s"] loadedD(4) [OF s(2)]
    by (simp add: can_call_interrupt_handlers_def blocking_ok_def blocking_stack_def)
  then have may: "can_call_interrupt_handlers u \<noteq> 0"
    using keepsD [OF request_keeps_context u] by (auto simp: can_call_interrupt_handlers_def call_view_def split: if_splits)
  from request_irq_Inr(3) [OF ok(1) r] obtain i where i: "i < MAX_IRQS"
    "sym_irq u = (sym_irq s)[i := \<lparr>allocated = 1, number = 9, handler = 0xC1000000, parameter = 0x5000, flags = 0,
       irq_name = ''eth0'', irq_enabled = 1\<rparr>]" by auto
  have len: "length (sym_irq s) = MAX_IRQS" using ok(1) by (simp add: irq_ok_def)
  let ?isr = "\<lambda>_ _ _. symdrive_annotation (g_symdrive_annotations u + 1) :: mod_state act"
  have "\<exists>t. call_interrupt_handlers ?isr 7 u = Inr t \<and> g_symdrive_annotations t = g_symdrive_annotations u + 1"
    by (rule one_round [OF i(1) _ _ _ may v]) (simp_all add: i none len MAX_IRQ_LINES_def)
  then obtain t where t: "call_interrupt_handlers ?isr 7 u = Inr t" "g_symdrive_annotations t = g_symdrive_annotations u + 1" by blast
  have run: "\<exists>ls. fw_run ?isr skip (\<lambda>_. False) x ls y" if "?isr h n p x = Inr y" for h n p x y
    using that by (blast intro: run_Cons [OF fw_stub run_Nil] stub_call.intros)
  have "0 \<le> sym_irq_ongoing u" by (simp add: v)
  from interrupts_do_not_nest [OF run keeps_skip this b, of 7] t v(1)
  show ?thesis using s(1) u lines by (intro exI [of _ s] exI [of _ u] exI [of _ t]) auto
qed

end
