(* ===== verification/Spec2Isabelle.thy ===== *)
theory Spec2Isabelle
  imports Core_Properties Tracker_Properties Driver_Properties Module_Properties Iterator_Properties
    Hypervisor_Properties Checks_Spin Linux_Properties Freebsd_Safety Freebsd_Trace Symbol_Lookup Test_Program
    Border_Progress Interrupt_Nesting
begin

text \<open>
  SymDrive runs a device driver under symbolic execution, without its device, inside a kernel whose
  calls into the driver and from it are rewritten to go through wrappers. The test framework under
  \<open>src/gtf\<close> is a kernel module that the wrappers call: it watches the driver and ends every path on which
  the driver breaks a rule of the kernel. This development models the framework, in the Linux build and in
  the parts only the FreeBSD build has, and shows what it accepts, what it reports, and what it keeps.

  \<^bold>\<open>How the parts interact.\<close> A wrapper calls \<open>gen_enter_driver\<close>, then the check routine of the function
  with \<open>prepost\<close> 0, the function itself, the routine with \<open>prepost\<close> 1, and \<open>gen_exit_driver\<close>. Each check
  routine takes the global lock, asserts, moves the state of \<open>test_state.c\<close>, and releases the lock. The
  state knows the driver's bus and class, the call states of its entry points, the context the kernel is
  in, and every object and lock the driver was given. At the borders the framework calls the driver's
  interrupt handlers. The function tracker finds the check routine of a driver function. The module creates
  a device on one of four busses for the driver to find, answers its transfers with symbolic data, and runs
  test cases a user program asks for. All parts reach the hypervisor through the instructions of \<open>s2e.h\<close>.

  \<^bold>\<open>Reading the definitions.\<close> An action (\<open>Prelude\<close>) maps a state to a new state, or to an error: \<open>Killed\<close>
  with the arguments of \<open>s2e_kill_state\<close>, \<open>Panic\<close>, a null dereference or an access out of bounds, a
  \<open>Deadlock\<close> on the global lock, or \<open>Stack_Overflow\<close>, the end of a recursion that has none. \<open>block\<close> runs
  actions in order. The state is one record, extended from file to file (\<open>tf_globals\<close>, \<open>test_state\<close>,
  \<open>ep_state\<close>, \<open>irq_state\<close>, \<open>ee_state\<close>, \<open>ft_state\<close>, \<open>mod_state\<close>, and from there \<open>dev_state\<close> in Linux and
  \<open>fb_state\<close> in FreeBSD), with a field for each variable of the
  source. Machine integers that can wrap are words; an \<open>unsigned long\<close> has 32 bits, as in the i386 builds
  SymDrive runs. Definitions have the names of the source; a leading underscore becomes \<open>u1_\<close>, two \<open>u2_\<close>.

  \<^bold>\<open>Parameters.\<close> Not under \<open>src/\<close>, so left open: which calls of \<open>kmalloc\<close> succeed (\<open>kmalloc_ok\<close>), the
  kernel's constants and \<open>IS_ERR_VALUE\<close>, the effect of the driver's own functions and of interrupt handlers,
  the kernel's symbol tables, the bus functions of FreeBSD that are traced, the driver core of Linux that registers devices (\<open>linux_core\<close>), the tunables and
  the MII constants of FreeBSD, and the values the hypervisor chooses for symbolic variables. The field
  \<open>driver_name\<close> stands for the macro \<open>DISABLE_..._MJRCHECKS\<close> the build defines. In the framework an instruction to the
  hypervisor is an event in \<open>s2e_log\<close>; \<open>Hypervisor\<close> models the instructions themselves, on the registers and the
  memory of the guest, with their effect (\<open>hypervisor\<close>) as a parameter, and relates the two.

  \<^bold>\<open>Theories.\<close>
  \<^item> \<open>Prelude\<close>: actions and their rules, arrays with bounds, finite maps.
  \<^item> \<open>Hashtable\<close>: \<open>hashtable/\<close>; the table as a finite map, with growth, and the interface \<open>dictionary\<close>
    through which its users reason.
  \<^item> \<open>Framework_State\<close>, \<open>Kernel_Context\<close>, \<open>Driver_Bus\<close>, \<open>Object_Tracker\<close>, \<open>Lock_Protocol\<close>, \<open>Capability\<close>:
    \<open>test_state.c\<close> and \<open>global_lock.c\<close>, with the interfaces of a context stack, of an object tracker and of
    a pair of lock and unlock calls.
  \<^item> \<open>Invariant\<close>: the invariant \<open>tf_inv\<close> and the judgement \<open>safe\<close>, that an action keeps it and ends well.
  \<^item> \<open>Testing_Ep\<close>: \<open>testing_ep.c\<close>, \<open>testing_ep_control.c\<close>. \<open>Irq\<close>, \<open>Irq_Runs\<close>: \<open>misc_checks/irq.c\<close> and its
    multiset of requested lines. \<open>Entry_Exit\<close>: \<open>enter_exit.c\<close>. \<open>Function_Tracker\<close>: \<open>function_tracker.c\<close>.
    \<open>Module_Init\<close>: \<open>init_module.c\<close>.
  \<^item> \<open>Check_Routines\<close>, \<open>Checks_Memory\<close>, \<open>Checks_Locks\<close>, \<open>Checks_Main\<close>, \<open>Checks_Bus\<close>, \<open>Checks_Structs\<close>: the
    check routines of \<open>misc_checks/\<close> and \<open>structs/\<close>. \<open>Check_Safety\<close>: each of them is safe. \<open>Check_Frames\<close>: and
    changes nothing \<open>irq.c\<close> or \<open>enter_exit.c\<close> keeps for itself. \<open>Framework_Runs\<close>: runs of all parts together, as
    labelled steps; each part follows the labels that concern it. \<open>Border_Progress\<close>: which crossings pass.
    \<open>Interrupt_Nesting\<close>: handlers, whose behaviour is a run of the framework, start no handler.
    \<open>Lock_Progress\<close>, \<open>Routine_Calls\<close>: what a routine does when it is called between two others.
  \<^item> \<open>Hash_Iterator\<close>: \<open>hashtable/hashtable_itr.c\<close>. \<open>Hypervisor\<close>: \<open>s2e.h\<close>, \<open>s2e_wrappers.c\<close>. \<open>Checks_Spin\<close>: the older spin
    lock routines of \<open>misc_checks/main.c\<close>. \<open>Symbol_Lookup\<close>: \<open>symbol_lookup.c\<close>, \<open>portable.h\<close>. \<open>Test_Program\<close>:
    \<open>app_ep_control.c\<close>, and its way to the dispatcher of test cases. \<open>Freebsd_Trace\<close>: \<open>freebsd_trace.c\<close>; tracing
    changes neither the machine nor a result, and prints the accesses made.
  \<^item> \<open>Symbolic_Devices\<close>, \<open>Symbolic_Transfers\<close>: \<open>bus_generic_pci.c\<close>, \<open>bus_platform.c\<close>, \<open>bus_i2c.c\<close>, \<open>bus_spi.c\<close>, the devices
    and what their adapters answer. \<open>Linux_Module\<close>: the Linux part of \<open>init_module.c\<close>. \<open>Freebsd_Checks\<close>:
    \<open>misc_checks/freebsd.c\<close> and the FreeBSD parts of \<open>irq.c\<close> and \<open>init_module.c\<close>.
  \<^item> \<open>Iterator_Properties\<close>, \<open>Hypervisor_Properties\<close>, \<open>Linux_Properties\<close>, \<open>Freebsd_Properties\<close>, \<open>Freebsd_Safety\<close>,
    \<open>Core_Properties\<close>, \<open>Tracker_Properties\<close>, \<open>Driver_Properties\<close>, \<open>Module_Properties\<close> and this theory: the
    properties.

  \<^bold>\<open>What the lemmas show.\<close> The hash table is a finite map under any sequence of operations and any failure
  of \<open>kmalloc\<close>; the tracker, the context stacks, the bus flags, the requested interrupts and the call stack
  each refine an abstract map, stack, set, multiset or list; and they do so together, in any interleaving of
  routines, interrupts and crossings from the load of the module on. A handler is only ever started while no other
  is in progress, whatever run of the framework the handlers make. Every check routine keeps \<open>tf_inv\<close> and never
  hangs, with the one exception the lock protocol has; those of FreeBSD keep the DMA table well formed besides. Round trips (allocation, registration, context,
  function tracker, devices and module, DMA maps) lead back, or do so exactly when the theorem says. An
  iterator visits every entry once and stays in the table under removals; each event of the log is one
  instruction the hypervisor decodes back to it; the made up devices put symbolic data exactly where the
  driver reads. The remaining properties fix what is reported, and the places where the
  framework does not do what it means to: recursions that never end, states no routine leaves again,
  counters that restart, checks that end every path, and a check of held locks that nothing calls.

  \<^bold>\<open>Bounds and fuel.\<close> The array bounds are those of the source: 16 contexts, 16 interrupts, 200000 lines, 32
  frames, 32768 characters of a dump and of each of its entries, 10 functions to measure, 8 chips, 6 resources, 4096 DMA maps of 128 segments. Two loops
  are partial functions, since they may not end: the search for the end of a string in
  memory (\<open>scan\<close>) and for a free DMA map (\<open>get_loop\<close>), which is shown to end. Two recursions need fuel,
  \<open>generic_lock_state_fuel\<close> and \<open>dump_stack_fuel\<close>; each has a theorem that says with which arguments some
  amount is enough (two calls, and one) and that with the others none is.

  \<^bold>\<open>Texts.\<close> Names of functions are unbounded in the source, and where the framework prints them into a buffer and
  the path may go on, the length is part of the model: the dump of the call stack, which every crossing makes, the
  texts of the thorough coverage mode, the names a check routine is looked up by, the parameters. So a crossing
  passes only if the names in progress fit the buffer of the dump; the stack of frames is stated with that bound.
  The text of a failing assertion (\<open>temp1[128]\<close>, \<open>temp2[256]\<close>) and the dump printed with it are taken to fit, since
  the path ends there. Under FreeBSD a failing assertion prints no dump; inside a check routine, where all modelled
  assertions of that build are made, the outcome is the same.

  \<^bold>\<open>Not modelled.\<close> Messages printed by \<open>uprintk\<close>, except where printing dereferences a pointer or formats into
  a buffer of its own (a conversion without its argument is taken to print what it finds); code the preprocessor leaves out in every build (\<open>#if 0\<close>: the file operation tests
  of \<open>testing_ep.c\<close>, four functions of \<open>s2e.h\<close>, \<open>handle_interesting_function\<close>); \<open>freebsd_omghax.c\<close>, two printed
  lines; \<open>linux_mega_header.h\<close> and \<open>freebsd_mega_header.h\<close>, which only declare; the tables of \<open>EXPORT_SYMBOL\<close> and of
  module parameters; the vendored CIL under \<open>src/cil\<close>, in OCaml. Interleavings of processors inside one check routine do not
  arise, since the global lock is held throughout.
\<close>

section \<open>The hash table\<close>

text \<open>C1. Whatever sequence of operations runs on a table fresh from \<open>create_hashtable\<close>, each result
  and the final content are those of a finite map, as long as no key is inserted twice: growth and
  the failure of either \<open>kmalloc\<close> never lose, duplicate or misplace an entry.\<close>

theorem hashtable_refines_map:
  assumes "create_hashtable ok_h ok_table minsize hashf (=) = Some h"
    and "fresh_keys Map.empty ps" and "length ps < 2 ^ 32"
  shows "fst (run_ops hashtable_step h ps) = fst (run_ops map_step Map.empty ps) \<and>
    ht_map (snd (run_ops hashtable_step h ps)) = snd (run_ops map_step Map.empty ps) \<and>
    ht_inv (snd (run_ops hashtable_step h ps))"
proof -
  note h = create_hashtable_spec [OF assms(1)]
  have c: "unat (hashtable_count h) + length ps < 2 ^ 32"
    using h(3) assms(3) by (simp add: hashtable_count_def)
  from ht.run_refines [OF h(1) _ c] assms(2) show ?thesis
    by (simp add: h(2) hashtable_step_def)
qed

theorem hashtable_refines_map_witness:
  "\<exists>h. create_hashtable True True 16 id (=) = Some h \<and>
     fst (run_ops hashtable_step h
       [Op_Insert True True (1 :: u32) ''a'', Op_Insert True False 2 ''b'', Op_Insert False True 2 ''c'',
        Op_Remove 1, Op_Search 1, Op_Search 2, Op_Count]) =
       [Status (-1), Status 0, Status (-1), Value (Some ''a''), Value None, Value (Some ''c''), Number 1]"
proof -
  have "create_hashtable True True 16 (id :: u32 \<Rightarrow> u32) (=) \<noteq> (None :: (u32, string) hashtable option)"
    by (simp add: create_hashtable_def primes_def prime_table_length_def)
  then obtain h :: "(u32, string) hashtable" where h: "create_hashtable True True 16 id (=) = Some h" by blast
  show ?thesis
    by (rule exI [of _ h], rule conjI [OF h], subst hashtable_refines_map [OF h, THEN conjunct1])
      simp_all
qed

section \<open>The components together\<close>

text \<open>C3. From the load of the module on, however check routines, lock routines, calls on interrupts, calls of
  stubs and crossings of the border interleave, and whatever handlers run at the crossings, each part sees only
  what concerns it: the names on the driver call stack are those the crossings alone give, the requested lines
  those the calls on interrupts alone give. After every step the framework's invariant holds, its lock is free,
  no interrupt is in progress and no counter of a line has passed its bound. A handler may be any action that
  is itself a run of the framework whose crossings and requests come in pairs (\<open>handlers_of_runs\<close>).\<close>

theorem framework_runs_refine:
  assumes un: "unloaded s0" and mem: "\<forall>n. kmalloc_ok s0 n" and tp: "trackperf_ok s0"
    and load: "init_common s0 = Inr s" and isr: "handlers_ok isr" and params: "settled_act params"
    and run: "fw_run isr params is_symbolic s ls t"
  shows "frames_run (crossings ls) [] = Some (frames t) \<and> irq_run {#} (irq_calls ls) = Some (requested_lines t) \<and>
    driver_call_stack t = int (length (frames t)) \<and> sym_num_requests t = int (size (requested_lines t)) \<and>
    tf_inv t \<and> unlocked t \<and> sym_irq_ongoing t = 0 \<and> (\<forall>l. line_count l t \<le> 100)"
proof -
  have l: "loaded s" using init_common_run [OF un mem tp] load by auto
  have e: "requested_lines s = {#}" using size_requested [OF loadedD(6) [OF l]] loadedD(16) [OF l] by simp
  obtain fs where fs: "frames_run (crossings ls) [] = Some fs" "ee_free fs t"
    using fw_run_frames [OF handlers_isr_ok [OF isr] settled_actD(1) [OF params] run loadedD(1) [OF l]] by blast
  have "irq_table {#} s" by (simp add: irq_table_def e loadedD(6) [OF l])
  from fw_run_table [OF isr params run this] obtain M
    where M: "irq_run {#} (irq_calls ls) = Some M" "irq_table M t" by blast
  have c: "sym_irq_ongoing t = 0" "lines_bounded t"
    using fw_run_counters [OF isr params run] loadedD(7,17) [OF l] by simp_all
  have t: "frames_ok t" "frames t = fs" "tf_inv t" using fs(2) by (simp_all add: ee_free_def ee_at_def)
  have "irq_ok t" "requested_lines t = M" using M(2) by (simp_all add: irq_table_def)
  with fs(1) M(1) c t frames_okD(1) [OF t(1)] size_requested [of t] show ?thesis
    by (simp add: lines_bounded_def tf_inv_def)
qed

lemma gen_enter_first:
  "first_time_in_driver s = 1 \<Longrightarrow>
   gen_enter_driver isr skip fn line wt rv r s = gen_enter_driver isr skip fn line wt rv r (s\<lparr>first_time_in_driver := 0\<rparr>)"
  by (simp add: gen_enter_driver_def call_depth_def)

theorem framework_runs_refine_witness:
  "\<exists>(s :: mod_state) t fn. init_common loading = Inr s \<and>
     fw_run (\<lambda>_ _ _. skip) skip (\<lambda>_. False) s
       [Irq_Call (Request 9 0xC1000000 0 ''eth0'' 0x5000), Crossing (Enter PREPOSTFN fn 10 0 0)] t \<and>
     frames t = [fn] \<and> requested_lines t = {#9#}"
proof -
  obtain s :: mod_state where s: "init_common loading = Inr s" "loaded s" "tf_inv s" by (rule started)
  have ok: "irq_ok s" "sym_irq_lines s \<noteq> None" using loadedD(6,14) [OF s(2)] by simp_all
  have e: "requested_lines s = {#}" using size_requested [OF ok(1)] loadedD(16) [OF s(2)] by simp
  from request_irq_ok [OF s(3) ok(1) _ ok(2), of "''eth0''" 9 "0xC1000000" 0 "0x5000"] obtain u
    where "request_threaded_irq_MJRcheck 1 0 (Some 9) 0xC1000000 0 (Some ''eth0'') 0x5000 s = Inr (0, u)"
    by (auto simp: e MAX_IRQS_def)
  then have u: "irq_act (Request 9 0xC1000000 0 ''eth0'' 0x5000) s = Inr u" by (simp add: ignore_result_def)
  let ?isr = "\<lambda>_ _ _. skip" and ?fn = "if g_sym_starting_fn u = ''probe'' then ''open'' else ''probe''" and ?u = "u\<lparr>first_time_in_driver := 0\<rparr>"
  have isr: "handlers_ok (?isr :: mod_state isr)" by (simp add: handlers_ok_def settled_skip)
  have step: "fw_step ?isr skip (\<lambda>_. False) s (Irq_Call (Request 9 0xC1000000 0 ''eth0'' 0x5000)) u" by (rule fw_irq [OF u])
  from fw_step_frames [OF handlers_isr_ok [OF isr] preserves_skip loadedD(1) [OF s(2)] this]
  have f: "ee_free [] u" by simp
  then have f': "ee_free [] ?u" by (simp add: ee_free_def)
  have short: "length (stack_entry 0 ?fn) < call_stack_buffer_size"
    by (simp add: stack_entry_def call_stack_buffer_size_def show_nat.simps)
  have "\<exists>t. gen_enter_driver ?isr skip ?fn 10 PREPOSTFN 0 0 u = Inr (1, t)"
  proof (cases "first_time_in_driver u = 1")
    case True
    show ?thesis unfolding gen_enter_first [OF True] by (rule gen_enter_outermost [OF f' short]) simp_all
  next
    case False
    show ?thesis by (rule gen_enter_outermost [OF f short _ False]) simp
  qed
  then obtain t where "gen_enter_driver ?isr skip ?fn 10 PREPOSTFN 0 0 u = Inr (1, t)" ..
  then have "crossing_act ?isr skip (\<lambda>_. False) (Enter PREPOSTFN ?fn 10 0 0) u = Inr t" by (simp add: ignore_result_def)
  from run_Cons [OF step run_Cons [OF fw_cross [OF this] run_Nil]]
  have run: "fw_run ?isr skip (\<lambda>_. False) s
      [Irq_Call (Request 9 0xC1000000 0 ''eth0'' 0x5000), Crossing (Enter PREPOSTFN ?fn 10 0 0)] t" .
  from framework_runs_refine [OF loading_unloaded(1-3) s(1) isr settled_skip run]
  have "frames t = [?fn]" "requested_lines t = {#9#}"
    using short by (simp_all add: frame_step_def pushes_def driver_call_stack_max_def MAX_IRQS_def)
  with s(1) run show ?thesis by blast
qed

end
